(* ===== verification/Prelude.thy ===== *)
theory Prelude
  imports Main "HOL-Library.Word"
begin

text \<open>
  Shared vocabulary of the development: the machine types of the Go source, the
  collections the component proofs draw on, and the generic facts about words, sums over
  finite maps and filtered lists that several components need.
\<close>

section \<open>Types\<close>

type_synonym u8 = "8 word"
type_synonym u32 = "32 word"
type_synonym u64 = "64 word"
type_synonym bytes = "u8 list"

text \<open>A fallible Go call returns a value or an error; \<open>Inl\<close> is the error.\<close>

type_synonym ('e, 'a) result = "'e + 'a"

abbreviation MaxUint32 :: nat where
  "MaxUint32 \<equiv> 4294967295"

section \<open>Lengths of message fields\<close>

text \<open>
  A length bound on a \<open>bytes\<close> field counts bytes; one on a \<open>string\<close> field counts code points,
  which in valid UTF-8 are the bytes that do not continue a sequence.
\<close>

definition rune_count :: "string \<Rightarrow> nat" where
  "rune_count s = length (filter (\<lambda>c. \<not> (128 \<le> (of_char c :: nat) \<and> (of_char c :: nat) < 192)) s)"

definition runes_in :: "nat \<Rightarrow> nat \<Rightarrow> string \<Rightarrow> bool" where
  "runes_in lo hi s \<longleftrightarrow> lo \<le> rune_count s \<and> rune_count s \<le> hi"

definition len_in :: "nat \<Rightarrow> nat \<Rightarrow> 'a list \<Rightarrow> bool" where
  "len_in lo hi xs \<longleftrightarrow> lo \<le> length xs \<and> length xs \<le> hi"

section \<open>Collections\<close>

named_theorems word_facts \<open>reading word comparisons and arithmetic as natural numbers\<close>

section \<open>Words\<close>

lemma unat_mono_less [word_facts]: "(a < b) \<longleftrightarrow> (unat a < unat b)" for a b :: "'a::len word"
  by (rule word_less_nat_alt)

lemma unat_mono_le [word_facts]: "(a \<le> b) \<longleftrightarrow> (unat a \<le> unat b)" for a b :: "'a::len word"
  by (rule word_le_nat_alt)

lemma unat_u32_less: "unat (a :: u32) < 4294967296"
  using unsigned_less [of a] by simp

lemma unat_u64_less: "unat (a :: u64) < 18446744073709551616"
  using unsigned_less [of a] by simp

lemma unat_ucast_32_64 [simp]: "unat (ucast (a :: u32) :: u64) = unat a"
  using unat_u32_less [of a] by (simp add: unsigned_ucast_eq take_bit_nat_eq_self)

text \<open>
  The reservation idiom of the source: the free amount \<open>cap - used\<close> is computed first, on
  unsigned words, and the request is compared with it.
\<close>

lemma word_free_amount:
  fixes used cap :: "'a::len word"
  assumes "used \<le> cap"
  shows "unat (cap - used) = unat cap - unat used"
  using assms by (simp add: unat_sub word_le_nat_alt)

lemma word_reserve:
  fixes used cap n :: "'a::len word"
  assumes "used \<le> cap" and "n \<le> cap - used"
  shows "unat (used + n) = unat used + unat n" and "used + n \<le> cap"
proof -
  have le: "unat used + unat n \<le> unat cap"
    using assms by (simp add: word_le_nat_alt word_free_amount)
  also have "unat cap < 2 ^ LENGTH('a)"
    by (rule unsigned_less)
  finally show eq: "unat (used + n) = unat used + unat n"
    by (simp add: unat_word_ariths)
  with le show "used + n \<le> cap"
    by (simp add: word_le_nat_alt)
qed

text \<open>The release idiom: subtraction that stops at zero.\<close>

lemma word_release:
  fixes used n :: "'a::len word"
  shows "unat (if n > used then 0 else used - n) = unat used - unat n"
proof (cases "n > used")
  case True
  then have "unat used < unat n" by (simp add: word_less_nat_alt)
  then show ?thesis using True by simp
next
  case False
  then have "n \<le> used" by (simp add: not_less)
  then show ?thesis using False by (simp add: unat_sub word_le_nat_alt)
qed

lemma unat_add_no_wrap:
  fixes a b :: "'a::len word"
  assumes "unat a + unat b < 2 ^ LENGTH('a)"
  shows "unat (a + b) = unat a + unat b"
  using assms by (simp add: unat_word_ariths)

lemma unat_plus_one:
  fixes w :: "'a::len word"
  assumes "w \<noteq> - 1"
  shows "unat (w + 1) = Suc (unat w)"
proof -
  have "unat (- 1 :: 'a word) = 2 ^ LENGTH('a) - 1"
    by (simp add: unsigned_minus_1_eq_mask mask_eq_exp_minus_1)
  then have "unat w \<noteq> 2 ^ LENGTH('a) - 1"
    using assms by (metis word_unat_eq_iff)
  moreover have "unat w < 2 ^ LENGTH('a)"
    by (rule unsigned_less)
  ultimately have "Suc (unat w) < 2 ^ LENGTH('a)"
    by linarith
  then show ?thesis
    by (simp add: unat_word_ariths)
qed

lemma unat_sub_le:
  fixes a b :: "'a::len word"
  assumes "unat b \<le> unat a"
  shows "unat (a - b) = unat a - unat b"
  using assms by (simp add: unat_sub word_le_nat_alt)

lemma unat_of_nat_u32: "n < 4294967296 \<Longrightarrow> unat (of_nat n :: u32) = n"
  by (simp add: unat_of_nat)

lemma unat_of_nat_u64: "n < 18446744073709551616 \<Longrightarrow> unat (of_nat n :: u64) = n"
  by (simp add: unat_of_nat)

section \<open>Sums over the values of a finite map\<close>

text \<open>
  The source keeps objects behind pointers; the model keeps them in a map from addresses.
  A quantity the source accounts for across all objects is a sum over that map.
\<close>

definition map_sum :: "('v \<Rightarrow> nat) \<Rightarrow> ('k \<rightharpoonup> 'v) \<Rightarrow> nat" where
  "map_sum f m = (\<Sum>k\<in>dom m. f (the (m k)))"

lemma map_sum_empty [simp]: "map_sum f Map.empty = 0"
  by (simp add: map_sum_def)

lemma map_sum_remove:
  assumes "finite (dom m)" and "m k = Some v"
  shows "map_sum f m = f v + (\<Sum>j\<in>dom m - {k}. f (the (m j)))"
proof -
  have "k \<in> dom m" using assms(2) by blast
  with assms show ?thesis
    by (simp add: map_sum_def sum.remove [of "dom m" k])
qed

lemma map_sum_upd_other:
  "(\<Sum>j\<in>dom (m(k \<mapsto> w)) - {k}. f (the ((m(k \<mapsto> w)) j))) = (\<Sum>j\<in>dom m - {k}. f (the (m j)))"
  by (rule sum.cong) auto

text \<open>Replacing one object trades its old share for its new one.\<close>

lemma map_sum_upd:
  assumes "finite (dom m)" and "m k = Some v"
  shows "map_sum f (m(k \<mapsto> w)) + f v = map_sum f m + f w"
proof -
  have "map_sum f (m(k \<mapsto> w)) = f w + (\<Sum>j\<in>dom m - {k}. f (the (m j)))"
    using assms(1) map_sum_remove [of "m(k \<mapsto> w)" k w f] map_sum_upd_other [of f m k w]
    by simp
  moreover have "map_sum f m = f v + (\<Sum>j\<in>dom m - {k}. f (the (m j)))"
    using assms by (rule map_sum_remove)
  ultimately show ?thesis by simp
qed

lemma map_sum_new:
  assumes "finite (dom m)" and "m k = None"
  shows "map_sum f (m(k \<mapsto> w)) = map_sum f m + f w"
proof -
  have "k \<notin> dom m" using assms(2) by blast
  then have "dom m - {k} = dom m" by simp
  then show ?thesis
    using assms(1) map_sum_remove [of "m(k \<mapsto> w)" k w f] map_sum_upd_other [of f m k w]
    by (simp add: map_sum_def)
qed

lemma map_sum_member_le:
  assumes "finite (dom m)" and "m k = Some v"
  shows "f v \<le> map_sum f m"
  using map_sum_remove [OF assms, of f] by simp

section \<open>Lists\<close>

lemma length_filter_upd_distinct:
  assumes "distinct xs" and "x \<in> set xs" and "\<And>y. y \<in> set xs \<Longrightarrow> y \<noteq> x \<Longrightarrow> P y = Q y"
  shows "length (filter P xs) + (if Q x then 1 else 0) = length (filter Q xs) + (if P x then 1 else 0)"
  using assms
proof (induction xs)
  case Nil
  then show ?case by simp
next
  case (Cons a xs)
  show ?case
  proof (cases "a = x")
    case True
    with Cons.prems have "filter P xs = filter Q xs"
      by (auto intro!: filter_cong)
    with True show ?thesis by simp
  next
    case False
    with Cons.prems have "P a = Q a" and "x \<in> set xs" by auto
    with Cons show ?thesis by auto
  qed
qed

lemma length_filter_removeAll:
  assumes "distinct xs" and "x \<in> set xs"
  shows "length (filter P (removeAll x xs)) + (if P x then 1 else 0) = length (filter P xs)"
  using assms
proof (induction xs)
  case Nil
  then show ?case by simp
next
  case (Cons a xs)
  then show ?case by (cases "a = x") auto
qed

lemma length_removeAll_distinct:
  "distinct xs \<Longrightarrow> x \<in> set xs \<Longrightarrow> length (removeAll x xs) + 1 = length xs"
  using length_filter_removeAll [of xs x "\<lambda>_. True"] by simp

end
