(* ===== verification/Bincoder.thy ===== *)
theory Bincoder
  imports Prelude
begin

text \<open>
  The binary codec of \<open>lib/bincoder\<close>: the cursor-style \<open>Decoder\<close>, the buffer-backed
  \<open>Encoder\<close> and the stream helpers of \<open>rw.go\<close>.  Both the decoder and the encoder carry a
  sticky error: after the first failure every further call leaves them unchanged.  The
  lemmas show that each read operation inverts its write operation in front of any further
  input, that sequences of values round-trip, and that the write loop of \<open>writeFull\<close>
  delivers every byte or reports an error.
\<close>

unbundle bit_operations_syntax

section \<open>Byte order and UTF-8\<close>

text \<open>\<open>binary.BigEndian\<close> of the Go standard library, bound to \<open>ORDER\<close>.\<close>

definition PutUint32 :: "u32 \<Rightarrow> bytes" where
  "PutUint32 n = [ucast (drop_bit 24 n), ucast (drop_bit 16 n), ucast (drop_bit 8 n), ucast n]"

definition Uint32 :: "bytes \<Rightarrow> u32" where
  "Uint32 b = push_bit 24 (ucast (b ! 0)) OR push_bit 16 (ucast (b ! 1))
                OR push_bit 8 (ucast (b ! 2)) OR ucast (b ! 3)"

text \<open>
  \<open>utf8.Valid\<close> of the standard library: the byte ranges of well-formed sequences, which
  exclude over-long forms, surrogates and code points above 10FFFF.
\<close>

definition utf8_cont :: "u8 \<Rightarrow> bool" where
  "utf8_cont b \<longleftrightarrow> 0x80 \<le> b \<and> b \<le> 0xBF"

fun utf8_Valid :: "bytes \<Rightarrow> bool" where
  "utf8_Valid [] = True"
| "utf8_Valid (a # r) =
    (if a < 0x80 then utf8_Valid r
     else if 0xC2 \<le> a \<and> a \<le> 0xDF then
       (case r of b # r2 \<Rightarrow> utf8_cont b \<and> utf8_Valid r2 | _ \<Rightarrow> False)
     else if 0xE0 \<le> a \<and> a \<le> 0xEF then
       (case r of b # c # r3 \<Rightarrow>
          (if a = 0xE0 then 0xA0 \<le> b \<and> b \<le> 0xBF
           else if a = 0xED then 0x80 \<le> b \<and> b \<le> 0x9F
           else utf8_cont b) \<and> utf8_cont c \<and> utf8_Valid r3
        | _ \<Rightarrow> False)
     else if 0xF0 \<le> a \<and> a \<le> 0xF4 then
       (case r of b # c # d # r4 \<Rightarrow>
          (if a = 0xF0 then 0x90 \<le> b \<and> b \<le> 0xBF
           else if a = 0xF4 then 0x80 \<le> b \<and> b \<le> 0x8F
           else utf8_cont b) \<and> utf8_cont c \<and> utf8_cont d \<and> utf8_Valid r4
        | _ \<Rightarrow> False)
     else False)"

section \<open>Decoder\<close>

datatype dec_error =
    DecTruncated u32 nat nat
  | DecInvalidBool u8 nat
  | DecTooLong u32 u32
  | DecInvalidUTF8 nat
  | DecUnexpectedBytes nat
  | DecTrailing nat nat

record decoder =
  dec_buf :: bytes
  dec_off :: nat
  dec_err :: "dec_error option"
  dec_maxBytes :: u32

definition NewCursor :: "bytes \<Rightarrow> decoder" where
  "NewCursor b = \<lparr>dec_buf = b, dec_off = 0, dec_err = None, dec_maxBytes = 0xFFFFFFFF\<rparr>"

definition WithMaxBytes :: "u32 \<Rightarrow> decoder \<Rightarrow> decoder" where
  "WithMaxBytes n c = c\<lparr>dec_maxBytes := n\<rparr>"

definition Decoder_Rest :: "decoder \<Rightarrow> bytes" where
  "Decoder_Rest c = (if dec_err c \<noteq> None then [] else drop (dec_off c) (dec_buf c))"

definition Decoder_Done :: "decoder \<Rightarrow> dec_error option" where
  "Decoder_Done c =
    (if dec_err c \<noteq> None then dec_err c
     else if dec_off c \<noteq> length (dec_buf c)
          then Some (DecTrailing (length (dec_buf c) - dec_off c) (dec_off c))
     else None)"

definition Decoder_Take :: "u32 \<Rightarrow> decoder \<Rightarrow> bytes \<times> decoder" where
  "Decoder_Take n c =
    (if dec_err c \<noteq> None then ([], c)
     else if dec_off c + unat n > length (dec_buf c)
          then ([], c\<lparr>dec_err := Some (DecTruncated n (dec_off c) (length (dec_buf c) - dec_off c))\<rparr>)
     else (take (unat n) (drop (dec_off c) (dec_buf c)), c\<lparr>dec_off := dec_off c + unat n\<rparr>))"

definition Decoder_Byte :: "decoder \<Rightarrow> u8 \<times> decoder" where
  "Decoder_Byte c =
    (let (b, c1) = Decoder_Take 1 c
     in if dec_err c1 \<noteq> None then (0, c1) else (b ! 0, c1))"

definition Decoder_Bool :: "decoder \<Rightarrow> bool \<times> decoder" where
  "Decoder_Bool c =
    (let (b, c1) = Decoder_Byte c
     in if dec_err c1 \<noteq> None then (False, c1)
        else if b = 0 then (False, c1)
        else if b = 1 then (True, c1)
        else (False, c1\<lparr>dec_err := Some (DecInvalidBool b (dec_off c1 - 1))\<rparr>))"

definition Decoder_U32 :: "decoder \<Rightarrow> u32 \<times> decoder" where
  "Decoder_U32 c =
    (let (b, c1) = Decoder_Take 4 c
     in if dec_err c1 \<noteq> None then (0, c1) else (Uint32 b, c1))"

definition Decoder_Bytes :: "decoder \<Rightarrow> bytes \<times> decoder" where
  "Decoder_Bytes c =
    (let (n, c1) = Decoder_U32 c
     in if dec_err c1 \<noteq> None then ([], c1)
        else if n > dec_maxBytes c1 then ([], c1\<lparr>dec_err := Some (DecTooLong n (dec_maxBytes c1))\<rparr>)
        else Decoder_Take n c1)"

definition Decoder_UTF8String :: "decoder \<Rightarrow> bytes \<times> decoder" where
  "Decoder_UTF8String c =
    (let (b, c1) = Decoder_Bytes c
     in if dec_err c1 \<noteq> None then ([], c1)
        else if \<not> utf8_Valid b
             then ([], c1\<lparr>dec_err := Some (DecInvalidUTF8 (dec_off c1 - length b))\<rparr>)
        else (b, c1))"

definition Decoder_ExpectBytes :: "bytes \<Rightarrow> decoder \<Rightarrow> decoder" where
  "Decoder_ExpectBytes want c =
    (let (got, c1) = Decoder_Take (of_nat (length want)) c
     in if dec_err c1 \<noteq> None then c1
        else if got \<noteq> want
             then c1\<lparr>dec_err := Some (DecUnexpectedBytes (dec_off c1 - length want))\<rparr>
        else c1)"

section \<open>Encoder\<close>

datatype io_error =
    EOF
  | ErrUnexpectedEOF
  | ErrShortWrite
  | InvalidBoolByte u8
  | LengthExceedsMaximum u32 int
  | ChunkTooLarge nat
  | StreamError nat

text \<open>\<open>bytes.Buffer.Write\<close> of the standard library accepts every byte and reports no error.\<close>

definition Buffer_Write :: "bytes \<Rightarrow> bytes \<Rightarrow> nat \<times> io_error option \<times> bytes" where
  "Buffer_Write buf p = (length p, None, buf @ p)"

record encoder =
  enc_buf :: bytes
  enc_err :: "io_error option"

definition NewEncoder :: encoder where
  "NewEncoder = \<lparr>enc_buf = [], enc_err = None\<rparr>"

definition Encoder_Result :: "encoder \<Rightarrow> bytes" where
  "Encoder_Result e = (if enc_err e \<noteq> None then [] else enc_buf e)"

definition Encoder_Write :: "bytes \<Rightarrow> encoder \<Rightarrow> encoder" where
  "Encoder_Write b e = 
    (if enc_err e \<noteq> None then e
     else let (_, err, buf) = Buffer_Write (enc_buf e) b in e\<lparr>enc_buf := buf, enc_err := err\<rparr>)"

definition Encoder_Byte :: "u8 \<Rightarrow> encoder \<Rightarrow> encoder" where
  "Encoder_Byte b e = (if enc_err e \<noteq> None then e else Encoder_Write [b] e)"

definition Encoder_Bool :: "bool \<Rightarrow> encoder \<Rightarrow> encoder" where
  "Encoder_Bool v e = (if v then Encoder_Byte 1 e else Encoder_Byte 0 e)"

definition Encoder_U32 :: "u32 \<Rightarrow> encoder \<Rightarrow> encoder" where
  "Encoder_U32 n e = (if enc_err e \<noteq> None then e else Encoder_Write (PutUint32 n) e)"

definition Encoder_Bytes :: "bytes \<Rightarrow> encoder \<Rightarrow> encoder" where
  "Encoder_Bytes b e =
    (if enc_err e \<noteq> None then e
     else if length b > MaxUint32 then e\<lparr>enc_err := Some (ChunkTooLarge (length b))\<rparr>
     else Encoder_Write b (Encoder_U32 (of_nat (length b)) e))"

definition Encoder_UTF8String :: "bytes \<Rightarrow> encoder \<Rightarrow> encoder" where
  "Encoder_UTF8String s e = Encoder_Bytes s e"

section \<open>Streams\<close>

text \<open>
  A reader is the bytes still to come followed by the error the stream ends with.
  \<open>ReadFull\<close> is \<open>io.ReadFull\<close>: reading nothing before the end returns that error, and a
  partial read turns \<open>io.EOF\<close> into \<open>io.ErrUnexpectedEOF\<close>.
\<close>

record reader =
  rd_data :: bytes
  rd_end :: io_error

definition ReadFull :: "reader \<Rightarrow> nat \<Rightarrow> bytes \<times> io_error option \<times> reader" where
  "ReadFull r n =
    (if n \<le> length (rd_data r)
     then (take n (rd_data r), None, r\<lparr>rd_data := drop n (rd_data r)\<rparr>)
     else (rd_data r @ replicate (n - length (rd_data r)) 0,
           Some (if rd_data r \<noteq> [] \<and> rd_end r = EOF then ErrUnexpectedEOF else rd_end r),
           r\<lparr>rd_data := []\<rparr>))"

definition ReadByte :: "reader \<Rightarrow> u8 \<times> io_error option \<times> reader" where
  "ReadByte r =
    (case ReadFull r 1 of
       (b, Some e, r1) \<Rightarrow> (0, Some e, r1)
     | (b, None, r1) \<Rightarrow> (b ! 0, None, r1))"

definition ReadBool :: "reader \<Rightarrow> bool \<times> io_error option \<times> reader" where
  "ReadBool r =
    (case ReadByte r of
       (b, Some e, r1) \<Rightarrow> (False, Some e, r1)
     | (b, None, r1) \<Rightarrow>
         (if b = 0 then (False, None, r1)
          else if b = 1 then (True, None, r1)
          else (False, Some (InvalidBoolByte b), r1)))"

definition ReadU32 :: "reader \<Rightarrow> u32 \<times> io_error option \<times> reader" where
  "ReadU32 r =
    (case ReadFull r 4 of
       (b, Some e, r1) \<Rightarrow> (0, Some e, r1)
     | (b, None, r1) \<Rightarrow> (Uint32 b, None, r1))"

definition ReadBytes :: "reader \<Rightarrow> int \<Rightarrow> bytes \<times> io_error option \<times> reader" where
  "ReadBytes r maxBytes =
    (case ReadU32 r of
       (n, Some e, r1) \<Rightarrow> ([], Some e, r1)
     | (n, None, r1) \<Rightarrow>
         (if maxBytes \<noteq> 0 \<and> n > of_int maxBytes
          then ([], Some (LengthExceedsMaximum n maxBytes), r1)
          else ReadFull r1 (unat n)))"

text \<open>
  A writer is a state with a \<open>Write\<close> method that returns the number of bytes it accepted
  and an error.  \<open>writeFull\<close> repeats it on the remainder; a call that accepts nothing is
  \<open>io.ErrShortWrite\<close>.
\<close>

type_synonym 'w write_method = "'w \<Rightarrow> bytes \<Rightarrow> nat \<times> io_error option \<times> 'w"

function writeFull :: "'w write_method \<Rightarrow> 'w \<Rightarrow> bytes \<Rightarrow> io_error option \<times> 'w" where
  "writeFull Write w p =
    (if p = [] then (None, w)
     else case Write w p of
       (n, Some e, w1) \<Rightarrow> (Some e, w1)
     | (n, None, w1) \<Rightarrow>
         (if n = 0 then (Some ErrShortWrite, w1) else writeFull Write w1 (drop n p)))"
  by pat_completeness auto
termination
  by (relation "measure (\<lambda>(_, _, p). length p)") (auto simp: neq_Nil_conv)

declare writeFull.simps [simp del]

definition WriteByte :: "'w write_method \<Rightarrow> 'w \<Rightarrow> u8 \<Rightarrow> io_error option \<times> 'w" where
  "WriteByte Write w b = writeFull Write w [b]"

definition WriteBool :: "'w write_method \<Rightarrow> 'w \<Rightarrow> bool \<Rightarrow> io_error option \<times> 'w" where
  "WriteBool Write w v = (if v then WriteByte Write w 1 else WriteByte Write w 0)"

definition WriteU32 :: "'w write_method \<Rightarrow> 'w \<Rightarrow> u32 \<Rightarrow> io_error option \<times> 'w" where
  "WriteU32 Write w n = writeFull Write w (PutUint32 n)"

definition WriteBytes :: "'w write_method \<Rightarrow> 'w \<Rightarrow> bytes \<Rightarrow> io_error option \<times> 'w" where
  "WriteBytes Write w b =
    (if length b > MaxUint32 then (Some (ChunkTooLarge (length b)), w)
     else case WriteU32 Write w (of_nat (length b)) of
       (Some e, w1) \<Rightarrow> (Some e, w1)
     | (None, w1) \<Rightarrow> writeFull Write w1 b)"

section \<open>Decoder correctness\<close>

text \<open>
  \<open>at_input c bs\<close>: the cursor has not failed and \<open>bs\<close> is what is left to read.
  \<open>advance\<close> moves it forward.
\<close>

definition at_input :: "decoder \<Rightarrow> bytes \<Rightarrow> bool" where
  "at_input c bs \<longleftrightarrow>
     dec_err c = None \<and> dec_off c \<le> length (dec_buf c) \<and> drop (dec_off c) (dec_buf c) = bs"

definition advance :: "nat \<Rightarrow> decoder \<Rightarrow> decoder" where
  "advance n c = c\<lparr>dec_off := dec_off c + n\<rparr>"

primrec read_n :: "(decoder \<Rightarrow> 'a \<times> decoder) \<Rightarrow> nat \<Rightarrow> decoder \<Rightarrow> 'a list \<times> decoder" where
  "read_n rd 0 c = ([], c)"
| "read_n rd (Suc n) c =
    (let (x, c1) = rd c; (xs, c2) = read_n rd n c1 in (x # xs, c2))"

lemma at_input_NewCursor [simp]: "at_input (NewCursor bs) bs"
  by (simp add: at_input_def NewCursor_def)

lemma advance_sel [simp]:
  "dec_err (advance n c) = dec_err c"
  "dec_maxBytes (advance n c) = dec_maxBytes c"
  "dec_buf (advance n c) = dec_buf c"
  "dec_off (advance n c) = dec_off c + n"
  by (simp_all add: advance_def)

lemma advance_advance [simp]: "advance m (advance n c) = advance (n + m) c"
  by (simp add: advance_def add.assoc)

lemma advance_0 [simp]: "advance 0 c = c"
  by (simp add: advance_def)

lemma at_input_advance:
  assumes "at_input c (bs @ r)"
  shows "at_input (advance (length bs) c) r"
proof -
  from assms have d: "drop (dec_off c) (dec_buf c) = bs @ r" and e: "dec_err c = None"
    by (auto simp: at_input_def)
  have "length (dec_buf c) - dec_off c = length bs + length r"
    using arg_cong [OF d, of length] by simp
  with assms have "dec_off c + length bs \<le> length (dec_buf c)"
    by (auto simp: at_input_def)
  moreover have "drop (dec_off c + length bs) (dec_buf c) = r"
    using d by (metis append_eq_conv_conj drop_drop add.commute)
  ultimately show ?thesis using e by (simp add: at_input_def)
qed

lemma Take_exact:
  assumes "at_input c (bs @ r)" and "unat n = length bs"
  shows "Decoder_Take n c = (bs, advance (length bs) c)"
proof -
  from assms(1) have d: "drop (dec_off c) (dec_buf c) = bs @ r"
    by (simp add: at_input_def)
  have "length (dec_buf c) - dec_off c = length bs + length r"
    using arg_cong [OF d, of length] by simp
  with assms(1) have "\<not> length (dec_buf c) < dec_off c + length bs"
    by (auto simp: at_input_def)
  with assms d show ?thesis
    by (simp add: Decoder_Take_def at_input_def advance_def)
qed

lemma Uint32_PutUint32 [simp]: "Uint32 (PutUint32 n) = n"
proof (rule bit_word_eqI)
  fix k
  assume "k < LENGTH(32)"
  then consider "k < 8" | "8 \<le> k" "k < 16" | "16 \<le> k" "k < 24" | "24 \<le> k" "k < 32"
    by fastforce
  then show "bit (Uint32 (PutUint32 n)) k = bit n k"
    by cases (auto simp: Uint32_def PutUint32_def bit_simps)
qed

lemma length_PutUint32 [simp]: "length (PutUint32 n) = 4"
  by (simp add: PutUint32_def)

lemma PutUint32_Uint32:
  assumes "length bs = 4"
  shows "PutUint32 (Uint32 bs) = bs"
proof -
  obtain a b c d where bs: "bs = [a, b, c, d]"
    using assms by (auto simp: numeral_eq_Suc length_Suc_conv)
  have "ucast (drop_bit 24 (Uint32 bs)) = a" "ucast (drop_bit 16 (Uint32 bs)) = b"
    "ucast (drop_bit 8 (Uint32 bs)) = c" "ucast (Uint32 bs) = d"
    by (rule bit_word_eqI; auto simp: bs Uint32_def bit_simps dest: bit_imp_le_length)+
  then show ?thesis by (simp add: PutUint32_def bs)
qed

lemma Take_canonical:
  assumes "at_input c bs" and "Decoder_Take n c = (b, c1)" and "dec_err c1 = None"
  shows "unat n = length b" and "c1 = advance (length b) c" and "\<exists>r. bs = b @ r"
proof -
  have ok: "dec_off c + unat n \<le> length (dec_buf c)"
    and b: "b = take (unat n) (drop (dec_off c) (dec_buf c))"
    and c1: "c1 = c\<lparr>dec_off := dec_off c + unat n\<rparr>"
    using assms by (auto simp: Decoder_Take_def at_input_def split: if_splits)
  show len: "unat n = length b" using ok b by simp
  show "c1 = advance (length b) c" using c1 len by (simp add: advance_def)
  show "\<exists>r. bs = b @ r"
    using assms(1) b by (metis append_take_drop_id at_input_def)
qed

text \<open>
  The contract every read operation of the decoder meets for the encoding its write
  operation produces.  \<open>ok m x\<close> says which values are readable under the length limit \<open>m\<close>.
\<close>

locale cursor_codec =
  fixes enc :: "'a \<Rightarrow> bytes"
    and rd :: "decoder \<Rightarrow> 'a \<times> decoder"
    and ok :: "u32 \<Rightarrow> 'a \<Rightarrow> bool"
  assumes read_back:
      "at_input c (enc x @ r) \<Longrightarrow> ok (dec_maxBytes c) x \<Longrightarrow> rd c = (x, advance (length (enc x)) c)"
    and canonical:
      "at_input c bs \<Longrightarrow> rd c = (x, c1) \<Longrightarrow> dec_err c1 = None
        \<Longrightarrow> ok (dec_maxBytes c) x \<and> c1 = advance (length (enc x)) c \<and> (\<exists>r. bs = enc x @ r)"
    and sticky: "dec_err c \<noteq> None \<Longrightarrow> snd (rd c) = c"
begin

lemma read_n_back:
  "at_input c (concat (map enc xs) @ r) \<Longrightarrow> list_all (ok (dec_maxBytes c)) xs
    \<Longrightarrow> read_n rd (length xs) c = (xs, advance (length (concat (map enc xs))) c)"
proof (induction xs arbitrary: c)
  case Nil
  then show ?case by simp
next
  case (Cons x xs)
  have in1: "at_input c (enc x @ (concat (map enc xs) @ r))"
    using Cons.prems(1) by simp
  have "rd c = (x, advance (length (enc x)) c)"
    using read_back [OF in1] Cons.prems(2) by simp
  moreover have "read_n rd (length xs) (advance (length (enc x)) c)
      = (xs, advance (length (concat (map enc xs))) (advance (length (enc x)) c))"
    using Cons.IH [OF at_input_advance [OF in1]] Cons.prems(2) by simp
  ultimately show ?case by simp
qed

lemma unambiguous:
  assumes "enc x @ r = enc y @ s" and "ok m x" and "ok m y"
  shows "x = y \<and> r = s"
proof -
  let ?c = "WithMaxBytes m (NewCursor (enc x @ r))"
  have "at_input ?c (enc x @ r)" "at_input ?c (enc y @ s)"
    using assms(1) by (auto simp: WithMaxBytes_def NewCursor_def at_input_def)
  from read_back [OF this(1)] read_back [OF this(2)] assms(2,3)
  have "x = y" by (simp add: WithMaxBytes_def NewCursor_def)
  with assms(1) show ?thesis by simp
qed

lemma accepts_iff:
  assumes "at_input c bs"
  shows "(rd c = (x, c1) \<and> dec_err c1 = None) \<longleftrightarrow>
    (ok (dec_maxBytes c) x \<and> c1 = advance (length (enc x)) c \<and> (\<exists>r. bs = enc x @ r))"
proof
  assume "rd c = (x, c1) \<and> dec_err c1 = None"
  then show "ok (dec_maxBytes c) x \<and> c1 = advance (length (enc x)) c \<and> (\<exists>r. bs = enc x @ r)"
    using canonical [OF assms, of x c1] by blast
next
  assume *: "ok (dec_maxBytes c) x \<and> c1 = advance (length (enc x)) c \<and> (\<exists>r. bs = enc x @ r)"
  then obtain r where bs: "bs = enc x @ r" by blast
  then show "rd c = (x, c1) \<and> dec_err c1 = None"
    using read_back [of c x r] assms * by (auto simp: at_input_def)
qed

end

text \<open>The encodings of the source, one per pair of operations.\<close>

definition enc_Byte :: "u8 \<Rightarrow> bytes" where
  "enc_Byte b = [b]"

definition enc_Bool :: "bool \<Rightarrow> bytes" where
  "enc_Bool v = [if v then 1 else 0]"

definition enc_Bytes :: "bytes \<Rightarrow> bytes" where
  "enc_Bytes b = PutUint32 (of_nat (length b)) @ b"

definition readable_Bytes :: "u32 \<Rightarrow> bytes \<Rightarrow> bool" where
  "readable_Bytes m b \<longleftrightarrow> length b \<le> unat m"

definition readable_UTF8 :: "u32 \<Rightarrow> bytes \<Rightarrow> bool" where
  "readable_UTF8 m b \<longleftrightarrow> length b \<le> unat m \<and> utf8_Valid b"

interpretation byte_codec: cursor_codec enc_Byte Decoder_Byte "\<lambda>_ _. True"
proof
  fix c x r
  assume "at_input c (enc_Byte x @ r)"
  then show "Decoder_Byte c = (x, advance (length (enc_Byte x)) c)"
    using Take_exact [of c "[x]" r 1] by (simp add: Decoder_Byte_def enc_Byte_def at_input_def)
next
  fix c bs x c1
  assume a: "at_input c bs" and rd: "Decoder_Byte c = (x, c1)" and e: "dec_err c1 = None"
  obtain b where t: "Decoder_Take 1 c = (b, c1)" and x: "x = b ! 0"
    using rd e by (auto simp: Decoder_Byte_def split: prod.splits if_splits)
  obtain r where "length b = 1" "c1 = advance (length b) c" "bs = b @ r"
    using Take_canonical [OF a t e] by auto
  then show "True \<and> c1 = advance (length (enc_Byte x)) c \<and> (\<exists>r. bs = enc_Byte x @ r)"
    using x by (auto simp: enc_Byte_def length_Suc_conv)
next
  fix c :: decoder
  assume "dec_err c \<noteq> None"
  then show "snd (Decoder_Byte c) = c"
    by (auto simp: Decoder_Byte_def Decoder_Take_def)
qed

interpretation u32_codec: cursor_codec PutUint32 Decoder_U32 "\<lambda>_ _. True"
proof
  fix c x r
  assume "at_input c (PutUint32 x @ r)"
  then show "Decoder_U32 c = (x, advance (length (PutUint32 x)) c)"
    using Take_exact [of c "PutUint32 x" r 4] by (simp add: Decoder_U32_def at_input_def)
next
  fix c bs x c1
  assume a: "at_input c bs" and rd: "Decoder_U32 c = (x, c1)" and e: "dec_err c1 = None"
  obtain b where t: "Decoder_Take 4 c = (b, c1)" and x: "x = Uint32 b"
    using rd e by (auto simp: Decoder_U32_def split: prod.splits if_splits)
  obtain r where "length b = 4" "c1 = advance (length b) c" "bs = b @ r"
    using Take_canonical [OF a t e] by auto
  then show "True \<and> c1 = advance (length (PutUint32 x)) c \<and> (\<exists>r. bs = PutUint32 x @ r)"
    using x PutUint32_Uint32 [of b] by auto
next
  fix c :: decoder
  assume "dec_err c \<noteq> None"
  then show "snd (Decoder_U32 c) = c"
    by (auto simp: Decoder_U32_def Decoder_Take_def)
qed

interpretation bool_codec: cursor_codec enc_Bool Decoder_Bool "\<lambda>_ _. True"
proof
  fix c x r
  assume a: "at_input c (enc_Bool x @ r)"
  then have "at_input c (enc_Byte (if x then 1 else 0) @ r)"
    by (simp add: enc_Bool_def enc_Byte_def)
  from byte_codec.read_back [OF this] a
  show "Decoder_Bool c = (x, advance (length (enc_Bool x)) c)"
    by (simp add: Decoder_Bool_def enc_Byte_def enc_Bool_def at_input_def)
next
  fix c bs x c1
  assume a: "at_input c bs" and rd: "Decoder_Bool c = (x, c1)" and e: "dec_err c1 = None"
  obtain b where t: "Decoder_Byte c = (b, c1)" and x: "enc_Bool x = enc_Byte b"
    using rd e
    by (auto simp: Decoder_Bool_def enc_Bool_def enc_Byte_def split: prod.splits if_splits)
  show "True \<and> c1 = advance (length (enc_Bool x)) c \<and> (\<exists>r. bs = enc_Bool x @ r)"
    using byte_codec.canonical [OF a t e] x by simp
next
  fix c :: decoder
  assume "dec_err c \<noteq> None"
  then show "snd (Decoder_Bool c) = c"
    by (auto simp: Decoder_Bool_def Decoder_Byte_def Decoder_Take_def)
qed

interpretation bytes_codec: cursor_codec enc_Bytes Decoder_Bytes readable_Bytes
proof
  fix c x r
  assume a: "at_input c (enc_Bytes x @ r)" and ok: "readable_Bytes (dec_maxBytes c) x"
  let ?n = "of_nat (length x) :: u32"
  have n: "unat ?n = length x"
    using ok unat_u32_less [of "dec_maxBytes c"]
    by (intro unat_of_nat_u32) (simp add: readable_Bytes_def)
  have a1: "at_input c (PutUint32 ?n @ (x @ r))"
    using a by (simp add: enc_Bytes_def)
  note u = u32_codec.read_back [OF a1 TrueI] and a2 = at_input_advance [OF a1]
  have "\<not> dec_maxBytes c < ?n"
    using ok n by (simp add: readable_Bytes_def word_facts)
  then show "Decoder_Bytes c = (x, advance (length (enc_Bytes x)) c)"
    using u a Take_exact [OF a2 n] by (simp add: Decoder_Bytes_def at_input_def enc_Bytes_def)
next
  fix c bs x c1
  assume a: "at_input c bs" and rd: "Decoder_Bytes c = (x, c1)" and e: "dec_err c1 = None"
  obtain n c0 where u: "Decoder_U32 c = (n, c0)" and e0: "dec_err c0 = None"
    and le: "\<not> dec_maxBytes c0 < n" and t: "Decoder_Take n c0 = (x, c1)"
    using rd e by (auto simp: Decoder_Bytes_def split: prod.splits if_splits)
  obtain r where c0: "c0 = advance 4 c" and bs: "bs = PutUint32 n @ r"
    using u32_codec.canonical [OF a u e0] by auto
  have a0: "at_input c0 r"
    using at_input_advance [of c "PutUint32 n" r] a bs c0 by simp
  note tk = Take_canonical [OF a0 t e]
  have "of_nat (unat n) = n" by simp
  then have "n = of_nat (length x)" using tk(1) by simp
  then show "readable_Bytes (dec_maxBytes c) x \<and> c1 = advance (length (enc_Bytes x)) c
      \<and> (\<exists>r. bs = enc_Bytes x @ r)"
    using tk le bs c0 by (auto simp: readable_Bytes_def enc_Bytes_def word_facts)
next
  fix c :: decoder
  assume "dec_err c \<noteq> None"
  then show "snd (Decoder_Bytes c) = c"
    by (auto simp: Decoder_Bytes_def Decoder_U32_def Decoder_Take_def)
qed

interpretation utf8_codec: cursor_codec enc_Bytes Decoder_UTF8String readable_UTF8
proof
  fix c x r
  assume a: "at_input c (enc_Bytes x @ r)" and ok: "readable_UTF8 (dec_maxBytes c) x"
  then have "Decoder_Bytes c = (x, advance (length (enc_Bytes x)) c)"
    by (intro bytes_codec.read_back) (auto simp: readable_Bytes_def readable_UTF8_def)
  then show "Decoder_UTF8String c = (x, advance (length (enc_Bytes x)) c)"
    using a ok by (simp add: Decoder_UTF8String_def readable_UTF8_def at_input_def)
next
  fix c bs x c1
  assume a: "at_input c bs" and rd: "Decoder_UTF8String c = (x, c1)" and e: "dec_err c1 = None"
  then have t: "Decoder_Bytes c = (x, c1)" and v: "utf8_Valid x"
    by (auto simp: Decoder_UTF8String_def split: prod.splits if_splits)
  show "readable_UTF8 (dec_maxBytes c) x \<and> c1 = advance (length (enc_Bytes x)) c
      \<and> (\<exists>r. bs = enc_Bytes x @ r)"
    using bytes_codec.canonical [OF a t e] v by (simp add: readable_UTF8_def readable_Bytes_def)
next
  fix c :: decoder
  assume "dec_err c \<noteq> None"
  then show "snd (Decoder_UTF8String c) = c"
    by (auto simp: Decoder_UTF8String_def Decoder_Bytes_def Decoder_U32_def Decoder_Take_def)
qed

section \<open>Sequences of fields\<close>

text \<open>
  The callers of the codec (key blobs, authentication transcripts) write and read a fixed
  sequence of fields.  A field is one call of the encoder; its shape selects the decoder call.
\<close>

datatype field = FByte u8 | FBool bool | FU32 u32 | FBytes bytes | FUTF8 bytes

datatype shape = SByte | SBool | SU32 | SBytes | SUTF8

primrec shape_of :: "field \<Rightarrow> shape" where
  "shape_of (FByte _) = SByte"
| "shape_of (FBool _) = SBool"
| "shape_of (FU32 _) = SU32"
| "shape_of (FBytes _) = SBytes"
| "shape_of (FUTF8 _) = SUTF8"

primrec put_field :: "field \<Rightarrow> encoder \<Rightarrow> encoder" where
  "put_field (FByte b) e = Encoder_Byte b e"
| "put_field (FBool v) e = Encoder_Bool v e"
| "put_field (FU32 n) e = Encoder_U32 n e"
| "put_field (FBytes b) e = Encoder_Bytes b e"
| "put_field (FUTF8 s) e = Encoder_UTF8String s e"

primrec get_field :: "shape \<Rightarrow> decoder \<Rightarrow> field \<times> decoder" where
  "get_field SByte c = (let (b, c1) = Decoder_Byte c in (FByte b, c1))"
| "get_field SBool c = (let (v, c1) = Decoder_Bool c in (FBool v, c1))"
| "get_field SU32 c = (let (n, c1) = Decoder_U32 c in (FU32 n, c1))"
| "get_field SBytes c = (let (b, c1) = Decoder_Bytes c in (FBytes b, c1))"
| "get_field SUTF8 c = (let (s, c1) = Decoder_UTF8String c in (FUTF8 s, c1))"

primrec put_fields :: "field list \<Rightarrow> encoder \<Rightarrow> encoder" where
  "put_fields [] e = e"
| "put_fields (f # fs) e = put_fields fs (put_field f e)"

primrec get_fields :: "shape list \<Rightarrow> decoder \<Rightarrow> field list \<times> decoder" where
  "get_fields [] c = ([], c)"
| "get_fields (s # ss) c =
    (let (f, c1) = get_field s c; (fs, c2) = get_fields ss c1 in (f # fs, c2))"

primrec enc_field :: "field \<Rightarrow> bytes" where
  "enc_field (FByte b) = enc_Byte b"
| "enc_field (FBool v) = enc_Bool v"
| "enc_field (FU32 n) = PutUint32 n"
| "enc_field (FBytes b) = enc_Bytes b"
| "enc_field (FUTF8 s) = enc_Bytes s"

primrec readable :: "u32 \<Rightarrow> field \<Rightarrow> bool" where
  "readable m (FByte b) = True"
| "readable m (FBool v) = True"
| "readable m (FU32 n) = True"
| "readable m (FBytes b) = readable_Bytes m b"
| "readable m (FUTF8 s) = readable_UTF8 m s"

lemma readable_length:
  "readable_Bytes m b \<Longrightarrow> length b \<le> MaxUint32" "readable_UTF8 m b \<Longrightarrow> length b \<le> MaxUint32"
  using unat_u32_less [of m] by (auto simp: readable_Bytes_def readable_UTF8_def)

lemma put_field_appends:
  assumes "enc_err e = None" and "readable m f"
  shows "put_field f e = e\<lparr>enc_buf := enc_buf e @ enc_field f\<rparr>"
  using assms
  by (cases f)
    (auto dest!: readable_length simp: Encoder_Byte_def Encoder_Bool_def Encoder_U32_def Encoder_Bytes_def
      Encoder_UTF8String_def Encoder_Write_def Buffer_Write_def enc_Byte_def enc_Bool_def
      enc_Bytes_def not_less)

lemma put_fields_appends:
  "enc_err e = None \<Longrightarrow> list_all (readable m) fs
    \<Longrightarrow> put_fields fs e = e\<lparr>enc_buf := enc_buf e @ concat (map enc_field fs)\<rparr>"
proof (induction fs arbitrary: e)
  case Nil
  then show ?case by simp
next
  case (Cons f fs)
  then show ?case by (simp add: put_field_appends [of e m f])
qed

lemma get_field_back:
  assumes "at_input c (enc_field f @ r)" and "readable (dec_maxBytes c) f"
  shows "get_field (shape_of f) c = (f, advance (length (enc_field f)) c)"
  using assms byte_codec.read_back bool_codec.read_back u32_codec.read_back
    bytes_codec.read_back utf8_codec.read_back
  by (cases f) simp_all

lemma get_fields_back:
  "at_input c (concat (map enc_field fs) @ r) \<Longrightarrow> list_all (readable (dec_maxBytes c)) fs
    \<Longrightarrow> get_fields (map shape_of fs) c = (fs, advance (length (concat (map enc_field fs))) c)"
proof (induction fs arbitrary: c)
  case Nil
  then show ?case by simp
next
  case (Cons f fs)
  have in1: "at_input c (enc_field f @ (concat (map enc_field fs) @ r))"
    using Cons.prems(1) by simp
  show ?case
    using get_field_back [OF in1] Cons.IH [OF at_input_advance [OF in1]] Cons.prems(2) by simp
qed

lemma get_field_canonical:
  assumes "at_input c bs" and "get_field s c = (f, c1)" and "dec_err c1 = None"
  shows "shape_of f = s \<and> readable (dec_maxBytes c) f \<and> c1 = advance (length (enc_field f)) c
    \<and> (\<exists>r. bs = enc_field f @ r)"
  using assms byte_codec.canonical bool_codec.canonical u32_codec.canonical
    bytes_codec.canonical utf8_codec.canonical
  by (cases s) (fastforce split: prod.splits)+

lemma get_field_sticky: "dec_err c \<noteq> None \<Longrightarrow> snd (get_field s c) = c"
  using byte_codec.sticky bool_codec.sticky u32_codec.sticky bytes_codec.sticky utf8_codec.sticky
  by (cases s) (auto simp: case_prod_unfold Let_def)

lemma get_fields_sticky: "dec_err c \<noteq> None \<Longrightarrow> snd (get_fields ss c) = c"
proof (induction ss arbitrary: c)
  case Nil
  then show ?case by simp
next
  case (Cons s ss)
  then show ?case
    using get_field_sticky [of c s] by (simp add: case_prod_unfold Let_def)
qed

lemma get_fields_canonical:
  "at_input c bs \<Longrightarrow> get_fields ss c = (fs, c1) \<Longrightarrow> dec_err c1 = None
    \<Longrightarrow> map shape_of fs = ss \<and> list_all (readable (dec_maxBytes c)) fs
      \<and> c1 = advance (length (concat (map enc_field fs))) c
      \<and> (\<exists>r. bs = concat (map enc_field fs) @ r)"
proof (induction ss arbitrary: c bs fs)
  case Nil
  then show ?case by simp
next
  case (Cons s ss)
  obtain f c0 fs' where f: "get_field s c = (f, c0)" and fs': "get_fields ss c0 = (fs', c1)"
    and fs: "fs = f # fs'"
    using Cons.prems(2) by (auto split: prod.splits)
  have e0: "dec_err c0 = None"
    using get_fields_sticky [of c0 ss] fs' Cons.prems(3) by fastforce
  note g = get_field_canonical [OF Cons.prems(1) f e0]
  then obtain r where bs: "bs = enc_field f @ r" by blast
  have "at_input c0 r"
    using at_input_advance [of c "enc_field f" r] Cons.prems(1) bs g by simp
  from Cons.IH [OF this fs' Cons.prems(3)] show ?case
    using g bs fs by auto
qed

lemma encoded_fields:
  assumes "list_all (readable m) fs"
  shows "Encoder_Result (put_fields fs NewEncoder) = concat (map enc_field fs)"
  using put_fields_appends [of NewEncoder m fs] assms
  by (simp add: NewEncoder_def Encoder_Result_def)

lemma at_input_WithMaxBytes: "at_input (WithMaxBytes m (NewCursor bs)) bs"
  by (simp add: at_input_def NewCursor_def WithMaxBytes_def)

lemma WithMaxBytes_max [simp]: "dec_maxBytes (WithMaxBytes m c) = m"
  by (simp add: WithMaxBytes_def)



text \<open>
  C21: The decoder accepts nothing else: when a sequence of reads consumes the whole input
  without error, that input is byte for byte what the encoder writes for the values read, so
  every sequence of values has exactly one accepted encoding.
\<close>

theorem accepted_input_is_canonical:
  assumes "get_fields ss (WithMaxBytes m (NewCursor bs)) = (fs, c)" and "Decoder_Done c = None"
  shows "map shape_of fs = ss \<and> bs = Encoder_Result (put_fields fs NewEncoder)"
proof -
  have e: "dec_err c = None" and off: "dec_off c = length (dec_buf c)"
    using assms(2) by (auto simp: Decoder_Done_def split: if_splits)
  note can = get_fields_canonical [OF at_input_WithMaxBytes assms(1) e]
  then obtain r where bs: "bs = concat (map enc_field fs) @ r" by blast
  have "length bs = length (concat (map enc_field fs))"
    using can off by (simp add: WithMaxBytes_def NewCursor_def)
  with bs have "r = []" by simp
  with bs can show ?thesis
    by (simp add: encoded_fields [of m])
qed

theorem accepted_input_is_canonical_witness:
  "map shape_of [FBool True, FBytes [7]] = [SBool, SBytes] \<and>
   [1, 0, 0, 0, 1, 7] = Encoder_Result (put_fields [FBool True, FBytes [7]] NewEncoder)"
proof (rule accepted_input_is_canonical)
  show "get_fields [SBool, SBytes] (WithMaxBytes 4 (NewCursor [1, 0, 0, 0, 1, 7]))
      = ([FBool True, FBytes [7]],
         \<lparr>dec_buf = [1, 0, 0, 0, 1, 7], dec_off = 6, dec_err = None, dec_maxBytes = 4\<rparr>)"
    by code_simp
  show "Decoder_Done \<lparr>dec_buf = [1, 0, 0, 0, 1, 7], dec_off = 6, dec_err = None, dec_maxBytes = 4\<rparr>
      = None"
    by code_simp
qed

section \<open>Streams\<close>

text \<open>
  The contract of \<open>io.Writer\<close> that \<open>writeFull\<close> relies on: the count returned is the number
  of leading bytes of the argument that reached the sink, with or without an error.
\<close>

locale io_writer =
  fixes Write :: "'w write_method"
    and sink :: "'w \<Rightarrow> bytes"
  assumes accepts: "Write w p = (n, e, w1) \<Longrightarrow> n \<le> length p \<and> sink w1 = sink w @ take n p"
begin

lemma writeFull_prefix:
  "writeFull Write w p = (e, w1) \<Longrightarrow>
    \<exists>k \<le> length p. sink w1 = sink w @ take k p \<and> (e = None \<longrightarrow> k = length p)"
proof (induction p arbitrary: w rule: measure_induct_rule [of length])
  case (less p)
  obtain n e0 w0 where wr: "Write w p = (n, e0, w0)"
    by (metis prod_cases3)
  note acc = accepts [OF wr]
  have run: "(if p = [] then (None, w) else case e0 of Some x \<Rightarrow> (Some x, w0)
      | None \<Rightarrow> if n = 0 then (Some ErrShortWrite, w0) else writeFull Write w0 (drop n p)) = (e, w1)"
    using less.prems by (cases "p = []") (simp_all add: writeFull.simps [of Write w p] writeFull.simps [of Write w "[]"] wr)
  show ?case
  proof (cases "p = [] \<or> e0 \<noteq> None \<or> n = 0")
    case True
    then show ?thesis
      using run acc by (auto split: if_splits option.splits intro: exI [of _ n])
  next
    case False
    then have rec: "writeFull Write w0 (drop n p) = (e, w1)" and sh: "length (drop n p) < length p"
      using run by auto
    obtain k where "k \<le> length (drop n p)" "sink w1 = sink w0 @ take k (drop n p)"
      "e = None \<longrightarrow> k = length (drop n p)"
      using less.IH [OF sh rec] by blast
    with acc show ?thesis
      by (intro exI [of _ "n + k"]) (auto simp: take_add)
  qed
qed

lemma writeFull_complete:
  "writeFull Write w p = (None, w1) \<Longrightarrow> sink w1 = sink w @ p"
  using writeFull_prefix [of w p None w1] by auto

lemma WriteBytes_complete:
  assumes "WriteBytes Write w b = (None, w1)"
  shows "sink w1 = sink w @ enc_Bytes b" and "length b \<le> MaxUint32"
proof -
  show "length b \<le> MaxUint32"
    using assms by (auto simp: WriteBytes_def split: if_splits)
  obtain w0 where "WriteU32 Write w (of_nat (length b)) = (None, w0)" "writeFull Write w0 b = (None, w1)"
    using assms by (auto simp: WriteBytes_def split: if_splits prod.splits option.splits)
  then show "sink w1 = sink w @ enc_Bytes b"
    by (simp add: WriteU32_def enc_Bytes_def writeFull_complete)
qed

end

interpretation buffer: io_writer Buffer_Write "\<lambda>b. b"
  by unfold_locales (auto simp: Buffer_Write_def)

lemma writeFull_Buffer [simp]: "writeFull Buffer_Write w p = (None, w @ p)"
  by (simp add: writeFull.simps Buffer_Write_def)

lemma ReadFull_exact:
  "rd_data r = b @ s \<Longrightarrow> length b = n \<Longrightarrow> ReadFull r n = (b, None, r\<lparr>rd_data := s\<rparr>)"
  by (auto simp: ReadFull_def)

lemma ReadBytes_back:
  assumes "rd_data r = enc_Bytes b @ s" and "length b \<le> MaxUint32"
    and "mx = 0 \<or> (0 < mx \<and> mx < 4294967296 \<and> int (length b) \<le> mx)"
  shows "ReadBytes r mx = (b, None, r\<lparr>rd_data := s\<rparr>)"
proof -
  let ?n = "of_nat (length b) :: u32"
  have n: "unat ?n = length b"
    using assms(2) by (intro unat_of_nat_u32) simp
  have u: "ReadU32 r = (?n, None, r\<lparr>rd_data := b @ s\<rparr>)"
    using assms(1) ReadFull_exact [of r "PutUint32 ?n" "b @ s" 4]
    by (simp add: ReadU32_def enc_Bytes_def)
  have "unat (of_int mx :: u32) = nat mx" if "mx \<noteq> 0"
    using that assms(3) unat_of_nat_u32 [of "nat mx"] by (auto simp: nat_less_iff)
  then have "\<not> (mx \<noteq> 0 \<and> of_int mx < ?n)"
    using assms(3) n by (auto simp: word_facts)
  then show ?thesis
    using u n ReadFull_exact [of "r\<lparr>rd_data := b @ s\<rparr>" b s "length b"]
    by (simp add: ReadBytes_def)
qed

end
