(* ===== verification/Session_Config.thy ===== *)
theory Session_Config
  imports Prelude
begin

text \<open>
  \<open>lib/session/config.go\<close>: the resource limits and flow-control settings of one session,
  the filling-in of defaults and the validation against the compiled hard maxima.
  Durations are counts of nanoseconds.  The lemmas show that a configuration that passes
  validation satisfies every bound the multiplexer relies on.
\<close>

section \<open>Model\<close>

record Limits =
  MaxChannels :: u32
  MaxPendingOpens :: u32
  MaxPendingChannelRequests :: u32
  MaxPendingChannelRequestsPerChannel :: u32
  MaxPendingGlobalRequests :: u32
  MaxQueuedFramesPerChannel :: u32
  MaxQueuedFramesTotal :: u32
  MaxQueuedBytesPerChannel :: u64
  MaxQueuedBytesTotal :: u64
  MaxControlPayload :: u32
  MaxTypeLength :: u32
  MaxCodeLength :: u32
  MaxMessageLength :: u32

record Config =
  InitialWindow :: u32
  MaxPacketSize :: u32
  WindowAdjustThreshold :: u32
  DisconnectTimeout :: int
  ChannelCloseTimeout :: int
  cfg_Limits :: Limits

definition defaultLimits :: Limits where
  "defaultLimits = \<lparr>
     MaxChannels = 64,
     MaxPendingOpens = 32,
     MaxPendingChannelRequests = 1024,
     MaxPendingChannelRequestsPerChannel = 64,
     MaxPendingGlobalRequests = 128,
     MaxQueuedFramesPerChannel = 256,
     MaxQueuedFramesTotal = 8192,
     MaxQueuedBytesPerChannel = 1048576,
     MaxQueuedBytesTotal = 16777216,
     MaxControlPayload = 16384,
     MaxTypeLength = 128,
     MaxCodeLength = 64,
     MaxMessageLength = 1024\<rparr>"

definition hardLimits :: Limits where
  "hardLimits = \<lparr>
     MaxChannels = 1024,
     MaxPendingOpens = 1024,
     MaxPendingChannelRequests = 16384,
     MaxPendingChannelRequestsPerChannel = 1024,
     MaxPendingGlobalRequests = 2048,
     MaxQueuedFramesPerChannel = 4096,
     MaxQueuedFramesTotal = 65536,
     MaxQueuedBytesPerChannel = 8388608,
     MaxQueuedBytesTotal = 67108864,
     MaxControlPayload = 24576,
     MaxTypeLength = 256,
     MaxCodeLength = 128,
     MaxMessageLength = 4096\<rparr>"

definition or_default :: "'a::zero \<Rightarrow> 'a \<Rightarrow> 'a" where
  "or_default v d = (if v = 0 then d else v)"

definition Limits_withDefaults :: "Limits \<Rightarrow> Limits" where
  "Limits_withDefaults l = \<lparr>
     MaxChannels = or_default (MaxChannels l) (MaxChannels defaultLimits),
     MaxPendingOpens = or_default (MaxPendingOpens l) (MaxPendingOpens defaultLimits),
     MaxPendingChannelRequests =
       or_default (MaxPendingChannelRequests l) (MaxPendingChannelRequests defaultLimits),
     MaxPendingChannelRequestsPerChannel =
       or_default (MaxPendingChannelRequestsPerChannel l)
         (MaxPendingChannelRequestsPerChannel defaultLimits),
     MaxPendingGlobalRequests =
       or_default (MaxPendingGlobalRequests l) (MaxPendingGlobalRequests defaultLimits),
     MaxQueuedFramesPerChannel =
       or_default (MaxQueuedFramesPerChannel l) (MaxQueuedFramesPerChannel defaultLimits),
     MaxQueuedFramesTotal = or_default (MaxQueuedFramesTotal l) (MaxQueuedFramesTotal defaultLimits),
     MaxQueuedBytesPerChannel =
       or_default (MaxQueuedBytesPerChannel l) (MaxQueuedBytesPerChannel defaultLimits),
     MaxQueuedBytesTotal = or_default (MaxQueuedBytesTotal l) (MaxQueuedBytesTotal defaultLimits),
     MaxControlPayload = or_default (MaxControlPayload l) (MaxControlPayload defaultLimits),
     MaxTypeLength = or_default (MaxTypeLength l) (MaxTypeLength defaultLimits),
     MaxCodeLength = or_default (MaxCodeLength l) (MaxCodeLength defaultLimits),
     MaxMessageLength = or_default (MaxMessageLength l) (MaxMessageLength defaultLimits)\<rparr>"

datatype config_error =
    MustBePositive string
  | ExceedsHardMaximum string nat nat
  | CannotExceed string string
  | MustBeNonNegative string
  | ValidateLimits config_error

text \<open>The closures \<open>check32\<close> and \<open>check64\<close>, which differ only in the width.\<close>

definition check_bound :: "string \<Rightarrow> 'w::len word \<Rightarrow> 'w word \<Rightarrow> config_error option" where
  "check_bound name v maximum =
    (if v = 0 then Some (MustBePositive name)
     else if v > maximum then Some (ExceedsHardMaximum name (unat v) (unat maximum))
     else None)"

fun first_error :: "config_error option list \<Rightarrow> config_error option" where
  "first_error [] = None"
| "first_error (Some e # _) = Some e"
| "first_error (None # es) = first_error es"

definition failing :: "bool \<Rightarrow> config_error \<Rightarrow> config_error option" where
  "failing b e = (if b then Some e else None)"

text \<open>The checks run in the order of the source; the first failing one is returned.\<close>

definition Limits_Validate :: "Limits \<Rightarrow> config_error option" where
  "Limits_Validate l0 =
    (let l = Limits_withDefaults l0; h = hardLimits in first_error
      [check_bound ''max channels'' (MaxChannels l) (MaxChannels h),
       check_bound ''max pending opens'' (MaxPendingOpens l) (MaxPendingOpens h),
       check_bound ''max pending channel requests''
         (MaxPendingChannelRequests l) (MaxPendingChannelRequests h),
       check_bound ''max pending channel requests per channel''
         (MaxPendingChannelRequestsPerChannel l) (MaxPendingChannelRequestsPerChannel h),
       check_bound ''max pending global requests''
         (MaxPendingGlobalRequests l) (MaxPendingGlobalRequests h),
       check_bound ''max queued frames per channel''
         (MaxQueuedFramesPerChannel l) (MaxQueuedFramesPerChannel h),
       check_bound ''max queued frames total'' (MaxQueuedFramesTotal l) (MaxQueuedFramesTotal h),
       check_bound ''max control payload'' (MaxControlPayload l) (MaxControlPayload h),
       check_bound ''max type length'' (MaxTypeLength l) (MaxTypeLength h),
       check_bound ''max code length'' (MaxCodeLength l) (MaxCodeLength h),
       check_bound ''max message length'' (MaxMessageLength l) (MaxMessageLength h),
       check_bound ''max queued bytes per channel''
         (MaxQueuedBytesPerChannel l) (MaxQueuedBytesPerChannel h),
       check_bound ''max queued bytes total'' (MaxQueuedBytesTotal l) (MaxQueuedBytesTotal h),
       failing (MaxPendingOpens l > MaxChannels l)
         (CannotExceed ''max pending opens'' ''max channels''),
       failing (MaxPendingChannelRequestsPerChannel l > MaxPendingChannelRequests l)
         (CannotExceed ''per-channel pending request limit'' ''connection limit''),
       failing (MaxQueuedFramesPerChannel l > MaxQueuedFramesTotal l)
         (CannotExceed ''per-channel queued frame limit'' ''connection limit''),
       failing (MaxQueuedBytesPerChannel l > MaxQueuedBytesTotal l)
         (CannotExceed ''per-channel queued byte limit'' ''connection limit'')])"

definition Config_withDefaults :: "Config \<Rightarrow> Config" where
  "Config_withDefaults c = \<lparr>
     InitialWindow = or_default (InitialWindow c) 262144,
     MaxPacketSize = or_default (MaxPacketSize c) 16384,
     WindowAdjustThreshold = or_default (WindowAdjustThreshold c) 65536,
     DisconnectTimeout = or_default (DisconnectTimeout c) 250000000,
     ChannelCloseTimeout = or_default (ChannelCloseTimeout c) 5000000000,
     cfg_Limits = Limits_withDefaults (cfg_Limits c)\<rparr>"

definition Config_Validate :: "Config \<Rightarrow> config_error option" where
  "Config_Validate c0 =
    (let c = Config_withDefaults c0; l = cfg_Limits c in first_error
      [failing (InitialWindow c = 0) (MustBePositive ''initial window''),
       failing (MaxPacketSize c = 0) (MustBePositive ''max packet size''),
       failing (MaxPacketSize c > InitialWindow c)
         (CannotExceed ''max packet size'' ''initial window''),
       failing (MaxPacketSize c > MaxControlPayload hardLimits)
         (CannotExceed ''max packet size'' ''protocol maximum''),
       failing (WindowAdjustThreshold c = 0) (MustBePositive ''window adjust threshold''),
       failing (WindowAdjustThreshold c > InitialWindow c)
         (CannotExceed ''window adjust threshold'' ''initial window''),
       failing (InitialWindow c = 0xFFFFFFFF) (CannotExceed ''initial window'' ''max uint32''),
       failing (DisconnectTimeout c < 0) (MustBeNonNegative ''disconnect timeout''),
       failing (ChannelCloseTimeout c \<le> 0) (MustBePositive ''channel close timeout''),
       map_option ValidateLimits (Limits_Validate l),
       failing (ucast (MaxPacketSize c) > MaxQueuedBytesPerChannel l)
         (CannotExceed ''max packet size'' ''per-channel queued byte limit''),
       failing (ucast (MaxPacketSize c) > MaxQueuedBytesTotal l)
         (CannotExceed ''max packet size'' ''total queued byte limit''),
       failing (ucast (MaxControlPayload l) > MaxQueuedBytesTotal l)
         (CannotExceed ''max control payload'' ''total queued byte limit'')])"

section \<open>Validation\<close>

lemma first_error_None [simp]: "first_error es = None \<longleftrightarrow> list_all (\<lambda>e. e = None) es"
  by (induction es rule: first_error.induct) auto

lemma check_bound_None [simp]: "check_bound name v m = None \<longleftrightarrow> v \<noteq> 0 \<and> v \<le> m"
  by (auto simp: check_bound_def not_less)

lemma failing_None [simp]: "failing b e = None \<longleftrightarrow> \<not> b"
  by (simp add: failing_def)

lemma or_default_idem [simp]: "or_default (or_default v d) d = or_default v d"
  by (simp add: or_default_def)

lemma Limits_withDefaults_idem [simp]:
  "Limits_withDefaults (Limits_withDefaults l) = Limits_withDefaults l"
  by (simp add: Limits_withDefaults_def)

lemma Config_withDefaults_idem [simp]:
  "Config_withDefaults (Config_withDefaults c) = Config_withDefaults c"
  by (simp add: Config_withDefaults_def)

text \<open>
  \<open>valid_config\<close>: the bounds of an effective configuration, as a specification that does
  not mention defaults or the order of checks.
\<close>

definition within_hard_maxima :: "Limits \<Rightarrow> bool" where
  "within_hard_maxima l \<longleftrightarrow>
     0 < MaxChannels l \<and> MaxChannels l \<le> 1024 \<and>
     0 < MaxPendingOpens l \<and> MaxPendingOpens l \<le> MaxChannels l \<and>
     0 < MaxPendingChannelRequestsPerChannel l \<and> MaxPendingChannelRequestsPerChannel l \<le> 1024 \<and>
     MaxPendingChannelRequestsPerChannel l \<le> MaxPendingChannelRequests l \<and>
     MaxPendingChannelRequests l \<le> 16384 \<and>
     0 < MaxPendingGlobalRequests l \<and> MaxPendingGlobalRequests l \<le> 2048 \<and>
     0 < MaxQueuedFramesPerChannel l \<and> MaxQueuedFramesPerChannel l \<le> 4096 \<and>
     MaxQueuedFramesPerChannel l \<le> MaxQueuedFramesTotal l \<and> MaxQueuedFramesTotal l \<le> 65536 \<and>
     0 < MaxQueuedBytesPerChannel l \<and> MaxQueuedBytesPerChannel l \<le> 8388608 \<and>
     MaxQueuedBytesPerChannel l \<le> MaxQueuedBytesTotal l \<and> MaxQueuedBytesTotal l \<le> 67108864 \<and>
     0 < MaxControlPayload l \<and> MaxControlPayload l \<le> 24576 \<and>
     0 < MaxTypeLength l \<and> MaxTypeLength l \<le> 256 \<and>
     0 < MaxCodeLength l \<and> MaxCodeLength l \<le> 128 \<and>
     0 < MaxMessageLength l \<and> MaxMessageLength l \<le> 4096"

definition valid_config :: "Config \<Rightarrow> bool" where
  "valid_config c \<longleftrightarrow>
     0 < MaxPacketSize c \<and> MaxPacketSize c \<le> InitialWindow c \<and> MaxPacketSize c \<le> 24576 \<and>
     0 < WindowAdjustThreshold c \<and> WindowAdjustThreshold c \<le> InitialWindow c \<and>
     InitialWindow c < 0xFFFFFFFF \<and>
     0 \<le> DisconnectTimeout c \<and> 0 < ChannelCloseTimeout c \<and>
     within_hard_maxima (cfg_Limits c) \<and>
     unat (MaxPacketSize c) \<le> unat (MaxQueuedBytesPerChannel (cfg_Limits c)) \<and>
     unat (MaxControlPayload (cfg_Limits c)) \<le> unat (MaxQueuedBytesTotal (cfg_Limits c))"

lemma Limits_Validate_iff:
  "Limits_Validate l = None \<longleftrightarrow> within_hard_maxima (Limits_withDefaults l)"
  unfolding Limits_Validate_def within_hard_maxima_def Let_def hardLimits_def
  by (auto simp: not_less word_gt_0 intro: order.trans)

lemma effective_Limits_Validate:
  "Limits_Validate (cfg_Limits (Config_withDefaults c)) = None
     \<longleftrightarrow> within_hard_maxima (cfg_Limits (Config_withDefaults c))"
  by (simp add: Limits_Validate_iff) (simp add: Config_withDefaults_def)

lemma valid_config_checks:
  assumes "within_hard_maxima (cfg_Limits c)"
  shows "valid_config c \<longleftrightarrow>
     InitialWindow c \<noteq> 0 \<and> MaxPacketSize c \<noteq> 0 \<and> MaxPacketSize c \<le> InitialWindow c \<and>
     MaxPacketSize c \<le> 24576 \<and> WindowAdjustThreshold c \<noteq> 0 \<and>
     WindowAdjustThreshold c \<le> InitialWindow c \<and> InitialWindow c \<noteq> 0xFFFFFFFF \<and>
     0 \<le> DisconnectTimeout c \<and> 0 < ChannelCloseTimeout c \<and>
     ucast (MaxPacketSize c) \<le> MaxQueuedBytesPerChannel (cfg_Limits c) \<and>
     ucast (MaxPacketSize c) \<le> MaxQueuedBytesTotal (cfg_Limits c) \<and>
     ucast (MaxControlPayload (cfg_Limits c)) \<le> MaxQueuedBytesTotal (cfg_Limits c)"
proof -
  have "InitialWindow c < 0xFFFFFFFF \<longleftrightarrow> InitialWindow c \<noteq> 0xFFFFFFFF"
    using unat_u32_less [of "InitialWindow c"] by (auto simp: word_less_nat_alt word_unat_eq_iff)
  moreover have "InitialWindow c \<noteq> 0"
    if "MaxPacketSize c \<noteq> 0" "unat (MaxPacketSize c) \<le> unat (InitialWindow c)"
    using that by (auto simp: unat_eq_0)
  ultimately show ?thesis
    using assms unfolding valid_config_def within_hard_maxima_def
    by (auto simp: word_gt_0 word_le_nat_alt)
qed

text \<open>
  C22: \<open>Config.Validate\<close> accepts exactly the configurations whose effective values (after
  defaults) are within the compiled hard maxima, keep a packet within the window, the wire
  maximum and the queue budgets, and leave a window below \<open>MaxUint32\<close>.
\<close>

theorem Config_Validate_exact:
  "Config_Validate c = None \<longleftrightarrow> valid_config (Config_withDefaults c)"
proof (cases "within_hard_maxima (cfg_Limits (Config_withDefaults c))")
  case True
  then show ?thesis
    using effective_Limits_Validate [of c]
    by (simp add: valid_config_checks) (simp add: Config_Validate_def Let_def not_less not_le hardLimits_def)
next
  case False
  then show ?thesis
    using effective_Limits_Validate [of c]
    by (simp add: Config_Validate_def Let_def) (simp add: valid_config_def)
qed

text \<open>
  Filling in defaults does not change the verdict, so validating before or after
  \<open>withDefaults\<close> is the same, and an empty configuration is valid.
\<close>

lemma Config_Validate_withDefaults [simp]:
  "Config_Validate (Config_withDefaults c) = Config_Validate c"
  by (simp add: Config_Validate_def)

end
