(* ===== verification/Session_Types.thy ===== *)
theory Session_Types
  imports Session_Config
begin

text \<open>
  The data of \<open>lib/session\<close>: errors, the messages of \<open>proto/session/session.proto\<close> with their
  validation rules, the channel and session objects and the helpers that only read or
  validate.  Channel objects live in a heap keyed by their local id, which the source never
  reuses, so a pointer to a channel is its id; outbound writes live in a second heap.
  A Go error is an option whose \<open>None\<close> is nil.  The message structs the peer sends are never
  nil here: the decoder always allocates the selected variant of a oneof.
\<close>

section \<open>Errors\<close>

text \<open>
  \<open>ProtocolError\<close> is the \<open>protocolError\<close> type, whose formatted message is represented by its
  format string.  \<open>Errorf\<close> stands for \<open>eris.New\<close> and \<open>eris.Errorf\<close>, \<open>Wrapped\<close> for \<open>eris.Wrap\<close>.
\<close>

datatype serr =
    ProtocolError string
  | ErrSessionNotActive
  | ErrSessionClosed
  | ErrChannelClosed
  | ErrChannelWriteEOF
  | ErrResourceLimit
  | Canceled
  | DeadlineExceeded
  | IoEOF
  | Errorf string
  | Wrapped string serr
  | ConnError nat

text \<open>\<open>eris.Is\<close>: the error or one it wraps is the target.\<close>

fun eris_Is :: "serr \<Rightarrow> serr \<Rightarrow> bool" where
  "eris_Is (Wrapped m e) target = (Wrapped m e = target \<or> eris_Is e target)"
| "eris_Is e target = (e = target)"

section \<open>Messages\<close>

record ChannelOpen =
  co_channel_type :: string
  co_sender_channel_id :: u64
  co_initial_window :: u32
  co_max_packet_size :: u32
  co_payload :: bytes

datatype ChannelOpenOutcome =
    OpenAccept u64 u32 u32 bytes
  | OpenReject string string bytes

datatype OperationOutcome =
    OpSuccess bytes
  | OpReject string string bytes

record ChannelRequestMsg =
  cr_recipient_channel_id :: u64
  cr_request_id :: u64
  cr_request_type :: string
  cr_want_reply :: bool
  cr_payload :: bytes

record GlobalRequestMsg =
  gr_request_id :: u64
  gr_request_type :: string
  gr_want_reply :: bool
  gr_payload :: bytes

datatype Envelope =
    KindChannelOpen ChannelOpen
  | KindChannelOpenResult u64 "ChannelOpenOutcome option"
  | KindChannelData u64 bytes
  | KindChannelWindowAdjust u64 u32
  | KindChannelEof u64
  | KindChannelClose u64
  | KindChannelRequest ChannelRequestMsg
  | KindChannelResult u64 u64 "OperationOutcome option"
  | KindGlobalRequest GlobalRequestMsg
  | KindGlobalResult u64 "OperationOutcome option"
  | KindDisconnect string string
  | KindUnset

text \<open>The \<open>buf.validate\<close> rules of the schema, as \<open>protovalidate\<close> applies them.\<close>

definition valid_packet_size :: "u32 \<Rightarrow> bool" where
  "valid_packet_size n \<longleftrightarrow> 0 < n \<and> n \<le> 24576"

fun valid_open_outcome :: "ChannelOpenOutcome \<Rightarrow> bool" where
  "valid_open_outcome (OpenAccept sid win pkt payload) =
     (0 < win \<and> valid_packet_size pkt \<and> len_in 0 24576 payload)"
| "valid_open_outcome (OpenReject code msg payload) =
     (runes_in 0 128 code \<and> runes_in 1 4096 msg \<and> len_in 0 24576 payload)"

fun valid_operation_outcome :: "OperationOutcome \<Rightarrow> bool" where
  "valid_operation_outcome (OpSuccess payload) = len_in 0 24576 payload"
| "valid_operation_outcome (OpReject code msg payload) =
     (runes_in 0 128 code \<and> runes_in 1 4096 msg \<and> len_in 0 24576 payload)"

fun valid_required :: "('a \<Rightarrow> bool) \<Rightarrow> 'a option \<Rightarrow> bool" where
  "valid_required P None = False"
| "valid_required P (Some x) = P x"

fun valid_Envelope :: "Envelope \<Rightarrow> bool" where
  "valid_Envelope (KindChannelOpen m) =
     (runes_in 1 256 (co_channel_type m) \<and> 0 < co_initial_window m
       \<and> valid_packet_size (co_max_packet_size m) \<and> len_in 0 24576 (co_payload m))"
| "valid_Envelope (KindChannelOpenResult _ r) = valid_required valid_open_outcome r"
| "valid_Envelope (KindChannelData _ d) = len_in 1 24576 d"
| "valid_Envelope (KindChannelWindowAdjust _ n) = (0 < n)"
| "valid_Envelope (KindChannelEof _) = True"
| "valid_Envelope (KindChannelClose _) = True"
| "valid_Envelope (KindChannelRequest m) =
     (runes_in 1 256 (cr_request_type m) \<and> len_in 0 24576 (cr_payload m))"
| "valid_Envelope (KindChannelResult _ _ r) = valid_required valid_operation_outcome r"
| "valid_Envelope (KindGlobalRequest m) =
     (runes_in 1 256 (gr_request_type m) \<and> len_in 0 24576 (gr_payload m))"
| "valid_Envelope (KindGlobalResult _ r) = valid_required valid_operation_outcome r"
| "valid_Envelope (KindDisconnect code msg) = (runes_in 0 128 code \<and> runes_in 1 4096 msg)"
| "valid_Envelope KindUnset = False"

text \<open>
  \<open>proto.Size\<close> belongs to the protobuf runtime; the operations that charge a message take it
  as the argument \<open>sz\<close>.
\<close>

datatype proto_message =
    PEnvelope Envelope
  | PChannelOpen ChannelOpen
  | PChannelRequest ChannelRequestMsg
  | PGlobalRequest GlobalRequestMsg

type_synonym proto_size = "proto_message \<Rightarrow> u64"

section \<open>Handlers\<close>

text \<open>
  Application handlers are outside the package: a handler is a reference, and the decision it
  returns is an argument of the operation that consumes it.  Reference \<open>None\<close> is
  \<open>rejectAllChannelHandler\<close>.
\<close>

type_synonym handler_ref = "nat option"

record ChannelOpenDecision =
  cd_OK :: bool
  cd_Payload :: bytes
  cd_Code :: string
  cd_Message :: string
  cd_Handler :: handler_ref

record Response =
  rs_OK :: bool
  rs_Payload :: bytes
  rs_Code :: string
  rs_Message :: string

definition rejectAllHandler_OnChannelOpen :: ChannelOpenDecision where
  "rejectAllHandler_OnChannelOpen =
    \<lparr>cd_OK = False, cd_Payload = [], cd_Code = ''unsupported-channel-open'',
     cd_Message = ''incoming channel opens are not supported'', cd_Handler = None\<rparr>"

definition rejectAllHandler_OnGlobalRequest :: Response where
  "rejectAllHandler_OnGlobalRequest =
    \<lparr>rs_OK = False, rs_Payload = [], rs_Code = ''unsupported-global-request'',
     rs_Message = ''global requests are not supported''\<rparr>"

definition rejectAllChannelHandler_OnRequest :: Response where
  "rejectAllChannelHandler_OnRequest =
    \<lparr>rs_OK = False, rs_Payload = [], rs_Code = ''unsupported-channel-request'',
     rs_Message = ''channel requests are not supported''\<rparr>"

section \<open>Channels\<close>

datatype channelState =
    channelOpening
  | channelOpen
  | channelLocalEOF
  | channelRemoteEOF
  | channelBothEOF
  | channelClosing
  | channelClosed
  | channelFailed

fun allowsRequests :: "channelState \<Rightarrow> bool" where
  "allowsRequests st = (st \<in> {channelOpen, channelLocalEOF, channelRemoteEOF, channelBothEOF})"

fun canSendData :: "channelState \<Rightarrow> bool" where
  "canSendData st = (st = channelOpen \<or> st = channelRemoteEOF)"

fun canReceiveData :: "channelState \<Rightarrow> bool" where
  "canReceiveData st = (st = channelOpen \<or> st = channelLocalEOF)"

fun readEOF :: "channelState \<Rightarrow> bool" where
  "readEOF st = (st \<in> {channelRemoteEOF, channelBothEOF, channelClosing, channelClosed})"

datatype channelSlot = channelSlotNone | channelSlotPending | channelSlotActive

datatype channelEvent =
    channelEventRequest ChannelRequestMsg u64
  | channelEventEOF u64
  | channelEventClose u64

primrec event_size :: "channelEvent \<Rightarrow> u64" where
  "event_size (channelEventRequest _ n) = n"
| "event_size (channelEventEOF n) = n"
| "event_size (channelEventClose n) = n"

text \<open>
  A wait result: the response or the error.  A result channel has one slot; \<open>put_slot\<close> is the
  non-blocking send that drops the value when the slot is taken.
\<close>

type_synonym wait_result = "Response option \<times> serr option"

definition put_slot :: "'a \<Rightarrow> 'a option \<Rightarrow> 'a option" where
  "put_slot v slot = (case slot of None \<Rightarrow> Some v | Some w \<Rightarrow> Some w)"

text \<open>
  \<open>openWait\<close> is nil or not (\<open>ch_openWait\<close>) and has a slot; the waiter of request \<open>n\<close> is the
  slot \<open>ch_results n\<close>, since request ids are not reused.  \<open>ch_stateGen\<close> counts the closed
  generations of \<open>stateCh\<close>.
\<close>

record Channel =
  ch_peerID :: u64
  ch_typ :: string
  ch_slot :: channelSlot
  ch_cause :: "serr option"
  ch_state :: channelState
  ch_openWait :: bool
  ch_openSlot :: "serr option option"
  ch_localWindow :: u32
  ch_remoteWindow :: u32
  ch_maxLocalPacket :: u32
  ch_maxRemotePacket :: u32
  ch_pendingWindowBytes :: u32
  ch_nextRequestID :: u64
  ch_pendingRequests :: "u64 list"
  ch_results :: "u64 \<rightharpoonup> wait_result"
  ch_incomingRequestIDs :: "u64 list"
  ch_frames :: "bytes list"
  ch_queuedFrames :: u32
  ch_queuedBytes :: u64
  ch_sessionErr :: "serr option"
  ch_handler :: handler_ref
  ch_stateGen :: nat
  ch_events :: "channelEvent list"

definition zeroChannel :: Channel where
  "zeroChannel = \<lparr>ch_peerID = 0, ch_typ = [], ch_slot = channelSlotNone, ch_cause = None,
     ch_state = channelOpening, ch_openWait = False, ch_openSlot = None,
     ch_localWindow = 0, ch_remoteWindow = 0, ch_maxLocalPacket = 0, ch_maxRemotePacket = 0,
     ch_pendingWindowBytes = 0, ch_nextRequestID = 0, ch_pendingRequests = [],
     ch_results = Map.empty, ch_incomingRequestIDs = [], ch_frames = [],
     ch_queuedFrames = 0, ch_queuedBytes = 0, ch_sessionErr = None, ch_handler = None,
     ch_stateGen = 0, ch_events = []\<rparr>"

section \<open>Session\<close>

datatype writeState = writeQueued | writeStarted | writeCanceled | writeDone

text \<open>The three closures the source passes as \<open>after\<close>.\<close>

datatype after =
    AfterStartWorker u64
  | AfterFinishGlobal u64
  | AfterFinishRequest u64 u64

record outboundWrite =
  ow_envelope :: Envelope
  ow_hasResult :: bool
  ow_result :: "serr option option"
  ow_after :: "after option"
  ow_size :: u64
  ow_state :: writeState

datatype dispatchTask =
    dispatchChannelOpen ChannelOpen
  | dispatchGlobalRequest GlobalRequestMsg

fun task_size :: "proto_size \<Rightarrow> dispatchTask \<Rightarrow> u64" where
  "task_size sz (dispatchChannelOpen m) = sz (PChannelOpen m)"
| "task_size sz (dispatchGlobalRequest m) = sz (PGlobalRequest m)"

text \<open>The \<open>go\<close> statements of the package, as work that has been spawned.\<close>

datatype goroutine =
    GoShutdown serr
  | GoFinalize "serr option"
  | GoWorker u64
  | GoCloseTimeout u64

record Session =
  s_config :: Config
  s_cause :: "serr option"
  s_activated :: bool
  s_nextLocalChannelID :: u64
  s_heap :: "u64 \<rightharpoonup> Channel"
  s_channels :: "u64 list"
  s_peerChannelIDs :: "u64 \<rightharpoonup> u64"
  s_activeChannels :: u32
  s_pendingOpens :: u32
  s_nextGlobalRequestID :: u64
  s_pendingGlobal :: "u64 list"
  s_globalResults :: "u64 \<rightharpoonup> wait_result"
  s_incomingGlobalRequests :: "u64 list"
  s_pendingChannelRequests :: u32
  s_waitErr :: "serr option"
  s_closeErr :: "serr option"
  s_closing :: bool
  s_queuedFrames :: u32
  s_queuedBytes :: u64
  s_queuesClosed :: bool
  s_dispatchQueue :: "dispatchTask list"
  s_controlQueue :: "nat list"
  s_outboundQueue :: "nat list"
  s_writes :: "nat \<rightharpoonup> outboundWrite"
  s_nextWrite :: nat
  s_spawned :: "goroutine list"

abbreviation limits :: "Session \<Rightarrow> Limits" where
  "limits s \<equiv> cfg_Limits (s_config s)"

text \<open>\<open>Prepared.Bind\<close>: the fresh session object over a live parent context.\<close>

definition Bind :: "Config \<Rightarrow> Session" where
  "Bind cfg = \<lparr>s_config = cfg, s_cause = None, s_activated = False,
     s_nextLocalChannelID = 0, s_heap = Map.empty, s_channels = [], s_peerChannelIDs = Map.empty,
     s_activeChannels = 0, s_pendingOpens = 0, s_nextGlobalRequestID = 0, s_pendingGlobal = [],
     s_globalResults = Map.empty, s_incomingGlobalRequests = [], s_pendingChannelRequests = 0,
     s_waitErr = None, s_closeErr = None, s_closing = False,
     s_queuedFrames = 0, s_queuedBytes = 0, s_queuesClosed = False,
     s_dispatchQueue = [], s_controlQueue = [], s_outboundQueue = [],
     s_writes = Map.empty, s_nextWrite = 0, s_spawned = []\<rparr>"

definition Prepare :: "Config \<Rightarrow> (config_error, Config) result" where
  "Prepare cfg = (case Config_Validate cfg of Some e \<Rightarrow> Inl e | None \<Rightarrow> Inr (Config_withDefaults cfg))"

definition Activate :: "Session \<Rightarrow> Session" where
  "Activate s = s\<lparr>s_activated := True\<rparr>"

definition chan :: "Session \<Rightarrow> u64 \<Rightarrow> Channel" where
  "chan s i = (case s_heap s i of Some c \<Rightarrow> c | None \<Rightarrow> zeroChannel)"

text \<open>Writing through a channel pointer.\<close>

definition mod_chan :: "u64 \<Rightarrow> (Channel \<Rightarrow> Channel) \<Rightarrow> Session \<Rightarrow> Session" where
  "mod_chan i f s =
    (case s_heap s i of None \<Rightarrow> s | Some c \<Rightarrow> s\<lparr>s_heap := (s_heap s)(i \<mapsto> f c)\<rparr>)"

section \<open>Reading and validating\<close>

definition closeCause :: "Session \<Rightarrow> serr" where
  "closeCause s =
    (case s_closeErr s of Some e \<Rightarrow> e
     | None \<Rightarrow> (case s_cause s of Some c \<Rightarrow> c | None \<Rightarrow> Canceled))"

definition ensureActive :: "Session \<Rightarrow> serr option" where
  "ensureActive s =
    (if \<not> s_activated s then Some ErrSessionNotActive
     else if s_cause s \<noteq> None then Some (closeCause s)
     else None)"

definition lookupChannel :: "u64 \<Rightarrow> Session \<Rightarrow> u64 option" where
  "lookupChannel i s = (if i \<in> set (s_channels s) then Some i else None)"

definition lookupChannelByPeer :: "u64 \<Rightarrow> Session \<Rightarrow> u64 option" where
  "lookupChannelByPeer p s =
    (case s_peerChannelIDs s p of None \<Rightarrow> None | Some i \<Rightarrow> lookupChannel i s)"

definition len32 :: "'a list \<Rightarrow> u32" where
  "len32 xs = of_nat (length xs)"

definition validateTypeAndPayload :: "Session \<Rightarrow> string \<Rightarrow> bytes \<Rightarrow> serr option" where
  "validateTypeAndPayload s typ payload =
    (if typ = [] then Some (Errorf ''request type is required'')
     else if len32 typ > MaxTypeLength (limits s) then Some (Errorf ''request type exceeds limit'')
     else if len32 payload > MaxControlPayload (limits s)
          then Some (Errorf ''control payload exceeds limit'')
     else None)"

definition validateResponse :: "Session \<Rightarrow> string \<Rightarrow> string \<Rightarrow> bytes \<Rightarrow> serr option" where
  "validateResponse s code message payload =
    (if len32 code > MaxCodeLength (limits s) then Some (Errorf ''response code exceeds limit'')
     else if len32 message > MaxMessageLength (limits s)
          then Some (Errorf ''response message exceeds limit'')
     else if len32 payload > MaxControlPayload (limits s)
          then Some (Errorf ''response payload exceeds limit'')
     else None)"

definition validateDecision :: "Session \<Rightarrow> ChannelOpenDecision \<Rightarrow> serr option" where
  "validateDecision s d = validateResponse s (cd_Code d) (cd_Message d) (cd_Payload d)"

definition normalizeReject :: "string \<Rightarrow> string \<Rightarrow> string" where
  "normalizeReject v fallback = (if v = [] then fallback else v)"

definition channelErrorLocked :: "Session \<Rightarrow> u64 \<Rightarrow> serr option" where
  "channelErrorLocked s i =
    (case ch_sessionErr (chan s i) of Some e \<Rightarrow> Some e | None \<Rightarrow> ch_cause (chan s i))"

end
