(* ===== verification/Session_Ops.thy ===== *)
theory Session_Ops
  imports Session_Types
begin

text \<open>
  The state-changing operations below the message handlers: the shared queue budget, the
  outbound queues, the channel tables, the per-channel queue accounting, and the two shutdown
  routines.  Every definition is the whole body of the source function of the same name.  The
  once-guard of \<open>shutdown\<close> is the field \<open>s_closing\<close>, which that function sets under the same
  guard; iterating over a Go map visits the keys in list order.
\<close>

section \<open>Queue budget\<close>

definition reserveQueueBudget :: "u32 \<Rightarrow> u64 \<Rightarrow> Session \<Rightarrow> serr option \<times> Session" where
  "reserveQueueBudget frames bytes s =
    (if frames > MaxQueuedFramesTotal (limits s) - s_queuedFrames s then (Some ErrResourceLimit, s)
     else if bytes > MaxQueuedBytesTotal (limits s) - s_queuedBytes s
          then (Some ErrResourceLimit, s)
     else (None, s\<lparr>s_queuedFrames := s_queuedFrames s + frames,
                    s_queuedBytes := s_queuedBytes s + bytes\<rparr>))"

definition releaseQueueBudget :: "u32 \<Rightarrow> u64 \<Rightarrow> Session \<Rightarrow> Session" where
  "releaseQueueBudget frames bytes s =
    s\<lparr>s_queuedFrames := (if frames > s_queuedFrames s then 0 else s_queuedFrames s - frames),
      s_queuedBytes := (if bytes > s_queuedBytes s then 0 else s_queuedBytes s - bytes)\<rparr>"

definition queueCapacity :: "Session \<Rightarrow> nat" where
  "queueCapacity s = unat (MaxQueuedFramesTotal (limits s))"

definition enqueueDispatch :: "proto_size \<Rightarrow> dispatchTask \<Rightarrow> Session \<Rightarrow> serr option \<times> Session" where
  "enqueueDispatch sz task s =
    (case reserveQueueBudget 1 (task_size sz task) s of
       (Some e, s1) \<Rightarrow> (Some e, s1)
     | (None, s1) \<Rightarrow>
         (if length (s_dispatchQueue s1) < queueCapacity s1
          then (None, s1\<lparr>s_dispatchQueue := s_dispatchQueue s1 @ [task]\<rparr>)
          else (Some ErrResourceLimit, releaseQueueBudget 1 (task_size sz task) s1)))"

section \<open>Outbound writes\<close>

definition newWrite :: "outboundWrite \<Rightarrow> Session \<Rightarrow> nat \<times> Session" where
  "newWrite msg s =
    (s_nextWrite s,
     s\<lparr>s_writes := (s_writes s)(s_nextWrite s \<mapsto> msg), s_nextWrite := Suc (s_nextWrite s)\<rparr>)"

definition write_size :: "Session \<Rightarrow> nat \<Rightarrow> u64" where
  "write_size s w = (case s_writes s w of Some m \<Rightarrow> ow_size m | None \<Rightarrow> 0)"

definition enqueueWrite :: "nat \<Rightarrow> bool \<Rightarrow> Session \<Rightarrow> serr option \<times> Session" where
  "enqueueWrite w control s =
    (case reserveQueueBudget 1 (write_size s w) s of
       (Some e, s1) \<Rightarrow> (Some e, s1)
     | (None, s1) \<Rightarrow>
         if s_queuesClosed s1
         then (Some (closeCause s1), releaseQueueBudget 1 (write_size s w) s1)
         else if control \<and> length (s_controlQueue s1) < queueCapacity s1
         then (None, s1\<lparr>s_controlQueue := s_controlQueue s1 @ [w]\<rparr>)
         else if \<not> control \<and> length (s_outboundQueue s1) < queueCapacity s1
         then (None, s1\<lparr>s_outboundQueue := s_outboundQueue s1 @ [w]\<rparr>)
         else (let s2 = releaseQueueBudget 1 (write_size s w) s1;
                   err = Errorf ''session outbound queue exhausted''
               in (Some err, s2\<lparr>s_spawned := s_spawned s2 @ [GoShutdown err]\<rparr>)))"

definition sendEnvelopeAsyncAfter ::
    "proto_size \<Rightarrow> Envelope \<Rightarrow> bool \<Rightarrow> after option \<Rightarrow> Session \<Rightarrow> serr option \<times> Session" where
  "sendEnvelopeAsyncAfter sz frame control aft s =
    (let (w, s1) = newWrite \<lparr>ow_envelope = frame, ow_hasResult = False, ow_result = None,
                             ow_after = aft, ow_size = sz (PEnvelope frame),
                             ow_state = writeQueued\<rparr> s
     in enqueueWrite w control s1)"

definition sendEnvelopeAsync ::
    "proto_size \<Rightarrow> Envelope \<Rightarrow> bool \<Rightarrow> Session \<Rightarrow> serr option \<times> Session" where
  "sendEnvelopeAsync sz frame control s = sendEnvelopeAsyncAfter sz frame control None s"

text \<open>
  \<open>sendEnvelopeAfter\<close> up to its wait: \<open>Inr w\<close> is the write the caller now waits for.  The
  three arms of the wait are separate operations: the result has arrived, the caller's context
  is done, the session's context is done.  The last two give up only while the write is queued.
\<close>

definition sendEnvelopeAfter ::
    "proto_size \<Rightarrow> Envelope \<Rightarrow> after option \<Rightarrow> Session \<Rightarrow> (serr, nat) result \<times> Session" where
  "sendEnvelopeAfter sz frame aft s =
    (case ensureActive s of
       Some e \<Rightarrow> (Inl e, s)
     | None \<Rightarrow>
         (let (w, s1) = newWrite \<lparr>ow_envelope = frame, ow_hasResult = True, ow_result = None,
                                  ow_after = aft, ow_size = sz (PEnvelope frame),
                                  ow_state = writeQueued\<rparr> s
          in case enqueueWrite w False s1 of
               (Some e, s2) \<Rightarrow> (Inl e, s2)
             | (None, s2) \<Rightarrow> (Inr w, s2)))"

definition sendWait_result :: "nat \<Rightarrow> Session \<Rightarrow> serr option option \<times> Session" where
  "sendWait_result w s =
    (case s_writes s w of
       None \<Rightarrow> (None, s)
     | Some m \<Rightarrow>
         (case ow_result m of
            None \<Rightarrow> (None, s)
          | Some r \<Rightarrow> (Some r, s\<lparr>s_writes := (s_writes s)(w \<mapsto> m\<lparr>ow_result := None\<rparr>)\<rparr>)))"

definition sendWait_cancel :: "serr \<Rightarrow> nat \<Rightarrow> Session \<Rightarrow> serr option option \<times> Session" where
  "sendWait_cancel e w s =
    (case s_writes s w of
       None \<Rightarrow> (None, s)
     | Some m \<Rightarrow>
         (if ow_state m = writeQueued
          then (Some (Some e), s\<lparr>s_writes := (s_writes s)(w \<mapsto> m\<lparr>ow_state := writeCanceled\<rparr>)\<rparr>)
          else (None, s)))"

section \<open>Channel and request tables\<close>

definition startChannelWorker :: "u64 \<Rightarrow> Session \<Rightarrow> Session" where
  "startChannelWorker i s = s\<lparr>s_spawned := s_spawned s @ [GoWorker i]\<rparr>"

definition reserveLocalChannelID :: "Session \<Rightarrow> (serr, u64) result \<times> Session" where
  "reserveLocalChannelID s =
    (if s_nextLocalChannelID s = - 1 then (Inl (Errorf ''local channel id space exhausted''), s)
     else (Inr (s_nextLocalChannelID s),
           s\<lparr>s_nextLocalChannelID := s_nextLocalChannelID s + 1\<rparr>))"

definition newPendingChannel :: "u64 \<Rightarrow> string \<Rightarrow> handler_ref \<Rightarrow> Session \<Rightarrow> Session" where
  "newPendingChannel i typ h s =
    s\<lparr>s_heap := (s_heap s)(i \<mapsto> zeroChannel\<lparr>ch_typ := typ, ch_cause := s_cause s,
        ch_state := channelOpening, ch_openWait := True, ch_handler := h\<rparr>)\<rparr>"

definition newIncomingChannel ::
    "u64 \<Rightarrow> u64 \<Rightarrow> string \<Rightarrow> u32 \<Rightarrow> u32 \<Rightarrow> handler_ref \<Rightarrow> Session \<Rightarrow> Session" where
  "newIncomingChannel i peerID typ remoteWindow maxRemotePacket h s =
    s\<lparr>s_heap := (s_heap s)(i \<mapsto> zeroChannel\<lparr>ch_peerID := peerID, ch_typ := typ,
        ch_cause := s_cause s, ch_state := channelOpening,
        ch_localWindow := InitialWindow (s_config s), ch_remoteWindow := remoteWindow,
        ch_maxLocalPacket := MaxPacketSize (s_config s), ch_maxRemotePacket := maxRemotePacket,
        ch_handler := h\<rparr>)\<rparr>"

definition addPendingChannel :: "u64 \<Rightarrow> u64 option \<Rightarrow> Session \<Rightarrow> serr option \<times> Session" where
  "addPendingChannel i peerID s =
    (if s_pendingOpens s \<ge> MaxPendingOpens (limits s)
        \<or> s_activeChannels s + s_pendingOpens s \<ge> MaxChannels (limits s)
     then (Some ErrResourceLimit, s)
     else if (case peerID of Some p \<Rightarrow> s_peerChannelIDs s p \<noteq> None | None \<Rightarrow> False)
     then (Some (ProtocolError ''received duplicate peer channel id''), s)
     else (let s1 = (case peerID of
                       Some p \<Rightarrow> s\<lparr>s_peerChannelIDs := (s_peerChannelIDs s)(p \<mapsto> i)\<rparr>
                     | None \<Rightarrow> s);
               s2 = mod_chan i (ch_slot_update (\<lambda>_. channelSlotPending)) s1
           in (None, s2\<lparr>s_channels := i # removeAll i (s_channels s2),
                        s_pendingOpens := s_pendingOpens s2 + 1\<rparr>)))"

definition reservePeerChannelID :: "u64 \<Rightarrow> u64 \<Rightarrow> Session \<Rightarrow> serr option \<times> Session" where
  "reservePeerChannelID peerID i s =
    (if s_peerChannelIDs s peerID \<noteq> None
     then (Some (ProtocolError ''received duplicate peer channel id''), s)
     else (None, s\<lparr>s_peerChannelIDs := (s_peerChannelIDs s)(peerID \<mapsto> i)\<rparr>))"

definition activateChannel :: "u64 \<Rightarrow> Session \<Rightarrow> serr option \<times> Session" where
  "activateChannel i s =
    (if ch_slot (chan s i) \<noteq> channelSlotPending
     then (Some (Errorf ''channel is not pending activation''), s)
     else if s_pendingOpens s = 0
     then (Some (Errorf ''pending channel accounting underflow''), s)
     else (None, mod_chan i (ch_slot_update (\<lambda>_. channelSlotActive))
            (s\<lparr>s_pendingOpens := s_pendingOpens s - 1,
               s_activeChannels := s_activeChannels s + 1\<rparr>)))"

definition removeChannel :: "u64 \<Rightarrow> Session \<Rightarrow> Session" where
  "removeChannel i s =
    (if i \<notin> set (s_channels s) then s
     else mod_chan i (ch_slot_update (\<lambda>_. channelSlotNone))
       (s\<lparr>s_channels := removeAll i (s_channels s),
          s_peerChannelIDs := (\<lambda>p. if s_peerChannelIDs s p = Some i then None
                                   else s_peerChannelIDs s p),
          s_pendingOpens := (if ch_slot (chan s i) = channelSlotPending \<and> s_pendingOpens s > 0
                             then s_pendingOpens s - 1 else s_pendingOpens s),
          s_activeChannels := (if ch_slot (chan s i) = channelSlotActive \<and> s_activeChannels s > 0
                               then s_activeChannels s - 1 else s_activeChannels s)\<rparr>))"

definition removeGlobalWaiter :: "u64 \<Rightarrow> Session \<Rightarrow> Session" where
  "removeGlobalWaiter rid s = s\<lparr>s_pendingGlobal := removeAll rid (s_pendingGlobal s)\<rparr>"

definition reservePendingChannelRequest :: "Session \<Rightarrow> serr option \<times> Session" where
  "reservePendingChannelRequest s =
    (if s_pendingChannelRequests s \<ge> MaxPendingChannelRequests (limits s)
     then (Some (Errorf ''pending channel request limit reached''), s)
     else (None, s\<lparr>s_pendingChannelRequests := s_pendingChannelRequests s + 1\<rparr>))"

definition releasePendingChannelRequest :: "Session \<Rightarrow> Session" where
  "releasePendingChannelRequest s =
    (if s_pendingChannelRequests s > 0
     then s\<lparr>s_pendingChannelRequests := s_pendingChannelRequests s - 1\<rparr> else s)"

definition finishIncomingGlobal :: "u64 \<Rightarrow> bool \<Rightarrow> Session \<Rightarrow> Session" where
  "finishIncomingGlobal rid wantReply s =
    (if \<not> wantReply then s
     else s\<lparr>s_incomingGlobalRequests := removeAll rid (s_incomingGlobalRequests s)\<rparr>)"

section \<open>Per-channel queues and requests\<close>

definition signalLocked :: "Channel \<Rightarrow> Channel" where
  "signalLocked c = c\<lparr>ch_stateGen := Suc (ch_stateGen c)\<rparr>"

definition cancelChannel :: "serr \<Rightarrow> Channel \<Rightarrow> Channel" where
  "cancelChannel e c = (if ch_cause c = None then c\<lparr>ch_cause := Some e\<rparr> else c)"

definition reserveQueuedLocked :: "u64 \<Rightarrow> u32 \<Rightarrow> u64 \<Rightarrow> Session \<Rightarrow> serr option \<times> Session" where
  "reserveQueuedLocked i frames bytes s =
    (if frames > MaxQueuedFramesPerChannel (limits s) - ch_queuedFrames (chan s i)
     then (Some ErrResourceLimit, s)
     else if bytes > MaxQueuedBytesPerChannel (limits s) - ch_queuedBytes (chan s i)
     then (Some ErrResourceLimit, s)
     else case reserveQueueBudget frames bytes s of
            (Some e, s1) \<Rightarrow> (Some e, s1)
          | (None, s1) \<Rightarrow>
              (None, mod_chan i (\<lambda>c. c\<lparr>ch_queuedFrames := ch_queuedFrames c + frames,
                                        ch_queuedBytes := ch_queuedBytes c + bytes\<rparr>) s1))"

definition releaseQueuedLocked :: "u64 \<Rightarrow> u32 \<Rightarrow> u64 \<Rightarrow> Session \<Rightarrow> Session" where
  "releaseQueuedLocked i frames bytes s =
    (let actualFrames = (if frames > ch_queuedFrames (chan s i) then ch_queuedFrames (chan s i)
                         else frames);
         actualBytes = (if bytes > ch_queuedBytes (chan s i) then ch_queuedBytes (chan s i)
                        else bytes)
     in releaseQueueBudget actualFrames actualBytes
          (mod_chan i (\<lambda>c. c\<lparr>ch_queuedFrames := ch_queuedFrames c - actualFrames,
                              ch_queuedBytes := ch_queuedBytes c - actualBytes\<rparr>) s))"

definition discardQueuedLocked :: "u64 \<Rightarrow> Session \<Rightarrow> Session" where
  "discardQueuedLocked i s =
    releaseQueueBudget (ch_queuedFrames (chan s i)) (ch_queuedBytes (chan s i))
      (mod_chan i (\<lambda>c. c\<lparr>ch_queuedFrames := 0, ch_queuedBytes := 0, ch_frames := []\<rparr>) s)"

definition failPendingRequestsLocked :: "u64 \<Rightarrow> serr \<Rightarrow> Session \<Rightarrow> Session" where
  "failPendingRequestsLocked i err s =
    (releasePendingChannelRequest ^^ length (ch_pendingRequests (chan s i)))
      (mod_chan i (\<lambda>c. c\<lparr>ch_results := (\<lambda>r. if r \<in> set (ch_pendingRequests c)
                                  then put_slot (None, Some err) (ch_results c r)
                                  else ch_results c r),
                          ch_pendingRequests := []\<rparr>) s)"

definition finishIncomingRequest :: "u64 \<Rightarrow> u64 \<Rightarrow> bool \<Rightarrow> Session \<Rightarrow> Session" where
  "finishIncomingRequest i rid wantReply s =
    (if \<not> wantReply then s
     else mod_chan i (\<lambda>c. c\<lparr>ch_incomingRequestIDs := removeAll rid (ch_incomingRequestIDs c)\<rparr>) s)"

definition removePendingRequest :: "u64 \<Rightarrow> u64 \<Rightarrow> Session \<Rightarrow> Session" where
  "removePendingRequest i rid s =
    (if rid \<in> set (ch_pendingRequests (chan s i))
     then releasePendingChannelRequest
            (mod_chan i (\<lambda>c. c\<lparr>ch_pendingRequests := removeAll rid (ch_pendingRequests c)\<rparr>) s)
     else s)"

section \<open>Shutdown\<close>

definition Channel_shutdown :: "u64 \<Rightarrow> serr option \<Rightarrow> Session \<Rightarrow> Session" where
  "Channel_shutdown i err0 s =
    (let err = (case err0 of None \<Rightarrow> ErrSessionClosed | Some e \<Rightarrow> e);
         s1 = mod_chan i (\<lambda>c. c\<lparr>
                ch_sessionErr := (if ch_sessionErr c = None then Some err else ch_sessionErr c),
                ch_state := (if ch_state c \<noteq> channelClosed then channelFailed else ch_state c)\<rparr>) s;
         s2 = discardQueuedLocked i s1;
         s3 = failPendingRequestsLocked i err s2
     in mod_chan i (\<lambda>c. cancelChannel err (signalLocked (c\<lparr>
            ch_openSlot := (if ch_openWait c then put_slot (Some err) (ch_openSlot c)
                            else ch_openSlot c),
            ch_openWait := False\<rparr>))) s3)"

text \<open>Canceling the session context cancels the context of every channel derived from it.\<close>

definition cancelSession :: "serr \<Rightarrow> Session \<Rightarrow> Session" where
  "cancelSession e s =
    (if s_cause s \<noteq> None then s
     else s\<lparr>s_cause := Some e, s_heap := (\<lambda>i. map_option (cancelChannel e) (s_heap s i))\<rparr>)"

definition Session_shutdown :: "proto_size \<Rightarrow> serr option \<Rightarrow> Session \<Rightarrow> Session" where
  "Session_shutdown sz err s =
    (if s_closing s then s
     else
       let closeErr = (case err of None \<Rightarrow> ErrSessionClosed | Some e \<Rightarrow> e);
           channels = s_channels s;
           pendingGlobal = s_pendingGlobal s;
           s1 = s\<lparr>s_waitErr := err, s_closeErr := Some closeErr, s_closing := True,
                  s_pendingGlobal := [], s_incomingGlobalRequests := [], s_channels := [],
                  s_peerChannelIDs := Map.empty, s_activeChannels := 0, s_pendingOpens := 0,
                  s_pendingChannelRequests := 0\<rparr>;
           s2 = (case err of
                   Some (ProtocolError _) \<Rightarrow>
                     snd (sendEnvelopeAsync sz (KindDisconnect ''protocol-error'' ''protocol error'')
                            True s1)
                 | _ \<Rightarrow> s1);
           s3 = cancelSession closeErr s2;
           s4 = fold (\<lambda>i. Channel_shutdown i (Some closeErr)) channels s3;
           s5 = s4\<lparr>s_globalResults := (\<lambda>r. if r \<in> set pendingGlobal
                     then put_slot (None, Some closeErr) (s_globalResults s4 r)
                     else s_globalResults s4 r)\<rparr>
       in s5\<lparr>s_queuesClosed := True, s_spawned := s_spawned s5 @ [GoFinalize err]\<rparr>)"

text \<open>The \<open>after\<close> closures.\<close>

fun run_after :: "after option \<Rightarrow> serr option \<Rightarrow> Session \<Rightarrow> Session" where
  "run_after None e s = s"
| "run_after (Some (AfterStartWorker i)) e s = (if e \<noteq> None then s else startChannelWorker i s)"
| "run_after (Some (AfterFinishGlobal rid)) e s = finishIncomingGlobal rid True s"
| "run_after (Some (AfterFinishRequest i rid)) e s = finishIncomingRequest i rid True s"

end
