(* ===== verification/Session_Handlers.thy ===== *)
theory Session_Handlers
  imports Session_Ops
begin

text \<open>
  The message handlers of \<open>session.go\<close> and \<open>channel.go\<close> and the calls applications make on a
  session or a channel.  A call that waits is cut at its waits: it returns either a value
  (\<open>Ret\<close>) or the wait it has reached (\<open>Block\<close>), and each arm of the wait is an operation of its
  own.  Between two waits an operation runs without interleaving.
\<close>

section \<open>Waits and results\<close>

text \<open>What a blocked \<open>sendEnvelope\<close> continues with, one constructor per call site.\<close>

datatype kont =
    KOpenChannel u64
  | KGlobalRequest u64 bool
  | KSend u64 bytes
  | KRecvAdjust bytes
  | KSendRequest u64 u64 bool
  | KCloseWrite u64 channelState
  | KOpenReject
  | KOpenAccept u64
  | KGlobalReply u64 bool
  | KChannelReply u64 u64 bool

datatype call =
    WaitSent nat kont
  | WaitOpen u64
  | WaitGlobal u64
  | WaitResponse u64 u64
  | WaitWindow u64 bytes nat
  | WaitFrame u64 nat

datatype retval =
    RetErr "serr option"
  | RetFrame bytes
  | RetChannel u64
  | RetResponse "Response option" "serr option"

datatype outcome = Ret retval | Block call

section \<open>Closing a channel\<close>

definition Channel_Close :: "proto_size \<Rightarrow> u64 \<Rightarrow> Session \<Rightarrow> serr option \<times> Session" where
  "Channel_Close sz i s =
    (case ch_state (chan s i) of
       channelClosing \<Rightarrow> (None, s)
     | channelClosed \<Rightarrow> (None, s)
     | channelFailed \<Rightarrow> (None, s)
     | channelOpening \<Rightarrow>
         (None, Channel_shutdown i (Some ErrChannelClosed)
           (removeChannel i (mod_chan i (\<lambda>c. signalLocked (c\<lparr>ch_state := channelFailed\<rparr>)) s)))
     | _ \<Rightarrow>
         (let s1 = mod_chan i (ch_state_update (\<lambda>_. channelClosing)) s;
              s2 = discardQueuedLocked i s1;
              s3 = failPendingRequestsLocked i ErrChannelClosed s2;
              peerID = ch_peerID (chan s3 i);
              s4 = mod_chan i (\<lambda>c. cancelChannel ErrChannelClosed (signalLocked c)) s3
          in case sendEnvelopeAsync sz (KindChannelClose peerID) True s4 of
               (Some e, s5) \<Rightarrow>
                 (Some e, Session_shutdown sz (Some (Wrapped ''enqueue channel close'' e)) s5)
             | (None, s5) \<Rightarrow> (None, s5\<lparr>s_spawned := s_spawned s5 @ [GoCloseTimeout i]\<rparr>)))"

definition awaitCloseTimeout_fire :: "u64 \<Rightarrow> Session \<Rightarrow> Session" where
  "awaitCloseTimeout_fire i s =
    (if ch_state (chan s i) \<noteq> channelClosing then s
     else removeChannel i (mod_chan i (\<lambda>c. signalLocked (c\<lparr>ch_state := channelClosed\<rparr>)) s))"

definition abandonOpen :: "proto_size \<Rightarrow> u64 \<Rightarrow> serr \<Rightarrow> Session \<Rightarrow> Session" where
  "abandonOpen sz i cause s =
    (if ch_state (chan s i) = channelOpening
     then Channel_shutdown i (Some cause) (removeChannel i
            (mod_chan i (\<lambda>c. signalLocked (c\<lparr>ch_state := channelFailed, ch_openWait := False\<rparr>)) s))
     else snd (Channel_Close sz i s))"

section \<open>Continuations of a sent envelope\<close>

text \<open>\<open>resume k e\<close>: the code after \<open>sendEnvelope\<close> returned \<open>e\<close> at call site \<open>k\<close>.\<close>

fun resume :: "proto_size \<Rightarrow> kont \<Rightarrow> serr option \<Rightarrow> Session \<Rightarrow> outcome \<times> Session" where
  "resume sz (KOpenChannel i) (Some e) s =
     (Ret (RetErr (Some e)), Channel_shutdown i (Some e) (removeChannel i s))"
| "resume sz (KOpenChannel i) None s = (Block (WaitOpen i), s)"
| "resume sz (KGlobalRequest rid wantReply) (Some e) s =
     (Ret (RetResponse None (Some e)), if wantReply then removeGlobalWaiter rid s else s)"
| "resume sz (KGlobalRequest rid wantReply) None s =
     (if \<not> wantReply then (Ret (RetResponse None None), s) else (Block (WaitGlobal rid), s))"
| "resume sz (KSend i frame) (Some e) s =
     (Ret (RetErr (Some e)),
      mod_chan i (\<lambda>c. if 0xFFFFFFFF - ch_remoteWindow c \<ge> len32 frame
                      then signalLocked (c\<lparr>ch_remoteWindow := ch_remoteWindow c + len32 frame\<rparr>)
                      else c) s)"
| "resume sz (KSend i frame) None s = (Ret (RetErr None), s)"
| "resume sz (KRecvAdjust frame) (Some e) s =
     (Ret (RetFrame frame),
      Session_shutdown sz (Some (Wrapped ''send channel window adjust'' e)) s)"
| "resume sz (KRecvAdjust frame) None s = (Ret (RetFrame frame), s)"
| "resume sz (KSendRequest i rid wantReply) (Some e) s =
     (Ret (RetResponse None (Some e)), if wantReply then removePendingRequest i rid s else s)"
| "resume sz (KSendRequest i rid wantReply) None s =
     (if \<not> wantReply then (Ret (RetResponse None None), s) else (Block (WaitResponse i rid), s))"
| "resume sz (KCloseWrite i previous) (Some e) s =
     (Ret (RetErr (Some e)),
      mod_chan i (\<lambda>c. if ch_state c = channelLocalEOF \<or> ch_state c = channelBothEOF
                      then signalLocked (c\<lparr>ch_state := previous\<rparr>) else c) s)"
| "resume sz (KCloseWrite i previous) None s = (Ret (RetErr None), s)"
| "resume sz KOpenReject e s = (Ret (RetErr e), s)"
| "resume sz (KOpenAccept i) (Some e) s =
     (Ret (RetErr (Some e)), Channel_shutdown i (Some e) (removeChannel i s))"
| "resume sz (KOpenAccept i) None s = (Ret (RetErr None), s)"
| "resume sz (KGlobalReply rid wantReply) e s =
     (Ret (RetErr e), finishIncomingGlobal rid wantReply s)"
| "resume sz (KChannelReply i rid wantReply) e s =
     (Ret (RetErr e), finishIncomingRequest i rid wantReply s)"

definition send_then ::
    "proto_size \<Rightarrow> Envelope \<Rightarrow> after option \<Rightarrow> kont \<Rightarrow> Session \<Rightarrow> outcome \<times> Session" where
  "send_then sz frame aft k s =
    (case sendEnvelopeAfter sz frame aft s of
       (Inl e, s1) \<Rightarrow> resume sz k (Some e) s1
     | (Inr w, s1) \<Rightarrow> (Block (WaitSent w k), s1))"

section \<open>Receiver: opening channels\<close>

definition sendChannelOpenRejectAsync ::
    "proto_size \<Rightarrow> u64 \<Rightarrow> string \<Rightarrow> string \<Rightarrow> Session \<Rightarrow> serr option \<times> Session" where
  "sendChannelOpenRejectAsync sz peerID code message s =
     sendEnvelopeAsync sz (KindChannelOpenResult peerID (Some (OpenReject code message []))) True s"

definition enqueueIncomingOpen ::
    "proto_size \<Rightarrow> ChannelOpen \<Rightarrow> Session \<Rightarrow> serr option \<times> Session" where
  "enqueueIncomingOpen sz m s =
    (case validateTypeAndPayload s (co_channel_type m) (co_payload m) of
       Some _ \<Rightarrow> (Some (ProtocolError ''invalid channel open''), s)
     | None \<Rightarrow>
    (case reserveLocalChannelID s of
       (Inl e, s1) \<Rightarrow> (Some e, s1)
     | (Inr i, s1) \<Rightarrow>
    (let s2 = newIncomingChannel i (co_sender_channel_id m) (co_channel_type m)
                (co_initial_window m) (co_max_packet_size m) None s1 in
     case addPendingChannel i (Some (co_sender_channel_id m)) s2 of
       (Some e, s3) \<Rightarrow>
         if eris_Is e ErrResourceLimit
         then sendChannelOpenRejectAsync sz (co_sender_channel_id m) ''resource-limit''
                ''channel limit reached'' s3
         else (Some e, s3)
     | (None, s3) \<Rightarrow>
    (case enqueueDispatch sz (dispatchChannelOpen m) s3 of
       (None, s4) \<Rightarrow> (None, s4)
     | (Some e, s4) \<Rightarrow>
         (let s5 = Channel_shutdown i (Some e) (removeChannel i s4)
          in if eris_Is e ErrResourceLimit
             then sendChannelOpenRejectAsync sz (co_sender_channel_id m) ''resource-limit''
                    ''channel queue limit reached'' s5
             else (Some e, s5))))))"

definition handleChannelOpenResult ::
    "proto_size \<Rightarrow> u64 \<Rightarrow> ChannelOpenOutcome option \<Rightarrow> Session \<Rightarrow> serr option \<times> Session" where
  "handleChannelOpenResult sz recipient result s =
    (case lookupChannel recipient s of
       None \<Rightarrow> (Some (ProtocolError ''received channel open result for unknown channel''), s)
     | Some i \<Rightarrow> (
       if ch_state (chan s i) \<noteq> channelOpening \<or> \<not> ch_openWait (chan s i)
       then (Some (ProtocolError ''received duplicate channel open result''), s)
       else
         let s1 = mod_chan i (ch_openWait_update (\<lambda>_. False)) s in
         case result of
           Some (OpenAccept sender window maxPacket payload) \<Rightarrow>
             (if len32 payload > MaxControlPayload (limits s)
              then (Some (ProtocolError ''channel open result payload exceeds configured limit''), s1)
              else (case reservePeerChannelID sender i s1 of
                     (Some e, s2) \<Rightarrow> (Some e, s2)
                   | (None, s2) \<Rightarrow>
                     (let s3 = mod_chan i (\<lambda>c. signalLocked (c\<lparr>
                            ch_peerID := sender,
                            ch_localWindow := InitialWindow (s_config s2),
                            ch_remoteWindow := window,
                            ch_maxLocalPacket := MaxPacketSize (s_config s2),
                            ch_maxRemotePacket := maxPacket,
                            ch_state := channelOpen\<rparr>)) s2
                      in case activateChannel i s3 of
                           (Some e, s4) \<Rightarrow> (Some e, s4)
                         | (None, s4) \<Rightarrow>
                             (None, mod_chan i (\<lambda>c. c\<lparr>ch_openSlot := put_slot None (ch_openSlot c)\<rparr>)
                                      (startChannelWorker i s4)))))
         | Some (OpenReject code message payload) \<Rightarrow>
             (case validateResponse s code message payload of
                Some _ \<Rightarrow> (Some (ProtocolError ''invalid channel open rejection''), s1)
              | None \<Rightarrow>
                (let openErr = Errorf ''channel open rejected'';
                     s2 = mod_chan i (\<lambda>c. signalLocked (c\<lparr>ch_state := channelFailed\<rparr>)) s1;
                     s3 = Channel_shutdown i (Some openErr) (removeChannel i s2)
                 in (None, mod_chan i
                       (\<lambda>c. c\<lparr>ch_openSlot := put_slot (Some openErr) (ch_openSlot c)\<rparr>) s3)))
         | None \<Rightarrow> (Some (ProtocolError ''received invalid channel open result''), s1)))"

section \<open>Receiver: data and flow control\<close>

definition handleChannelData :: "u64 \<Rightarrow> bytes \<Rightarrow> Session \<Rightarrow> serr option \<times> Session" where
  "handleChannelData recipient frame s =
    (case lookupChannel recipient s of
       None \<Rightarrow> (Some (ProtocolError ''received channel data for unknown channel''), s)
     | Some i \<Rightarrow> (
       if frame = [] then (Some (ProtocolError ''received empty channel data''), s)
       else if \<not> canReceiveData (ch_state (chan s i))
       then (Some (ProtocolError ''received channel data in wrong state''), s)
       else if len32 frame > ch_maxLocalPacket (chan s i)
       then (Some (ProtocolError ''peer exceeded channel max packet size''), s)
       else if len32 frame > ch_localWindow (chan s i)
       then (Some (ProtocolError ''peer exceeded channel window''), s)
       else case reserveQueuedLocked i 1 (ucast (len32 frame)) s of
              (Some e, s1) \<Rightarrow> (Some e, s1)
            | (None, s1) \<Rightarrow>
                (None, mod_chan i (\<lambda>c. signalLocked (c\<lparr>
                   ch_localWindow := ch_localWindow c - len32 frame,
                   ch_frames := ch_frames c @ [frame]\<rparr>)) s1)))"

definition handleChannelWindowAdjust :: "u64 \<Rightarrow> u32 \<Rightarrow> Session \<Rightarrow> serr option \<times> Session" where
  "handleChannelWindowAdjust recipient n s =
    (case lookupChannel recipient s of
       None \<Rightarrow> (Some (ProtocolError ''received channel window adjust for unknown channel''), s)
     | Some i \<Rightarrow>
       if \<not> allowsRequests (ch_state (chan s i))
       then (Some (ProtocolError ''received channel window adjust in wrong state''), s)
       else if 0xFFFFFFFF - ch_remoteWindow (chan s i) < n
       then (Some (ProtocolError ''channel remote window overflow''), s)
       else (None, mod_chan i (\<lambda>c. signalLocked (c\<lparr>ch_remoteWindow := ch_remoteWindow c + n\<rparr>)) s))"

section \<open>Receiver: requests and results\<close>

definition handleChannelResult ::
    "u64 \<Rightarrow> u64 \<Rightarrow> OperationOutcome option \<Rightarrow> Session \<Rightarrow> serr option \<times> Session" where
  "handleChannelResult recipient rid result s =
    (case lookupChannel recipient s of
       None \<Rightarrow> (Some (ProtocolError ''received channel result for unknown channel''), s)
     | Some i \<Rightarrow> (
       if rid \<notin> set (ch_pendingRequests (chan s i))
       then (Some (ProtocolError ''received channel result for unknown request''), s)
       else
         let s1 = releasePendingChannelRequest
                    (mod_chan i (\<lambda>c. c\<lparr>ch_pendingRequests := removeAll rid (ch_pendingRequests c)\<rparr>) s);
             deliver = (\<lambda>r. mod_chan i (\<lambda>c. c\<lparr>ch_results :=
                           (ch_results c)(rid := put_slot (Some r, None) (ch_results c rid))\<rparr>) s1)
         in case result of
              Some (OpSuccess payload) \<Rightarrow>
                (if len32 payload > MaxControlPayload (limits s)
                 then (Some (ProtocolError ''channel result payload exceeds configured limit''), s1)
                 else (None, deliver \<lparr>rs_OK = True, rs_Payload = payload, rs_Code = [], rs_Message = []\<rparr>))
            | Some (OpReject code message payload) \<Rightarrow>
                (if validateResponse s code message payload \<noteq> None
                 then (Some (ProtocolError ''invalid channel rejection''), s1)
                 else (None, deliver \<lparr>rs_OK = False, rs_Payload = payload, rs_Code = code,
                                      rs_Message = message\<rparr>))
            | None \<Rightarrow> (Some (ProtocolError ''received invalid channel result''), s1)))"

definition sendGlobalRejectAsync ::
    "proto_size \<Rightarrow> u64 \<Rightarrow> string \<Rightarrow> string \<Rightarrow> after option \<Rightarrow> Session \<Rightarrow> serr option \<times> Session" where
  "sendGlobalRejectAsync sz rid code message aft s =
     sendEnvelopeAsyncAfter sz (KindGlobalResult rid (Some (OpReject code message []))) True aft s"

definition enqueueGlobalRequest ::
    "proto_size \<Rightarrow> GlobalRequestMsg \<Rightarrow> Session \<Rightarrow> serr option \<times> Session" where
  "enqueueGlobalRequest sz m s =
    (if validateTypeAndPayload s (gr_request_type m) (gr_payload m) \<noteq> None
     then (Some (ProtocolError ''invalid global request''), s)
     else if gr_want_reply m \<and> gr_request_id m \<in> set (s_incomingGlobalRequests s)
     then (Some (ProtocolError ''received duplicate global request id''), s)
     else
       let s1 = (if gr_want_reply m
                 then s\<lparr>s_incomingGlobalRequests := gr_request_id m # s_incomingGlobalRequests s\<rparr>
                 else s)
       in case enqueueDispatch sz (dispatchGlobalRequest m) s1 of
            (None, s2) \<Rightarrow> (None, s2)
          | (Some e, s2) \<Rightarrow>
              if eris_Is e ErrResourceLimit \<and> gr_want_reply m
              then (case sendGlobalRejectAsync sz (gr_request_id m) ''resource-limit''
                           ''global request queue limit reached''
                           (Some (AfterFinishGlobal (gr_request_id m))) s2 of
                      (Some e2, s3) \<Rightarrow> (Some e2, finishIncomingGlobal (gr_request_id m) True s3)
                    | (None, s3) \<Rightarrow> (None, s3))
              else (Some e, finishIncomingGlobal (gr_request_id m) (gr_want_reply m) s2))"

definition handleGlobalResult ::
    "u64 \<Rightarrow> OperationOutcome option \<Rightarrow> Session \<Rightarrow> serr option \<times> Session" where
  "handleGlobalResult rid result s =
    (if rid \<notin> set (s_pendingGlobal s)
     then (Some (ProtocolError ''received global result for unknown request''), s)
     else
       let s1 = s\<lparr>s_pendingGlobal := removeAll rid (s_pendingGlobal s)\<rparr>;
           deliver = (\<lambda>r. s1\<lparr>s_globalResults :=
                        (s_globalResults s1)(rid := put_slot (Some r, None) (s_globalResults s1 rid))\<rparr>)
       in case result of
            Some (OpSuccess payload) \<Rightarrow>
              (if len32 payload > MaxControlPayload (limits s)
               then (Some (ProtocolError ''global result payload exceeds configured limit''), s1)
               else (None, deliver \<lparr>rs_OK = True, rs_Payload = payload, rs_Code = [], rs_Message = []\<rparr>))
          | Some (OpReject code message payload) \<Rightarrow>
              (if validateResponse s code message payload \<noteq> None
               then (Some (ProtocolError ''invalid global rejection''), s1)
               else (None, deliver \<lparr>rs_OK = False, rs_Payload = payload, rs_Code = code,
                                    rs_Message = message\<rparr>))
          | None \<Rightarrow> (Some (ProtocolError ''received invalid global result''), s1))"

definition handleDisconnect :: "string \<Rightarrow> string \<Rightarrow> Session \<Rightarrow> serr option \<times> Session" where
  "handleDisconnect code message s =
    (if validateResponse s code message [] \<noteq> None
     then (Some (ProtocolError ''invalid disconnect''), s)
     else if code \<noteq> [] then (Some (Errorf ''remote disconnect with code''), s)
     else (Some (Errorf ''remote disconnect''), s))"

definition sendChannelRejectAsync ::
    "proto_size \<Rightarrow> u64 \<Rightarrow> u64 \<Rightarrow> string \<Rightarrow> string \<Rightarrow> after option \<Rightarrow> Session \<Rightarrow> serr option \<times> Session" where
  "sendChannelRejectAsync sz peerID rid code message aft s =
     sendEnvelopeAsyncAfter sz (KindChannelResult peerID rid (Some (OpReject code message []))) True aft s"

definition eventCapacity :: "Session \<Rightarrow> nat" where
  "eventCapacity s = unat (MaxQueuedFramesPerChannel (limits s))"

definition push_event :: "channelEvent \<Rightarrow> Channel \<Rightarrow> Channel" where
  "push_event ev c = c\<lparr>ch_events := ch_events c @ [ev]\<rparr>"

text \<open>The resource-limit reply both branches of \<open>enqueueChannelRequest\<close> send.\<close>

definition rejectChannelRequest ::
    "proto_size \<Rightarrow> u64 \<Rightarrow> ChannelRequestMsg \<Rightarrow> Session \<Rightarrow> serr option \<times> Session" where
  "rejectChannelRequest sz i m s =
    (case sendChannelRejectAsync sz (ch_peerID (chan s i)) (cr_request_id m) ''resource-limit''
            ''channel request queue limit reached''
            (Some (AfterFinishRequest i (cr_request_id m))) s of
       (Some e, s1) \<Rightarrow> (Some e, finishIncomingRequest i (cr_request_id m) True s1)
     | (None, s1) \<Rightarrow> (None, s1))"

definition enqueueChannelRequest ::
    "proto_size \<Rightarrow> ChannelRequestMsg \<Rightarrow> Session \<Rightarrow> serr option \<times> Session" where
  "enqueueChannelRequest sz m s =
    (if validateTypeAndPayload s (cr_request_type m) (cr_payload m) \<noteq> None
     then (Some (ProtocolError ''invalid channel request''), s)
     else case lookupChannel (cr_recipient_channel_id m) s of
       None \<Rightarrow> (Some (ProtocolError ''received channel request for unknown channel''), s)
     | Some i \<Rightarrow> (
       let size = sz (PChannelRequest m) in
       if \<not> allowsRequests (ch_state (chan s i))
       then (Some (ProtocolError ''received channel request in wrong state''), s)
       else if cr_want_reply m \<and> cr_request_id m \<in> set (ch_incomingRequestIDs (chan s i))
       then (Some (ProtocolError ''received duplicate request id''), s)
       else
         let s1 = (if cr_want_reply m
                   then mod_chan i (\<lambda>c. c\<lparr>ch_incomingRequestIDs :=
                                       cr_request_id m # ch_incomingRequestIDs c\<rparr>) s
                   else s)
         in case reserveQueuedLocked i 1 size s1 of
              (Some e, s2) \<Rightarrow>
                (if eris_Is e ErrResourceLimit \<and> cr_want_reply m then rejectChannelRequest sz i m s2
                 else (Some e, finishIncomingRequest i (cr_request_id m) (cr_want_reply m) s2))
            | (None, s2) \<Rightarrow>
                (if length (ch_events (chan s2 i)) < eventCapacity s2
                 then (None, mod_chan i (push_event (channelEventRequest m size)) s2)
                 else
                   let s3 = releaseQueuedLocked i 1 size s2
                   in if cr_want_reply m then rejectChannelRequest sz i m s3
                      else (Some ErrResourceLimit, s3))))"

definition enqueueChannelEOF :: "u64 \<Rightarrow> Session \<Rightarrow> serr option \<times> Session" where
  "enqueueChannelEOF recipient s =
    (case lookupChannel recipient s of
       None \<Rightarrow> (Some (ProtocolError ''received channel EOF for unknown channel''), s)
     | Some i \<Rightarrow> (
       let finish = (\<lambda>st.
         let s1 = mod_chan i (\<lambda>c. signalLocked (c\<lparr>ch_state := st\<rparr>)) s
         in case reserveQueuedLocked i 1 1 s1 of
              (Some e, s2) \<Rightarrow> (Some e, s2)
            | (None, s2) \<Rightarrow>
                (if length (ch_events (chan s2 i)) < eventCapacity s2
                 then (None, mod_chan i (push_event (channelEventEOF 1)) s2)
                 else (Some ErrResourceLimit, releaseQueuedLocked i 1 1 s2)))
       in case ch_state (chan s i) of
            channelOpen \<Rightarrow> finish channelRemoteEOF
          | channelLocalEOF \<Rightarrow> finish channelBothEOF
          | channelRemoteEOF \<Rightarrow> (Some (ProtocolError ''received duplicate channel EOF''), s)
          | channelBothEOF \<Rightarrow> (Some (ProtocolError ''received duplicate channel EOF''), s)
          | _ \<Rightarrow> (Some (ProtocolError ''received channel EOF in wrong state''), s)))"

definition enqueueChannelClose :: "proto_size \<Rightarrow> u64 \<Rightarrow> Session \<Rightarrow> serr option \<times> Session" where
  "enqueueChannelClose sz recipient s =
    (case lookupChannel recipient s of
       None \<Rightarrow> (Some (ProtocolError ''received channel close for unknown channel''), s)
     | Some i \<Rightarrow> (
       if ch_state (chan s i) = channelClosing
       then (None, removeChannel i
              (mod_chan i (\<lambda>c. signalLocked (c\<lparr>ch_state := channelClosed\<rparr>)) s))
       else if ch_state (chan s i) = channelOpening
       then (Some (ProtocolError ''received channel close before channel was opened''), s)
       else if \<not> allowsRequests (ch_state (chan s i))
       then (Some (ProtocolError ''received duplicate channel close''), s)
       else
         let s1 = mod_chan i (\<lambda>c. signalLocked (c\<lparr>ch_state := channelClosed\<rparr>)) s;
             peerID = ch_peerID (chan s1 i)
         in case reserveQueuedLocked i 1 1 s1 of
              (Some e, s2) \<Rightarrow> (Some e, s2)
            | (None, s2) \<Rightarrow>
                (if length (ch_events (chan s2 i)) < eventCapacity s2
                 then
                   let s3 = mod_chan i (push_event (channelEventClose 1)) s2
                   in case sendEnvelopeAsync sz (KindChannelClose peerID) True s3 of
                        (Some e, s4) \<Rightarrow>
                          (Some (Wrapped ''enqueue channel close acknowledgement'' e), s4)
                      | (None, s4) \<Rightarrow> (None, removeChannel i s4)
                 else (Some ErrResourceLimit, releaseQueuedLocked i 1 1 s2))))"

section \<open>Receiver: dispatch on the envelope\<close>

fun routeEnvelope :: "proto_size \<Rightarrow> Envelope \<Rightarrow> Session \<Rightarrow> serr option \<times> Session" where
  "routeEnvelope sz (KindChannelOpen m) s = enqueueIncomingOpen sz m s"
| "routeEnvelope sz (KindChannelOpenResult i r) s = handleChannelOpenResult sz i r s"
| "routeEnvelope sz (KindChannelData i d) s = handleChannelData i d s"
| "routeEnvelope sz (KindChannelWindowAdjust i n) s = handleChannelWindowAdjust i n s"
| "routeEnvelope sz (KindChannelEof i) s = enqueueChannelEOF i s"
| "routeEnvelope sz (KindChannelClose i) s = enqueueChannelClose sz i s"
| "routeEnvelope sz (KindChannelRequest m) s = enqueueChannelRequest sz m s"
| "routeEnvelope sz (KindChannelResult i rid r) s = handleChannelResult i rid r s"
| "routeEnvelope sz (KindGlobalRequest m) s = enqueueGlobalRequest sz m s"
| "routeEnvelope sz (KindGlobalResult rid r) s = handleGlobalResult rid r s"
| "routeEnvelope sz (KindDisconnect code msg) s = handleDisconnect code msg s"
| "routeEnvelope sz KindUnset s = (Some (ProtocolError ''unsupported session frame''), s)"

end
