(* ===== verification/Session_Calls.thy ===== *)
theory Session_Calls
  imports Session_Handlers
begin

text \<open>
  The dispatch worker, the channel workers, the writer and the calls of the application:
  \<open>OpenChannel\<close>, \<open>SendGlobalRequest\<close>, \<open>Send\<close>, \<open>Recv\<close>, \<open>SendRequest\<close> and \<open>CloseWrite\<close>, each cut
  at its waits.
\<close>

section \<open>Dispatch worker\<close>

definition dispatch_take :: "proto_size \<Rightarrow> Session \<Rightarrow> dispatchTask option \<times> Session" where
  "dispatch_take sz s =
    (case s_dispatchQueue s of
       [] \<Rightarrow> (None, s)
     | task # rest \<Rightarrow>
         (Some task, releaseQueueBudget 1 (task_size sz task) (s\<lparr>s_dispatchQueue := rest\<rparr>)))"

text \<open>\<open>handleChannelOpen\<close> before and after the call of the application's \<open>OnChannelOpen\<close>.\<close>

definition handleChannelOpen_lookup :: "ChannelOpen \<Rightarrow> Session \<Rightarrow> (serr, u64) result" where
  "handleChannelOpen_lookup m s =
    (case lookupChannelByPeer (co_sender_channel_id m) s of
       None \<Rightarrow> Inl (ProtocolError ''pending channel disappeared during admission'')
     | Some i \<Rightarrow> Inr i)"

definition handleChannelOpen_decided ::
    "proto_size \<Rightarrow> ChannelOpen \<Rightarrow> u64 \<Rightarrow> ChannelOpenDecision \<Rightarrow> Session \<Rightarrow> outcome \<times> Session" where
  "handleChannelOpen_decided sz m i d s =
    (case validateDecision s d of
       Some e \<Rightarrow> (Ret (RetErr (Some e)), Channel_shutdown i (Some e) (removeChannel i s))
     | None \<Rightarrow> (
       if \<not> cd_OK d
       then send_then sz
              (KindChannelOpenResult (co_sender_channel_id m) (Some (OpenReject
                 (normalizeReject (cd_Code d) ''channel-open-rejected'')
                 (normalizeReject (cd_Message d) ''channel open rejected'')
                 (cd_Payload d)))) None KOpenReject
              (Channel_shutdown i (Some ErrChannelClosed) (removeChannel i s))
       else
         let s1 = mod_chan i (ch_handler_update (\<lambda>_. cd_Handler d)) s in
         if ch_state (chan s1 i) \<noteq> channelOpening
         then (Ret (RetErr (Some (ProtocolError ''channel changed state during admission''))), s1)
         else
           let s2 = mod_chan i (\<lambda>c. signalLocked (c\<lparr>ch_state := channelOpen\<rparr>)) s1 in
           case activateChannel i s2 of
             (Some e, s3) \<Rightarrow> (Ret (RetErr (Some e)), s3)
           | (None, s3) \<Rightarrow>
               send_then sz
                 (KindChannelOpenResult (co_sender_channel_id m) (Some (OpenAccept i
                    (InitialWindow (s_config s3)) (MaxPacketSize (s_config s3)) (cd_Payload d))))
                 (Some (AfterStartWorker i)) (KOpenAccept i) s3))"

definition operation_result :: "Response \<Rightarrow> string \<Rightarrow> string \<Rightarrow> OperationOutcome" where
  "operation_result r code message =
    (if rs_OK r then OpSuccess (rs_Payload r)
     else OpReject (normalizeReject (rs_Code r) code) (normalizeReject (rs_Message r) message)
            (rs_Payload r))"

definition handleGlobalRequest_responded ::
    "proto_size \<Rightarrow> GlobalRequestMsg \<Rightarrow> Response \<Rightarrow> Session \<Rightarrow> outcome \<times> Session" where
  "handleGlobalRequest_responded sz m r s =
    (if \<not> gr_want_reply m
     then (Ret (RetErr None), finishIncomingGlobal (gr_request_id m) (gr_want_reply m) s)
     else case validateResponse s (rs_Code r) (rs_Message r) (rs_Payload r) of
       Some e \<Rightarrow> (Ret (RetErr (Some e)), finishIncomingGlobal (gr_request_id m) (gr_want_reply m) s)
     | None \<Rightarrow>
         send_then sz (KindGlobalResult (gr_request_id m) (Some (operation_result r
             ''global-request-rejected'' ''global request rejected'')))
           None (KGlobalReply (gr_request_id m) (gr_want_reply m)) s)"

section \<open>Channel workers\<close>

definition worker_take :: "u64 \<Rightarrow> Session \<Rightarrow> channelEvent option \<times> Session" where
  "worker_take i s =
    (case ch_events (chan s i) of
       [] \<Rightarrow> (None, s)
     | ev # rest \<Rightarrow>
         (Some ev, releaseQueuedLocked i 1 (event_size ev)
                     (mod_chan i (ch_events_update (\<lambda>_. rest)) s)))"

definition handleRequest_responded ::
    "proto_size \<Rightarrow> u64 \<Rightarrow> ChannelRequestMsg \<Rightarrow> u64 \<Rightarrow> Response \<Rightarrow> Session \<Rightarrow> outcome \<times> Session" where
  "handleRequest_responded sz i m peerID r s =
    (if \<not> cr_want_reply m
     then (Ret (RetErr None), finishIncomingRequest i (cr_request_id m) (cr_want_reply m) s)
     else case validateResponse s (rs_Code r) (rs_Message r) (rs_Payload r) of
       Some e \<Rightarrow>
         (Ret (RetErr (Some e)), finishIncomingRequest i (cr_request_id m) (cr_want_reply m) s)
     | None \<Rightarrow>
         send_then sz (KindChannelResult peerID (cr_request_id m) (Some (operation_result r
             ''channel-request-rejected'' ''channel request rejected'')))
           None (KChannelReply i (cr_request_id m) (cr_want_reply m)) s)"

text \<open>\<open>handleRemoteClose\<close> before and after the call of \<open>OnClose\<close>; the first part yields \<open>cancelNow\<close>.\<close>

definition handleRemoteClose_begin :: "u64 \<Rightarrow> Session \<Rightarrow> bool \<times> Session" where
  "handleRemoteClose_begin i s =
    (let s1 = failPendingRequestsLocked i ErrChannelClosed s
     in (ch_frames (chan s1 i) = [], s1))"

definition handleRemoteClose_end :: "u64 \<Rightarrow> bool \<Rightarrow> Session \<Rightarrow> Session" where
  "handleRemoteClose_end i cancelNow s =
    (if cancelNow then mod_chan i (cancelChannel ErrChannelClosed) s else s)"

section \<open>Writer\<close>

text \<open>
  The writer prefers the control queue.  \<open>writer_begin\<close> is the part of the loop body before
  \<open>SendProto\<close>: the budget is returned and the write is started unless it was canceled, in which
  case its waiters hear \<open>context.Canceled\<close>.  \<open>writer_finish\<close> is the part after \<open>SendProto\<close>.
\<close>

definition put_result :: "nat \<Rightarrow> serr option \<Rightarrow> Session \<Rightarrow> Session" where
  "put_result w e s =
    (case s_writes s w of
       None \<Rightarrow> s
     | Some m \<Rightarrow>
         (if ow_hasResult m
          then s\<lparr>s_writes := (s_writes s)(w \<mapsto> m\<lparr>ow_result := put_slot e (ow_result m)\<rparr>)\<rparr>
          else s))"

definition set_write_state :: "nat \<Rightarrow> writeState \<Rightarrow> Session \<Rightarrow> Session" where
  "set_write_state w st s =
    (case s_writes s w of
       None \<Rightarrow> s
     | Some m \<Rightarrow> s\<lparr>s_writes := (s_writes s)(w \<mapsto> m\<lparr>ow_state := st\<rparr>)\<rparr>)"

definition write_after :: "Session \<Rightarrow> nat \<Rightarrow> after option" where
  "write_after s w = (case s_writes s w of Some m \<Rightarrow> ow_after m | None \<Rightarrow> None)"

definition writer_begin :: "nat \<Rightarrow> Session \<Rightarrow> bool \<times> Session" where
  "writer_begin w s =
    (let s1 = releaseQueueBudget 1 (write_size s w) s
     in if (case s_writes s1 w of Some m \<Rightarrow> ow_state m = writeQueued | None \<Rightarrow> False)
        then (True, set_write_state w writeStarted s1)
        else (False, put_result w (Some Canceled) (run_after (write_after s1 w) (Some Canceled) s1)))"

definition writer_take_control :: "Session \<Rightarrow> (nat \<times> bool) option \<times> Session" where
  "writer_take_control s =
    (case s_controlQueue s of
       [] \<Rightarrow> (None, s)
     | w # rest \<Rightarrow>
         (let (started, s1) = writer_begin w (s\<lparr>s_controlQueue := rest\<rparr>) in (Some (w, started), s1)))"

definition writer_take_outbound :: "Session \<Rightarrow> (nat \<times> bool) option \<times> Session" where
  "writer_take_outbound s =
    (case s_outboundQueue s of
       [] \<Rightarrow> (None, s)
     | w # rest \<Rightarrow>
         (let (started, s1) = writer_begin w (s\<lparr>s_outboundQueue := rest\<rparr>) in (Some (w, started), s1)))"

definition writer_finish :: "proto_size \<Rightarrow> nat \<Rightarrow> serr option \<Rightarrow> Session \<Rightarrow> Session" where
  "writer_finish sz w sendErr s =
    (let err = map_option (Wrapped ''send session envelope'') sendErr;
         s1 = run_after (write_after s w) err s;
         s2 = set_write_state w writeDone s1;
         s3 = put_result w err s2
     in if err \<noteq> None then Session_shutdown sz err s3 else s3)"

section \<open>Receiver\<close>

definition receiver_error :: "proto_size \<Rightarrow> serr \<Rightarrow> Session \<Rightarrow> Session" where
  "receiver_error sz err s =
    (if eris_Is err IoEOF then Session_shutdown sz None s
     else if s_cause s \<noteq> None then Session_shutdown sz (Some (closeCause s)) s
     else Session_shutdown sz (Some (Wrapped ''receive session frame'' err)) s)"

definition receiver_frame :: "proto_size \<Rightarrow> Envelope \<Rightarrow> Session \<Rightarrow> serr option \<times> Session" where
  "receiver_frame sz frame s =
    (case routeEnvelope sz frame s of
       (Some e, s1) \<Rightarrow> (Some e, Session_shutdown sz (Some e) s1)
     | (None, s1) \<Rightarrow> (None, s1))"

section \<open>Calls on the session\<close>

definition OpenChannelWithHandler ::
    "proto_size \<Rightarrow> string \<Rightarrow> bytes \<Rightarrow> handler_ref \<Rightarrow> Session \<Rightarrow> outcome \<times> Session" where
  "OpenChannelWithHandler sz typ payload h s =
    (case validateTypeAndPayload s typ payload of
       Some e \<Rightarrow> (Ret (RetErr (Some e)), s)
     | None \<Rightarrow>
    (case ensureActive s of
       Some e \<Rightarrow> (Ret (RetErr (Some e)), s)
     | None \<Rightarrow>
    (case reserveLocalChannelID s of
       (Inl e, s1) \<Rightarrow> (Ret (RetErr (Some e)), s1)
     | (Inr i, s1) \<Rightarrow>
    (case addPendingChannel i None (newPendingChannel i typ h s1) of
       (Some e, s2) \<Rightarrow> (Ret (RetErr (Some e)), s2)
     | (None, s2) \<Rightarrow>
         send_then sz (KindChannelOpen \<lparr>co_channel_type = typ, co_sender_channel_id = i,
             co_initial_window = InitialWindow (s_config s2),
             co_max_packet_size = MaxPacketSize (s_config s2), co_payload = payload\<rparr>)
           None (KOpenChannel i) s2))))"

definition waitOpen_result :: "u64 \<Rightarrow> Session \<Rightarrow> outcome option \<times> Session" where
  "waitOpen_result i s =
    (case ch_openSlot (chan s i) of
       None \<Rightarrow> (None, s)
     | Some r \<Rightarrow>
         (Some (Ret (case r of None \<Rightarrow> RetChannel i | Some e \<Rightarrow> RetErr (Some e))),
          mod_chan i (ch_openSlot_update (\<lambda>_. None)) s))"

definition waitOpen_canceled :: "proto_size \<Rightarrow> u64 \<Rightarrow> serr \<Rightarrow> Session \<Rightarrow> outcome \<times> Session" where
  "waitOpen_canceled sz i e s = (Ret (RetErr (Some e)), abandonOpen sz i e s)"

definition SendGlobalRequest ::
    "proto_size \<Rightarrow> string \<Rightarrow> bytes \<Rightarrow> bool \<Rightarrow> Session \<Rightarrow> outcome \<times> Session" where
  "SendGlobalRequest sz typ payload wantReply s =
    (case validateTypeAndPayload s typ payload of
       Some e \<Rightarrow> (Ret (RetResponse None (Some e)), s)
     | None \<Rightarrow>
    (case ensureActive s of
       Some e \<Rightarrow> (Ret (RetResponse None (Some e)), s)
     | None \<Rightarrow>
       if s_nextGlobalRequestID s = - 1
       then (Ret (RetResponse None (Some (Errorf ''global request id space exhausted''))), s)
       else
         let rid = s_nextGlobalRequestID s;
             s1 = s\<lparr>s_nextGlobalRequestID := rid + 1\<rparr>
         in if wantReply \<and> len32 (s_pendingGlobal s1) \<ge> MaxPendingGlobalRequests (limits s1)
            then (Ret (RetResponse None (Some (Errorf ''pending global request limit reached''))), s1)
            else
              let s2 = (if wantReply
                        then s1\<lparr>s_pendingGlobal := rid # s_pendingGlobal s1\<rparr> else s1)
              in send_then sz (KindGlobalRequest \<lparr>gr_request_id = rid, gr_request_type = typ,
                     gr_want_reply = wantReply, gr_payload = payload\<rparr>)
                   None (KGlobalRequest rid wantReply) s2))"

definition waitGlobal_result :: "u64 \<Rightarrow> Session \<Rightarrow> outcome option \<times> Session" where
  "waitGlobal_result rid s =
    (case s_globalResults s rid of
       None \<Rightarrow> (None, s)
     | Some (r, e) \<Rightarrow>
         (Some (Ret (RetResponse r e)), s\<lparr>s_globalResults := (s_globalResults s)(rid := None)\<rparr>))"

definition waitGlobal_canceled :: "u64 \<Rightarrow> serr \<Rightarrow> Session \<Rightarrow> outcome \<times> Session" where
  "waitGlobal_canceled rid e s = (Ret (RetResponse None (Some e)), removeGlobalWaiter rid s)"

section \<open>Calls on a channel\<close>

text \<open>One pass of the loop of \<open>Send\<close> after its two checks of the frame.\<close>

definition Send_pass :: "proto_size \<Rightarrow> u64 \<Rightarrow> bytes \<Rightarrow> Session \<Rightarrow> outcome \<times> Session" where
  "Send_pass sz i frame s =
    (case channelErrorLocked s i of
       Some e \<Rightarrow> (Ret (RetErr (Some e)), s)
     | None \<Rightarrow>
       let c = chan s i in
       if \<not> canSendData (ch_state c)
       then (Ret (RetErr (Some (if ch_state c = channelLocalEOF \<or> ch_state c = channelBothEOF
                                then ErrChannelWriteEOF else ErrChannelClosed))), s)
       else if length frame > unat (ch_maxRemotePacket c)
       then (Ret (RetErr (Some (Errorf ''channel frame exceeds remote max packet size''))), s)
       else if len32 frame \<le> ch_remoteWindow c
       then send_then sz (KindChannelData (ch_peerID c) frame) None (KSend i frame)
              (mod_chan i (\<lambda>c. c\<lparr>ch_remoteWindow := ch_remoteWindow c - len32 frame\<rparr>) s)
       else (Block (WaitWindow i frame (ch_stateGen c)), s))"

definition Send :: "proto_size \<Rightarrow> u64 \<Rightarrow> bytes \<Rightarrow> Session \<Rightarrow> outcome \<times> Session" where
  "Send sz i frame s =
    (if frame = [] then (Ret (RetErr (Some (Errorf ''empty channel data is not allowed''))), s)
     else if length frame > MaxUint32
     then (Ret (RetErr (Some (Errorf ''channel frame is too large''))), s)
     else Send_pass sz i frame s)"

definition waitWindow_closed :: "u64 \<Rightarrow> Session \<Rightarrow> outcome" where
  "waitWindow_closed i s =
    Ret (RetErr (Some (case channelErrorLocked s i of Some e \<Rightarrow> e | None \<Rightarrow> ErrChannelClosed)))"

text \<open>
  The locked part of \<open>Recv\<close> for a queued frame: it leaves the queue, its bytes return to the
  local window, and \<open>adjust\<close> is the window update to send (0 for none).
\<close>

definition recv_take :: "u64 \<Rightarrow> bytes \<Rightarrow> bytes list \<Rightarrow> Session \<Rightarrow> u32 \<times> Session" where
  "recv_take i frame rest s =
    (let s1 = releaseQueuedLocked i 1 (of_nat (length frame))
                (mod_chan i (ch_frames_update (\<lambda>_. rest)) s);
         size = len32 frame;
         pending = ch_pendingWindowBytes (chan s1 i) + size;
         adjust = (if pending \<ge> WindowAdjustThreshold (s_config s1) then pending else 0)
     in (adjust, mod_chan i (\<lambda>c. c\<lparr>ch_localWindow := ch_localWindow c + size,
           ch_pendingWindowBytes := (if pending \<ge> WindowAdjustThreshold (s_config s1)
                                     then 0 else pending)\<rparr>) s1))"

definition Recv_pass :: "proto_size \<Rightarrow> u64 \<Rightarrow> Session \<Rightarrow> outcome \<times> Session" where
  "Recv_pass sz i s =
    (let c = chan s i in
     case ch_frames c of
       frame # rest \<Rightarrow>
         (let (adjust, s1) = recv_take i frame rest s
          in if adjust > 0
             then send_then sz (KindChannelWindowAdjust (ch_peerID c) adjust) None
                    (KRecvAdjust frame) s1
             else (Ret (RetFrame frame), s1))
     | [] \<Rightarrow>
         if readEOF (ch_state c)
         then (Ret (RetErr (Some IoEOF)),
               if ch_state c = channelClosed then mod_chan i (cancelChannel ErrChannelClosed) s else s)
         else (case ch_sessionErr c of
                 Some e \<Rightarrow>
                   (Ret (RetErr (Some (if eris_Is e ErrSessionClosed then IoEOF else e))), s)
               | None \<Rightarrow> (Block (WaitFrame i (ch_stateGen c)), s)))"

definition waitFrame_closed :: "u64 \<Rightarrow> Session \<Rightarrow> outcome" where
  "waitFrame_closed i s =
    Ret (RetErr (Some (case channelErrorLocked s i of
        Some e \<Rightarrow> (if eris_Is e ErrSessionClosed \<or> eris_Is e ErrChannelClosed then IoEOF else e)
      | None \<Rightarrow> IoEOF)))"

definition SendRequest ::
    "proto_size \<Rightarrow> u64 \<Rightarrow> string \<Rightarrow> bytes \<Rightarrow> bool \<Rightarrow> Session \<Rightarrow> outcome \<times> Session" where
  "SendRequest sz i typ payload wantReply s =
    (let fail = (\<lambda>e s. (Ret (RetResponse None (Some e)), s)) in
     case validateTypeAndPayload s typ payload of
       Some e \<Rightarrow> fail e s
     | None \<Rightarrow>
    (case channelErrorLocked s i of
       Some e \<Rightarrow> fail e s
     | None \<Rightarrow>
       if \<not> allowsRequests (ch_state (chan s i)) then fail ErrChannelClosed s
       else if ch_nextRequestID (chan s i) = - 1
       then fail (Errorf ''channel request id space exhausted'') s
       else
         let rid = ch_nextRequestID (chan s i);
             s1 = mod_chan i (\<lambda>c. c\<lparr>ch_nextRequestID := ch_nextRequestID c + 1\<rparr>) s;
             frame = KindChannelRequest \<lparr>cr_recipient_channel_id = ch_peerID (chan s1 i),
                       cr_request_id = rid, cr_request_type = typ, cr_want_reply = wantReply,
                       cr_payload = payload\<rparr>
         in if \<not> wantReply then send_then sz frame None (KSendRequest i rid wantReply) s1
            else if len32 (ch_pendingRequests (chan s1 i))
                      \<ge> MaxPendingChannelRequestsPerChannel (limits s1)
            then fail (Errorf ''per-channel pending request limit reached'') s1
            else (case reservePendingChannelRequest s1 of
                    (Some e, s2) \<Rightarrow> fail e s2
                  | (None, s2) \<Rightarrow>
                      send_then sz frame None (KSendRequest i rid wantReply)
                        (mod_chan i (\<lambda>c. c\<lparr>ch_pendingRequests := rid # ch_pendingRequests c\<rparr>) s2))))"

definition waitResponse_result :: "u64 \<Rightarrow> u64 \<Rightarrow> Session \<Rightarrow> outcome option \<times> Session" where
  "waitResponse_result i rid s =
    (case ch_results (chan s i) rid of
       None \<Rightarrow> (None, s)
     | Some (r, e) \<Rightarrow>
         (Some (Ret (RetResponse r e)),
          mod_chan i (\<lambda>c. c\<lparr>ch_results := (ch_results c)(rid := None)\<rparr>) s))"

definition waitResponse_canceled :: "u64 \<Rightarrow> u64 \<Rightarrow> serr option \<Rightarrow> Session \<Rightarrow> outcome \<times> Session" where
  "waitResponse_canceled i rid e s = (Ret (RetResponse None e), removePendingRequest i rid s)"

definition CloseWrite :: "proto_size \<Rightarrow> u64 \<Rightarrow> Session \<Rightarrow> outcome \<times> Session" where
  "CloseWrite sz i s =
    (case channelErrorLocked s i of
       Some e \<Rightarrow> (Ret (RetErr (Some e)), s)
     | None \<Rightarrow> (
       let previous = ch_state (chan s i);
           finish = (\<lambda>st. send_then sz (KindChannelEof (ch_peerID (chan s i))) None
                            (KCloseWrite i previous)
                            (mod_chan i (\<lambda>c. signalLocked (c\<lparr>ch_state := st\<rparr>)) s))
       in case previous of
            channelOpen \<Rightarrow> finish channelLocalEOF
          | channelRemoteEOF \<Rightarrow> finish channelBothEOF
          | channelLocalEOF \<Rightarrow> (Ret (RetErr None), s)
          | channelBothEOF \<Rightarrow> (Ret (RetErr None), s)
          | _ \<Rightarrow> (Ret (RetErr (Some ErrChannelClosed)), s)))"

end
