(* ===== verification/Session_World.thy ===== *)
theory Session_World
  imports Session_Calls
begin

text \<open>
  One endpoint as a transition system: the session object together with its goroutines (the
  receiver, dispatch and writer loops of \<open>Bind\<close>, one worker per open channel, the spawned
  shutdown, finalize and close-timeout goroutines) and the application calls that are waiting.
  An action is one atomic segment of one goroutine or call, or an event of the environment:
  an envelope or an error from the connection, the result of a network write, the decision of
  an application handler, a canceled context, an expired timer.  \<open>exec\<close> performs an enabled
  action; \<open>reachable\<close> closes the initial state under it.
\<close>

datatype dispatcher =
    DIdle
  | DOpen ChannelOpen u64
  | DGlobal GlobalRequestMsg
  | DSending nat kont
  | DStopped

datatype writer = WIdle | WSelect | WSending nat | WStopped

datatype worker =
    WkOnOpen
  | WkIdle
  | WkOnRequest ChannelRequestMsg u64
  | WkOnEOF
  | WkOnClose bool
  | WkSending nat kont
  | WkStopped

record World =
  w_sess :: Session
  w_receiving :: bool
  w_dispatcher :: dispatcher
  w_writer :: writer
  w_workers :: "u64 \<rightharpoonup> worker"
  w_started :: "u64 list"
  w_calls :: "call list"
  w_connClosed :: bool
  w_done :: bool

definition initial :: "Config \<Rightarrow> World" where
  "initial cfg = \<lparr>w_sess = Bind cfg, w_receiving = True, w_dispatcher = DIdle, w_writer = WIdle,
     w_workers = Map.empty, w_started = [], w_calls = [], w_connClosed = False, w_done = False\<rparr>"

text \<open>Calls of the application and the arms of their waits.\<close>

datatype app_action =
    OpenChannel string bytes handler_ref
  | GlobalRequest string bytes bool
  | SendData u64 bytes
  | RecvData u64
  | ChannelRequest u64 string bytes bool
  | CloseWriteSide u64
  | CloseChannel u64
  | CloseSession
  | SentResult call
  | SentContext call serr
  | SentSession call
  | WaitResult call
  | WaitContext call serr
  | WaitClosed call
  | WaitWake call

text \<open>The three loops of the session.\<close>

datatype loop_action =
    Receive Envelope
  | ReceiveError serr
  | ReceiverStop
  | Dispatch
  | DispatchOpened ChannelOpenDecision
  | DispatchResponded Response
  | DispatchSentResult
  | DispatchSentContext serr
  | DispatchSentSession
  | DispatchStop
  | WriterSelect
  | WriterControl
  | WriterOutbound
  | WriterSent "serr option"
  | WriterStop

text \<open>Channel workers, spawned goroutines, activation and the parent context.\<close>

datatype work_action =
    WorkerStart u64
  | WorkerOpened u64
  | WorkerEvent u64
  | WorkerResponded u64 Response
  | WorkerReturned u64
  | WorkerSentResult u64
  | WorkerSentContext u64 serr
  | WorkerSentSession u64
  | WorkerStop u64
  | RunShutdown serr
  | RunCloseTimeout u64
  | RunFinalizeClose
  | RunFinalizeDone
  | RunActivate
  | ParentCancel serr

datatype action = App app_action | Loop loop_action | Work work_action

section \<open>Composition\<close>

text \<open>An application call that blocks joins the waiting calls.\<close>

definition app_outcome :: "outcome \<times> Session \<Rightarrow> World \<Rightarrow> World" where
  "app_outcome os W =
    (case fst os of
       Ret _ \<Rightarrow> W\<lparr>w_sess := snd os\<rparr>
     | Block c \<Rightarrow> W\<lparr>w_sess := snd os, w_calls := c # w_calls W\<rparr>)"

text \<open>The dispatch loop after a task: an error shuts the session down and ends the loop.\<close>

definition dispatch_outcome :: "proto_size \<Rightarrow> outcome \<times> Session \<Rightarrow> World \<Rightarrow> World" where
  "dispatch_outcome sz os W =
    (case fst os of
       Block (WaitSent w k) \<Rightarrow> W\<lparr>w_sess := snd os, w_dispatcher := DSending w k\<rparr>
     | Ret (RetErr (Some e)) \<Rightarrow>
         W\<lparr>w_sess := Session_shutdown sz (Some e) (snd os), w_dispatcher := DStopped\<rparr>
     | _ \<Rightarrow> W\<lparr>w_sess := snd os, w_dispatcher := DIdle\<rparr>)"

text \<open>The same for the event loop of a channel worker.\<close>

definition worker_outcome :: "proto_size \<Rightarrow> u64 \<Rightarrow> outcome \<times> Session \<Rightarrow> World \<Rightarrow> World" where
  "worker_outcome sz i os W =
    (case fst os of
       Block (WaitSent w k) \<Rightarrow>
         W\<lparr>w_sess := snd os, w_workers := (w_workers W)(i \<mapsto> WkSending w k)\<rparr>
     | Ret (RetErr (Some e)) \<Rightarrow>
         W\<lparr>w_sess := Session_shutdown sz (Some e) (snd os),
           w_workers := (w_workers W)(i \<mapsto> WkStopped)\<rparr>
     | _ \<Rightarrow> W\<lparr>w_sess := snd os, w_workers := (w_workers W)(i \<mapsto> WkIdle)\<rparr>)"

definition drop_call :: "call \<Rightarrow> World \<Rightarrow> World" where
  "drop_call c W = W\<lparr>w_calls := remove1 c (w_calls W)\<rparr>"

definition drop_spawned :: "goroutine \<Rightarrow> World \<Rightarrow> World" where
  "drop_spawned g W = W\<lparr>w_sess := (w_sess W)\<lparr>s_spawned := remove1 g (s_spawned (w_sess W))\<rparr>\<rparr>"

definition all_stopped :: "World \<Rightarrow> bool" where
  "all_stopped W \<longleftrightarrow> \<not> w_receiving W \<and> w_dispatcher W = DStopped \<and> w_writer W = WStopped
     \<and> list_all (\<lambda>g. case g of GoWorker _ \<Rightarrow> False | _ \<Rightarrow> True) (s_spawned (w_sess W))
     \<and> list_all (\<lambda>i. w_workers W i = Some WkStopped) (w_started W)"

section \<open>Actions\<close>

text \<open>The two values of \<open>ctx.Err()\<close> once a context is done.\<close>

definition context_Err :: "serr \<Rightarrow> bool" where
  "context_Err e \<longleftrightarrow> e = Canceled \<or> e = DeadlineExceeded"

text \<open>A waiting \<open>sendEnvelope\<close> of an application call, by the arm that ends it.\<close>

definition sent_call ::
    "proto_size \<Rightarrow> call \<Rightarrow> (nat \<Rightarrow> Session \<Rightarrow> serr option option \<times> Session) \<Rightarrow> World \<Rightarrow> World option" where
  "sent_call sz c arm W =
    (if c \<notin> set (w_calls W) then None
     else case c of
       WaitSent w k \<Rightarrow>
         (case arm w (w_sess W) of
            (Some e, s1) \<Rightarrow> Some (app_outcome (resume sz k e s1) (drop_call c W))
          | (None, _) \<Rightarrow> None)
     | _ \<Rightarrow> None)"

definition wait_result_call :: "call \<Rightarrow> World \<Rightarrow> World option" where
  "wait_result_call c W =
    (if c \<notin> set (w_calls W) then None
     else
       let finish = (\<lambda>os. case os of
              (Some oc, s1) \<Rightarrow> Some (app_outcome (oc, s1) (drop_call c W))
            | (None, _) \<Rightarrow> None)
       in case c of
            WaitOpen i \<Rightarrow> finish (waitOpen_result i (w_sess W))
          | WaitGlobal rid \<Rightarrow> finish (waitGlobal_result rid (w_sess W))
          | WaitResponse i rid \<Rightarrow> finish (waitResponse_result i rid (w_sess W))
          | _ \<Rightarrow> None)"

text \<open>The caller's own context is done.\<close>

definition wait_context_call :: "proto_size \<Rightarrow> call \<Rightarrow> serr \<Rightarrow> World \<Rightarrow> World option" where
  "wait_context_call sz c e W =
    (if c \<notin> set (w_calls W) then None
     else case c of
       WaitOpen i \<Rightarrow> Some (app_outcome (waitOpen_canceled sz i e (w_sess W)) (drop_call c W))
     | WaitGlobal rid \<Rightarrow> Some (app_outcome (waitGlobal_canceled rid e (w_sess W)) (drop_call c W))
     | WaitResponse i rid \<Rightarrow>
         Some (app_outcome (waitResponse_canceled i rid (Some e) (w_sess W)) (drop_call c W))
     | WaitWindow i frame g \<Rightarrow> Some (app_outcome (Ret (RetErr (Some e)), w_sess W) (drop_call c W))
     | WaitFrame i g \<Rightarrow> Some (app_outcome (Ret (RetErr (Some e)), w_sess W) (drop_call c W))
     | WaitSent w k \<Rightarrow> None)"

text \<open>The session's or the channel's context is done.\<close>

definition wait_closed_call :: "proto_size \<Rightarrow> call \<Rightarrow> World \<Rightarrow> World option" where
  "wait_closed_call sz c W =
    (let s = w_sess W in
     if c \<notin> set (w_calls W) then None
     else case c of
       WaitOpen i \<Rightarrow>
         (if s_cause s = None then None
          else Some (app_outcome (waitOpen_canceled sz i (closeCause s) s) (drop_call c W)))
     | WaitGlobal rid \<Rightarrow>
         (if s_cause s = None then None
          else Some (app_outcome (waitGlobal_canceled rid (closeCause s) s) (drop_call c W)))
     | WaitResponse i rid \<Rightarrow>
         (if ch_cause (chan s i) = None then None
          else Some (app_outcome (waitResponse_canceled i rid (channelErrorLocked s i) s)
                       (drop_call c W)))
     | WaitWindow i frame g \<Rightarrow>
         (if ch_cause (chan s i) = None then None
          else Some (app_outcome (waitWindow_closed i s, s) (drop_call c W)))
     | WaitFrame i g \<Rightarrow>
         (if ch_cause (chan s i) = None then None
          else Some (app_outcome (waitFrame_closed i s, s) (drop_call c W)))
     | WaitSent w k \<Rightarrow> None)"

text \<open>\<open>stateCh\<close> was closed: the loop of \<open>Send\<close> or \<open>Recv\<close> takes another pass.\<close>

definition wait_wake_call :: "proto_size \<Rightarrow> call \<Rightarrow> World \<Rightarrow> World option" where
  "wait_wake_call sz c W =
    (let s = w_sess W in
     if c \<notin> set (w_calls W) then None
     else case c of
       WaitWindow i frame g \<Rightarrow>
         (if ch_stateGen (chan s i) = g then None
          else Some (app_outcome (Send_pass sz i frame s) (drop_call c W)))
     | WaitFrame i g \<Rightarrow>
         (if ch_stateGen (chan s i) = g then None
          else Some (app_outcome (Recv_pass sz i s) (drop_call c W)))
     | _ \<Rightarrow> None)"

definition exec_dispatch :: "proto_size \<Rightarrow> World \<Rightarrow> World option" where
  "exec_dispatch sz W =
    (if w_dispatcher W \<noteq> DIdle \<or> \<not> s_activated (w_sess W) then None
     else case dispatch_take sz (w_sess W) of
       (None, _) \<Rightarrow> None
     | (Some (dispatchChannelOpen m), s1) \<Rightarrow>
         Some (case handleChannelOpen_lookup m s1 of
                 Inl e \<Rightarrow> dispatch_outcome sz (Ret (RetErr (Some e)), s1) W
               | Inr i \<Rightarrow> W\<lparr>w_sess := s1, w_dispatcher := DOpen m i\<rparr>)
     | (Some (dispatchGlobalRequest m), s1) \<Rightarrow> Some (W\<lparr>w_sess := s1, w_dispatcher := DGlobal m\<rparr>))"

definition writer_taken :: "(nat \<times> bool) option \<times> Session \<Rightarrow> World \<Rightarrow> World option" where
  "writer_taken r W =
    (case r of
       (None, _) \<Rightarrow> None
     | (Some (w, started), s1) \<Rightarrow>
         Some (W\<lparr>w_sess := s1, w_writer := (if started then WSending w else WIdle)\<rparr>))"

definition exec_worker_event :: "proto_size \<Rightarrow> u64 \<Rightarrow> World \<Rightarrow> World option" where
  "exec_worker_event sz i W =
    (if w_workers W i \<noteq> Some WkIdle then None
     else case worker_take i (w_sess W) of
       (None, _) \<Rightarrow> None
     | (Some (channelEventRequest m _), s1) \<Rightarrow>
         Some (W\<lparr>w_sess := s1,
                 w_workers := (w_workers W)(i \<mapsto> WkOnRequest m (ch_peerID (chan s1 i)))\<rparr>)
     | (Some (channelEventEOF _), s1) \<Rightarrow>
         Some (W\<lparr>w_sess := s1, w_workers := (w_workers W)(i \<mapsto> WkOnEOF)\<rparr>)
     | (Some (channelEventClose _), s1) \<Rightarrow>
         (let (cancelNow, s2) = handleRemoteClose_begin i s1
          in Some (W\<lparr>w_sess := s2, w_workers := (w_workers W)(i \<mapsto> WkOnClose cancelNow)\<rparr>)))"

fun exec_app :: "proto_size \<Rightarrow> app_action \<Rightarrow> World \<Rightarrow> World option" where
  "exec_app sz (OpenChannel typ payload h) W =
     Some (app_outcome (OpenChannelWithHandler sz typ payload h (w_sess W)) W)"
| "exec_app sz (GlobalRequest typ payload wantReply) W =
     Some (app_outcome (SendGlobalRequest sz typ payload wantReply (w_sess W)) W)"
| "exec_app sz (SendData i frame) W =
     (if s_heap (w_sess W) i = None then None
      else Some (app_outcome (Send sz i frame (w_sess W)) W))"
| "exec_app sz (RecvData i) W =
     (if s_heap (w_sess W) i = None then None
      else Some (app_outcome (Recv_pass sz i (w_sess W)) W))"
| "exec_app sz (ChannelRequest i typ payload wantReply) W =
     (if s_heap (w_sess W) i = None then None
      else Some (app_outcome (SendRequest sz i typ payload wantReply (w_sess W)) W))"
| "exec_app sz (CloseWriteSide i) W =
     (if s_heap (w_sess W) i = None then None
      else Some (app_outcome (CloseWrite sz i (w_sess W)) W))"
| "exec_app sz (CloseChannel i) W =
     (if s_heap (w_sess W) i = None then None
      else Some (W\<lparr>w_sess := snd (Channel_Close sz i (w_sess W))\<rparr>))"
| "exec_app sz CloseSession W =
     Some (W\<lparr>w_sess := Session_shutdown sz (Some Canceled) (w_sess W)\<rparr>)"
| "exec_app sz (SentResult c) W = sent_call sz c sendWait_result W"
| "exec_app sz (SentContext c e) W =
     (case c of
        WaitSent w (KRecvAdjust _) \<Rightarrow> None
      | WaitSent w (KCloseWrite _ _) \<Rightarrow> None
      | _ \<Rightarrow> sent_call sz c (sendWait_cancel e) W)"
| "exec_app sz (SentSession c) W =
     (if s_cause (w_sess W) = None then None
      else sent_call sz c (sendWait_cancel (closeCause (w_sess W))) W)"
| "exec_app sz (WaitResult c) W = wait_result_call c W"
| "exec_app sz (WaitContext c e) W = wait_context_call sz c e W"
| "exec_app sz (WaitClosed c) W = wait_closed_call sz c W"
| "exec_app sz (WaitWake c) W = wait_wake_call sz c W"

fun exec_loop :: "proto_size \<Rightarrow> loop_action \<Rightarrow> World \<Rightarrow> World option" where
  "exec_loop sz (Receive frame) W =
     (if \<not> w_receiving W \<or> \<not> s_activated (w_sess W) \<or> \<not> valid_Envelope frame then None
      else case receiver_frame sz frame (w_sess W) of
             (Some _, s1) \<Rightarrow> Some (W\<lparr>w_sess := s1, w_receiving := False\<rparr>)
           | (None, s1) \<Rightarrow> Some (W\<lparr>w_sess := s1\<rparr>))"
| "exec_loop sz (ReceiveError e) W =
     (if \<not> w_receiving W \<or> \<not> s_activated (w_sess W) then None
      else Some (W\<lparr>w_sess := receiver_error sz e (w_sess W), w_receiving := False\<rparr>))"
| "exec_loop sz ReceiverStop W =
     (if w_receiving W \<and> \<not> s_activated (w_sess W) \<and> s_cause (w_sess W) \<noteq> None
      then Some (W\<lparr>w_receiving := False\<rparr>) else None)"
| "exec_loop sz Dispatch W = exec_dispatch sz W"
| "exec_loop sz (DispatchOpened d) W =
     (case w_dispatcher W of
        DOpen m i \<Rightarrow> Some (dispatch_outcome sz (handleChannelOpen_decided sz m i d (w_sess W)) W)
      | _ \<Rightarrow> None)"
| "exec_loop sz (DispatchResponded r) W =
     (case w_dispatcher W of
        DGlobal m \<Rightarrow> Some (dispatch_outcome sz (handleGlobalRequest_responded sz m r (w_sess W)) W)
      | _ \<Rightarrow> None)"
| "exec_loop sz DispatchSentResult W =
     (case w_dispatcher W of
        DSending w k \<Rightarrow>
          (case sendWait_result w (w_sess W) of
             (Some e, s1) \<Rightarrow> Some (dispatch_outcome sz (resume sz k e s1) W)
           | (None, _) \<Rightarrow> None)
      | _ \<Rightarrow> None)"
| "exec_loop sz (DispatchSentContext e) W =
     (case w_dispatcher W of
        DSending w k \<Rightarrow>
          (if s_cause (w_sess W) = None \<or> \<not> context_Err e then None
           else case sendWait_cancel e w (w_sess W) of
             (Some r, s1) \<Rightarrow> Some (dispatch_outcome sz (resume sz k r s1) W)
           | (None, _) \<Rightarrow> None)
      | _ \<Rightarrow> None)"
| "exec_loop sz DispatchSentSession W =
     (case w_dispatcher W of
        DSending w k \<Rightarrow>
          (if s_cause (w_sess W) = None then None
           else case sendWait_cancel (closeCause (w_sess W)) w (w_sess W) of
             (Some e, s1) \<Rightarrow> Some (dispatch_outcome sz (resume sz k e s1) W)
           | (None, _) \<Rightarrow> None)
      | _ \<Rightarrow> None)"
| "exec_loop sz DispatchStop W =
     (if w_dispatcher W = DIdle \<and> s_cause (w_sess W) \<noteq> None
      then Some (W\<lparr>w_dispatcher := DStopped\<rparr>) else None)"
| "exec_loop sz WriterSelect W =
     (if w_writer W = WIdle \<and> s_activated (w_sess W) \<and> s_controlQueue (w_sess W) = []
      then Some (W\<lparr>w_writer := WSelect\<rparr>) else None)"
| "exec_loop sz WriterControl W =
     (if (w_writer W = WIdle \<or> w_writer W = WSelect) \<and> s_activated (w_sess W)
      then writer_taken (writer_take_control (w_sess W)) W else None)"
| "exec_loop sz WriterOutbound W =
     (if w_writer W = WSelect
      then writer_taken (writer_take_outbound (w_sess W)) W else None)"
| "exec_loop sz (WriterSent e) W =
     (case w_writer W of
        WSending w \<Rightarrow>
          Some (W\<lparr>w_sess := writer_finish sz w e (w_sess W),
                  w_writer := (if e = None then WIdle else WStopped)\<rparr>)
      | _ \<Rightarrow> None)"
| "exec_loop sz WriterStop W =
     (let s = w_sess W in
      if (w_writer W = WIdle \<or> w_writer W = WSelect)
         \<and> (if s_activated s
             then s_queuesClosed s \<and> s_controlQueue s = [] \<and> s_outboundQueue s = []
             else s_cause s \<noteq> None)
      then Some (W\<lparr>w_writer := WStopped\<rparr>) else None)"

fun exec_work :: "proto_size \<Rightarrow> work_action \<Rightarrow> World \<Rightarrow> World option" where
  "exec_work sz (WorkerStart i) W =
     (if GoWorker i \<notin> set (s_spawned (w_sess W)) then None
      else Some ((drop_spawned (GoWorker i) W)\<lparr>w_workers := (w_workers W)(i \<mapsto>
             (if ch_cause (chan (w_sess W) i) = None then WkOnOpen else WkStopped)),
             w_started := i # w_started W\<rparr>))"
| "exec_work sz (WorkerOpened i) W =
     (if w_workers W i = Some WkOnOpen
      then Some (W\<lparr>w_workers := (w_workers W)(i \<mapsto> WkIdle)\<rparr>) else None)"
| "exec_work sz (WorkerEvent i) W = exec_worker_event sz i W"
| "exec_work sz (WorkerResponded i r) W =
     (case w_workers W i of
        Some (WkOnRequest m peerID) \<Rightarrow>
          Some (worker_outcome sz i (handleRequest_responded sz i m peerID r (w_sess W)) W)
      | _ \<Rightarrow> None)"
| "exec_work sz (WorkerReturned i) W =
     (case w_workers W i of
        Some WkOnEOF \<Rightarrow> Some (worker_outcome sz i (Ret (RetErr None), w_sess W) W)
      | Some (WkOnClose cancelNow) \<Rightarrow>
          Some (worker_outcome sz i (Ret (RetErr None), handleRemoteClose_end i cancelNow (w_sess W)) W)
      | _ \<Rightarrow> None)"
| "exec_work sz (WorkerSentResult i) W =
     (case w_workers W i of
        Some (WkSending w k) \<Rightarrow>
          (case sendWait_result w (w_sess W) of
             (Some e, s1) \<Rightarrow> Some (worker_outcome sz i (resume sz k e s1) W)
           | (None, _) \<Rightarrow> None)
      | _ \<Rightarrow> None)"
| "exec_work sz (WorkerSentContext i e) W =
     (case w_workers W i of
        Some (WkSending w k) \<Rightarrow>
          (if ch_cause (chan (w_sess W) i) = None \<or> \<not> context_Err e then None
           else case sendWait_cancel e w (w_sess W) of
             (Some r, s1) \<Rightarrow> Some (worker_outcome sz i (resume sz k r s1) W)
           | (None, _) \<Rightarrow> None)
      | _ \<Rightarrow> None)"
| "exec_work sz (WorkerSentSession i) W =
     (case w_workers W i of
        Some (WkSending w k) \<Rightarrow>
          (if s_cause (w_sess W) = None then None
           else case sendWait_cancel (closeCause (w_sess W)) w (w_sess W) of
             (Some e, s1) \<Rightarrow> Some (worker_outcome sz i (resume sz k e s1) W)
           | (None, _) \<Rightarrow> None)
      | _ \<Rightarrow> None)"
| "exec_work sz (WorkerStop i) W =
     (if w_workers W i = Some WkIdle \<and> ch_cause (chan (w_sess W) i) \<noteq> None
      then Some (W\<lparr>w_workers := (w_workers W)(i \<mapsto> WkStopped)\<rparr>) else None)"
| "exec_work sz (RunShutdown e) W =
     (if GoShutdown e \<notin> set (s_spawned (w_sess W)) then None
      else (let W1 = drop_spawned (GoShutdown e) W
            in Some (W1\<lparr>w_sess := Session_shutdown sz (Some e) (w_sess W1)\<rparr>)))"
| "exec_work sz (RunCloseTimeout i) W =
     (if GoCloseTimeout i \<notin> set (s_spawned (w_sess W)) then None
      else (let W1 = drop_spawned (GoCloseTimeout i) W
            in Some (W1\<lparr>w_sess := (if s_cause (w_sess W1) \<noteq> None then w_sess W1
                                     else awaitCloseTimeout_fire i (w_sess W1))\<rparr>)))"
| "exec_work sz RunFinalizeClose W =
     (if s_closing (w_sess W) then Some (W\<lparr>w_connClosed := True\<rparr>) else None)"
| "exec_work sz RunFinalizeDone W =
     (if w_connClosed W \<and> all_stopped W then Some (W\<lparr>w_done := True\<rparr>) else None)"
| "exec_work sz RunActivate W = Some (W\<lparr>w_sess := Activate (w_sess W)\<rparr>)"
| "exec_work sz (ParentCancel e) W =
     (let s1 = cancelSession e (w_sess W)
      in Some (W\<lparr>w_sess := s1\<lparr>s_spawned := s_spawned s1 @ [GoShutdown e]\<rparr>\<rparr>))"

fun exec :: "proto_size \<Rightarrow> action \<Rightarrow> World \<Rightarrow> World option" where
  "exec sz (App a) W = exec_app sz a W"
| "exec sz (Loop a) W = exec_loop sz a W"
| "exec sz (Work a) W = exec_work sz a W"

inductive reachable :: "proto_size \<Rightarrow> Config \<Rightarrow> World \<Rightarrow> bool" for sz cfg where
  reach_initial: "reachable sz cfg (initial cfg)"
| reach_step: "reachable sz cfg W \<Longrightarrow> exec sz a W = Some W' \<Longrightarrow> reachable sz cfg W'"

fun run :: "proto_size \<Rightarrow> action list \<Rightarrow> World \<Rightarrow> World option" where
  "run sz [] W = Some W"
| "run sz (a # as) W = (case exec sz a W of None \<Rightarrow> None | Some W1 \<Rightarrow> run sz as W1)"

lemma run_reachable:
  "run sz as W = Some W' \<Longrightarrow> reachable sz cfg W \<Longrightarrow> reachable sz cfg W'"
  by (induction as arbitrary: W) (auto split: option.splits intro: reach_step)

end
