(* ===== verification/Session_Facts.thy ===== *)
theory Session_Facts
  imports Session_World
begin

text \<open>
  Basic facts about the session operations: what writing through a channel pointer leaves
  alone, what the simple operations change, and the two relations the invariants use, the
  harmless updates of a channel (\<open>benign\<close>) and the order of channel states (\<open>state_le\<close>).
\<close>

section \<open>Writing through a pointer\<close>

lemma mod_chan_sel [simp]:
  "s_config (mod_chan i f s) = s_config s"
  "s_cause (mod_chan i f s) = s_cause s"
  "s_activated (mod_chan i f s) = s_activated s"
  "s_nextLocalChannelID (mod_chan i f s) = s_nextLocalChannelID s"
  "s_channels (mod_chan i f s) = s_channels s"
  "s_peerChannelIDs (mod_chan i f s) = s_peerChannelIDs s"
  "s_activeChannels (mod_chan i f s) = s_activeChannels s"
  "s_pendingOpens (mod_chan i f s) = s_pendingOpens s"
  "s_nextGlobalRequestID (mod_chan i f s) = s_nextGlobalRequestID s"
  "s_pendingGlobal (mod_chan i f s) = s_pendingGlobal s"
  "s_globalResults (mod_chan i f s) = s_globalResults s"
  "s_incomingGlobalRequests (mod_chan i f s) = s_incomingGlobalRequests s"
  "s_pendingChannelRequests (mod_chan i f s) = s_pendingChannelRequests s"
  "s_waitErr (mod_chan i f s) = s_waitErr s"
  "s_closeErr (mod_chan i f s) = s_closeErr s"
  "s_closing (mod_chan i f s) = s_closing s"
  "s_queuedFrames (mod_chan i f s) = s_queuedFrames s"
  "s_queuedBytes (mod_chan i f s) = s_queuedBytes s"
  "s_queuesClosed (mod_chan i f s) = s_queuesClosed s"
  "s_dispatchQueue (mod_chan i f s) = s_dispatchQueue s"
  "s_controlQueue (mod_chan i f s) = s_controlQueue s"
  "s_outboundQueue (mod_chan i f s) = s_outboundQueue s"
  "s_writes (mod_chan i f s) = s_writes s"
  "s_nextWrite (mod_chan i f s) = s_nextWrite s"
  "s_spawned (mod_chan i f s) = s_spawned s"
  by (simp_all add: mod_chan_def split: option.splits)

lemma heap_mod_chan:
  "s_heap (mod_chan i f s) j = (if j = i then map_option f (s_heap s i) else s_heap s j)"
  by (auto simp: mod_chan_def split: option.splits)

lemma heap_mod_chan_same [simp]: "s_heap (mod_chan i f s) i = map_option f (s_heap s i)"
  by (simp add: heap_mod_chan)

lemma heap_mod_chan_other [simp]: "j \<noteq> i \<Longrightarrow> s_heap (mod_chan i f s) j = s_heap s j"
  by (simp add: heap_mod_chan)

lemma heap_mod_chan_upd:
  "s_heap s i = Some c \<Longrightarrow> s_heap (mod_chan i f s) = (s_heap s)(i \<mapsto> f c)"
  by (simp add: mod_chan_def)

lemma heap_mod_chan_None: "s_heap s i = None \<Longrightarrow> mod_chan i f s = s"
  by (simp add: mod_chan_def)

lemma dom_heap_mod_chan [simp]: "dom (s_heap (mod_chan i f s)) = dom (s_heap s)"
  by (auto simp: dom_def heap_mod_chan)

lemma chan_Some: "s_heap s i = Some c \<Longrightarrow> chan s i = c"
  by (simp add: chan_def)

lemma chan_mod_chan:
  "s_heap s i \<noteq> None \<Longrightarrow> chan (mod_chan i f s) i = f (chan s i)"
  by (auto simp: chan_def)

lemma chan_mod_chan_other [simp]: "j \<noteq> i \<Longrightarrow> chan (mod_chan i f s) j = chan s j"
  by (simp add: chan_def)

lemma finite_heap [simp, intro]: "finite (dom (s_heap s))"
  by simp

section \<open>Harmless updates and the order of states\<close>

text \<open>
  \<open>benign c c'\<close>: nothing changed that the accounting of the session depends on: not the state,
  the slot, the peer id, the queue counters, the queues, the local window or the pending
  requests; and a canceled context stays canceled.
\<close>

definition benign :: "Channel \<Rightarrow> Channel \<Rightarrow> bool" where
  "benign c c' \<longleftrightarrow>
     ch_peerID c' = ch_peerID c \<and> ch_typ c' = ch_typ c \<and> ch_slot c' = ch_slot c \<and>
     (ch_openWait c' \<longrightarrow> ch_openWait c) \<and>
     (ch_cause c \<noteq> None \<longrightarrow> ch_cause c' = ch_cause c) \<and> ch_state c' = ch_state c \<and>
     ch_localWindow c' = ch_localWindow c \<and> ch_maxLocalPacket c' = ch_maxLocalPacket c \<and>
     ch_pendingWindowBytes c' = ch_pendingWindowBytes c \<and>
     unat (ch_nextRequestID c) \<le> unat (ch_nextRequestID c') \<and>
     ch_pendingRequests c' = ch_pendingRequests c \<and> ch_frames c' = ch_frames c \<and>
     ch_queuedFrames c' = ch_queuedFrames c \<and> ch_queuedBytes c' = ch_queuedBytes c \<and>
     ch_sessionErr c' = ch_sessionErr c \<and> ch_events c' = ch_events c \<and>
     ch_stateGen c \<le> ch_stateGen c'"

primrec state_rank :: "channelState \<Rightarrow> nat" where
  "state_rank channelOpening = 0"
| "state_rank channelOpen = 1"
| "state_rank channelLocalEOF = 1"
| "state_rank channelRemoteEOF = 1"
| "state_rank channelBothEOF = 1"
| "state_rank channelClosing = 2"
| "state_rank channelClosed = 3"
| "state_rank channelFailed = 3"

definition state_le :: "channelState \<Rightarrow> channelState \<Rightarrow> bool" where
  "state_le a b \<longleftrightarrow> a = b \<or> state_rank a < state_rank b \<or> (state_rank a = 1 \<and> state_rank b = 1)"

lemma state_le_refl [simp]: "state_le a a"
  by (simp add: state_le_def)

lemma state_le_trans: "state_le a b \<Longrightarrow> state_le b c \<Longrightarrow> state_le a c"
  by (auto simp: state_le_def)

lemma allowsRequests_rank [simp]: "allowsRequests st \<longleftrightarrow> state_rank st = 1"
  by (cases st) simp_all

declare allowsRequests.simps [simp del]

lemma live_allocated: "state_rank (ch_state (chan s i)) = 1 \<Longrightarrow> s_heap s i \<noteq> None"
  by (cases "s_heap s i") (auto simp: chan_def zeroChannel_def)

section \<open>Fresh channel ids\<close>

definition fresh_ids :: "Session \<Rightarrow> bool" where
  "fresh_ids s \<longleftrightarrow> (\<forall>i. s_heap s i \<noteq> None \<longrightarrow> i < s_nextLocalChannelID s)"

lemma fresh_ids_mod_chan [simp]: "fresh_ids (mod_chan i f s) = fresh_ids s"
  by (auto simp: fresh_ids_def heap_mod_chan)

lemma reserveLocalChannelID_fresh:
  assumes "reserveLocalChannelID s = (Inr i, s1)" and "fresh_ids s"
  shows "s_heap s i = None" and "s1 = s\<lparr>s_nextLocalChannelID := i + 1\<rparr>"
    and "\<And>j. s_heap s j \<noteq> None \<Longrightarrow> j < i + 1" and "i < i + 1"
proof -
  have i: "i = s_nextLocalChannelID s" and m: "s_nextLocalChannelID s \<noteq> - 1"
    and s1: "s1 = s\<lparr>s_nextLocalChannelID := s_nextLocalChannelID s + 1\<rparr>"
    using assms(1) by (auto simp: reserveLocalChannelID_def split: if_splits)
  show "s1 = s\<lparr>s_nextLocalChannelID := i + 1\<rparr>" using s1 i by simp
  show "s_heap s i = None" using assms(2) i by (auto simp: fresh_ids_def)
  show "i < i + 1"
    using unat_plus_one [OF m] i by (simp add: word_less_nat_alt)
  then show "j < i + 1" if "s_heap s j \<noteq> None" for j
    using that assms(2) i by (meson fresh_ids_def order.strict_trans)
qed

section \<open>What a channel shutdown does to the heap and the tables\<close>

definition shut_channel :: "serr \<Rightarrow> Channel \<Rightarrow> Channel" where
  "shut_channel err c = cancelChannel err (signalLocked (c\<lparr>
     ch_sessionErr := (if ch_sessionErr c = None then Some err else ch_sessionErr c),
     ch_state := (if ch_state c \<noteq> channelClosed then channelFailed else ch_state c),
     ch_queuedFrames := 0, ch_queuedBytes := 0, ch_frames := [],
     ch_results := (\<lambda>r. if r \<in> set (ch_pendingRequests c)
                         then put_slot (None, Some err) (ch_results c r) else ch_results c r),
     ch_pendingRequests := [],
     ch_openSlot := (if ch_openWait c then put_slot (Some err) (ch_openSlot c) else ch_openSlot c),
     ch_openWait := False\<rparr>))"

lemma releasePending_sel [simp]:
  "s_heap (releasePendingChannelRequest s) = s_heap s"
  "s_config (releasePendingChannelRequest s) = s_config s"
  "s_channels (releasePendingChannelRequest s) = s_channels s"
  "s_peerChannelIDs (releasePendingChannelRequest s) = s_peerChannelIDs s"
  "s_activeChannels (releasePendingChannelRequest s) = s_activeChannels s"
  "s_pendingOpens (releasePendingChannelRequest s) = s_pendingOpens s"
  "s_nextLocalChannelID (releasePendingChannelRequest s) = s_nextLocalChannelID s"
  "s_cause (releasePendingChannelRequest s) = s_cause s"
  "s_closing (releasePendingChannelRequest s) = s_closing s"
  by (simp_all add: releasePendingChannelRequest_def)

lemma releasePendings_sel [simp]:
  "s_heap ((releasePendingChannelRequest ^^ n) s) = s_heap s"
  "s_config ((releasePendingChannelRequest ^^ n) s) = s_config s"
  "s_channels ((releasePendingChannelRequest ^^ n) s) = s_channels s"
  "s_peerChannelIDs ((releasePendingChannelRequest ^^ n) s) = s_peerChannelIDs s"
  "s_activeChannels ((releasePendingChannelRequest ^^ n) s) = s_activeChannels s"
  "s_pendingOpens ((releasePendingChannelRequest ^^ n) s) = s_pendingOpens s"
  "s_nextLocalChannelID ((releasePendingChannelRequest ^^ n) s) = s_nextLocalChannelID s"
  "s_cause ((releasePendingChannelRequest ^^ n) s) = s_cause s"
  "s_closing ((releasePendingChannelRequest ^^ n) s) = s_closing s"
  by (induction n) simp_all

lemma releasePendings_count [simp]:
  "unat (s_pendingChannelRequests ((releasePendingChannelRequest ^^ n) s))
     = unat (s_pendingChannelRequests s) - n"
proof (induction n)
  case 0
  then show ?case by simp
next
  case (Suc n)
  let ?t = "(releasePendingChannelRequest ^^ n) s"
  have "unat (s_pendingChannelRequests (releasePendingChannelRequest t)) = unat (s_pendingChannelRequests t) - 1" for t
  proof (cases "s_pendingChannelRequests t = 0")
    case False
    then have "unat (1 :: u32) \<le> unat (s_pendingChannelRequests t)"
      by (simp add: Suc_le_eq unat_gt_0)
    with False show ?thesis
      by (simp add: releasePendingChannelRequest_def word_gt_0 unat_sub_le)
  qed (simp add: releasePendingChannelRequest_def)
  with Suc show ?case by simp
qed

lemma discard_sel [simp]:
  "s_config (discardQueuedLocked i s) = s_config s"
  "s_channels (discardQueuedLocked i s) = s_channels s"
  "s_peerChannelIDs (discardQueuedLocked i s) = s_peerChannelIDs s"
  "s_activeChannels (discardQueuedLocked i s) = s_activeChannels s"
  "s_pendingOpens (discardQueuedLocked i s) = s_pendingOpens s"
  "s_nextLocalChannelID (discardQueuedLocked i s) = s_nextLocalChannelID s"
  "s_cause (discardQueuedLocked i s) = s_cause s"
  "s_closing (discardQueuedLocked i s) = s_closing s"
  "s_pendingChannelRequests (discardQueuedLocked i s) = s_pendingChannelRequests s"
  "s_heap (discardQueuedLocked i s) =
     s_heap (mod_chan i (\<lambda>c. c\<lparr>ch_queuedFrames := 0, ch_queuedBytes := 0, ch_frames := []\<rparr>) s)"
  by (simp_all add: discardQueuedLocked_def releaseQueueBudget_def)

lemma Channel_shutdown_sel [simp]:
  "s_config (Channel_shutdown i e s) = s_config s"
  "s_channels (Channel_shutdown i e s) = s_channels s"
  "s_peerChannelIDs (Channel_shutdown i e s) = s_peerChannelIDs s"
  "s_activeChannels (Channel_shutdown i e s) = s_activeChannels s"
  "s_pendingOpens (Channel_shutdown i e s) = s_pendingOpens s"
  "s_nextLocalChannelID (Channel_shutdown i e s) = s_nextLocalChannelID s"
  "s_cause (Channel_shutdown i e s) = s_cause s"
  "s_closing (Channel_shutdown i e s) = s_closing s"
  by (simp_all add: Channel_shutdown_def Let_def failPendingRequestsLocked_def)

lemma heap_Channel_shutdown:
  "s_heap (Channel_shutdown i e s) j =
    (if j = i then map_option (shut_channel (case e of None \<Rightarrow> ErrSessionClosed | Some e \<Rightarrow> e)) (s_heap s i)
     else s_heap s j)"
  by (cases "s_heap s i")
    (simp_all add: Channel_shutdown_def Let_def failPendingRequestsLocked_def heap_mod_chan
      shut_channel_def chan_def cong: if_cong)

lemma shut_channel_sel [simp]:
  "ch_slot (shut_channel e c) = ch_slot c"
  "ch_peerID (shut_channel e c) = ch_peerID c"
  "ch_state (shut_channel e c) = (if ch_state c = channelClosed then channelClosed else channelFailed)"
  "ch_pendingRequests (shut_channel e c) = []"
  "ch_frames (shut_channel e c) = []"
  "ch_queuedFrames (shut_channel e c) = 0"
  "ch_queuedBytes (shut_channel e c) = 0"
  "ch_cause (shut_channel e c) \<noteq> None"
  by (auto simp: shut_channel_def cancelChannel_def signalLocked_def)

end
