(* ===== verification/Session_Contract.thy ===== *)
theory Session_Contract
  imports Session_Facts
begin

text \<open>
  The contract an invariant of the session has to meet, as a locale.  Its laws say that the
  elementary transactions of the source keep the invariant: a transaction is a reservation
  together with the insertion it pays for, a removal together with its release, a change of a
  channel table, a channel or session shutdown.  Inside the locale every handler, every call
  and every action of the transition system is shown to keep the invariant, once for all the
  invariants interpreted later.
\<close>

section \<open>Permitted transitions and continuations\<close>

definition state_edge :: "channelState \<Rightarrow> channelState \<Rightarrow> bool" where
  "state_edge a b \<longleftrightarrow>
     (a = channelOpening \<and> b = channelFailed) \<or> (a = channelClosing \<and> b = channelClosed)
     \<or> (state_rank a = 1 \<and> (state_rank b = 1 \<or> b = channelClosed))"

fun kont_ok :: "kont \<Rightarrow> bool" where
  "kont_ok (KCloseWrite _ previous) = (previous = channelOpen \<or> previous = channelRemoteEOF)"
| "kont_ok _ = True"

fun call_ok :: "call \<Rightarrow> bool" where
  "call_ok (WaitSent _ k) = kont_ok k"
| "call_ok _ = True"

fun outcome_ok :: "outcome \<Rightarrow> bool" where
  "outcome_ok (Block c) = call_ok c"
| "outcome_ok (Ret _) = True"

definition waiting_ok :: "World \<Rightarrow> bool" where
  "waiting_ok W \<longleftrightarrow> list_all call_ok (w_calls W)
     \<and> (case w_dispatcher W of DSending w k \<Rightarrow> kont_ok k | _ \<Rightarrow> True)
     \<and> (\<forall>i w k. w_workers W i = Some (WkSending w k) \<longrightarrow> kont_ok k)"

lemma resume_ok: "outcome_ok (fst (resume sz k e s))"
  by (cases "(sz, k, e, s)" rule: resume.cases) auto

lemma send_then_ok: "kont_ok k \<Longrightarrow> outcome_ok (fst (send_then sz env aft k s))"
  by (auto simp: send_then_def resume_ok case_prod_unfold split: sum.splits)

lemma calls_ok:
  "outcome_ok (fst (OpenChannelWithHandler sz ty payload h s))"
  "outcome_ok (fst (SendGlobalRequest sz ty payload wantReply s))"
  "outcome_ok (fst (Send_pass sz i frame s))"
  "outcome_ok (fst (Send sz i frame s))"
  "outcome_ok (fst (Recv_pass sz i s))"
  "outcome_ok (fst (SendRequest sz i ty payload wantReply s))"
  by (auto simp: OpenChannelWithHandler_def SendGlobalRequest_def Send_pass_def Send_def Recv_pass_def
      SendRequest_def Let_def case_prod_unfold send_then_ok split: option.splits sum.splits list.splits)

lemma CloseWrite_ok: "outcome_ok (fst (CloseWrite sz i s))"
  by (cases "ch_state (chan s i)")
    (auto simp: CloseWrite_def Let_def send_then_ok split: option.splits)

lemma replies_ok:
  "outcome_ok (fst (handleChannelOpen_decided sz m i d s))"
  "outcome_ok (fst (handleGlobalRequest_responded sz gm r s))"
  "outcome_ok (fst (handleRequest_responded sz i cm p r s))"
  by (auto simp: handleChannelOpen_decided_def handleGlobalRequest_responded_def
      handleRequest_responded_def Let_def case_prod_unfold send_then_ok split: option.splits)

lemma waits_ok:
  "waitOpen_result i s = (Some oc, s1) \<Longrightarrow> outcome_ok oc"
  "outcome_ok (fst (waitOpen_canceled sz i e s))"
  "waitGlobal_result rid s = (Some oc, s1) \<Longrightarrow> outcome_ok oc"
  "outcome_ok (fst (waitGlobal_canceled rid e s))"
  "waitResponse_result i rid s = (Some oc, s1) \<Longrightarrow> outcome_ok oc"
  "outcome_ok (fst (waitResponse_canceled i rid eo s))"
  "outcome_ok (waitWindow_closed i s)"
  "outcome_ok (waitFrame_closed i s)"
  by (auto simp: waitOpen_result_def waitOpen_canceled_def waitGlobal_result_def waitGlobal_canceled_def
      waitResponse_result_def waitResponse_canceled_def waitWindow_closed_def waitFrame_closed_def
      split: option.splits)

lemma waiting_ok_other [simp]:
  "waiting_ok (W\<lparr>w_sess := s\<rparr>) = waiting_ok W"
  "waiting_ok (W\<lparr>w_receiving := b\<rparr>) = waiting_ok W"
  "waiting_ok (W\<lparr>w_writer := wr\<rparr>) = waiting_ok W"
  "waiting_ok (W\<lparr>w_started := ws\<rparr>) = waiting_ok W"
  "waiting_ok (W\<lparr>w_connClosed := b\<rparr>) = waiting_ok W"
  "waiting_ok (W\<lparr>w_done := b\<rparr>) = waiting_ok W"
  by (simp_all add: waiting_ok_def)

lemma waiting_ok_idle:
  "waiting_ok W \<Longrightarrow> (\<And>w k. d \<noteq> DSending w k) \<Longrightarrow> waiting_ok (W\<lparr>w_dispatcher := d\<rparr>)"
  "waiting_ok W \<Longrightarrow> (\<And>w k. wk \<noteq> WkSending w k) \<Longrightarrow> waiting_ok (W\<lparr>w_workers := (w_workers W)(i \<mapsto> wk)\<rparr>)"
  "waiting_ok W \<Longrightarrow> (\<And>w k. wk \<noteq> WkSending w k)
    \<Longrightarrow> waiting_ok (W\<lparr>w_sess := s, w_workers := (w_workers W)(i \<mapsto> wk)\<rparr>)"
  by (auto simp: waiting_ok_def split: dispatcher.splits if_splits)

lemma app_outcome_ok:
  "waiting_ok W \<Longrightarrow> outcome_ok (fst os) \<Longrightarrow> waiting_ok (app_outcome os W)"
  by (auto simp: waiting_ok_def app_outcome_def split: outcome.splits)

lemma app_outcome_sess [simp]: "w_sess (app_outcome os W) = snd os"
  by (simp add: app_outcome_def split: outcome.splits)

lemma drop_call_ok: "waiting_ok W \<Longrightarrow> waiting_ok (drop_call c W)"
  by (auto simp: waiting_ok_def drop_call_def list_all_iff dest: notin_set_remove1)

lemma drop_call_sess [simp]: "w_sess (drop_call c W) = w_sess W"
  by (simp add: drop_call_def)

lemma dispatch_outcome_ok:
  "waiting_ok W \<Longrightarrow> outcome_ok (fst os) \<Longrightarrow> waiting_ok (dispatch_outcome sz os W)"
  by (auto simp: waiting_ok_def dispatch_outcome_def
      split: outcome.splits retval.splits call.splits option.splits)

lemma worker_outcome_ok:
  "waiting_ok W \<Longrightarrow> outcome_ok (fst os) \<Longrightarrow> waiting_ok (worker_outcome sz i os W)"
  by (auto simp: waiting_ok_def worker_outcome_def
      split: outcome.splits retval.splits call.splits option.splits if_splits)

lemma call_ok_member: "waiting_ok W \<Longrightarrow> c \<in> set (w_calls W) \<Longrightarrow> call_ok c"
  by (auto simp: waiting_ok_def list_all_iff)

lemma sent_call_ok: "waiting_ok W \<Longrightarrow> sent_call sz c arm W = Some W' \<Longrightarrow> waiting_ok W'"
  by (auto simp: sent_call_def resume_ok split: if_splits call.splits prod.splits option.splits
      intro!: app_outcome_ok drop_call_ok)

lemma exec_app_ok:
  assumes "waiting_ok W" and "exec_app sz a W = Some W'"
  shows "waiting_ok W'"
proof (cases "\<exists>c e. a = SentResult c \<or> a = SentContext c e \<or> a = SentSession c")
  case True
  then show ?thesis
    using assms by (auto split: call.splits kont.splits if_splits intro: sent_call_ok)
next
  case False
  then show ?thesis
    using assms
    by (cases a)
      (auto simp: wait_result_call_def wait_context_call_def wait_closed_call_def wait_wake_call_def
        calls_ok CloseWrite_ok waits_ok Let_def split: if_splits call.splits prod.splits option.splits
        intro!: app_outcome_ok drop_call_ok dest: waits_ok(1,3,5))
qed

lemma exec_loop_ok:
  assumes "waiting_ok W" and "exec_loop sz a W = Some W'"
  shows "waiting_ok W'"
  using assms
  by (cases a)
    (auto simp: exec_dispatch_def writer_taken_def resume_ok replies_ok Let_def
      split: if_splits prod.splits option.splits sum.splits dispatchTask.splits dispatcher.splits writer.splits
      intro!: dispatch_outcome_ok waiting_ok_idle)

lemma exec_work_ok:
  assumes "waiting_ok W" and "exec_work sz a W = Some W'"
  shows "waiting_ok W'"
  using assms
  by (cases a)
    (auto simp: exec_worker_event_def drop_spawned_def resume_ok replies_ok Let_def
      split: if_splits prod.splits option.splits channelEvent.splits worker.splits
      intro!: worker_outcome_ok waiting_ok_idle)

lemma exec_ok: "waiting_ok W \<Longrightarrow> exec sz a W = Some W' \<Longrightarrow> waiting_ok W'"
  by (cases a) (auto intro: exec_app_ok exec_loop_ok exec_work_ok)

lemma reachable_waiting_ok: "reachable sz cfg W \<Longrightarrow> waiting_ok W"
proof (induction rule: reachable.induct)
  case reach_initial
  show ?case by (simp add: initial_def waiting_ok_def)
next
  case (reach_step W a W')
  then show ?case by (blast intro: exec_ok)
qed

text \<open>
  A channel whose admission is being decided by the application is an incoming one: its receive
  window has been set up.
\<close>

definition admitted :: "u64 \<Rightarrow> Session \<Rightarrow> bool" where
  "admitted i s \<longleftrightarrow> s_heap s i \<noteq> None
     \<and> (ch_state (chan s i) = channelOpening \<longrightarrow> ch_maxLocalPacket (chan s i) \<noteq> 0)"

definition admitting_ok :: "World \<Rightarrow> bool" where
  "admitting_ok W \<longleftrightarrow> (\<forall>m i. w_dispatcher W = DOpen m i \<longrightarrow> admitted i (w_sess W))"

section \<open>The contract\<close>

locale session_contract =
  fixes sz :: proto_size
    and I :: "Session \<Rightarrow> bool"
  assumes benign_law:
      "I s \<Longrightarrow> (\<And>c. s_heap s i = Some c \<Longrightarrow> benign c (f c)) \<Longrightarrow> I (mod_chan i f s)"
    and edge_law:
      "I s \<Longrightarrow> (\<And>c. s_heap s i = Some c \<Longrightarrow>
          state_edge (ch_state c) st \<and> benign (c\<lparr>ch_state := st\<rparr>) (f c)) \<Longrightarrow> I (mod_chan i f s)"
    and spawn_law: "I s \<Longrightarrow> I (s\<lparr>s_spawned := gs\<rparr>)"
    and activate_law: "I s \<Longrightarrow> I (s\<lparr>s_activated := True\<rparr>)"
    and pendingGlobal_law: "I s \<Longrightarrow> I (s\<lparr>s_pendingGlobal := ps\<rparr>)"
    and globalResults_law: "I s \<Longrightarrow> I (s\<lparr>s_globalResults := rs\<rparr>)"
    and incomingGlobal_law: "I s \<Longrightarrow> I (s\<lparr>s_incomingGlobalRequests := ps\<rparr>)"
    and nextGlobal_law: "I s \<Longrightarrow> I (s\<lparr>s_nextGlobalRequestID := n\<rparr>)"
    and waitResult_law: "I s \<Longrightarrow> I (snd (sendWait_result w s))"
    and waitCancel_law: "I s \<Longrightarrow> I (snd (sendWait_cancel e w s))"
    and writeState_law: "I s \<Longrightarrow> I (set_write_state w wst s)"
    and putResult_law: "I s \<Longrightarrow> I (put_result w re s)"
    and sendAsync_law: "I s \<Longrightarrow> I (snd (sendEnvelopeAsyncAfter sz env control aft s))"
    and send_law: "I s \<Longrightarrow> I (snd (sendEnvelopeAfter sz env aft s))"
    and enqueueDispatch_law: "I s \<Longrightarrow> I (snd (enqueueDispatch sz task s))"
    and dispatch_take_law: "I s \<Longrightarrow> I (snd (dispatch_take sz s))"
    and control_law:
      "I s \<Longrightarrow> s_controlQueue s = w # ws
        \<Longrightarrow> I (releaseQueueBudget 1 (write_size s w) (s\<lparr>s_controlQueue := ws\<rparr>))"
    and outbound_law:
      "I s \<Longrightarrow> s_outboundQueue s = w # ws
        \<Longrightarrow> I (releaseQueueBudget 1 (write_size s w) (s\<lparr>s_outboundQueue := ws\<rparr>))"
    and incoming_law:
      "I s \<Longrightarrow> reserveLocalChannelID s = (Inr i, s1)
        \<Longrightarrow> I (snd (addPendingChannel i (Some p) (newIncomingChannel i p typ rw mp h s1)))"
    and outgoing_law:
      "I s \<Longrightarrow> reserveLocalChannelID s = (Inr i, s1)
        \<Longrightarrow> I (snd (addPendingChannel i None (newPendingChannel i typ h s1)))"
    and accepted_law:
      "I s \<Longrightarrow> s_heap s i \<noteq> None \<Longrightarrow> ch_state (chan s i) = channelOpening
        \<Longrightarrow> ch_maxLocalPacket (chan s i) \<noteq> 0
        \<Longrightarrow> I (snd (activateChannel i (mod_chan i (\<lambda>c. signalLocked (c\<lparr>ch_state := channelOpen\<rparr>)) s)))"
    and opened_law:
      "I s \<Longrightarrow> i \<in> set (s_channels s) \<Longrightarrow> s_heap s i \<noteq> None
        \<Longrightarrow> ch_state (chan s i) = channelOpening \<Longrightarrow> ch_openWait (chan s i)
        \<Longrightarrow> reservePeerChannelID p i (mod_chan i (ch_openWait_update (\<lambda>_. False)) s) = (None, s1)
        \<Longrightarrow> I (snd (activateChannel i (mod_chan i (\<lambda>c. signalLocked (c\<lparr>ch_peerID := p,
              ch_localWindow := InitialWindow (s_config s1), ch_remoteWindow := rw,
              ch_maxLocalPacket := MaxPacketSize (s_config s1), ch_maxRemotePacket := mp,
              ch_state := channelOpen\<rparr>)) s1)))"
    and remove_law: "I s \<Longrightarrow> I (removeChannel i s)"
    and channel_shutdown_law: "I s \<Longrightarrow> I (Channel_shutdown i eo s)"
    and session_shutdown_law: "I s \<Longrightarrow> I (Session_shutdown sz eo s)"
    and cancel_law: "I s \<Longrightarrow> I (cancelSession e0 s)"
    and fail_pending_law: "I s \<Longrightarrow> I (failPendingRequestsLocked i e0 s)"
    and remove_pending_law: "I s \<Longrightarrow> I (removePendingRequest i rid s)"
    and new_request_law:
      "I s \<Longrightarrow> s_heap s i \<noteq> None \<Longrightarrow> channelErrorLocked s i = None \<Longrightarrow> state_rank (ch_state (chan s i)) = 1
        \<Longrightarrow> ch_nextRequestID (chan s i) \<noteq> - 1
        \<Longrightarrow> len32 (ch_pendingRequests (chan s i)) < MaxPendingChannelRequestsPerChannel (limits s)
        \<Longrightarrow> reservePendingChannelRequest
              (mod_chan i (\<lambda>c. c\<lparr>ch_nextRequestID := ch_nextRequestID c + 1\<rparr>) s) = (None, s1)
        \<Longrightarrow> I (mod_chan i (\<lambda>c. c\<lparr>ch_pendingRequests :=
                  ch_nextRequestID (chan s i) # ch_pendingRequests c\<rparr>) s1)"
    and close_law:
      "I s \<Longrightarrow> state_rank (ch_state (chan s i)) = 1
        \<Longrightarrow> I (discardQueuedLocked i (mod_chan i (ch_state_update (\<lambda>_. channelClosing)) s))"
    and event_law:
      "I s \<Longrightarrow> state_rank (ch_state (chan s i)) = 1
        \<Longrightarrow> reserveQueuedLocked i 1 (event_size ev) s = (None, s1)
        \<Longrightarrow> I (mod_chan i (push_event ev) s1)"
    and close_event_law:
      "I s \<Longrightarrow> state_rank (ch_state (chan s i)) = 1
        \<Longrightarrow> reserveQueuedLocked i 1 (event_size ev)
              (mod_chan i (\<lambda>c. signalLocked (c\<lparr>ch_state := channelClosed\<rparr>)) s) = (None, s1)
        \<Longrightarrow> I (mod_chan i (push_event ev) s1)"
    and unreserve_law:
      "I s \<Longrightarrow> s_heap s i \<noteq> None \<Longrightarrow> reserveQueuedLocked i 1 n s = (None, s1)
        \<Longrightarrow> I (releaseQueuedLocked i 1 n s1)"
    and data_law:
      "I s \<Longrightarrow> canReceiveData (ch_state (chan s i)) \<Longrightarrow> frame \<noteq> [] \<Longrightarrow> length frame \<le> 24576
        \<Longrightarrow> len32 frame \<le> ch_maxLocalPacket (chan s i) \<Longrightarrow> len32 frame \<le> ch_localWindow (chan s i)
        \<Longrightarrow> reserveQueuedLocked i 1 (ucast (len32 frame)) s = (None, s1)
        \<Longrightarrow> I (mod_chan i (\<lambda>c. signalLocked (c\<lparr>ch_localWindow := ch_localWindow c - len32 frame,
              ch_frames := ch_frames c @ [frame]\<rparr>)) s1)"
    and recv_law:
      "I s \<Longrightarrow> ch_frames (chan s i) = frame # rest \<Longrightarrow> I (snd (recv_take i frame rest s))"
    and worker_law: "I s \<Longrightarrow> I (snd (worker_take i s))"
begin

text \<open>The form the handlers need: every operation maps states with \<open>I\<close> to states with \<open>I\<close>.\<close>

lemmas basic_laws = spawn_law activate_law pendingGlobal_law globalResults_law incomingGlobal_law
  nextGlobal_law waitResult_law waitCancel_law writeState_law putResult_law sendAsync_law send_law
  enqueueDispatch_law dispatch_take_law remove_law channel_shutdown_law session_shutdown_law
  cancel_law fail_pending_law remove_pending_law worker_law

lemma sendEnvelopeAsync_I: "I s \<Longrightarrow> I (snd (sendEnvelopeAsync sz frame control s))"
  by (simp add: sendEnvelopeAsync_def sendAsync_law)

lemma reject_I:
  "I s \<Longrightarrow> I (snd (sendChannelOpenRejectAsync sz p code msg s))"
  "I s \<Longrightarrow> I (snd (sendGlobalRejectAsync sz rid code msg aft s))"
  "I s \<Longrightarrow> I (snd (sendChannelRejectAsync sz p rid code msg aft s))"
  by (simp_all add: sendChannelOpenRejectAsync_def sendGlobalRejectAsync_def
      sendChannelRejectAsync_def sendEnvelopeAsync_def sendAsync_law)

lemma finish_I:
  "I s \<Longrightarrow> I (finishIncomingGlobal rid wantReply s)"
  "I s \<Longrightarrow> I (finishIncomingRequest i rid wantReply s)"
  "I s \<Longrightarrow> I (removeGlobalWaiter rid s)"
  "I s \<Longrightarrow> I (startChannelWorker i s)"
  by (auto simp: finishIncomingGlobal_def finishIncomingRequest_def removeGlobalWaiter_def
      startChannelWorker_def benign_def intro!: incomingGlobal_law benign_law pendingGlobal_law
      spawn_law)

lemma run_after_I: "I s \<Longrightarrow> I (run_after aft e s)"
  by (cases "(aft, e, s)" rule: run_after.cases) (auto intro: finish_I)

lemma cancelChannel_I: "I s \<Longrightarrow> I (mod_chan i (cancelChannel e) s)"
  by (auto intro!: benign_law simp: benign_def cancelChannel_def)

lemma Channel_Close_live:
  assumes "I s" and "state_rank (ch_state (chan s i)) = 1"
  shows "I (mod_chan i (\<lambda>c. cancelChannel ErrChannelClosed (signalLocked c))
           (failPendingRequestsLocked i ErrChannelClosed
             (discardQueuedLocked i (mod_chan i (ch_state_update (\<lambda>_. channelClosing)) s))))"
  using assms
  by (intro benign_law fail_pending_law close_law)
    (auto simp: benign_def cancelChannel_def signalLocked_def)

lemma failed_I:
  assumes "I s" and "ch_state (chan s i) = channelOpening"
    and "\<And>c. benign (c\<lparr>ch_state := channelFailed\<rparr>) (f c)"
  shows "I (mod_chan i f s)"
  using assms by (intro edge_law [where st = channelFailed]) (auto simp: state_edge_def chan_def)

lemma Channel_Close_I:
  assumes "I s"
  shows "I (snd (Channel_Close sz i s))"
proof -
  have b: "benign (c\<lparr>ch_state := channelFailed\<rparr>) (signalLocked (c\<lparr>ch_state := channelFailed\<rparr>))" for c
    by (simp add: benign_def signalLocked_def)
  show ?thesis
    using assms Channel_Close_live [OF assms, of i]
    by (cases "ch_state (chan s i)")
      (auto simp: Channel_Close_def Let_def case_prod_unfold split: option.splits
        intro!: basic_laws failed_I sendEnvelopeAsync_I b)
qed

lemma abandonOpen_I: "I s \<Longrightarrow> I (abandonOpen sz i cause s)"
  by (auto simp: abandonOpen_def intro!: Channel_Close_I basic_laws failed_I)
    (simp add: benign_def signalLocked_def)

lemma awaitCloseTimeout_I: "I s \<Longrightarrow> I (awaitCloseTimeout_fire i s)"
  by (auto simp: awaitCloseTimeout_fire_def chan_def state_edge_def benign_def signalLocked_def
      intro!: remove_law edge_law [where st = channelClosed])

lemma rollback_I:
  assumes "I s" and "state_rank previous = 1"
  shows "I (mod_chan i (\<lambda>c. if ch_state c = channelLocalEOF \<or> ch_state c = channelBothEOF
             then signalLocked (c\<lparr>ch_state := previous\<rparr>) else c) s)"
proof (cases "ch_state (chan s i) = channelLocalEOF \<or> ch_state (chan s i) = channelBothEOF")
  case True
  then show ?thesis
    using assms by (intro edge_law [where st = previous])
      (auto simp: chan_def state_edge_def benign_def signalLocked_def)
next
  case False
  then show ?thesis
    using assms by (intro benign_law) (auto simp: chan_def benign_def)
qed

lemma resume_I:
  assumes "I s" and "kont_ok k"
  shows "I (snd (resume sz k e s))"
  using assms rollback_I [OF assms(1), of channelOpen] rollback_I [OF assms(1), of channelRemoteEOF]
  by (cases "(sz, k, e, s)" rule: resume.cases)
    (auto intro!: basic_laws finish_I intro: benign_law simp: benign_def signalLocked_def)

lemma send_then_I: "I s \<Longrightarrow> kont_ok k \<Longrightarrow> I (snd (send_then sz env aft k s))"
  by (auto simp: send_then_def case_prod_unfold split: sum.splits intro!: resume_I send_law)

text \<open>The receiver.\<close>

lemma reserveLocalChannelID_fail:
  "fst (reserveLocalChannelID s) = Inl e \<Longrightarrow> snd (reserveLocalChannelID s) = s"
  by (auto simp: reserveLocalChannelID_def split: if_splits)

lemma openSlot_I: "I s \<Longrightarrow> I (mod_chan i (\<lambda>c. c\<lparr>ch_openSlot := g c\<rparr>) s)"
  by (auto intro!: benign_law simp: benign_def)

lemma enqueueIncomingOpen_I:
  assumes "I s"
  shows "I (snd (enqueueIncomingOpen sz m s))"
proof -
  have "I (snd (addPendingChannel i (Some p) (newIncomingChannel i p ty rw mp h s1)))"
    if "reserveLocalChannelID s = (Inr i, s1)" for i p ty rw mp h s1
    using incoming_law [OF assms that] .
  then show ?thesis
    using assms
    by (auto simp: enqueueIncomingOpen_def Let_def case_prod_unfold prod_eq_iff
        split: option.splits sum.splits dest: reserveLocalChannelID_fail
        intro!: reject_I basic_laws)
qed

lemma handleChannelOpenResult_I:
  assumes "I s"
  shows "I (snd (handleChannelOpenResult sz recipient result s))"
proof (cases "recipient \<in> set (s_channels s) \<and> ch_state (chan s recipient) = channelOpening
    \<and> ch_openWait (chan s recipient)")
  case False
  with assms show ?thesis
    by (auto simp: handleChannelOpenResult_def lookupChannel_def)
next
  case True
  let ?s1 = "mod_chan recipient (ch_openWait_update (\<lambda>_. False)) s"
  have s1: "I ?s1"
    using assms by (intro benign_law) (auto simp: benign_def)
  have st: "ch_state (chan ?s1 recipient) = channelOpening"
    using True by (auto simp: chan_def split: option.splits)
  have st': "ch_state (chan s recipient) = channelOpening" "ch_openWait (chan s recipient)"
    and reg': "recipient \<in> set (s_channels s)" and alloc': "s_heap s recipient \<noteq> None"
    using True by (auto simp: chan_def zeroChannel_def split: option.splits)
  note opened = opened_law [OF assms(1) reg' alloc' st']
  have rejected: "I (mod_chan recipient (\<lambda>c. signalLocked (c\<lparr>ch_state := channelFailed\<rparr>)) ?s1)"
    by (rule failed_I [OF s1 st]) (simp add: benign_def signalLocked_def)
  have peer: "reservePeerChannelID p i s0 = (Some e, s2) \<Longrightarrow> s2 = s0" for p i s0 s2 e
    by (auto simp: reservePeerChannelID_def split: if_splits)
  have act: "I s4" if "activateChannel recipient s3 = (e, s4)" "I (snd (activateChannel recipient s3))"
    for e s3 s4
    using that by simp
  show ?thesis
    using True s1 st
    by (auto simp: handleChannelOpenResult_def lookupChannel_def Let_def
        split: option.splits ChannelOpenOutcome.splits prod.splits dest!: peer
        intro!: basic_laws openSlot_I finish_I rejected intro: act opened)
qed

lemma reserveQueuedLocked_fail:
  "reserveQueuedLocked i f n s = (Some e, s1) \<Longrightarrow> s1 = s"
  by (auto simp: reserveQueuedLocked_def reserveQueueBudget_def split: if_splits)

lemma handleChannelData_I:
  assumes "I s" and "length frame \<le> 24576"
  shows "I (snd (handleChannelData recipient frame s))"
  using assms
  by (auto simp: handleChannelData_def Let_def lookupChannel_def not_less
      split: option.splits prod.splits dest: reserveQueuedLocked_fail intro!: data_law)

lemma handleChannelWindowAdjust_I: "I s \<Longrightarrow> I (snd (handleChannelWindowAdjust recipient n s))"
  by (auto simp: handleChannelWindowAdjust_def benign_def signalLocked_def
      split: option.splits intro!: benign_law)

lemma removePendingRequest_alt:
  "rid \<in> set (ch_pendingRequests (chan s i)) \<Longrightarrow>
    releasePendingChannelRequest
      (mod_chan i (\<lambda>c. c\<lparr>ch_pendingRequests := removeAll rid (ch_pendingRequests c)\<rparr>) s)
    = removePendingRequest i rid s"
  by (simp add: removePendingRequest_def)

lemma handleChannelResult_I: "I s \<Longrightarrow> I (snd (handleChannelResult recipient rid result s))"
  by (auto simp: handleChannelResult_def Let_def removePendingRequest_alt benign_def
      split: option.splits OperationOutcome.splits intro!: benign_law remove_pending_law)

lemma enqueueGlobalRequest_I: "I s \<Longrightarrow> I (snd (enqueueGlobalRequest sz m s))"
  by (auto simp: enqueueGlobalRequest_def Let_def case_prod_unfold split: option.splits
      intro!: finish_I reject_I basic_laws)

lemma handleGlobalResult_I: "I s \<Longrightarrow> I (snd (handleGlobalResult rid result s))"
  by (auto simp: handleGlobalResult_def Let_def split: option.splits OperationOutcome.splits
      intro!: globalResults_law pendingGlobal_law)

lemma handleDisconnect_I: "I s \<Longrightarrow> I (snd (handleDisconnect code msg s))"
  by (simp add: handleDisconnect_def)

lemma rejectChannelRequest_I: "I s \<Longrightarrow> I (snd (rejectChannelRequest sz i m s))"
  by (auto simp: rejectChannelRequest_def case_prod_unfold split: option.splits
      intro!: finish_I reject_I)

lemma event_I:
  assumes "I s" and "state_rank (ch_state (chan s i)) = 1"
    and "reserveQueuedLocked i 1 (event_size ev) s = (r, s1)"
  shows "r = Some e \<Longrightarrow> I s1"
    and "r = None \<Longrightarrow> I (mod_chan i (push_event ev) s1)"
    and "r = None \<Longrightarrow> I (releaseQueuedLocked i 1 (event_size ev) s1)"
  using assms live_allocated [OF assms(2)]
  by (auto intro: event_law unreserve_law dest: reserveQueuedLocked_fail)

lemma enqueueChannelRequest_I:
  assumes "I s"
  shows "I (snd (enqueueChannelRequest sz m s))"
proof -
  define i where "i = cr_recipient_channel_id m"
  define s1 where "s1 = (if cr_want_reply m
      then mod_chan i (\<lambda>c. c\<lparr>ch_incomingRequestIDs := cr_request_id m # ch_incomingRequestIDs c\<rparr>) s
      else s)"
  obtain r s2 where r: "reserveQueuedLocked i 1 (sz (PChannelRequest m)) s1 = (r, s2)"
    by (cases "reserveQueuedLocked i 1 (sz (PChannelRequest m)) s1")
  have s1: "I s1"
    using assms by (auto simp: s1_def benign_def intro!: benign_law)
  have st: "ch_state (chan s1 i) = ch_state (chan s i)"
    by (auto simp: s1_def chan_def split: option.splits)
  have ev: "I (mod_chan i (push_event (channelEventRequest m (sz (PChannelRequest m)))) s2)"
    "I (releaseQueuedLocked i 1 (sz (PChannelRequest m)) s2)"
    if "r = None" "state_rank (ch_state (chan s i)) = 1"
    using event_I [of s1 i "channelEventRequest m (sz (PChannelRequest m))" r s2] s1 r st that by auto
  have fail: "I s2" if "r = Some e" for e
    using reserveQueuedLocked_fail [of i 1 "sz (PChannelRequest m)" s1 e s2] r s1 that by simp
  show ?thesis
    using assms r ev fail
    by (auto simp: enqueueChannelRequest_def Let_def lookupChannel_def
        simp flip: i_def s1_def split: option.splits prod.splits
        intro!: rejectChannelRequest_I finish_I)
qed

lemma signal_state_I:
  assumes "I s" and "state_rank (ch_state (chan s i)) = 1" and "state_rank st = 1 \<or> st = channelClosed"
  shows "I (mod_chan i (\<lambda>c. signalLocked (c\<lparr>ch_state := st\<rparr>)) s)"
  using assms by (intro edge_law [where st = st])
    (auto simp: chan_def state_edge_def benign_def signalLocked_def)

lemma chan_signal_state:
  "state_rank (ch_state (chan s i)) = 1
    \<Longrightarrow> ch_state (chan (mod_chan i (\<lambda>c. signalLocked (c\<lparr>ch_state := st\<rparr>)) s) i) = st"
  by (auto simp: chan_def zeroChannel_def signalLocked_def split: option.splits)

lemma enqueueChannelEOF_I:
  assumes "I s"
  shows "I (snd (enqueueChannelEOF recipient s))"
proof -
  have step: "I (snd (case reserveQueuedLocked recipient 1 1 s1 of
        (Some e, s2) \<Rightarrow> (Some e, s2)
      | (None, s2) \<Rightarrow>
          if length (ch_events (chan s2 recipient)) < eventCapacity s2
          then (None, mod_chan recipient (push_event (channelEventEOF 1)) s2)
          else (Some ErrResourceLimit, releaseQueuedLocked recipient 1 1 s2)))"
    if "s1 = mod_chan recipient (\<lambda>c. signalLocked (c\<lparr>ch_state := st\<rparr>)) s" and st: "state_rank st = 1"
      and live: "state_rank (ch_state (chan s recipient)) = 1" for s1 st
  proof -
    have "I s1" "state_rank (ch_state (chan s1 recipient)) = 1"
      using signal_state_I [OF assms live, of st] chan_signal_state [OF live, of st] that by auto
    then show ?thesis
      using event_I [of s1 recipient "channelEventEOF 1"]
      by (auto split: prod.splits option.splits)
  qed
  show ?thesis
    using assms step [OF refl]
    by (cases "ch_state (chan s recipient)")
      (auto simp: enqueueChannelEOF_def Let_def lookupChannel_def)
qed

lemma enqueueChannelClose_I:
  assumes "I s"
  shows "I (snd (enqueueChannelClose sz recipient s))"
proof -
  let ?s1 = "mod_chan recipient (\<lambda>c. signalLocked (c\<lparr>ch_state := channelClosed\<rparr>)) s"
  have closing: "I ?s1" if "ch_state (chan s recipient) = channelClosing"
    using assms that by (intro edge_law [where st = channelClosed])
      (auto simp: chan_def state_edge_def benign_def signalLocked_def)
  have live: "I ?s1" if "state_rank (ch_state (chan s recipient)) = 1"
    using signal_state_I [OF assms that] by simp
  have push: "I (mod_chan recipient (push_event (channelEventClose 1)) s2)"
    if "reserveQueuedLocked recipient 1 1 ?s1 = (None, s2)"
      "state_rank (ch_state (chan s recipient)) = 1" for s2
    using close_event_law [OF assms, of recipient "channelEventClose 1"] that by simp
  have ack: "I (snd (case sendEnvelopeAsync sz env True s3 of
        (Some e, s4) \<Rightarrow> (Some (Wrapped msg e), s4) | (None, s4) \<Rightarrow> (None, removeChannel recipient s4)))"
    if "I s3" for s3 env msg
    using that by (auto simp: case_prod_unfold split: option.splits intro!: remove_law sendEnvelopeAsync_I)
  obtain r s2 where r: "reserveQueuedLocked recipient 1 1 ?s1 = (r, s2)"
    by (cases "reserveQueuedLocked recipient 1 1 ?s1")
  have fail: "I s2" if "r = Some e" "I ?s1" for e
    using reserveQueuedLocked_fail [of recipient 1 1 ?s1 e s2] r that by simp
  have alloc: "s_heap ?s1 recipient \<noteq> None" if "state_rank (ch_state (chan s recipient)) = 1"
    using live_allocated [OF that] by simp
  show ?thesis
    using assms closing live push r fail alloc
    by (cases r)
      (auto simp: enqueueChannelClose_def Let_def lookupChannel_def
        intro!: remove_law ack intro: unreserve_law)
qed

lemma routeEnvelope_I:
  assumes "I s" and "valid_Envelope env"
  shows "I (snd (routeEnvelope sz env s))"
  using assms
  by (cases env)
    (auto simp: len_in_def intro!: enqueueIncomingOpen_I handleChannelOpenResult_I handleChannelData_I
      handleChannelWindowAdjust_I enqueueChannelEOF_I enqueueChannelClose_I enqueueChannelRequest_I
      handleChannelResult_I enqueueGlobalRequest_I handleGlobalResult_I handleDisconnect_I)

text \<open>The loops, the workers and the application calls.\<close>

lemma receiver_I:
  "I s \<Longrightarrow> I (receiver_error sz e s)"
  "I s \<Longrightarrow> valid_Envelope env \<Longrightarrow> I (snd (receiver_frame sz env s))"
  by (auto simp: receiver_error_def receiver_frame_def case_prod_unfold split: option.splits
      intro!: session_shutdown_law routeEnvelope_I)

lemma handleChannelOpen_decided_I:
  assumes "I s" and "admitted i s"
  shows "I (snd (handleChannelOpen_decided sz m i d s))"
proof -
  let ?s1 = "mod_chan i (ch_handler_update (\<lambda>_. cd_Handler d)) s"
  let ?s2 = "mod_chan i (\<lambda>c. signalLocked (c\<lparr>ch_state := channelOpen\<rparr>)) ?s1"
  have s1: "I ?s1"
    using assms by (intro benign_law) (auto simp: benign_def)
  have "I (snd (activateChannel i ?s2))" if "ch_state (chan ?s1 i) = channelOpening"
    using assms(2) that by (intro accepted_law [OF s1]) (auto simp: admitted_def chan_mod_chan)
  then show ?thesis
    using assms s1
    by (auto simp: handleChannelOpen_decided_def Let_def case_prod_unfold split: option.splits
        intro!: send_then_I basic_laws)
qed

lemma handleGlobalRequest_responded_I: "I s \<Longrightarrow> I (snd (handleGlobalRequest_responded sz m r s))"
  by (auto simp: handleGlobalRequest_responded_def split: option.splits intro!: send_then_I finish_I)

lemma handleRequest_responded_I: "I s \<Longrightarrow> I (snd (handleRequest_responded sz i m p r s))"
  by (auto simp: handleRequest_responded_def split: option.splits intro!: send_then_I finish_I)

lemma handleRemoteClose_I:
  "I s \<Longrightarrow> I (snd (handleRemoteClose_begin i s))"
  "I s \<Longrightarrow> I (handleRemoteClose_end i b s)"
  by (auto simp: handleRemoteClose_begin_def handleRemoteClose_end_def Let_def
      intro!: fail_pending_law cancelChannel_I)

lemma writer_started_I:
  assumes "I (releaseQueueBudget 1 (write_size s w) s)"
  shows "I (snd (writer_begin w s))"
  using assms by (auto simp: writer_begin_def Let_def intro!: putResult_law run_after_I writeState_law)

lemma write_size_queue [simp]:
  "write_size (s\<lparr>s_controlQueue := q\<rparr>) w = write_size s w"
  "write_size (s\<lparr>s_outboundQueue := q\<rparr>) w = write_size s w"
  by (simp_all add: write_size_def)

lemma writer_take_I:
  "I s \<Longrightarrow> I (snd (writer_take_control s))"
  "I s \<Longrightarrow> I (snd (writer_take_outbound s))"
  by (auto simp: writer_take_control_def writer_take_outbound_def case_prod_unfold Let_def split: list.splits
      intro!: writer_started_I control_law outbound_law)

lemma writer_finish_I: "I s \<Longrightarrow> I (writer_finish sz w e s)"
  by (auto simp: writer_finish_def Let_def
      intro!: session_shutdown_law putResult_law run_after_I writeState_law)

lemma OpenChannelWithHandler_I:
  assumes "I s"
  shows "I (snd (OpenChannelWithHandler sz ty payload h s))"
proof -
  have "I (snd (addPendingChannel i None (newPendingChannel i ty h s1)))"
    if "reserveLocalChannelID s = (Inr i, s1)" for i s1
    using outgoing_law [OF assms that] .
  then show ?thesis
    using assms
    by (auto simp: OpenChannelWithHandler_def case_prod_unfold prod_eq_iff
        split: option.splits sum.splits dest: reserveLocalChannelID_fail intro!: send_then_I)
qed

lemma SendGlobalRequest_I: "I s \<Longrightarrow> I (snd (SendGlobalRequest sz ty payload wantReply s))"
  by (auto simp: SendGlobalRequest_def Let_def split: option.splits
      intro!: send_then_I nextGlobal_law pendingGlobal_law)

lemma wait_I:
  "I s \<Longrightarrow> I (snd (waitOpen_result i s))"
  "I s \<Longrightarrow> I (snd (waitOpen_canceled sz i e s))"
  "I s \<Longrightarrow> I (snd (waitGlobal_result rid s))"
  "I s \<Longrightarrow> I (snd (waitGlobal_canceled rid e s))"
  "I s \<Longrightarrow> I (snd (waitResponse_result i rid s))"
  "I s \<Longrightarrow> I (snd (waitResponse_canceled i rid eo s))"
  by (auto simp: waitOpen_result_def waitOpen_canceled_def waitGlobal_result_def waitGlobal_canceled_def
      waitResponse_result_def waitResponse_canceled_def benign_def split: option.splits
      intro!: benign_law abandonOpen_I finish_I globalResults_law remove_pending_law)

lemma Send_I: "I s \<Longrightarrow> I (snd (Send_pass sz i frame s))" "I s \<Longrightarrow> I (snd (Send sz i frame s))"
  by (auto simp: Send_pass_def Send_def Let_def benign_def split: option.splits
      intro!: send_then_I benign_law)

lemma Recv_I: "I s \<Longrightarrow> I (snd (Recv_pass sz i s))"
  by (auto simp: Recv_pass_def Let_def case_prod_unfold split: list.splits option.splits
      intro!: send_then_I recv_law cancelChannel_I)

lemma CloseWrite_I:
  assumes "I s"
  shows "I (snd (CloseWrite sz i s))"
  using assms signal_state_I [OF assms, of i channelLocalEOF] signal_state_I [OF assms, of i channelBothEOF]
  by (cases "ch_state (chan s i)")
    (auto simp: CloseWrite_def Let_def split: option.splits intro!: send_then_I)

lemma nextRequestID_I:
  assumes "I s" and "ch_nextRequestID (chan s i) \<noteq> - 1"
  shows "I (mod_chan i (\<lambda>c. c\<lparr>ch_nextRequestID := ch_nextRequestID c + 1\<rparr>) s)"
proof (rule benign_law [OF assms(1)])
  fix c
  assume c: "s_heap s i = Some c"
  then have "ch_nextRequestID c \<noteq> - 1" using assms(2) by (simp add: chan_def)
  then have "unat (ch_nextRequestID c + 1) = Suc (unat (ch_nextRequestID c))"
    by (rule unat_plus_one)
  then show "benign c (c\<lparr>ch_nextRequestID := ch_nextRequestID c + 1\<rparr>)"
    by (simp add: benign_def)
qed

lemma SendRequest_I:
  assumes "I s" and "s_heap s i \<noteq> None"
  shows "I (snd (SendRequest sz i ty payload wantReply s))"
proof -
  let ?s1 = "mod_chan i (\<lambda>c. c\<lparr>ch_nextRequestID := ch_nextRequestID c + 1\<rparr>) s"
  have same: "chan ?s1 i = (chan s i)\<lparr>ch_nextRequestID := ch_nextRequestID (chan s i) + 1\<rparr>"
    using assms(2) by (simp add: chan_mod_chan)
  have fail: "reservePendingChannelRequest ?s1 = (Some e, s2) \<Longrightarrow> s2 = ?s1" for e s2
    by (auto simp: reservePendingChannelRequest_def split: if_splits)
  show ?thesis
    using assms nextRequestID_I [OF assms(1), of i] new_request_law [OF assms] same
    by (auto simp: SendRequest_def Let_def not_le split: option.splits prod.splits
        dest: fail intro!: send_then_I)
qed

lemma outcome_I:
  "I (snd os) \<Longrightarrow> I (w_sess (dispatch_outcome sz os W))"
  "I (snd os) \<Longrightarrow> I (w_sess (worker_outcome sz i os W))"
  by (auto simp: dispatch_outcome_def worker_outcome_def
      split: outcome.splits retval.splits call.splits option.splits intro: session_shutdown_law)

lemma wait_arm_I:
  "I s \<Longrightarrow> sendWait_result w s = (r, s1) \<Longrightarrow> I s1"
  "I s \<Longrightarrow> sendWait_cancel e w s = (r, s1) \<Longrightarrow> I s1"
  using waitResult_law [of s w] waitCancel_law [of s e w] by auto

lemma sent_call_I:
  assumes "I (w_sess W)" and "waiting_ok W" and "sent_call sz c arm W = Some W'"
    and "\<And>w r s1. arm w (w_sess W) = (r, s1) \<Longrightarrow> I s1"
  shows "I (w_sess W')"
  using assms call_ok_member [OF assms(2), of c]
  by (auto simp: sent_call_def split: if_splits call.splits prod.splits option.splits intro!: resume_I)

lemma wait_result_I:
  "I s \<Longrightarrow> waitOpen_result i s = (r, s1) \<Longrightarrow> I s1"
  "I s \<Longrightarrow> waitGlobal_result rid s = (r, s1) \<Longrightarrow> I s1"
  "I s \<Longrightarrow> waitResponse_result i rid s = (r, s1) \<Longrightarrow> I s1"
  using wait_I(1) [of s i] wait_I(3) [of s rid] wait_I(5) [of s i rid] by auto

lemma exec_app_I:
  assumes "I (w_sess W)" and "waiting_ok W" and "exec_app sz a W = Some W'"
  shows "I (w_sess W')"
proof (cases "\<exists>c e. a = SentResult c \<or> a = SentContext c e \<or> a = SentSession c")
  case True
  then show ?thesis
    using assms wait_arm_I [OF assms(1)]
    by (auto split: call.splits kont.splits if_splits intro: sent_call_I)
next
  case False
  then show ?thesis
    using assms
    by (cases a)
      (auto simp: wait_result_call_def wait_context_call_def wait_closed_call_def wait_wake_call_def
        Let_def split: if_splits call.splits prod.splits option.splits
        intro!: OpenChannelWithHandler_I SendGlobalRequest_I Send_I Recv_I SendRequest_I CloseWrite_I
          Channel_Close_I session_shutdown_law wait_I dest: wait_result_I)
qed

lemma dispatch_take_I: "I s \<Longrightarrow> dispatch_take sz s = (r, s1) \<Longrightarrow> I s1"
  using dispatch_take_law [of s] by simp

lemma exec_dispatch_I:
  assumes "I (w_sess W)" and "exec_dispatch sz W = Some W'"
  shows "I (w_sess W')"
  using assms dispatch_take_I [OF assms(1)]
  by (auto simp: exec_dispatch_def split: if_splits prod.splits option.splits dispatchTask.splits
      sum.splits intro!: outcome_I)

lemma writer_taken_I:
  assumes "I (snd r)" and "writer_taken r W = Some W'"
  shows "I (w_sess W')"
  using assms by (auto simp: writer_taken_def split: prod.splits option.splits)

lemma exec_loop_I:
  assumes "I (w_sess W)" and "waiting_ok W" and "exec_loop sz a W = Some W'" and "admitting_ok W"
  shows "I (w_sess W')"
proof -
  have frame: "I s1" if "receiver_frame sz env (w_sess W) = (r, s1)" "valid_Envelope env" for env r s1
    using receiver_I(2) [OF assms(1) that(2)] that(1) by simp
  have k: "kont_ok k" if "w_dispatcher W = DSending w k" for w k
    using assms(2) that by (simp add: waiting_ok_def)
  show ?thesis
    using assms(1,3) frame wait_arm_I [OF assms(1)] k assms(4) [unfolded admitting_ok_def]
    by (cases a)
      (auto split: if_splits prod.splits option.splits dispatcher.splits writer.splits
        intro!: receiver_I outcome_I resume_I handleChannelOpen_decided_I
          handleGlobalRequest_responded_I writer_finish_I
        intro: exec_dispatch_I writer_taken_I writer_take_I simp: Let_def)
qed

lemma worker_take_I: "I s \<Longrightarrow> worker_take i s = (r, s1) \<Longrightarrow> I s1"
  using worker_law [of s i] by simp

lemma exec_worker_event_I:
  assumes "I (w_sess W)" and "exec_worker_event sz i W = Some W'"
  shows "I (w_sess W')"
proof -
  have close: "I s2" if "handleRemoteClose_begin i s1 = (b, s2)" "I s1" for b s1 s2
    using handleRemoteClose_I(1) [OF that(2), of i] that(1) by simp
  show ?thesis
    using assms worker_take_I [OF assms(1)]
    by (auto simp: exec_worker_event_def split: if_splits prod.splits option.splits channelEvent.splits
        dest: close)
qed

lemma exec_work_I:
  assumes "I (w_sess W)" and "waiting_ok W" and "exec_work sz a W = Some W'"
  shows "I (w_sess W')"
proof -
  have k: "kont_ok k" if "w_workers W i = Some (WkSending w k)" for i w k
    using assms(2) that by (simp add: waiting_ok_def)
  show ?thesis
    using assms(1,3) wait_arm_I [OF assms(1)] k
    by (cases a)
      (auto simp: Let_def drop_spawned_def Activate_def
        split: if_splits prod.splits option.splits worker.splits
        intro!: outcome_I resume_I handleRequest_responded_I handleRemoteClose_I basic_laws
          awaitCloseTimeout_I
        intro: exec_worker_event_I)
qed

text \<open>Every action keeps the invariant, so it holds in every reachable state.\<close>

lemma exec_I:
  "I (w_sess W) \<Longrightarrow> waiting_ok W \<Longrightarrow> admitting_ok W \<Longrightarrow> exec sz a W = Some W' \<Longrightarrow> I (w_sess W')"
  by (cases a) (auto intro: exec_app_I exec_loop_I exec_work_I)

lemma reachable_I:
  assumes "reachable sz cfg W" and "I (Bind cfg)" and "\<And>W. reachable sz cfg W \<Longrightarrow> admitting_ok W"
  shows "I (w_sess W)"
  using assms(1)
proof (induction rule: reachable.induct)
  case reach_initial
  then show ?case using assms(2) by (simp add: initial_def)
next
  case (reach_step W a W')
  then show ?case using exec_I reachable_waiting_ok assms(3) by blast
qed

end

end
