(* ===== verification/Session_Layers.thy ===== *)
theory Session_Layers
  imports Session_Contract
begin

text \<open>
  Two weaker contracts from which the full one follows.  An invariant that does not read the
  queues, the writes or the tables of global requests meets \<open>session_local\<close>: one law covers all
  operations that only touch those.  An invariant that in addition does not read the queue
  counters, the queued data or the windows of the channels meets \<open>session_plain\<close>: it only has to
  say what a change of state, a change of the tables and a shutdown do to it.
\<close>

section \<open>Quiet operations\<close>

definition quiet :: "Session \<Rightarrow> Session \<Rightarrow> bool" where
  "quiet s s' \<longleftrightarrow>
     s_config s' = s_config s \<and> s_cause s' = s_cause s \<and> s_activated s' = s_activated s
     \<and> s_nextLocalChannelID s' = s_nextLocalChannelID s \<and> s_heap s' = s_heap s
     \<and> s_channels s' = s_channels s \<and> s_peerChannelIDs s' = s_peerChannelIDs s
     \<and> s_activeChannels s' = s_activeChannels s \<and> s_pendingOpens s' = s_pendingOpens s
     \<and> s_pendingChannelRequests s' = s_pendingChannelRequests s \<and> s_waitErr s' = s_waitErr s
     \<and> s_closeErr s' = s_closeErr s \<and> s_closing s' = s_closing s
     \<and> s_queuesClosed s' = s_queuesClosed s"

lemma quiet_budget:
  "quiet s (snd (reserveQueueBudget f b s))" "quiet s (releaseQueueBudget f b s)"
  by (simp_all add: quiet_def reserveQueueBudget_def releaseQueueBudget_def)

lemma quiet_trans: "quiet a b \<Longrightarrow> quiet b c \<Longrightarrow> quiet a c"
  by (simp add: quiet_def)

lemma quiet_writes:
  "quiet s (snd (sendWait_result w s))" "quiet s (snd (sendWait_cancel e w s))"
  "quiet s (set_write_state w wst s)" "quiet s (put_result w re s)"
  by (auto simp: quiet_def sendWait_result_def sendWait_cancel_def set_write_state_def put_result_def
      split: option.splits)

lemma quiet_queues:
  "quiet s (snd (enqueueDispatch sz t s))" "quiet s (snd (enqueueWrite w control s))"
  "quiet s (snd (dispatch_take sz s))"
  by (auto simp: quiet_def enqueueDispatch_def enqueueWrite_def dispatch_take_def Let_def
      reserveQueueBudget_def releaseQueueBudget_def split: option.splits list.splits)

lemma quiet_send:
  "quiet s (snd (sendEnvelopeAsyncAfter sz env control aft s))"
  "quiet s (snd (sendEnvelopeAfter sz env aft s))"
proof -
  have new: "quiet s (snd (newWrite m s))" for m
    by (simp add: quiet_def newWrite_def)
  show "quiet s (snd (sendEnvelopeAsyncAfter sz env control aft s))"
    "quiet s (snd (sendEnvelopeAfter sz env aft s))"
    using quiet_trans [OF new quiet_queues(2)]
    by (auto simp: sendEnvelopeAsyncAfter_def sendEnvelopeAfter_def Let_def case_prod_unfold quiet_def
        split: option.splits)
qed

text \<open>A session shutdown by its stages, for predicates that every stage keeps.\<close>

definition closing_reset :: "serr option \<Rightarrow> serr \<Rightarrow> Session \<Rightarrow> Session" where
  "closing_reset a b s = s\<lparr>s_waitErr := a, s_closeErr := Some b, s_closing := True,
     s_channels := [], s_peerChannelIDs := Map.empty, s_activeChannels := 0, s_pendingOpens := 0,
     s_pendingChannelRequests := 0\<rparr>"

lemma fold_shutdown:
  "P s \<Longrightarrow> (\<And>i s. P s \<Longrightarrow> P (Channel_shutdown i eo s)) \<Longrightarrow> P (fold (\<lambda>i. Channel_shutdown i eo) is s)"
  by (induction "is" arbitrary: s) auto

lemma Session_shutdown_chain:
  assumes "I s"
    and reset: "\<And>a b. \<not> s_closing s \<Longrightarrow> J (closing_reset a b s)"
    and quiet: "\<And>s s'. J s \<Longrightarrow> quiet s s' \<Longrightarrow> J s'"
    and fold: "\<And>e eo s'. J s' \<Longrightarrow> I (fold (\<lambda>i. Channel_shutdown i eo) (s_channels s) (cancelSession e s'))"
    and quiet': "\<And>s s'. I s \<Longrightarrow> quiet s s' \<Longrightarrow> I s'"
    and closed: "\<And>s. I s \<Longrightarrow> I (s\<lparr>s_queuesClosed := True\<rparr>)"
  shows "I (Session_shutdown sz e s)"
proof (cases "s_closing s")
  case True
  then show ?thesis using assms(1) by (simp add: Session_shutdown_def)
next
  case False
  define b where "b = (case e of None \<Rightarrow> ErrSessionClosed | Some e \<Rightarrow> e)"
  define s1 where "s1 = s\<lparr>s_waitErr := e, s_closeErr := Some b, s_closing := True,
      s_pendingGlobal := [], s_incomingGlobalRequests := [], s_channels := [],
      s_peerChannelIDs := Map.empty, s_activeChannels := 0, s_pendingOpens := 0,
      s_pendingChannelRequests := 0\<rparr>"
  have s1: "J s1"
    by (rule quiet [OF reset [OF False, of e b]]) (simp add: s1_def quiet_def closing_reset_def)
  have send: "J (snd (sendEnvelopeAsync sz env True s0))" if "J s0" for env s0
    using quiet [OF that quiet_send(1)] by (simp add: sendEnvelopeAsync_def)
  have rest: "I ((s5\<lparr>s_globalResults := g\<rparr>)\<lparr>s_queuesClosed := True, s_spawned := gs\<rparr>)" if "I s5" for s5 g gs
    by (rule quiet' [OF closed [OF that]]) (simp add: quiet_def)
  define s2 where "s2 = (case e of
      Some (ProtocolError _) \<Rightarrow>
        snd (sendEnvelopeAsync sz (KindDisconnect ''protocol-error'' ''protocol error'') True s1)
    | _ \<Rightarrow> s1)"
  have "J s2"
    unfolding s2_def using s1 send [OF s1] by (simp split: option.split serr.split)
  note s4 = fold [OF this, of "Some b" b]
  obtain g gs where "Session_shutdown sz e s =
      ((fold (\<lambda>i. Channel_shutdown i (Some b)) (s_channels s) (cancelSession b s2))
        \<lparr>s_globalResults := g\<rparr>)\<lparr>s_queuesClosed := True, s_spawned := gs\<rparr>"
    using that by (simp only: Session_shutdown_def Let_def False if_False s2_def s1_def b_def)
  with rest [OF s4] show ?thesis by simp
qed

lemma Session_shutdown_stages:
  assumes "I s" and quiet: "\<And>s s'. I s \<Longrightarrow> quiet s s' \<Longrightarrow> I s'"
    and reset: "\<And>a b. \<not> s_closing s \<Longrightarrow> I (closing_reset a b s)"
    and cancel: "\<And>e s. I s \<Longrightarrow> I (cancelSession e s)"
    and chan: "\<And>i eo s. I s \<Longrightarrow> I (Channel_shutdown i eo s)"
    and closed: "\<And>s. I s \<Longrightarrow> I (s\<lparr>s_queuesClosed := True\<rparr>)"
  shows "I (Session_shutdown sz e s)"
proof (rule Session_shutdown_chain [where J = I], goal_cases)
  case 1 show ?case by (rule assms(1))
next
  case 2 then show ?case by (rule reset)
next
  case 3 then show ?case by (rule quiet)
next
  case 4
  show ?case by (rule fold_shutdown [where P = I, OF cancel [OF 4] chan])
next
  case 5 then show ?case by (rule quiet)
next
  case 6 then show ?case by (rule closed)
qed

section \<open>Invariants that do not read the queues of the session\<close>

locale session_local =
  fixes sz :: proto_size
    and I :: "Session \<Rightarrow> bool"
  assumes quiet_law: "I s \<Longrightarrow> quiet s s' \<Longrightarrow> I s'"
    and l_activate: "I s \<Longrightarrow> I (s\<lparr>s_activated := True\<rparr>)"
    and l_benign:
      "I s \<Longrightarrow> (\<And>c. s_heap s i = Some c \<Longrightarrow> benign c (f c)) \<Longrightarrow> I (mod_chan i f s)"
    and l_edge:
      "I s \<Longrightarrow> (\<And>c. s_heap s i = Some c \<Longrightarrow>
          state_edge (ch_state c) st \<and> benign (c\<lparr>ch_state := st\<rparr>) (f c)) \<Longrightarrow> I (mod_chan i f s)"
    and l_incoming:
      "I s \<Longrightarrow> reserveLocalChannelID s = (Inr i, s1)
        \<Longrightarrow> I (snd (addPendingChannel i (Some p) (newIncomingChannel i p typ rw mp h s1)))"
    and l_outgoing:
      "I s \<Longrightarrow> reserveLocalChannelID s = (Inr i, s1)
        \<Longrightarrow> I (snd (addPendingChannel i None (newPendingChannel i typ h s1)))"
    and l_accepted:
      "I s \<Longrightarrow> s_heap s i \<noteq> None \<Longrightarrow> ch_state (chan s i) = channelOpening
        \<Longrightarrow> ch_maxLocalPacket (chan s i) \<noteq> 0
        \<Longrightarrow> I (snd (activateChannel i (mod_chan i (\<lambda>c. signalLocked (c\<lparr>ch_state := channelOpen\<rparr>)) s)))"
    and l_opened:
      "I s \<Longrightarrow> i \<in> set (s_channels s) \<Longrightarrow> s_heap s i \<noteq> None
        \<Longrightarrow> ch_state (chan s i) = channelOpening \<Longrightarrow> ch_openWait (chan s i)
        \<Longrightarrow> reservePeerChannelID p i (mod_chan i (ch_openWait_update (\<lambda>_. False)) s) = (None, s1)
        \<Longrightarrow> I (snd (activateChannel i (mod_chan i (\<lambda>c. signalLocked (c\<lparr>ch_peerID := p,
              ch_localWindow := InitialWindow (s_config s1), ch_remoteWindow := rw,
              ch_maxLocalPacket := MaxPacketSize (s_config s1), ch_maxRemotePacket := mp,
              ch_state := channelOpen\<rparr>)) s1)))"
    and l_remove: "I s \<Longrightarrow> I (removeChannel i s)"
    and l_channel_shutdown: "I s \<Longrightarrow> I (Channel_shutdown i eo s)"
    and l_session_shutdown: "I s \<Longrightarrow> I (Session_shutdown sz eo s)"
    and l_cancel: "I s \<Longrightarrow> I (cancelSession e0 s)"
    and l_fail_pending: "I s \<Longrightarrow> I (failPendingRequestsLocked i e0 s)"
    and l_remove_pending: "I s \<Longrightarrow> I (removePendingRequest i rid s)"
    and l_new_request:
      "I s \<Longrightarrow> s_heap s i \<noteq> None \<Longrightarrow> channelErrorLocked s i = None \<Longrightarrow> state_rank (ch_state (chan s i)) = 1
        \<Longrightarrow> ch_nextRequestID (chan s i) \<noteq> - 1
        \<Longrightarrow> len32 (ch_pendingRequests (chan s i)) < MaxPendingChannelRequestsPerChannel (limits s)
        \<Longrightarrow> reservePendingChannelRequest
              (mod_chan i (\<lambda>c. c\<lparr>ch_nextRequestID := ch_nextRequestID c + 1\<rparr>) s) = (None, s1)
        \<Longrightarrow> I (mod_chan i (\<lambda>c. c\<lparr>ch_pendingRequests :=
                  ch_nextRequestID (chan s i) # ch_pendingRequests c\<rparr>) s1)"
    and l_close:
      "I s \<Longrightarrow> state_rank (ch_state (chan s i)) = 1
        \<Longrightarrow> I (discardQueuedLocked i (mod_chan i (ch_state_update (\<lambda>_. channelClosing)) s))"
    and l_event:
      "I s \<Longrightarrow> state_rank (ch_state (chan s i)) = 1
        \<Longrightarrow> reserveQueuedLocked i 1 (event_size ev) s = (None, s1)
        \<Longrightarrow> I (mod_chan i (push_event ev) s1)"
    and l_close_event:
      "I s \<Longrightarrow> state_rank (ch_state (chan s i)) = 1
        \<Longrightarrow> reserveQueuedLocked i 1 (event_size ev)
              (mod_chan i (\<lambda>c. signalLocked (c\<lparr>ch_state := channelClosed\<rparr>)) s) = (None, s1)
        \<Longrightarrow> I (mod_chan i (push_event ev) s1)"
    and l_unreserve:
      "I s \<Longrightarrow> s_heap s i \<noteq> None \<Longrightarrow> reserveQueuedLocked i 1 n s = (None, s1)
        \<Longrightarrow> I (releaseQueuedLocked i 1 n s1)"
    and l_data:
      "I s \<Longrightarrow> canReceiveData (ch_state (chan s i)) \<Longrightarrow> frame \<noteq> [] \<Longrightarrow> length frame \<le> 24576
        \<Longrightarrow> len32 frame \<le> ch_maxLocalPacket (chan s i) \<Longrightarrow> len32 frame \<le> ch_localWindow (chan s i)
        \<Longrightarrow> reserveQueuedLocked i 1 (ucast (len32 frame)) s = (None, s1)
        \<Longrightarrow> I (mod_chan i (\<lambda>c. signalLocked (c\<lparr>ch_localWindow := ch_localWindow c - len32 frame,
              ch_frames := ch_frames c @ [frame]\<rparr>)) s1)"
    and l_recv:
      "I s \<Longrightarrow> ch_frames (chan s i) = frame # rest \<Longrightarrow> I (snd (recv_take i frame rest s))"
    and l_worker: "I s \<Longrightarrow> I (snd (worker_take i s))"

sublocale session_local \<subseteq> session_contract sz I
proof (unfold_locales, goal_cases)
  case 1 then show ?case by (rule l_benign)
next
  case 2 then show ?case by (rule l_edge)
next
  case (17 s w ws)
  then show ?case by (intro quiet_law [OF 17(1)]) (auto simp: quiet_def releaseQueueBudget_def)
next
  case (18 s w ws)
  then show ?case by (intro quiet_law [OF 18(1)]) (auto simp: quiet_def releaseQueueBudget_def)
next
  case 19 then show ?case by (rule l_incoming)
next
  case 20 then show ?case by (rule l_outgoing)
next
  case 21 then show ?case by (rule l_accepted)
next
  case 22 then show ?case by (rule l_opened)
next
  case 29 then show ?case by (rule l_new_request)
next
  case 31 then show ?case by (rule l_event)
next
  case 32 then show ?case by (rule l_close_event)
next
  case 33 then show ?case by (rule l_unreserve)
next
  case 34 then show ?case by (rule l_data)
qed (auto intro: l_activate l_remove l_channel_shutdown l_session_shutdown l_cancel l_fail_pending
    l_remove_pending l_close l_recv l_worker quiet_law quiet_writes quiet_send quiet_queues
    simp: quiet_def)

section \<open>Invariants that do not read the queues of the channels\<close>

text \<open>
  \<open>calm c c'\<close>: the identity, the slot, the state and the pending requests of the channel are the
  same; its queues and windows are not constrained.
\<close>

definition calm :: "Channel \<Rightarrow> Channel \<Rightarrow> bool" where
  "calm c c' \<longleftrightarrow>
     ch_peerID c' = ch_peerID c \<and> ch_typ c' = ch_typ c \<and> ch_slot c' = ch_slot c
     \<and> (ch_openWait c' \<longrightarrow> ch_openWait c)
     \<and> (ch_cause c \<noteq> None \<longrightarrow> ch_cause c' = ch_cause c) \<and> ch_state c' = ch_state c
     \<and> ch_maxLocalPacket c' = ch_maxLocalPacket c
     \<and> unat (ch_nextRequestID c) \<le> unat (ch_nextRequestID c')
     \<and> ch_pendingRequests c' = ch_pendingRequests c
     \<and> (ch_sessionErr c \<noteq> None \<longrightarrow> ch_sessionErr c' = ch_sessionErr c)
     \<and> ch_stateGen c \<le> ch_stateGen c'"

definition state_move :: "channelState \<Rightarrow> channelState \<Rightarrow> bool" where
  "state_move a b \<longleftrightarrow> a = b \<or> state_edge a b \<or> (b = channelFailed \<and> a \<noteq> channelClosed)
     \<or> (state_rank a = 1 \<and> b = channelClosing)"

lemma benign_calm: "benign c c' \<Longrightarrow> calm c c'"
  by (simp add: benign_def calm_def)

locale session_plain =
  fixes sz :: proto_size
    and I :: "Session \<Rightarrow> bool"
  assumes p_quiet: "I s \<Longrightarrow> quiet s s' \<Longrightarrow> I s'"
    and p_activate: "I s \<Longrightarrow> I (s\<lparr>s_activated := True\<rparr>)"
    and p_move:
      "I s \<Longrightarrow> (\<And>c. s_heap s i = Some c \<Longrightarrow> state_move (ch_state c) (ch_state (f c))
            \<and> calm (c\<lparr>ch_state := ch_state (f c)\<rparr>) (f c)) \<Longrightarrow> I (mod_chan i f s)"
    and p_incoming:
      "I s \<Longrightarrow> reserveLocalChannelID s = (Inr i, s1)
        \<Longrightarrow> I (snd (addPendingChannel i (Some p) (newIncomingChannel i p typ rw mp h s1)))"
    and p_outgoing:
      "I s \<Longrightarrow> reserveLocalChannelID s = (Inr i, s1)
        \<Longrightarrow> I (snd (addPendingChannel i None (newPendingChannel i typ h s1)))"
    and p_accepted:
      "I s \<Longrightarrow> s_heap s i \<noteq> None \<Longrightarrow> ch_state (chan s i) = channelOpening
        \<Longrightarrow> ch_maxLocalPacket (chan s i) \<noteq> 0
        \<Longrightarrow> I (snd (activateChannel i (mod_chan i (\<lambda>c. signalLocked (c\<lparr>ch_state := channelOpen\<rparr>)) s)))"
    and p_opened:
      "I s \<Longrightarrow> i \<in> set (s_channels s) \<Longrightarrow> s_heap s i \<noteq> None
        \<Longrightarrow> ch_state (chan s i) = channelOpening \<Longrightarrow> ch_openWait (chan s i)
        \<Longrightarrow> reservePeerChannelID p i (mod_chan i (ch_openWait_update (\<lambda>_. False)) s) = (None, s1)
        \<Longrightarrow> I (snd (activateChannel i (mod_chan i (\<lambda>c. signalLocked (c\<lparr>ch_peerID := p,
              ch_localWindow := InitialWindow (s_config s1), ch_remoteWindow := rw,
              ch_maxLocalPacket := MaxPacketSize (s_config s1), ch_maxRemotePacket := mp,
              ch_state := channelOpen\<rparr>)) s1)))"
    and p_remove: "I s \<Longrightarrow> I (removeChannel i s)"
    and p_session_shutdown:
      "I s \<Longrightarrow> (\<And>i eo s. I s \<Longrightarrow> I (Channel_shutdown i eo s)) \<Longrightarrow> I (Session_shutdown sz e1 s)"
    and p_cancel: "I s \<Longrightarrow> I (cancelSession e0 s)"
    and p_fail_pending: "I s \<Longrightarrow> I (failPendingRequestsLocked i e0 s)"
    and p_remove_pending: "I s \<Longrightarrow> I (removePendingRequest i rid s)"
    and p_new_request:
      "I s \<Longrightarrow> s_heap s i \<noteq> None \<Longrightarrow> channelErrorLocked s i = None \<Longrightarrow> state_rank (ch_state (chan s i)) = 1
        \<Longrightarrow> ch_nextRequestID (chan s i) \<noteq> - 1
        \<Longrightarrow> len32 (ch_pendingRequests (chan s i)) < MaxPendingChannelRequestsPerChannel (limits s)
        \<Longrightarrow> reservePendingChannelRequest
              (mod_chan i (\<lambda>c. c\<lparr>ch_nextRequestID := ch_nextRequestID c + 1\<rparr>) s) = (None, s1)
        \<Longrightarrow> I (mod_chan i (\<lambda>c. c\<lparr>ch_pendingRequests :=
                  ch_nextRequestID (chan s i) # ch_pendingRequests c\<rparr>) s1)"
begin

lemma calm_I: "I s \<Longrightarrow> (\<And>c. s_heap s i = Some c \<Longrightarrow> calm c (f c)) \<Longrightarrow> I (mod_chan i f s)"
  by (rule p_move) (auto simp: state_move_def calm_def)

lemma edge_I:
  assumes "I s" and "\<And>c. s_heap s i = Some c \<Longrightarrow>
      state_edge (ch_state c) st \<and> benign (c\<lparr>ch_state := st\<rparr>) (f c)"
  shows "I (mod_chan i f s)"
proof (rule p_move [OF assms(1)])
  fix c
  assume "s_heap s i = Some c"
  from assms(2) [OF this]
  have e: "state_edge (ch_state c) st" and b: "benign (c\<lparr>ch_state := st\<rparr>) (f c)" by auto
  then have "ch_state (f c) = st" by (simp add: benign_def)
  with e benign_calm [OF b]
  show "state_move (ch_state c) (ch_state (f c)) \<and> calm (c\<lparr>ch_state := ch_state (f c)\<rparr>) (f c)"
    by (simp add: state_move_def)
qed

lemma budget_I:
  "I s \<Longrightarrow> I (releaseQueueBudget f b s)"
  "I s \<Longrightarrow> I (discardQueuedLocked i s)"
  "I s \<Longrightarrow> I (releaseQueuedLocked i f b s)"
  "I s \<Longrightarrow> I (snd (reserveQueuedLocked i f b s))"
proof -
  show one: "I (releaseQueueBudget f b s)" if "I s" for f b s
    using p_quiet [OF that quiet_budget(2)] .
  have two: "I (snd (reserveQueueBudget f b s))" if "I s" for s
    using p_quiet [OF that quiet_budget(1)] .
  show "I s \<Longrightarrow> I (discardQueuedLocked i s)"
    by (auto simp: discardQueuedLocked_def calm_def intro!: one calm_I)
  show "I s \<Longrightarrow> I (releaseQueuedLocked i f b s)"
    by (auto simp: releaseQueuedLocked_def Let_def calm_def intro!: one calm_I)
  show "I s \<Longrightarrow> I (snd (reserveQueuedLocked i f b s))"
    by (auto simp: reserveQueuedLocked_def case_prod_unfold calm_def split: option.splits
        intro!: two calm_I)
qed

lemma reserved_I: "I s \<Longrightarrow> reserveQueuedLocked i f b s = (r, s1) \<Longrightarrow> I s1"
  using budget_I(4) [of s i f b] by simp

lemma channel_shutdown_I:
  assumes "I s"
  shows "I (Channel_shutdown i eo s)"
proof -
  have "I (mod_chan i (\<lambda>c. c\<lparr>
      ch_sessionErr := (if ch_sessionErr c = None then Some err else ch_sessionErr c),
      ch_state := (if ch_state c \<noteq> channelClosed then channelFailed else ch_state c)\<rparr>) s)" for err
    using assms by (intro p_move) (auto simp: state_move_def calm_def)
  moreover have "I (mod_chan i g (failPendingRequestsLocked i err (discardQueuedLocked i s1)))"
    if "I s1" and "\<And>c. calm c (g c)" for g err s1
    using that by (intro calm_I [OF p_fail_pending [OF budget_I(2)]])
  ultimately show ?thesis
    by (simp add: Channel_shutdown_def Let_def calm_def cancelChannel_def signalLocked_def)
qed

end

sublocale session_plain \<subseteq> session_local sz I
proof (unfold_locales, goal_cases)
  case (1 s s') then show ?case by (rule p_quiet)
next
  case (3 s i f) then show ?case using benign_calm by (intro calm_I) auto
next
  case 4 then show ?case by (rule edge_I)
next
  case 5 then show ?case by (rule p_incoming)
next
  case 6 then show ?case by (rule p_outgoing)
next
  case 7 then show ?case by (rule p_accepted)
next
  case 8 then show ?case by (rule p_opened)
next
  case (11 s eo) then show ?case by (intro p_session_shutdown channel_shutdown_I)
next
  case 15 then show ?case by (rule p_new_request)
next
  case (16 s i)
  then show ?case
    by (intro budget_I p_move) (auto simp: chan_def state_move_def calm_def)
next
  case (17 s i ev s1)
  then show ?case by (auto simp: push_event_def calm_def intro!: calm_I dest: reserved_I)
next
  case (18 s i ev s1)
  have "I (mod_chan i (\<lambda>c. signalLocked (c\<lparr>ch_state := channelClosed\<rparr>)) s)"
    using 18(1,2) by (intro p_move) (auto simp: chan_def state_move_def state_edge_def calm_def signalLocked_def)
  then have "I s1" using 18(3) by (rule reserved_I)
  then show ?case by (auto simp: push_event_def calm_def intro!: calm_I)
next
  case (19 s i n s1)
  then show ?case by (intro budget_I) (auto dest: reserved_I)
next
  case (20 s i frame s1)
  then have "I s1" by (blast intro: reserved_I)
  then show ?case by (auto simp: signalLocked_def calm_def intro!: calm_I)
next
  case (21 s i frame rest)
  then show ?case by (auto simp: recv_take_def Let_def calm_def intro!: calm_I budget_I)
next
  case (22 s i)
  then show ?case by (auto simp: worker_take_def calm_def split: list.splits intro!: calm_I budget_I)
qed (auto intro: p_activate p_remove p_cancel p_fail_pending p_remove_pending channel_shutdown_I)

end
