(* ===== verification/Session_Admission.thy ===== *)
theory Session_Admission
  imports Session_Layers
begin

text \<open>
  Incoming channels under admission.  A channel that the peer table names while it is still
  opening was created by \<open>enqueueIncomingOpen\<close>, so the dispatch worker only ever asks the
  application about channels whose receive window has been set up.
\<close>

definition admission_inv :: "u64 set \<Rightarrow> Session \<Rightarrow> bool" where
  "admission_inv S s \<longleftrightarrow> fresh_ids s \<and> MaxPacketSize (s_config s) \<noteq> 0
     \<and> (\<forall>i \<in> S. admitted i s) \<and> (\<forall>p i. s_peerChannelIDs s p = Some i \<longrightarrow> admitted i s)"

lemma admitted_same_heap:
  "s_heap s' = s_heap s \<Longrightarrow> admitted i s' = admitted i s"
  by (simp add: admitted_def chan_def)

lemma admitted_mod_chan:
  assumes "admitted i s"
    and "\<And>c. s_heap s j = Some c \<Longrightarrow> ch_state (f c) = channelOpening \<Longrightarrow>
           ch_state c = channelOpening \<and> ch_maxLocalPacket (f c) = ch_maxLocalPacket c"
  shows "admitted i (mod_chan j f s)"
  using assms by (cases "i = j") (auto simp: admitted_def chan_def)

lemma admission_quiet: "admission_inv S s \<Longrightarrow> quiet s s' \<Longrightarrow> admission_inv S s'"
  by (simp add: admission_inv_def quiet_def admitted_def chan_def fresh_ids_def)

lemma admission_neutral [simp]:
  "admission_inv S (s\<lparr>s_channels := x1\<rparr>) = admission_inv S s"
  "admission_inv S (s\<lparr>s_activated := x2\<rparr>) = admission_inv S s"
  "admission_inv S (s\<lparr>s_pendingOpens := x3\<rparr>) = admission_inv S s"
  "admission_inv S (s\<lparr>s_activeChannels := x4\<rparr>) = admission_inv S s"
  "admission_inv S (s\<lparr>s_pendingChannelRequests := x5\<rparr>) = admission_inv S s"
  "admission_inv S (s\<lparr>s_queuesClosed := x6\<rparr>) = admission_inv S s"
  by (simp_all add: admission_inv_def admitted_def chan_def fresh_ids_def)

lemma admission_mod_chan:
  assumes "admission_inv S s"
    and "\<And>c. s_heap s j = Some c \<Longrightarrow> ch_state (f c) = channelOpening \<Longrightarrow>
           ch_state c = channelOpening \<and> ch_maxLocalPacket (f c) = ch_maxLocalPacket c"
  shows "admission_inv S (mod_chan j f s)"
  using assms by (auto simp: admission_inv_def intro!: admitted_mod_chan)

lemma admission_peers:
  "admission_inv S s \<Longrightarrow> (\<And>p i. q p = Some i \<Longrightarrow> s_peerChannelIDs s p = Some i \<or> admitted i s)
    \<Longrightarrow> admission_inv S (s\<lparr>s_peerChannelIDs := q\<rparr>)"
  by (fastforce simp: admission_inv_def admitted_def chan_def fresh_ids_def)

lemma admission_new_channel:
  assumes "admission_inv S s" and "reserveLocalChannelID s = (Inr i, s1)"
  shows "admission_inv S (s1\<lparr>s_heap := (s_heap s1)(i \<mapsto> c)\<rparr>)"
proof -
  have "fresh_ids s" using assms(1) by (simp add: admission_inv_def)
  note new = reserveLocalChannelID_fresh [OF assms(2) this]
  have "admitted j (s1\<lparr>s_heap := (s_heap s1)(i \<mapsto> c)\<rparr>)" if "admitted j s" for j
    using that new(1,2) by (cases "j = i") (auto simp: admitted_def chan_def)
  then show ?thesis
    using assms(1) new by (auto simp: admission_inv_def fresh_ids_def)
qed

lemma admission_slot:
  "admission_inv S s \<Longrightarrow> admission_inv S (mod_chan i (ch_slot_update g) s)"
  by (auto intro!: admission_mod_chan)

lemma admission_addPending:
  assumes "admission_inv S s" and "\<And>q. p = Some q \<Longrightarrow> admitted i s"
  shows "admission_inv S (snd (addPendingChannel i p s))"
  using assms
  by (auto simp: addPendingChannel_def Let_def split: option.splits if_splits
      intro!: admission_slot admission_peers)

lemma admission_tables:
  "admission_inv S s \<Longrightarrow> admission_inv S (snd (activateChannel i s))"
  "admission_inv S s \<Longrightarrow> admission_inv S (removeChannel i s)"
  by (auto simp: activateChannel_def removeChannel_def intro!: admission_slot admission_peers
      split: if_splits)

lemma admission_release_requests [simp]:
  "admission_inv S (releasePendingChannelRequest s) = admission_inv S s"
  "admission_inv S ((releasePendingChannelRequest ^^ n) s) = admission_inv S s"
proof -
  show one: "admission_inv S (releasePendingChannelRequest s) = admission_inv S s" for s
    by (simp add: releasePendingChannelRequest_def)
  show "admission_inv S ((releasePendingChannelRequest ^^ n) s) = admission_inv S s"
    by (induction n) (simp_all add: one)
qed

lemma admission_requests:
  "admission_inv S s \<Longrightarrow> admission_inv S (failPendingRequestsLocked i e s)"
  "admission_inv S s \<Longrightarrow> admission_inv S (removePendingRequest i rid s)"
  by (auto simp: failPendingRequestsLocked_def removePendingRequest_def intro!: admission_mod_chan)

lemma admission_cancel:
  assumes "admission_inv S s"
  shows "admission_inv S (cancelSession e s)"
proof -
  have "admitted i (cancelSession e s)" if "admitted i s" for i
    using that by (auto simp: admitted_def chan_def cancelSession_def cancelChannel_def split: option.splits)
  moreover have "s_peerChannelIDs (cancelSession e s) = s_peerChannelIDs s"
    "s_config (cancelSession e s) = s_config s" "fresh_ids (cancelSession e s) = fresh_ids s"
    by (auto simp: cancelSession_def fresh_ids_def)
  ultimately show ?thesis
    using assms by (simp add: admission_inv_def)
qed

lemma admission_reset: "admission_inv S s \<Longrightarrow> admission_inv S (closing_reset a b s)"
  by (simp add: closing_reset_def admission_inv_def admitted_def chan_def fresh_ids_def)

lemma state_move_opening: "state_move a channelOpening \<Longrightarrow> a = channelOpening"
  by (auto simp: state_move_def state_edge_def)

interpretation admission: session_plain sz "admission_inv S" for sz S
proof (unfold_locales, goal_cases)
  case (1 s s') then show ?case by (rule admission_quiet)
next
  case (3 s i f)
  have "ch_state c = channelOpening \<and> ch_maxLocalPacket (f c) = ch_maxLocalPacket c"
    if "s_heap s i = Some c" "ch_state (f c) = channelOpening" for c
    using 3(2) [OF that(1)] that(2) state_move_opening by (auto simp: calm_def)
  with 3(1) show ?case by (rule admission_mod_chan)
next
  case (4 s i s1 p ty rw mp h)
  then have "admission_inv S (newIncomingChannel i p ty rw mp h s1)"
    by (auto simp: newIncomingChannel_def intro: admission_new_channel)
  moreover have "MaxPacketSize (s_config s1) \<noteq> 0"
    using 4 by (auto simp: admission_inv_def reserveLocalChannelID_def split: if_splits)
  then have "admitted i (newIncomingChannel i p ty rw mp h s1)"
    by (simp add: admitted_def chan_def newIncomingChannel_def)
  ultimately show ?case by (rule admission_addPending)
next
  case (5 s i s1 ty h)
  then have "admission_inv S (newPendingChannel i ty h s1)"
    by (auto simp: newPendingChannel_def intro: admission_new_channel)
  then show ?case by (rule admission_addPending) simp
next
  case (6 s i)
  then show ?case
    by (intro admission_tables admission_mod_chan) (auto simp: signalLocked_def)
next
  case (7 s i p s1 mp rw)
  let ?f = "\<lambda>c. signalLocked (c\<lparr>ch_peerID := p, ch_localWindow := InitialWindow (s_config s1),
      ch_remoteWindow := rw, ch_maxLocalPacket := MaxPacketSize (s_config s1),
      ch_maxRemotePacket := mp, ch_state := channelOpen\<rparr>)"
  define s0 where "s0 = mod_chan i (ch_openWait_update (\<lambda>_. False)) s"
  have s0: "admission_inv S s0" "s_heap s0 i \<noteq> None"
    using 7(1,3) by (auto simp: s0_def intro!: admission_mod_chan)
  have s1: "s1 = s0\<lparr>s_peerChannelIDs := (s_peerChannelIDs s0)(p \<mapsto> i)\<rparr>"
    using 7(6) unfolding s0_def [symmetric] by (auto simp: reservePeerChannelID_def split: if_splits)
  have "mod_chan i ?f s1 = (mod_chan i ?f s0)\<lparr>s_peerChannelIDs := (s_peerChannelIDs s0)(p \<mapsto> i)\<rparr>"
    by (auto simp: s1 mod_chan_def split: option.splits)
  moreover have "admission_inv S (mod_chan i ?f s0)"
    using s0(1) by (intro admission_mod_chan) (auto simp: signalLocked_def)
  moreover have "admitted i (mod_chan i ?f s0)"
    using s0(2) by (auto simp: admitted_def chan_mod_chan signalLocked_def)
  ultimately have "admission_inv S (mod_chan i ?f s1)"
    by (auto intro!: admission_peers split: if_splits)
  then show ?case by (rule admission_tables)
next
  case (9 s e)
  show ?case
    by (rule Session_shutdown_stages [OF 9(1) admission_quiet admission_reset [OF 9(1)] admission_cancel 9(2)])
      simp_all
next
  case (13 s i s1)
  then have "admission_inv S s1"
    by (auto simp: reservePendingChannelRequest_def split: if_splits intro!: admission_mod_chan)
  then show ?case by (auto intro!: admission_mod_chan)
qed (auto simp: admission_tables admission_cancel admission_requests)

lemma exec_admitting:
  assumes "exec sz a W = Some W'" and "w_dispatcher W' = DOpen m i"
  shows "w_dispatcher W = DOpen m i
    \<or> s_peerChannelIDs (w_sess W') (co_sender_channel_id m) = Some i"
proof (cases a)
  case (App b)
  then have "w_dispatcher W' = w_dispatcher W"
    using assms(1)
    by (cases b)
      (auto simp: sent_call_def wait_result_call_def wait_context_call_def wait_closed_call_def
        wait_wake_call_def app_outcome_def drop_call_def Let_def
        split: if_splits call.splits kont.splits prod.splits option.splits outcome.splits)
  with assms(2) show ?thesis by simp
next
  case (Work b)
  then have "w_dispatcher W' = w_dispatcher W"
    using assms(1)
    by (cases b)
      (auto simp: exec_worker_event_def worker_outcome_def drop_spawned_def Let_def
        split: if_splits prod.splits option.splits channelEvent.splits worker.splits outcome.splits
          retval.splits call.splits)
  with assms(2) show ?thesis by simp
next
  case (Loop b)
  then show ?thesis
    using assms
    by (cases b)
      (auto simp: exec_dispatch_def dispatch_outcome_def writer_taken_def handleChannelOpen_lookup_def
        lookupChannelByPeer_def lookupChannel_def Let_def
        split: if_splits prod.splits option.splits sum.splits dispatchTask.splits dispatcher.splits
          writer.splits outcome.splits retval.splits call.splits)
qed

text \<open>In every reachable state the dispatch worker is deciding about an admitted channel.\<close>

lemma reachable_admission:
  assumes "reachable sz cfg W" and "MaxPacketSize cfg \<noteq> 0"
  shows "admission_inv {} (w_sess W) \<and> admitting_ok W"
  using assms(1)
proof (induction rule: reachable.induct)
  case reach_initial
  then show ?case
    using assms(2) by (simp add: initial_def Bind_def admission_inv_def admitting_ok_def fresh_ids_def)
next
  case (reach_step W a W')
  note ok = reachable_waiting_ok [OF reach_step(1)]
  have inv: "admission_inv {} (w_sess W')"
    using admission.exec_I ok reach_step by blast
  have "admitted i (w_sess W')" if "w_dispatcher W' = DOpen m i" for m i
    using exec_admitting [OF reach_step(2) that]
  proof
    assume "w_dispatcher W = DOpen m i"
    then have "admission_inv {i} (w_sess W)"
      using reach_step.IH by (auto simp: admission_inv_def admitting_ok_def)
    then have "admission_inv {i} (w_sess W')"
      using admission.exec_I ok reach_step by blast
    then show ?thesis by (simp add: admission_inv_def)
  next
    assume "s_peerChannelIDs (w_sess W') (co_sender_channel_id m) = Some i"
    then show ?thesis using inv by (simp add: admission_inv_def)
  qed
  with inv show ?case by (simp add: admitting_ok_def)
qed

lemma reachable_admitting: "MaxPacketSize cfg \<noteq> 0 \<Longrightarrow> reachable sz cfg W \<Longrightarrow> admitting_ok W"
  using reachable_admission by blast

end
