(* ===== verification/Session_Tables.thy ===== *)
theory Session_Tables
  imports Session_Admission
begin

text \<open>
  The channel tables of the session: the registered channels, the peer ids, and the two slot
  counters.  In every reachable state the counters are exactly the numbers of registered
  channels in each slot, they respect the configured limits, and the peer table is an injection
  into the registered channels.
\<close>

definition slot_count :: "channelSlot \<Rightarrow> Session \<Rightarrow> nat" where
  "slot_count sl s = length (filter (\<lambda>i. ch_slot (chan s i) = sl) (s_channels s))"

text \<open>The set \<open>X\<close> holds the channels that a session shutdown in progress still has to fail.\<close>

definition tables_inv :: "u64 set \<Rightarrow> Session \<Rightarrow> bool" where
  "tables_inv X s \<longleftrightarrow> fresh_ids s \<and> within_hard_maxima (limits s)
     \<and> distinct (s_channels s)
     \<and> (\<forall>i \<in> set (s_channels s). s_heap s i \<noteq> None \<and> ch_slot (chan s i) \<noteq> channelSlotNone)
     \<and> unat (s_pendingOpens s) = slot_count channelSlotPending s
     \<and> unat (s_activeChannels s) = slot_count channelSlotActive s
     \<and> s_pendingOpens s \<le> MaxPendingOpens (limits s)
     \<and> unat (s_activeChannels s) + unat (s_pendingOpens s) \<le> unat (MaxChannels (limits s))
     \<and> (\<forall>p i. s_peerChannelIDs s p = Some i \<longrightarrow> i \<in> set (s_channels s) \<and> ch_peerID (chan s i) = p)
     \<and> (\<forall>p i. s_peerChannelIDs s p = Some i \<longrightarrow> ch_state (chan s i) = channelOpening
            \<longrightarrow> \<not> ch_openWait (chan s i))
     \<and> (\<forall>i. s_heap s i \<noteq> None \<longrightarrow> ch_state (chan s i) = channelOpening
            \<longrightarrow> ch_slot (chan s i) = channelSlotPending \<longrightarrow> i \<in> set (s_channels s) \<union> X)
     \<and> (\<forall>i \<in> set (s_channels s). ch_state (chan s i) = channelOpening
            \<longrightarrow> ch_slot (chan s i) = channelSlotPending)"

lemma slots_partition:
  "list_all (\<lambda>i. ch_slot (f i) \<noteq> channelSlotNone) xs \<Longrightarrow>
    length xs = length (filter (\<lambda>i. ch_slot (f i) = channelSlotPending) xs)
      + length (filter (\<lambda>i. ch_slot (f i) = channelSlotActive) xs)"
proof (induction xs)
  case (Cons x xs)
  then show ?case by (cases "ch_slot (f x)") auto
qed simp

lemma slot_count_cong:
  "s_channels s' = s_channels s \<Longrightarrow> (\<And>i. ch_slot (chan s' i) = ch_slot (chan s i))
    \<Longrightarrow> slot_count sl s' = slot_count sl s"
  by (simp add: slot_count_def)

text \<open>Everything that leaves the tables, the slots and the peer ids alone.\<close>

lemma tables_cong:
  assumes inv: "tables_inv X s"
    and same: "s_channels s' = s_channels s" "s_peerChannelIDs s' = s_peerChannelIDs s"
      "s_pendingOpens s' = s_pendingOpens s" "s_activeChannels s' = s_activeChannels s"
      "s_config s' = s_config s" "s_nextLocalChannelID s' = s_nextLocalChannelID s"
    and heap: "\<And>i. rel_option (\<lambda>c c'. ch_slot c' = ch_slot c \<and> ch_peerID c' = ch_peerID c
        \<and> (ch_openWait c' \<longrightarrow> ch_openWait c)
        \<and> (ch_state c' = channelOpening \<longrightarrow> ch_state c = channelOpening)) (s_heap s i) (s_heap s' i)"
  shows "tables_inv X s'"
proof -
  have chan: "ch_slot (chan s' i) = ch_slot (chan s i)" "ch_peerID (chan s' i) = ch_peerID (chan s i)"
    "ch_state (chan s' i) = channelOpening \<Longrightarrow> ch_state (chan s i) = channelOpening"
    "s_heap s' i = None \<longleftrightarrow> s_heap s i = None"
    "ch_openWait (chan s' i) \<Longrightarrow> ch_openWait (chan s i)" for i
    using heap [of i] by (auto simp: chan_def split: option.splits)
  have "fresh_ids s'"
    using inv same chan(4) by (auto simp: tables_inv_def fresh_ids_def)
  then show ?thesis
    using inv same chan slot_count_cong [of s' s, OF same(1) chan(1)]
    unfolding tables_inv_def by simp blast
qed

lemma tables_mod_chan:
  assumes "tables_inv X s"
    and "\<And>c. s_heap s i = Some c \<Longrightarrow> ch_slot (f c) = ch_slot c \<and> ch_peerID (f c) = ch_peerID c
          \<and> (ch_openWait (f c) \<longrightarrow> ch_openWait c)
          \<and> (ch_state (f c) = channelOpening \<longrightarrow> ch_state c = channelOpening)"
  shows "tables_inv X (mod_chan i f s)"
  using assms(2) by (intro tables_cong [OF assms(1)])
    (auto simp: heap_mod_chan option.rel_map intro!: option.rel_refl_strong)

lemma tables_quiet: "tables_inv X s \<Longrightarrow> quiet s s' \<Longrightarrow> tables_inv X s'"
  by (rule tables_cong) (auto simp: quiet_def intro!: option.rel_refl_strong)

lemma tables_shutdown:
  assumes "tables_inv X s"
  shows "tables_inv (X - {i}) (Channel_shutdown i e s)"
proof -
  have "tables_inv X (Channel_shutdown i e s)"
    by (rule tables_cong [OF assms])
      (auto simp: heap_Channel_shutdown shut_channel_def signalLocked_def cancelChannel_def option.rel_map intro!: option.rel_refl_strong split: if_splits)
  moreover have "ch_state (chan (Channel_shutdown i e s) i) \<noteq> channelOpening" if "s_heap s i \<noteq> None"
    using that by (auto simp: chan_def heap_Channel_shutdown split: if_splits)
  moreover have "s_heap (Channel_shutdown i e s) i \<noteq> None \<Longrightarrow> s_heap s i \<noteq> None"
    by (simp add: heap_Channel_shutdown)
  ultimately show ?thesis
    unfolding tables_inv_def by blast
qed

lemma tables_fold_shutdown:
  "tables_inv X s \<Longrightarrow> tables_inv (X - set is) (fold (\<lambda>i. Channel_shutdown i e) is s)"
proof (induction "is" arbitrary: X s)
  case Nil
  then show ?case by simp
next
  case (Cons i "is")
  have "tables_inv ((X - {i}) - set is) (fold (\<lambda>i. Channel_shutdown i e) is (Channel_shutdown i e s))"
    using Cons.IH [OF tables_shutdown [OF Cons.prems]] .
  moreover have "(X - {i}) - set is = X - set (i # is)" by auto
  ultimately show ?case by simp
qed

section \<open>Adding, activating and removing a channel\<close>

lemma unat_channels_le: "within_hard_maxima l \<Longrightarrow> unat (MaxChannels l) \<le> 1024"
  "within_hard_maxima l \<Longrightarrow> unat (MaxPendingOpens l) \<le> 1024"
  by (auto simp: within_hard_maxima_def word_le_nat_alt)

lemma tables_new_channel:
  assumes "tables_inv X s" and "reserveLocalChannelID s = (Inr i, s1)" and "ch_slot c = channelSlotNone"
  shows "tables_inv X (s1\<lparr>s_heap := (s_heap s1)(i \<mapsto> c)\<rparr>)" and "i \<notin> set (s_channels s)"
proof -
  have "fresh_ids s" using assms(1) by (simp add: tables_inv_def)
  note new = reserveLocalChannelID_fresh [OF assms(2) this]
  show unreg: "i \<notin> set (s_channels s)"
    using assms(1) new(1) by (auto simp: tables_inv_def)
  let ?t = "s1\<lparr>s_heap := (s_heap s1)(i \<mapsto> c)\<rparr>"
  have other: "chan ?t j = chan s j" if "j \<noteq> i" for j
    using that new(2) by (simp add: chan_def)
  have chans: "chan ?t j = chan s j" if "j \<in> set (s_channels s)" for j
    using other [of j] that unreg by metis
  have "slot_count sl ?t = slot_count sl s" for sl
    using new(2) chans by (auto simp: slot_count_def intro!: arg_cong [where f = length] filter_cong)
  moreover have "chan ?t i = c" by (simp add: chan_def)
  moreover have "fresh_ids ?t"
    using new by (auto simp: fresh_ids_def)
  ultimately show "tables_inv X ?t"
    using assms(1,3) new(2) chans other unreg
    unfolding tables_inv_def
    by (auto split: if_splits)
qed

lemma slot_count_update:
  assumes "distinct (s_channels s)" and "i \<in> set (s_channels s)"
    and "s_channels s' = s_channels s" and "\<And>j. j \<noteq> i \<Longrightarrow> ch_slot (chan s' j) = ch_slot (chan s j)"
  shows "slot_count sl s' + (if ch_slot (chan s i) = sl then 1 else 0)
       = slot_count sl s + (if ch_slot (chan s' i) = sl then 1 else 0)"
  unfolding slot_count_def assms(3)
  using length_filter_upd_distinct [OF assms(1,2), of "\<lambda>i. ch_slot (chan s' i) = sl" "\<lambda>i. ch_slot (chan s i) = sl"]
    assms(4) by simp

lemma tables_addPending:
  assumes inv: "tables_inv X s" and "i \<notin> set (s_channels s)" and c: "s_heap s i = Some c"
    and "ch_state c = channelOpening" and "\<And>q. p = Some q \<Longrightarrow> ch_peerID c = q \<and> \<not> ch_openWait c"
  shows "tables_inv X (snd (addPendingChannel i p s))"
proof (cases "fst (addPendingChannel i p s)")
  case (Some e)
  then have "snd (addPendingChannel i p s) = s"
    by (auto simp: addPendingChannel_def Let_def split: if_splits)
  with inv show ?thesis by simp
next
  case None
  define t where "t = snd (addPendingChannel i p s)"
  have le: "s_pendingOpens s < MaxPendingOpens (limits s)"
    "s_activeChannels s + s_pendingOpens s < MaxChannels (limits s)"
    using None by (auto simp: addPendingChannel_def not_le split: if_splits)
  have cap: "unat (s_activeChannels s) + unat (s_pendingOpens s) \<le> 1024" "unat (s_pendingOpens s) \<le> 1024"
    "unat (MaxChannels (limits s)) \<le> 1024"
    using inv unat_channels_le [of "limits s"] by (auto simp: tables_inv_def)
  have sum: "unat (s_activeChannels s + s_pendingOpens s) = unat (s_activeChannels s) + unat (s_pendingOpens s)"
    using cap by (intro unat_add_no_wrap) simp
  have one: "unat (s_pendingOpens s + 1) = unat (s_pendingOpens s) + 1"
    using cap unat_add_no_wrap [of "s_pendingOpens s" 1] by simp
  have t: "s_channels t = i # s_channels s" "s_pendingOpens t = s_pendingOpens s + 1"
    "s_activeChannels t = s_activeChannels s" "s_config t = s_config s"
    "s_nextLocalChannelID t = s_nextLocalChannelID s"
    "s_peerChannelIDs t = (case p of Some q \<Rightarrow> (s_peerChannelIDs s)(q \<mapsto> i) | None \<Rightarrow> s_peerChannelIDs s)"
    "s_heap t = (s_heap s)(i \<mapsto> c\<lparr>ch_slot := channelSlotPending\<rparr>)"
    using None assms(2) c
    by (auto simp: t_def addPendingChannel_def Let_def heap_mod_chan_upd split: option.splits if_splits)
  have chan: "chan t j = (if j = i then c\<lparr>ch_slot := channelSlotPending\<rparr> else chan s j)" for j
    using t(7) by (simp add: chan_def)
  have "filter (\<lambda>j. ch_slot (chan t j) = sl) (s_channels s) = filter (\<lambda>j. ch_slot (chan s j) = sl) (s_channels s)" for sl
    using assms(2) by (intro filter_cong) (auto simp: chan)
  then have count: "slot_count channelSlotPending t = slot_count channelSlotPending s + 1"
    "slot_count channelSlotActive t = slot_count channelSlotActive s"
    by (simp_all add: slot_count_def t(1) chan)
  have "fresh_ids t" using inv t c by (auto simp: tables_inv_def fresh_ids_def)
  then have "tables_inv X t"
    using inv le sum one count assms(2,4,5) c
    unfolding tables_inv_def
    by (auto simp: t chan word_less_nat_alt word_le_nat_alt split: option.splits if_splits)
  then show ?thesis by (simp add: t_def)
qed

lemma tables_activate:
  assumes inv: "tables_inv X s" and c: "s_heap s i = Some c" and reg: "i \<in> set (s_channels s)"
    and st: "ch_state c \<noteq> channelOpening"
  shows "tables_inv X (snd (activateChannel i s))"
proof (cases "fst (activateChannel i s)")
  case (Some e)
  then have "snd (activateChannel i s) = s"
    by (auto simp: activateChannel_def split: if_splits)
  with inv show ?thesis by simp
next
  case None
  define t where "t = snd (activateChannel i s)"
  have slot: "ch_slot c = channelSlotPending" and nz: "s_pendingOpens s \<noteq> 0"
    using None c by (auto simp: activateChannel_def chan_def split: if_splits)
  have t: "s_channels t = s_channels s" "s_pendingOpens t = s_pendingOpens s - 1"
    "s_activeChannels t = s_activeChannels s + 1" "s_config t = s_config s"
    "s_nextLocalChannelID t = s_nextLocalChannelID s" "s_peerChannelIDs t = s_peerChannelIDs s"
    "s_heap t = (s_heap s)(i \<mapsto> c\<lparr>ch_slot := channelSlotActive\<rparr>)"
    using None c by (auto simp: t_def activateChannel_def mod_chan_def split: if_splits)
  have chan: "chan t j = (if j = i then c\<lparr>ch_slot := channelSlotActive\<rparr> else chan s j)" for j
    using t(7) by (simp add: chan_def)
  have dist: "distinct (s_channels s)" using inv by (simp add: tables_inv_def)
  note upd = slot_count_update [OF dist reg t(1)]
  have ci: "chan s i = c" using c by (simp add: chan_def)
  have count: "slot_count channelSlotPending t + 1 = slot_count channelSlotPending s"
    "slot_count channelSlotActive t = slot_count channelSlotActive s + 1"
    using upd [of channelSlotPending] upd [of channelSlotActive] by (simp_all add: chan ci slot)
  have cap: "unat (s_activeChannels s) + unat (s_pendingOpens s) \<le> 1024"
    using inv unat_channels_le [of "limits s"] by (auto simp: tables_inv_def)
  have minus: "unat (s_pendingOpens s - 1) = unat (s_pendingOpens s) - 1"
    using nz unat_sub_le [of 1 "s_pendingOpens s"] by (simp add: Suc_le_eq unat_gt_0)
  have plus: "unat (s_activeChannels s + 1) = unat (s_activeChannels s) + 1"
    using cap unat_add_no_wrap [of "s_activeChannels s" 1] by simp
  have "unat (s_pendingOpens s) > 0" using nz by (simp add: unat_gt_0)
  moreover have "fresh_ids t" using inv t c by (auto simp: tables_inv_def fresh_ids_def)
  moreover have "ch_peerID c = p" if "s_peerChannelIDs s p = Some i" for p
    using inv that ci by (auto simp: tables_inv_def)
  ultimately have "tables_inv X t"
    using inv count minus plus st c reg
    unfolding tables_inv_def
    by (auto simp: t chan ci word_le_nat_alt split: if_splits)
  then show ?thesis by (simp add: t_def)
qed

lemma tables_remove:
  assumes inv: "tables_inv X s"
  shows "tables_inv X (removeChannel i s)"
proof (cases "i \<in> set (s_channels s)")
  case False
  with inv show ?thesis by (simp add: removeChannel_def)
next
  case True
  define t where "t = removeChannel i s"
  obtain c where c: "s_heap s i = Some c" using inv True by (auto simp: tables_inv_def)
  have ci: "chan s i = c" using c by (simp add: chan_def)
  have t: "s_channels t = removeAll i (s_channels s)" "s_config t = s_config s"
    "s_nextLocalChannelID t = s_nextLocalChannelID s"
    "s_peerChannelIDs t = (\<lambda>p. if s_peerChannelIDs s p = Some i then None else s_peerChannelIDs s p)"
    "s_heap t = (s_heap s)(i \<mapsto> c\<lparr>ch_slot := channelSlotNone\<rparr>)"
    "s_pendingOpens t = (if ch_slot c = channelSlotPending \<and> s_pendingOpens s > 0
                         then s_pendingOpens s - 1 else s_pendingOpens s)"
    "s_activeChannels t = (if ch_slot c = channelSlotActive \<and> s_activeChannels s > 0
                           then s_activeChannels s - 1 else s_activeChannels s)"
    using True c by (auto simp: t_def removeChannel_def mod_chan_def chan_def)
  have chan: "chan t j = (if j = i then c\<lparr>ch_slot := channelSlotNone\<rparr> else chan s j)" for j
    using t(5) by (simp add: chan_def)
  have dist: "distinct (s_channels s)" using inv by (simp add: tables_inv_def)
  have "filter (\<lambda>j. ch_slot (chan t j) = sl) (removeAll i (s_channels s))
      = filter (\<lambda>j. ch_slot (chan s j) = sl) (removeAll i (s_channels s))" for sl
    by (intro filter_cong) (auto simp: chan)
  then have count: "slot_count sl t + (if ch_slot c = sl then 1 else 0) = slot_count sl s" for sl
    using length_filter_removeAll [OF dist True, of "\<lambda>j. ch_slot (chan s j) = sl"]
    by (simp add: slot_count_def t(1) ci)
  have one: "unat (w - 1) = unat w - 1" if "w > 0" for w :: u32
    using that unat_sub_le [of 1 w] by (simp add: Suc_le_eq unat_gt_0 word_gt_0)
  have pend: "unat (s_pendingOpens t) + (if ch_slot c = channelSlotPending then 1 else 0) = unat (s_pendingOpens s)"
    using count [of channelSlotPending] inv one [of "s_pendingOpens s"]
    by (auto simp: t(6) tables_inv_def word_gt_0 unat_eq_zero)
  have act: "unat (s_activeChannels t) + (if ch_slot c = channelSlotActive then 1 else 0) = unat (s_activeChannels s)"
    using count [of channelSlotActive] inv one [of "s_activeChannels s"]
    by (auto simp: t(7) tables_inv_def word_gt_0 unat_eq_zero)
  have "fresh_ids t" using inv t c by (auto simp: tables_inv_def fresh_ids_def)
  moreover have "unat (s_pendingOpens t) \<le> unat (s_pendingOpens s)"
    "unat (s_activeChannels t) \<le> unat (s_activeChannels s)"
    using pend act by auto
  moreover have "unat (s_pendingOpens t) = slot_count channelSlotPending t"
    "unat (s_activeChannels t) = slot_count channelSlotActive t"
    using pend act count [of channelSlotPending] count [of channelSlotActive] inv
    by (auto simp: tables_inv_def)
  ultimately have "tables_inv X t"
    using inv c dist
    unfolding tables_inv_def
    by (auto simp: t(1-5) chan ci word_le_nat_alt distinct_removeAll split: if_splits)
  then show ?thesis by (simp add: t_def)
qed

lemma tables_accepted:
  assumes "tables_inv {} s" and "s_heap s i \<noteq> None" and "ch_state (chan s i) = channelOpening"
  shows "tables_inv {} (snd (activateChannel i (mod_chan i (\<lambda>c. signalLocked (c\<lparr>ch_state := channelOpen\<rparr>)) s)))"
proof -
  define t where "t = mod_chan i (\<lambda>c. signalLocked (c\<lparr>ch_state := channelOpen\<rparr>)) s"
  have t: "tables_inv {} t"
    using assms(1) by (auto simp: t_def signalLocked_def intro!: tables_mod_chan)
  obtain c where c: "s_heap t i = Some c" "ch_state c \<noteq> channelOpening" "ch_slot c = ch_slot (chan s i)"
    using assms(2) by (auto simp: t_def signalLocked_def chan_def heap_mod_chan)
  have "tables_inv {} (snd (activateChannel i t))"
  proof (cases "ch_slot c = channelSlotPending")
    case True
    then have "i \<in> set (s_channels s)"
      using assms c(3) by (auto simp: tables_inv_def)
    then have "i \<in> set (s_channels t)" by (simp add: t_def)
    with t c(1,2) show ?thesis by (blast intro: tables_activate)
  next
    case False
    then have "snd (activateChannel i t) = t"
      using c(1) by (auto simp: activateChannel_def chan_def)
    with t show ?thesis by simp
  qed
  then show ?thesis by (simp add: t_def)
qed

lemma tables_opened:
  assumes inv: "tables_inv X s" and reg: "i \<in> set (s_channels s)" and "s_heap s i \<noteq> None"
    and "ch_state (chan s i) = channelOpening" "ch_openWait (chan s i)"
    and peer: "reservePeerChannelID p i (mod_chan i (ch_openWait_update (\<lambda>_. False)) s) = (None, s1)"
    and f: "\<And>c. ch_peerID (f c) = p \<and> ch_state (f c) = channelOpen \<and> ch_slot (f c) = ch_slot c"
  shows "tables_inv X (snd (activateChannel i (mod_chan i f s1)))"
proof -
  define t where "t = mod_chan i f s1"
  obtain c where c: "s_heap s i = Some c" using assms(3) by auto
  let ?c = "f (c\<lparr>ch_openWait := False\<rparr>)"
  have t: "s_heap t = (s_heap s)(i \<mapsto> ?c)" "s_peerChannelIDs t = (s_peerChannelIDs s)(p \<mapsto> i)"
    "s_channels t = s_channels s" "s_pendingOpens t = s_pendingOpens s"
    "s_activeChannels t = s_activeChannels s" "s_config t = s_config s"
    "s_nextLocalChannelID t = s_nextLocalChannelID s"
    using peer c by (auto simp: t_def reservePeerChannelID_def mod_chan_def split: if_splits)
  have chan: "chan t j = (if j = i then ?c else chan s j)" for j
    by (simp add: t(1) chan_def)
  have ci: "chan s i = c" using c by (simp add: chan_def)
  have free: "s_peerChannelIDs s q \<noteq> Some i" for q
    using inv assms(4,5) by (auto simp: tables_inv_def)
  have "slot_count sl t = slot_count sl s" for sl
    using t(3) c by (intro slot_count_cong) (auto simp: chan f ci)
  moreover have "fresh_ids t" using inv t c by (auto simp: tables_inv_def fresh_ids_def)
  ultimately have "tables_inv X t"
    using inv free reg c f ci
    unfolding tables_inv_def
    by (auto simp: t chan split: if_splits)
  moreover have "s_heap t i = Some ?c" "ch_state ?c \<noteq> channelOpening" "i \<in> set (s_channels t)"
    using t f reg by auto
  ultimately show ?thesis unfolding t_def by (blast intro: tables_activate)
qed

lemma tables_neutral [simp]:
  "tables_inv X (s\<lparr>s_activated := x1\<rparr>) = tables_inv X s"
  "tables_inv X (s\<lparr>s_queuesClosed := x2\<rparr>) = tables_inv X s"
  "tables_inv X (s\<lparr>s_pendingChannelRequests := x3\<rparr>) = tables_inv X s"
  by (simp_all add: tables_inv_def slot_count_def chan_def fresh_ids_def)

lemma tables_reset:
  "tables_inv {} s \<Longrightarrow> tables_inv (set (s_channels s)) (closing_reset a b s)"
  by (auto simp: closing_reset_def tables_inv_def slot_count_def chan_def fresh_ids_def)

lemma tables_cancel:
  assumes "tables_inv X s"
  shows "tables_inv X (cancelSession e s)"
proof -
  have "rel_option (\<lambda>c c'. ch_slot c' = ch_slot c \<and> ch_peerID c' = ch_peerID c
      \<and> (ch_openWait c' \<longrightarrow> ch_openWait c) \<and> (ch_state c' = channelOpening \<longrightarrow> ch_state c = channelOpening))
      (s_heap s i) (s_heap (cancelSession e s) i)" for i
    by (auto simp: cancelSession_def cancelChannel_def option.rel_map intro!: option.rel_refl_strong)
  then show ?thesis
    by (intro tables_cong [OF assms]) (simp_all add: cancelSession_def)
qed

lemma tables_requests:
  "tables_inv X s \<Longrightarrow> tables_inv X (failPendingRequestsLocked i e s)"
  "tables_inv X s \<Longrightarrow> tables_inv X (removePendingRequest i rid s)"
proof -
  have rel: "tables_inv X (releasePendingChannelRequest s)" if "tables_inv X s" for s
    using that by (simp add: releasePendingChannelRequest_def)
  have rels: "tables_inv X ((releasePendingChannelRequest ^^ n) s)" if "tables_inv X s" for n s
    using that by (induction n) (simp_all add: rel)
  show "tables_inv X s \<Longrightarrow> tables_inv X (failPendingRequestsLocked i e s)"
    unfolding failPendingRequestsLocked_def Let_def
    by (intro rels tables_mod_chan) auto
  show "tables_inv X s \<Longrightarrow> tables_inv X (removePendingRequest i rid s)"
    by (auto simp: removePendingRequest_def intro!: rel tables_mod_chan)
qed

interpretation tables: session_plain sz "tables_inv {}" for sz
proof (unfold_locales, goal_cases)
  case (1 s s') then show ?case by (rule tables_quiet)
next
  case (3 s i f)
  then show ?case
    using state_move_opening by (intro tables_mod_chan) (fastforce simp: calm_def)+
next
  case (4 s i s1 p ty rw mp h)
  let ?s = "newIncomingChannel i p ty rw mp h s1"
  have "tables_inv {} ?s" "i \<notin> set (s_channels s)"
    unfolding newIncomingChannel_def using 4 tables_new_channel(2) [of "{}" s i s1 zeroChannel]
    by (auto intro!: tables_new_channel(1) simp: zeroChannel_def)
  moreover have "s_channels ?s = s_channels s"
    using 4 by (auto simp: newIncomingChannel_def reserveLocalChannelID_def split: if_splits)
  ultimately show ?case
    by (intro tables_addPending) (auto simp: newIncomingChannel_def zeroChannel_def)
next
  case (5 s i s1 ty h)
  let ?s = "newPendingChannel i ty h s1"
  have "tables_inv {} ?s" "i \<notin> set (s_channels s)"
    unfolding newPendingChannel_def using 5 tables_new_channel(2) [of "{}" s i s1 zeroChannel]
    by (auto intro!: tables_new_channel(1) simp: zeroChannel_def)
  moreover have "s_channels ?s = s_channels s"
    using 5 by (auto simp: newPendingChannel_def reserveLocalChannelID_def split: if_splits)
  ultimately show ?case
    by (intro tables_addPending) (auto simp: newPendingChannel_def zeroChannel_def)
next
  case 6 then show ?case by (intro tables_accepted)
next
  case 7 then show ?case by (rule tables_opened) (simp add: signalLocked_def)
next
  case (9 s e)
  have "tables_inv {} (fold (\<lambda>i. Channel_shutdown i eo) (s_channels s) (cancelSession e s'))"
    if "tables_inv (set (s_channels s)) s'" for e eo s'
    using tables_fold_shutdown [OF tables_cancel [OF that]] by (metis Diff_cancel)
  then show ?case
    by (intro Session_shutdown_chain [where I = "tables_inv {}" and J = "tables_inv (set (s_channels s))"])
      (simp_all add: 9(1) tables_reset tables_quiet)
next
  case (13 s i s1)
  then have "tables_inv {} s1"
    by (auto simp: reservePendingChannelRequest_def split: if_splits intro!: tables_mod_chan)
  then show ?case by (auto intro!: tables_mod_chan)
qed (auto simp: tables_remove tables_cancel tables_requests)

lemma reachable_tables:
  assumes "reachable sz cfg W" and "valid_config cfg"
  shows "tables_inv {} (w_sess W)"
proof -
  have "MaxPacketSize cfg \<noteq> 0" "within_hard_maxima (cfg_Limits cfg)"
    using assms(2) by (auto simp: valid_config_def)
  then show ?thesis
    by (intro tables.reachable_I [OF assms(1) _ reachable_admitting])
      (simp_all add: Bind_def tables_inv_def slot_count_def fresh_ids_def)
qed

end
