(* ===== verification/Session_Evolution.thy ===== *)
theory Session_Evolution
  imports Session_Admission
begin

text \<open>
  What never goes back.  \<open>evolves s0 s\<close> relates a state to a later one: the configuration is
  fixed, the first terminal event and the causes of contexts stay, channel objects are never
  reused, and the state of every channel only moves forward in the order \<open>state_le\<close>, with
  closed and failed as end points.
\<close>

definition chan_evolves :: "Channel \<Rightarrow> Channel \<Rightarrow> bool" where
  "chan_evolves c c' \<longleftrightarrow>
     ch_typ c' = ch_typ c \<and> state_le (ch_state c) (ch_state c')
     \<and> (ch_cause c \<noteq> None \<longrightarrow> ch_cause c' = ch_cause c)
     \<and> (ch_sessionErr c \<noteq> None \<longrightarrow> ch_sessionErr c' = ch_sessionErr c)
     \<and> ch_stateGen c \<le> ch_stateGen c' \<and> unat (ch_nextRequestID c) \<le> unat (ch_nextRequestID c')"

definition heap_evolves :: "(u64 \<rightharpoonup> Channel) \<Rightarrow> (u64 \<rightharpoonup> Channel) \<Rightarrow> bool" where
  "heap_evolves h0 h \<longleftrightarrow>
     (\<forall>i c0. h0 i = Some c0 \<longrightarrow> (\<exists>c. h i = Some c \<and> chan_evolves c0 c))"

definition evolves :: "Session \<Rightarrow> Session \<Rightarrow> bool" where
  "evolves s0 s \<longleftrightarrow>
     s_config s = s_config s0
     \<and> (s_closing s0 \<longrightarrow> s_closing s \<and> s_waitErr s = s_waitErr s0 \<and> s_closeErr s = s_closeErr s0)
     \<and> (s_cause s0 \<noteq> None \<longrightarrow> s_cause s = s_cause s0)
     \<and> (s_activated s0 \<longrightarrow> s_activated s) \<and> (s_queuesClosed s0 \<longrightarrow> s_queuesClosed s)
     \<and> heap_evolves (s_heap s0) (s_heap s) \<and> fresh_ids s"

lemma chan_evolves_refl [simp]: "chan_evolves c c"
  by (simp add: chan_evolves_def)

lemma chan_evolves_trans: "chan_evolves a b \<Longrightarrow> chan_evolves b c \<Longrightarrow> chan_evolves a c"
  by (auto simp: chan_evolves_def intro: state_le_trans)

lemma evolves_refl: "fresh_ids s \<Longrightarrow> evolves s s"
  by (simp add: evolves_def heap_evolves_def)

lemma evolves_heap:
  "evolves s0 s \<Longrightarrow> s_heap s0 i = Some c0 \<Longrightarrow> \<exists>c. s_heap s i = Some c \<and> chan_evolves c0 c"
  by (simp add: evolves_def heap_evolves_def)

lemma evolves_with_heap:
  assumes "evolves s0 s" and "heap_evolves (s_heap s0) h"
    and "\<And>i. h i \<noteq> None \<Longrightarrow> i < s_nextLocalChannelID s"
  shows "evolves s0 (s\<lparr>s_heap := h\<rparr>)"
  using assms by (simp add: evolves_def fresh_ids_def)

lemma evolves_fresh: "evolves s0 s \<Longrightarrow> fresh_ids s"
  by (simp add: evolves_def)

lemma evolves_quiet: "evolves s0 s \<Longrightarrow> quiet s s' \<Longrightarrow> evolves s0 s'"
  by (simp add: evolves_def quiet_def fresh_ids_def)

lemma evolves_neutral [simp]:
  "evolves s0 (s\<lparr>s_channels := x1\<rparr>) = evolves s0 s"
  "evolves s0 (s\<lparr>s_peerChannelIDs := x2\<rparr>) = evolves s0 s"
  "evolves s0 (s\<lparr>s_pendingOpens := x3\<rparr>) = evolves s0 s"
  "evolves s0 (s\<lparr>s_activeChannels := x4\<rparr>) = evolves s0 s"
  "evolves s0 (s\<lparr>s_pendingChannelRequests := x5\<rparr>) = evolves s0 s"
  by (simp_all add: evolves_def fresh_ids_def)

lemma evolves_monotone:
  "evolves s0 s \<Longrightarrow> evolves s0 (s\<lparr>s_activated := True\<rparr>)"
  "evolves s0 s \<Longrightarrow> evolves s0 (s\<lparr>s_queuesClosed := True\<rparr>)"
  by (simp_all add: evolves_def fresh_ids_def)

lemma evolves_mod_chan:
  assumes "evolves s0 s" and "\<And>c. s_heap s i = Some c \<Longrightarrow> chan_evolves c (f c)"
  shows "evolves s0 (mod_chan i f s)"
proof -
  have "\<exists>c. s_heap (mod_chan i f s) j = Some c \<and> chan_evolves c0 c" if j: "s_heap s0 j = Some c0" for j c0
    using evolves_heap [OF assms(1) j] assms(2) chan_evolves_trans by (cases "j = i") auto
  then have "heap_evolves (s_heap s0) (s_heap (mod_chan i f s))"
    by (simp add: heap_evolves_def)
  with assms(1) show ?thesis by (simp add: evolves_def)
qed

lemma evolves_new_channel:
  assumes "evolves s0 s" and "reserveLocalChannelID s = (Inr i, s1)"
  shows "evolves s0 (s1\<lparr>s_heap := (s_heap s1)(i \<mapsto> c)\<rparr>)"
proof -
  note new = reserveLocalChannelID_fresh [OF assms(2) evolves_fresh [OF assms(1)]]
  have "s_heap s0 i = None"
    using evolves_heap [OF assms(1), of i] new(1) by (cases "s_heap s0 i") auto
  then have "heap_evolves (s_heap s0) ((s_heap s)(i \<mapsto> c))"
    using evolves_heap [OF assms(1)] by (auto simp: heap_evolves_def)
  moreover have "evolves s0 s1"
    using assms(1) new by (simp add: evolves_def fresh_ids_def)
  ultimately show ?thesis
    using new by (intro evolves_with_heap) (auto split: if_splits)
qed

lemma evolves_tables:
  "evolves s0 s \<Longrightarrow> evolves s0 (snd (addPendingChannel i p s))"
  "evolves s0 s \<Longrightarrow> evolves s0 (snd (activateChannel i s))"
  "evolves s0 s \<Longrightarrow> evolves s0 (removeChannel i s)"
  by (auto simp: addPendingChannel_def activateChannel_def removeChannel_def Let_def chan_evolves_def
      split: option.splits intro!: evolves_mod_chan)

lemma evolves_release_requests [simp]:
  "evolves s0 (releasePendingChannelRequest s) = evolves s0 s"
  "evolves s0 ((releasePendingChannelRequest ^^ n) s) = evolves s0 s"
proof -
  show one: "evolves s0 (releasePendingChannelRequest s) = evolves s0 s" for s
    by (simp add: releasePendingChannelRequest_def)
  show "evolves s0 ((releasePendingChannelRequest ^^ n) s) = evolves s0 s"
    by (induction n) (simp_all add: one)
qed

lemma evolves_requests:
  "evolves s0 s \<Longrightarrow> evolves s0 (failPendingRequestsLocked i e s)"
  "evolves s0 s \<Longrightarrow> evolves s0 (removePendingRequest i rid s)"
  by (auto simp: failPendingRequestsLocked_def removePendingRequest_def chan_evolves_def
      intro!: evolves_mod_chan)

lemma evolves_cancel:
  assumes "evolves s0 s"
  shows "evolves s0 (cancelSession e s)"
proof -
  have c: "chan_evolves c (cancelChannel e c)" for c
    by (simp add: chan_evolves_def cancelChannel_def)
  have "\<exists>c. map_option (cancelChannel e) (s_heap s i) = Some c \<and> chan_evolves c0 c"
    if "s_heap s0 i = Some c0" for i c0
    using evolves_heap [OF assms that] c chan_evolves_trans by fastforce
  then have "heap_evolves (s_heap s0) (\<lambda>i. map_option (cancelChannel e) (s_heap s i))"
    by (simp add: heap_evolves_def)
  with assms show ?thesis
    by (auto simp: cancelSession_def evolves_def fresh_ids_def)
qed

lemma evolves_reset: "evolves s0 s \<Longrightarrow> \<not> s_closing s \<Longrightarrow> evolves s0 (closing_reset a b s)"
  by (auto simp: closing_reset_def evolves_def fresh_ids_def)

lemma state_move_le: "state_move a b \<Longrightarrow> state_le a b"
  by (cases a; cases b) (auto simp: state_move_def state_edge_def state_le_def)

interpretation evolution: session_plain sz "evolves s0" for sz s0
proof (unfold_locales, goal_cases)
  case (1 s s') then show ?case by (rule evolves_quiet)
next
  case (3 s i f)
  then show ?case
    by (intro evolves_mod_chan) (auto simp: calm_def chan_evolves_def dest!: state_move_le)
next
  case (4 s i s1 p ty rw mp h)
  then show ?case
    by (auto simp: newIncomingChannel_def intro!: evolves_tables evolves_new_channel)
next
  case (5 s i s1 ty h)
  then show ?case
    by (auto simp: newPendingChannel_def intro!: evolves_tables evolves_new_channel)
next
  case (6 s i)
  then show ?case
    by (intro evolves_tables evolves_mod_chan)
      (auto simp: chan_def chan_evolves_def state_le_def signalLocked_def)
next
  case (7 s i p s1 mp rw)
  then have "evolves s0 (mod_chan i (ch_openWait_update (\<lambda>_. False)) s)"
    by (auto simp: chan_evolves_def intro!: evolves_mod_chan)
  with 7(6) have "evolves s0 s1" "s_heap s1 = s_heap (mod_chan i (ch_openWait_update (\<lambda>_. False)) s)"
    by (auto simp: reservePeerChannelID_def split: if_splits)
  with 7(4) show ?case
    by (intro evolves_tables evolves_mod_chan)
      (auto simp: chan_def chan_evolves_def state_le_def signalLocked_def)
next
  case (9 s e)
  show ?case
    by (rule Session_shutdown_stages [OF 9(1) evolves_quiet evolves_reset [OF 9(1)] evolves_cancel 9(2)
          evolves_monotone(2)])
next
  case (13 s i s1)
  let ?f = "\<lambda>c. c\<lparr>ch_nextRequestID := ch_nextRequestID c + 1\<rparr>"
  have "evolves s0 (mod_chan i ?f s)"
    using 13(1,2,5) by (intro evolves_mod_chan) (auto simp: chan_def chan_evolves_def unat_plus_one)
  then have "evolves s0 s1"
    using 13(7) by (auto simp: reservePendingChannelRequest_def split: if_splits)
  then show ?case by (auto simp: chan_evolves_def intro!: evolves_mod_chan)
qed (auto simp: evolves_tables evolves_cancel evolves_requests intro!: evolves_monotone)

section \<open>Reachable states\<close>

lemma reachable_evolves_initial:
  assumes "reachable sz cfg W" and "MaxPacketSize cfg \<noteq> 0"
  shows "evolves (Bind cfg) (w_sess W)"
  using evolution.reachable_I [OF assms(1) _ reachable_admitting [OF assms(2)]]
  by (simp add: Bind_def fresh_ids_def evolves_refl)

lemma reachable_config:
  "reachable sz cfg W \<Longrightarrow> MaxPacketSize cfg \<noteq> 0 \<Longrightarrow> s_config (w_sess W) = cfg"
  using reachable_evolves_initial by (auto simp: evolves_def Bind_def)

lemma run_evolves:
  "run sz as W = Some W' \<Longrightarrow> reachable sz cfg W \<Longrightarrow> MaxPacketSize cfg \<noteq> 0 \<Longrightarrow> evolves s0 (w_sess W)
    \<Longrightarrow> evolves s0 (w_sess W')"
proof (induction "as" arbitrary: W)
  case Nil
  then show ?case by simp
next
  case (Cons a "as")
  then obtain W1 where W1: "exec sz a W = Some W1" "run sz as W1 = Some W'"
    by (auto split: option.splits)
  have "evolves s0 (w_sess W1)"
    using evolution.exec_I Cons.prems reachable_waiting_ok reachable_admitting W1(1) by blast
  then show ?case
    using Cons.IH W1 Cons.prems by (blast intro: reach_step)
qed

end
