(* ===== verification/Session_Requests.thy ===== *)
theory Session_Requests
  imports Session_Admission
begin

text \<open>
  Pending channel requests and the end of a session.  While a session is live its counter of
  pending channel requests is the sum of what the channels wait for; a closing session has
  recorded its close error and canceled its context, and with it the context of every channel.
\<close>

definition requests_ok :: "Limits \<Rightarrow> Channel \<Rightarrow> bool" where
  "requests_ok l c \<longleftrightarrow> distinct (ch_pendingRequests c)
     \<and> (\<forall>r \<in> set (ch_pendingRequests c). r < ch_nextRequestID c)
     \<and> length (ch_pendingRequests c) \<le> unat (MaxPendingChannelRequestsPerChannel l)"

text \<open>The flag \<open>C\<close> is off between the two steps of a shutdown that mark and cancel the session.\<close>

definition requests_inv :: "bool \<Rightarrow> Session \<Rightarrow> bool" where
  "requests_inv C s \<longleftrightarrow> fresh_ids s \<and> within_hard_maxima (limits s)
     \<and> (\<forall>i c. s_heap s i = Some c \<longrightarrow> requests_ok (limits s) c \<and> (s_cause s \<noteq> None \<longrightarrow> ch_cause c \<noteq> None))
     \<and> (if s_closing s
        then s_closeErr s \<noteq> None \<and> s_pendingChannelRequests s = 0 \<and> (C \<longrightarrow> s_cause s \<noteq> None)
        else unat (s_pendingChannelRequests s) = map_sum (\<lambda>c. length (ch_pendingRequests c)) (s_heap s)
             \<and> s_pendingChannelRequests s \<le> MaxPendingChannelRequests (limits s))"

lemma requests_update:
  assumes inv: "requests_inv C s" and c: "s_heap s i = Some c"
    and heap: "s_heap s' = (s_heap s)(i \<mapsto> c')"
    and same: "s_config s' = s_config s" "s_cause s' = s_cause s" "s_closing s' = s_closing s"
      "s_closeErr s' = s_closeErr s" "s_nextLocalChannelID s' = s_nextLocalChannelID s"
    and ok: "requests_ok (limits s) c'" "s_cause s \<noteq> None \<Longrightarrow> ch_cause c \<noteq> None \<Longrightarrow> ch_cause c' \<noteq> None"
    and closing: "s_closing s \<Longrightarrow> s_pendingChannelRequests s = 0 \<Longrightarrow> s_pendingChannelRequests s' = 0"
    and live: "\<not> s_closing s \<Longrightarrow> length (ch_pendingRequests c) \<le> unat (s_pendingChannelRequests s) \<Longrightarrow>
        unat (s_pendingChannelRequests s') + length (ch_pendingRequests c)
          = unat (s_pendingChannelRequests s) + length (ch_pendingRequests c')
        \<and> (s_pendingChannelRequests s \<le> MaxPendingChannelRequests (limits s)
            \<longrightarrow> s_pendingChannelRequests s' \<le> MaxPendingChannelRequests (limits s))"
  shows "requests_inv C s'"
proof -
  let ?f = "\<lambda>c. length (ch_pendingRequests c)"
  have "fresh_ids s'" using inv heap same(5) c by (auto simp: requests_inv_def fresh_ids_def)
  moreover have "map_sum ?f (s_heap s') + ?f c = map_sum ?f (s_heap s) + ?f c'"
    unfolding heap using c by (intro map_sum_upd) auto
  moreover have "?f c \<le> map_sum ?f (s_heap s)"
    using map_sum_member_le [OF finite_heap c, of ?f] .
  ultimately show ?thesis
    using inv same ok closing live c
    by (auto simp: requests_inv_def heap split: if_splits)
qed

lemma requests_mod_chan:
  assumes "requests_inv C s"
    and "\<And>c. s_heap s i = Some c \<Longrightarrow> ch_pendingRequests (f c) = ch_pendingRequests c
          \<and> unat (ch_nextRequestID c) \<le> unat (ch_nextRequestID (f c))
          \<and> (ch_cause c \<noteq> None \<longrightarrow> ch_cause (f c) \<noteq> None)"
  shows "requests_inv C (mod_chan i f s)"
proof (cases "s_heap s i")
  case None
  then show ?thesis using assms(1) by (simp add: heap_mod_chan_None)
next
  case (Some c)
  have "requests_ok (limits s) c" using assms(1) Some by (auto simp: requests_inv_def)
  moreover have "\<And>r. r < ch_nextRequestID c \<Longrightarrow> r < ch_nextRequestID (f c)"
    using assms(2) [OF Some] by (auto simp: word_less_nat_alt)
  ultimately have "requests_ok (limits s) (f c)"
    using assms(2) [OF Some] by (auto simp: requests_ok_def)
  with assms Some show ?thesis
    by (intro requests_update [OF assms(1) Some heap_mod_chan_upd [OF Some]]) auto
qed

lemma requests_quiet: "requests_inv C s \<Longrightarrow> quiet s s' \<Longrightarrow> requests_inv C s'"
  by (simp add: requests_inv_def quiet_def fresh_ids_def)

lemma requests_neutral [simp]:
  "requests_inv C (s\<lparr>s_channels := x1\<rparr>) = requests_inv C s"
  "requests_inv C (s\<lparr>s_peerChannelIDs := x2\<rparr>) = requests_inv C s"
  "requests_inv C (s\<lparr>s_pendingOpens := x3\<rparr>) = requests_inv C s"
  "requests_inv C (s\<lparr>s_activeChannels := x4\<rparr>) = requests_inv C s"
  "requests_inv C (s\<lparr>s_activated := x5\<rparr>) = requests_inv C s"
  "requests_inv C (s\<lparr>s_queuesClosed := x6\<rparr>) = requests_inv C s"
  by (simp_all add: requests_inv_def fresh_ids_def)

lemma requests_slot: "requests_inv C s \<Longrightarrow> requests_inv C (mod_chan i (ch_slot_update g) s)"
  by (rule requests_mod_chan) auto

lemma requests_tables:
  "requests_inv C s \<Longrightarrow> requests_inv C (snd (addPendingChannel i p s))"
  "requests_inv C s \<Longrightarrow> requests_inv C (snd (activateChannel i s))"
  "requests_inv C s \<Longrightarrow> requests_inv C (removeChannel i s)"
  by (auto simp: addPendingChannel_def activateChannel_def removeChannel_def Let_def
      split: option.splits if_splits intro!: requests_slot)

lemma requests_new_channel:
  assumes "requests_inv C s" and "reserveLocalChannelID s = (Inr i, s1)"
    and "ch_pendingRequests c = []" "ch_cause c = s_cause s"
  shows "requests_inv C (s1\<lparr>s_heap := (s_heap s1)(i \<mapsto> c)\<rparr>)"
proof -
  have "fresh_ids s" using assms(1) by (simp add: requests_inv_def)
  note new = reserveLocalChannelID_fresh [OF assms(2) this]
  let ?t = "s1\<lparr>s_heap := (s_heap s1)(i \<mapsto> c)\<rparr>"
  have "fresh_ids ?t" using new by (auto simp: fresh_ids_def)
  moreover have "map_sum (\<lambda>c. length (ch_pendingRequests c)) (s_heap ?t)
      = map_sum (\<lambda>c. length (ch_pendingRequests c)) (s_heap s)"
    using new(1,2) assms(3) map_sum_new [OF finite_heap new(1)] by simp
  ultimately show ?thesis
    using assms new(2) by (auto simp: requests_inv_def requests_ok_def)
qed

lemma cancelChannel_sel [simp]:
  "\<exists>x. ch_cause (cancelChannel e c) = Some x"
  "ch_pendingRequests (cancelChannel e c) = ch_pendingRequests c"
  "ch_nextRequestID (cancelChannel e c) = ch_nextRequestID c"
  by (auto simp: cancelChannel_def)

lemma requests_cancel:
  assumes "requests_inv C s"
  shows "requests_inv True (cancelSession e s)"
proof -
  have "fresh_ids (cancelSession e s)"
    using assms by (auto simp: requests_inv_def fresh_ids_def cancelSession_def)
  moreover have "map_sum (\<lambda>c. length (ch_pendingRequests c)) (s_heap (cancelSession e s))
      = map_sum (\<lambda>c. length (ch_pendingRequests c)) (s_heap s)"
    by (auto simp: cancelSession_def map_sum_def dom_def intro!: sum.cong)
  ultimately show ?thesis
    using assms
    by (auto simp: requests_inv_def cancelSession_def requests_ok_def split: if_splits)
qed

lemma requests_reset: "requests_inv C s \<Longrightarrow> \<not> s_closing s \<Longrightarrow> requests_inv False (closing_reset a b s)"
  by (auto simp: closing_reset_def requests_inv_def fresh_ids_def)

lemma requests_fail_pending:
  assumes "requests_inv C s"
  shows "requests_inv C (failPendingRequestsLocked i e s)"
proof (cases "s_heap s i")
  case None
  with assms show ?thesis
    by (simp add: failPendingRequestsLocked_def heap_mod_chan_None chan_def zeroChannel_def)
next
  case (Some c)
  let ?t = "failPendingRequestsLocked i e s"
  have n: "unat (s_pendingChannelRequests ?t) = unat (s_pendingChannelRequests s) - length (ch_pendingRequests c)"
    by (simp add: failPendingRequestsLocked_def chan_Some [OF Some])
  have same: "s_closeErr ((releasePendingChannelRequest ^^ k) u) = s_closeErr u" for k u
    by (induction k) (simp_all add: releasePendingChannelRequest_def)
  show ?thesis
    by (rule requests_update [OF assms Some, where c' = "c\<lparr>ch_results := (\<lambda>r. if r \<in> set (ch_pendingRequests c)
          then put_slot (None, Some e) (ch_results c r) else ch_results c r), ch_pendingRequests := []\<rparr>"])
      (use n in \<open>auto simp: failPendingRequestsLocked_def heap_mod_chan_upd [OF Some] same requests_ok_def
         word_le_nat_alt word_unat_eq_iff\<close>)
qed

lemma requests_remove_pending:
  assumes "requests_inv C s"
  shows "requests_inv C (removePendingRequest i rid s)"
proof (cases "rid \<in> set (ch_pendingRequests (chan s i))")
  case False
  with assms show ?thesis by (simp add: removePendingRequest_def)
next
  case True
  then obtain c where Some: "s_heap s i = Some c"
    by (auto simp: chan_def zeroChannel_def split: option.splits)
  let ?t = "removePendingRequest i rid s" and ?c = "c\<lparr>ch_pendingRequests := removeAll rid (ch_pendingRequests c)\<rparr>"
  have ok: "requests_ok (limits s) c" using assms Some by (auto simp: requests_inv_def)
  have "length (removeAll rid (ch_pendingRequests c)) + 1 = length (ch_pendingRequests c)"
    using True ok length_removeAll_distinct [of "ch_pendingRequests c" rid]
    by (simp add: requests_ok_def chan_Some [OF Some])
  moreover have n: "unat (s_pendingChannelRequests ?t) = unat (s_pendingChannelRequests s) - 1"
    using True releasePendings_count [of 1] by (simp add: removePendingRequest_def)
  moreover have "requests_ok (limits s) ?c"
    using ok order_trans [OF length_removeAll_less_eq] by (auto simp: requests_ok_def distinct_removeAll)
  ultimately show ?thesis
    using True
    by (intro requests_update [OF assms Some, where c' = ?c])
      (auto simp: removePendingRequest_def heap_mod_chan_upd [OF Some] releasePendingChannelRequest_def
        word_le_nat_alt word_less_nat_alt word_unat_eq_iff)
qed

lemma requests_new_request:
  assumes inv: "requests_inv True s" and alloc: "s_heap s i \<noteq> None"
    and live: "channelErrorLocked s i = None" and nxt: "ch_nextRequestID (chan s i) \<noteq> - 1"
    and room: "len32 (ch_pendingRequests (chan s i)) < MaxPendingChannelRequestsPerChannel (limits s)"
    and reserve: "reservePendingChannelRequest
        (mod_chan i (\<lambda>c. c\<lparr>ch_nextRequestID := ch_nextRequestID c + 1\<rparr>) s) = (None, s1)"
  shows "requests_inv True (mod_chan i (\<lambda>c. c\<lparr>ch_pendingRequests :=
            ch_nextRequestID (chan s i) # ch_pendingRequests c\<rparr>) s1)"
proof -
  obtain c where c: "s_heap s i = Some c" using alloc by auto
  let ?c = "c\<lparr>ch_nextRequestID := ch_nextRequestID c + 1,
      ch_pendingRequests := ch_nextRequestID c # ch_pendingRequests c\<rparr>"
  let ?t = "mod_chan i (\<lambda>c. c\<lparr>ch_pendingRequests := ch_nextRequestID (chan s i) # ch_pendingRequests c\<rparr>) s1"
  have ok: "requests_ok (limits s) c" and "ch_cause c = None"
    using inv c live by (auto simp: requests_inv_def channelErrorLocked_def chan_def split: option.splits)
  then have "s_cause s = None" using inv c unfolding requests_inv_def by blast
  then have open_: "\<not> s_closing s" using inv by (auto simp: requests_inv_def split: if_splits)
  have s1: "s1 = (mod_chan i (\<lambda>c. c\<lparr>ch_nextRequestID := ch_nextRequestID c + 1\<rparr>) s)
      \<lparr>s_pendingChannelRequests := s_pendingChannelRequests s + 1\<rparr>"
    and below: "s_pendingChannelRequests s < MaxPendingChannelRequests (limits s)"
    using reserve by (auto simp: reservePendingChannelRequest_def not_le split: if_splits)
  have heap: "s_heap ?t = (s_heap s)(i \<mapsto> ?c)"
    using c by (simp add: s1 mod_chan_def chan_Some)
  have bound: "unat (MaxPendingChannelRequestsPerChannel (limits s)) \<le> 1024"
    using inv by (auto simp: requests_inv_def within_hard_maxima_def word_le_nat_alt)
  have n: "unat (ch_nextRequestID c + 1) = Suc (unat (ch_nextRequestID c))"
    using nxt by (simp add: unat_plus_one chan_Some [OF c])
  have "length (ch_pendingRequests c) < 1025" using ok bound by (simp add: requests_ok_def)
  then have len: "unat (len32 (ch_pendingRequests c)) = length (ch_pendingRequests c)"
    by (simp add: len32_def unat_of_nat_u32)
  have "r < ch_nextRequestID c + 1" if "r \<in> set (ch_pendingRequests c)" for r
    using ok that n by (auto simp: requests_ok_def word_less_nat_alt)
  moreover have "ch_nextRequestID c < ch_nextRequestID c + 1" using n by (simp add: word_less_nat_alt)
  ultimately have "requests_ok (limits s) ?c"
    using ok room len by (auto simp: requests_ok_def chan_Some [OF c] word_less_nat_alt)
  moreover have "unat (s_pendingChannelRequests s + 1) = Suc (unat (s_pendingChannelRequests s))"
    using below unat_u32_less [of "MaxPendingChannelRequests (limits s)"]
      unat_add_no_wrap [of "s_pendingChannelRequests s" 1]
    by (simp add: word_less_nat_alt)
  ultimately show ?thesis
    using below open_
    by (intro requests_update [OF inv c heap]) (auto simp: s1 word_le_nat_alt word_less_nat_alt)
qed

interpretation requests: session_plain sz "requests_inv True" for sz
proof (unfold_locales, goal_cases)
  case (1 s s') then show ?case by (rule requests_quiet)
next
  case (3 s i f) then show ?case by (intro requests_mod_chan) (auto simp: calm_def)
next
  case (4 s i s1 p ty rw mp h)
  have "s_cause s1 = s_cause s"
    using 4(2) by (auto simp: reserveLocalChannelID_def split: if_splits)
  with 4 have "requests_inv True (newIncomingChannel i p ty rw mp h s1)"
    unfolding newIncomingChannel_def by (auto intro!: requests_new_channel simp: zeroChannel_def)
  then show ?case by (rule requests_tables)
next
  case (5 s i s1 ty h)
  have "s_cause s1 = s_cause s"
    using 5(2) by (auto simp: reserveLocalChannelID_def split: if_splits)
  with 5 have "requests_inv True (newPendingChannel i ty h s1)"
    unfolding newPendingChannel_def by (auto intro!: requests_new_channel simp: zeroChannel_def)
  then show ?case by (rule requests_tables)
next
  case (6 s i)
  then show ?case by (intro requests_tables requests_mod_chan) (auto simp: signalLocked_def)
next
  case (7 s i p s1 mp rw)
  then have "requests_inv True s1"
    by (auto simp: reservePeerChannelID_def split: if_splits intro!: requests_mod_chan)
  then show ?case by (intro requests_tables requests_mod_chan) (auto simp: signalLocked_def)
next
  case (9 s e)
  show ?case
  proof (rule Session_shutdown_chain [where J = "requests_inv False"], goal_cases)
    case 1 show ?case by (rule 9(1))
  next
    case 2 then show ?case by (rule requests_reset [OF 9(1)])
  next
    case 3 then show ?case by (rule requests_quiet)
  next
    case (4 e eo s')
    show ?case by (rule fold_shutdown [where P = "requests_inv True", OF requests_cancel [OF 4] 9(2)])
  next
    case 5 then show ?case by (rule requests_quiet)
  next
    case 6 then show ?case by simp
  qed
next
  case 13 then show ?case by (intro requests_new_request)
qed (auto simp: requests_tables requests_fail_pending requests_remove_pending intro: requests_cancel)

lemma reachable_requests:
  assumes "reachable sz cfg W" and "valid_config cfg"
  shows "requests_inv True (w_sess W)"
proof -
  have "MaxPacketSize cfg \<noteq> 0" "within_hard_maxima (cfg_Limits cfg)"
    using assms(2) by (auto simp: valid_config_def)
  then show ?thesis
    by (intro requests.reachable_I [OF assms(1) _ reachable_admitting])
      (simp_all add: Bind_def requests_inv_def fresh_ids_def)
qed

end
