(* ===== verification/Session_Budget.thy ===== *)
theory Session_Budget
  imports Session_Contract
begin

text \<open>
  The shared queue budget (\<open>reserveQueueBudget\<close>, \<open>releaseQueueBudget\<close> and everything charged to
  it).  In every reachable state the two counters are exactly the number and the total size of
  the things queued anywhere in the session, and they never exceed the configured totals.
\<close>

section \<open>What is held\<close>

definition held_frames :: "Session \<Rightarrow> nat" where
  "held_frames s = length (s_dispatchQueue s) + length (s_controlQueue s) + length (s_outboundQueue s)
     + map_sum (\<lambda>c. unat (ch_queuedFrames c)) (s_heap s)"

definition writes_bytes :: "Session \<Rightarrow> nat list \<Rightarrow> nat" where
  "writes_bytes s ws = sum_list (map (\<lambda>w. unat (write_size s w)) ws)"

definition held_bytes :: "proto_size \<Rightarrow> Session \<Rightarrow> nat" where
  "held_bytes sz s = sum_list (map (\<lambda>t. unat (task_size sz t)) (s_dispatchQueue s))
     + writes_bytes s (s_controlQueue s) + writes_bytes s (s_outboundQueue s)
     + map_sum (\<lambda>c. unat (ch_queuedBytes c)) (s_heap s)"

definition channel_bounded :: "Limits \<Rightarrow> Channel \<Rightarrow> bool" where
  "channel_bounded l c \<longleftrightarrow> ch_queuedFrames c \<le> MaxQueuedFramesPerChannel l
     \<and> ch_queuedBytes c \<le> MaxQueuedBytesPerChannel l"

text \<open>
  \<open>charged sz xf xb s\<close>: the counters cover everything held and, on top, a reservation of \<open>xf\<close>
  frames and \<open>xb\<close> bytes that is not yet, or no longer, attached to a queue.
\<close>

definition charged :: "proto_size \<Rightarrow> nat \<Rightarrow> nat \<Rightarrow> Session \<Rightarrow> bool" where
  "charged sz xf xb s \<longleftrightarrow>
     unat (s_queuedFrames s) = held_frames s + xf \<and> unat (s_queuedBytes s) = held_bytes sz s + xb
     \<and> s_queuedFrames s \<le> MaxQueuedFramesTotal (limits s)
     \<and> s_queuedBytes s \<le> MaxQueuedBytesTotal (limits s)
     \<and> (\<forall>w \<in> set (s_controlQueue s) \<union> set (s_outboundQueue s). w < s_nextWrite s)
     \<and> (\<forall>i c. s_heap s i = Some c \<longrightarrow> channel_bounded (limits s) c) \<and> fresh_ids s"

abbreviation budget_inv :: "proto_size \<Rightarrow> Session \<Rightarrow> bool" where
  "budget_inv sz \<equiv> charged sz 0 0"

section \<open>Reserving, releasing, and moving a charge\<close>

lemma reserveQueueBudget_fail: "reserveQueueBudget f b s = (Some e, s1) \<Longrightarrow> s1 = s"
  by (auto simp: reserveQueueBudget_def split: if_splits)

lemma charged_cong:
  assumes "charged sz xf xb s"
    and "s_queuedFrames s' = s_queuedFrames s" "s_queuedBytes s' = s_queuedBytes s"
    and "s_config s' = s_config s" "s_dispatchQueue s' = s_dispatchQueue s"
    and "s_controlQueue s' = s_controlQueue s" "s_outboundQueue s' = s_outboundQueue s"
    and "s_nextWrite s' = s_nextWrite s" "s_heap s' = s_heap s"
    and "s_nextLocalChannelID s' = s_nextLocalChannelID s"
    and "\<And>w. write_size s' w = write_size s w"
  shows "charged sz xf xb s'"
  using assms by (simp add: charged_def held_frames_def held_bytes_def writes_bytes_def fresh_ids_def)

lemma charged_neutral [simp]:
  "charged sz xf xb (s\<lparr>s_channels := x0\<rparr>) = charged sz xf xb s"
  "charged sz xf xb (s\<lparr>s_peerChannelIDs := x1\<rparr>) = charged sz xf xb s"
  "charged sz xf xb (s\<lparr>s_pendingOpens := x2\<rparr>) = charged sz xf xb s"
  "charged sz xf xb (s\<lparr>s_activeChannels := x3\<rparr>) = charged sz xf xb s"
  "charged sz xf xb (s\<lparr>s_spawned := x4\<rparr>) = charged sz xf xb s"
  "charged sz xf xb (s\<lparr>s_activated := x5\<rparr>) = charged sz xf xb s"
  "charged sz xf xb (s\<lparr>s_pendingGlobal := x6\<rparr>) = charged sz xf xb s"
  "charged sz xf xb (s\<lparr>s_globalResults := x7\<rparr>) = charged sz xf xb s"
  "charged sz xf xb (s\<lparr>s_incomingGlobalRequests := x8\<rparr>) = charged sz xf xb s"
  "charged sz xf xb (s\<lparr>s_nextGlobalRequestID := x9\<rparr>) = charged sz xf xb s"
  "charged sz xf xb (s\<lparr>s_pendingChannelRequests := x10\<rparr>) = charged sz xf xb s"
  "charged sz xf xb (s\<lparr>s_waitErr := x11\<rparr>) = charged sz xf xb s"
  "charged sz xf xb (s\<lparr>s_closeErr := x12\<rparr>) = charged sz xf xb s"
  "charged sz xf xb (s\<lparr>s_closing := x13\<rparr>) = charged sz xf xb s"
  "charged sz xf xb (s\<lparr>s_queuesClosed := x14\<rparr>) = charged sz xf xb s"
  "charged sz xf xb (s\<lparr>s_cause := x15\<rparr>) = charged sz xf xb s"
  by (simp_all add: charged_def held_frames_def held_bytes_def writes_bytes_def write_size_def fresh_ids_def)

lemma charged_reserve:
  assumes "charged sz xf xb s" and "reserveQueueBudget f b s = (None, s1)"
  shows "charged sz (xf + unat f) (xb + unat b) s1"
proof -
  have s1: "s1 = s\<lparr>s_queuedFrames := s_queuedFrames s + f, s_queuedBytes := s_queuedBytes s + b\<rparr>"
    and f: "f \<le> MaxQueuedFramesTotal (limits s) - s_queuedFrames s"
    and b: "b \<le> MaxQueuedBytesTotal (limits s) - s_queuedBytes s"
    using assms(2) by (auto simp: reserveQueueBudget_def split: if_splits)
  have used: "s_queuedFrames s \<le> MaxQueuedFramesTotal (limits s)"
    "s_queuedBytes s \<le> MaxQueuedBytesTotal (limits s)"
    using assms(1) by (auto simp: charged_def)
  show ?thesis
    using assms(1) word_reserve [OF used(1) f] word_reserve [OF used(2) b]
    by (simp add: s1 charged_def held_frames_def held_bytes_def writes_bytes_def write_size_def fresh_ids_def)
qed

lemma charged_release:
  assumes "charged sz (xf + unat f) (xb + unat b) s"
  shows "charged sz xf xb (releaseQueueBudget f b s)"
proof -
  have le: "unat f \<le> unat (s_queuedFrames s)" "unat b \<le> unat (s_queuedBytes s)"
    using assms by (auto simp: charged_def)
  then have eq: "unat (s_queuedFrames s - f) = unat (s_queuedFrames s) - unat f"
    "unat (s_queuedBytes s - b) = unat (s_queuedBytes s) - unat b"
    by (simp_all add: unat_sub_le)
  have "\<not> s_queuedFrames s < f" "\<not> s_queuedBytes s < b"
    using le by (simp_all add: word_less_nat_alt)
  moreover have "s_queuedFrames s - f \<le> MaxQueuedFramesTotal (limits s)"
    "s_queuedBytes s - b \<le> MaxQueuedBytesTotal (limits s)"
    using assms eq by (auto simp: charged_def word_le_nat_alt)
  ultimately show ?thesis
    using assms eq
    by (simp add: releaseQueueBudget_def charged_def held_frames_def held_bytes_def writes_bytes_def
        write_size_def fresh_ids_def)
qed

lemma charged_mod_chan:
  assumes "charged sz xf xb s" and "s_heap s i = Some c" and "channel_bounded (limits s) (f c)"
    and "unat (ch_queuedFrames (f c)) + yf = unat (ch_queuedFrames c) + xf"
    and "unat (ch_queuedBytes (f c)) + yb = unat (ch_queuedBytes c) + xb"
  shows "charged sz yf yb (mod_chan i f s)"
proof -
  have heap: "s_heap (mod_chan i f s) = (s_heap s)(i \<mapsto> f c)"
    using assms(2) by (rule heap_mod_chan_upd)
  note sums = map_sum_upd [OF finite_heap assms(2)]
  have "held_frames (mod_chan i f s) + yf = held_frames s + xf"
    using sums [of "\<lambda>c. unat (ch_queuedFrames c)" "f c"] assms(4)
    by (simp add: held_frames_def heap)
  moreover have "held_bytes sz (mod_chan i f s) + yb = held_bytes sz s + xb"
    using sums [of "\<lambda>c. unat (ch_queuedBytes c)" "f c"] assms(5)
    by (simp add: held_bytes_def writes_bytes_def write_size_def heap)
  ultimately show ?thesis
    using assms(1,3) by (auto simp: charged_def heap)
qed

lemma charged_mod_same:
  assumes "charged sz xf xb s"
    and "\<And>c. s_heap s i = Some c \<Longrightarrow> ch_queuedFrames (f c) = ch_queuedFrames c
              \<and> ch_queuedBytes (f c) = ch_queuedBytes c"
  shows "charged sz xf xb (mod_chan i f s)"
proof (cases "s_heap s i")
  case None
  then show ?thesis using assms(1) by (simp add: heap_mod_chan_None)
next
  case (Some c)
  have "channel_bounded (limits s) c"
    using assms(1) Some by (auto simp: charged_def)
  then show ?thesis
    using assms Some
    by (intro charged_mod_chan [OF assms(1) Some]) (auto simp: channel_bounded_def)
qed

lemma channel_bounded_charged:
  "charged sz xf xb s \<Longrightarrow> s_heap s i = Some c \<Longrightarrow> channel_bounded (limits s) c"
  by (auto simp: charged_def)

lemma charged_reserveQueued:
  assumes "charged sz 0 0 s" and "reserveQueuedLocked i f b s = (None, s1)" and "s_heap s i \<noteq> None"
  shows "charged sz 0 0 s1"
proof -
  obtain c where c: "s_heap s i = Some c" using assms(3) by blast
  note bounded = channel_bounded_charged [OF assms(1) c]
  obtain s0 where r: "reserveQueueBudget f b s = (None, s0)"
    and s1: "s1 = mod_chan i (\<lambda>c. c\<lparr>ch_queuedFrames := ch_queuedFrames c + f,
                                    ch_queuedBytes := ch_queuedBytes c + b\<rparr>) s0"
    and f: "f \<le> MaxQueuedFramesPerChannel (limits s) - ch_queuedFrames c"
    and b: "b \<le> MaxQueuedBytesPerChannel (limits s) - ch_queuedBytes c"
    using assms(2) c by (auto simp: reserveQueuedLocked_def chan_def not_less
        split: if_splits prod.splits option.splits)
  have c0: "s_heap s0 i = Some c" and l0: "limits s0 = limits s"
    using r c by (auto simp: reserveQueueBudget_def split: if_splits)
  note fw = word_reserve [OF _ f] and bw = word_reserve [OF _ b]
  show ?thesis
    unfolding s1
    by (rule charged_mod_chan [OF charged_reserve [OF assms(1) r] c0])
      (use bounded fw bw l0 in \<open>auto simp: channel_bounded_def\<close>)
qed

lemma charged_releaseQueued:
  assumes "charged sz 0 0 s"
  shows "charged sz 0 0 (releaseQueuedLocked i f b s)"
proof (cases "s_heap s i")
  case None
  then have "releaseQueuedLocked i f b s = releaseQueueBudget 0 0 s"
    by (simp add: releaseQueuedLocked_def Let_def chan_def zeroChannel_def heap_mod_chan_None
        word_gt_0)
  then show ?thesis
    using charged_release [of sz 0 0 0 0 s] assms by simp
next
  case (Some c)
  note bounded = channel_bounded_charged [OF assms Some]
  define af where "af = (if f > ch_queuedFrames c then ch_queuedFrames c else f)"
  define ab where "ab = (if b > ch_queuedBytes c then ch_queuedBytes c else b)"
  have le: "unat af \<le> unat (ch_queuedFrames c)" "unat ab \<le> unat (ch_queuedBytes c)"
    by (auto simp: af_def ab_def word_less_nat_alt)
  let ?f = "\<lambda>c. c\<lparr>ch_queuedFrames := ch_queuedFrames c - af, ch_queuedBytes := ch_queuedBytes c - ab\<rparr>"
  have "channel_bounded (limits s) (?f c)"
    using bounded le by (auto simp: channel_bounded_def word_le_nat_alt unat_sub_le)
  then have "charged sz (0 + unat af) (0 + unat ab) (mod_chan i ?f s)"
    using le by (intro charged_mod_chan [OF assms Some]) (auto simp: unat_sub_le)
  from charged_release [OF this] have "charged sz 0 0 (releaseQueueBudget af ab (mod_chan i ?f s))" .
  moreover have "releaseQueuedLocked i f b s = releaseQueueBudget af ab (mod_chan i ?f s)"
    using Some by (simp only: releaseQueuedLocked_def Let_def chan_def af_def ab_def option.case)
  ultimately show ?thesis by simp
qed

lemma charged_discard:
  assumes "charged sz 0 0 s"
  shows "charged sz 0 0 (discardQueuedLocked i s)"
proof (cases "s_heap s i")
  case None
  then show ?thesis
    using charged_release [of sz 0 0 0 0 s] assms
    by (simp add: discardQueuedLocked_def chan_def zeroChannel_def heap_mod_chan_None)
next
  case (Some c)
  have "charged sz (0 + unat (ch_queuedFrames c)) (0 + unat (ch_queuedBytes c))
      (mod_chan i (\<lambda>c. c\<lparr>ch_queuedFrames := 0, ch_queuedBytes := 0, ch_frames := []\<rparr>) s)"
    by (rule charged_mod_chan [OF assms Some]) (auto simp: channel_bounded_def)
  from charged_release [OF this] show ?thesis
    using Some by (simp add: discardQueuedLocked_def chan_def)
qed

section \<open>Queues\<close>

lemma write_size_simps [simp]:
  "write_size (s\<lparr>s_controlQueue := q\<rparr>) w = write_size s w"
  "write_size (s\<lparr>s_outboundQueue := q\<rparr>) w = write_size s w"
  "write_size (s\<lparr>s_dispatchQueue := d\<rparr>) w = write_size s w"
  "write_size (s\<lparr>s_spawned := g\<rparr>) w = write_size s w"
  by (simp_all add: write_size_def)

lemma writes_bytes_simps [simp]:
  "writes_bytes s [] = 0"
  "writes_bytes s (w # ws) = unat (write_size s w) + writes_bytes s ws"
  "writes_bytes s (vs @ ws) = writes_bytes s vs + writes_bytes s ws"
  by (simp_all add: writes_bytes_def)

lemma writes_bytes_cong [simp]:
  "writes_bytes (s\<lparr>s_controlQueue := q\<rparr>) ws = writes_bytes s ws"
  "writes_bytes (s\<lparr>s_outboundQueue := q\<rparr>) ws = writes_bytes s ws"
  "writes_bytes (s\<lparr>s_dispatchQueue := d\<rparr>) ws = writes_bytes s ws"
  by (simp_all add: writes_bytes_def)

lemma charged_push:
  "charged sz 1 (unat (task_size sz t)) s
    \<Longrightarrow> charged sz 0 0 (s\<lparr>s_dispatchQueue := s_dispatchQueue s @ [t]\<rparr>)"
  "charged sz 1 (unat (write_size s w)) s \<Longrightarrow> w < s_nextWrite s
    \<Longrightarrow> charged sz 0 0 (s\<lparr>s_controlQueue := s_controlQueue s @ [w]\<rparr>)"
  "charged sz 1 (unat (write_size s w)) s \<Longrightarrow> w < s_nextWrite s
    \<Longrightarrow> charged sz 0 0 (s\<lparr>s_outboundQueue := s_outboundQueue s @ [w]\<rparr>)"
  by (auto simp: charged_def held_frames_def held_bytes_def fresh_ids_def)

lemma charged_pop:
  "charged sz 0 0 s \<Longrightarrow> s_dispatchQueue s = t # ts
    \<Longrightarrow> charged sz 1 (unat (task_size sz t)) (s\<lparr>s_dispatchQueue := ts\<rparr>)"
  "charged sz 0 0 s \<Longrightarrow> s_controlQueue s = w # ws
    \<Longrightarrow> charged sz 1 (unat (write_size s w)) (s\<lparr>s_controlQueue := ws\<rparr>)"
  "charged sz 0 0 s \<Longrightarrow> s_outboundQueue s = w # ws
    \<Longrightarrow> charged sz 1 (unat (write_size s w)) (s\<lparr>s_outboundQueue := ws\<rparr>)"
  by (auto simp: charged_def held_frames_def held_bytes_def fresh_ids_def)

lemma charged_unspent:
  "charged sz 1 (unat b) s \<Longrightarrow> charged sz 0 0 (releaseQueueBudget 1 b s)"
  using charged_release [of sz 0 1 0 b s] by simp

lemma charged_reserve_one:
  "charged sz 0 0 s \<Longrightarrow> reserveQueueBudget 1 b s = (None, s1) \<Longrightarrow> charged sz 1 (unat b) s1"
  using charged_reserve [of sz 0 0 s 1 b s1] by simp

lemma reserve_writes:
  "reserveQueueBudget f b s = (r, s1) \<Longrightarrow>
    write_size s1 w = write_size s w \<and> s_nextWrite s1 = s_nextWrite s"
  by (auto simp: reserveQueueBudget_def write_size_def split: if_splits)

lemma budget_enqueueDispatch:
  assumes "budget_inv sz s"
  shows "budget_inv sz (snd (enqueueDispatch sz t s))"
  using assms
  by (auto simp: enqueueDispatch_def split: prod.splits option.splits
      dest: reserveQueueBudget_fail intro!: charged_push charged_unspent intro: charged_reserve_one)

lemma budget_enqueueWrite:
  assumes "budget_inv sz s" and "w < s_nextWrite s"
  shows "budget_inv sz (snd (enqueueWrite w control s))"
proof -
  obtain r s1 where r: "reserveQueueBudget 1 (write_size s w) s = (r, s1)"
    by (cases "reserveQueueBudget 1 (write_size s w) s")
  note w = reserve_writes [OF r, of w]
  show ?thesis
  proof (cases r)
    case (Some e)
    then show ?thesis
      using r assms(1) reserveQueueBudget_fail [of 1 "write_size s w" s e s1] by (simp add: enqueueWrite_def)
  next
    case None
    have c: "charged sz 1 (unat (write_size s1 w)) s1"
      using charged_reserve_one [OF assms(1)] r None w by simp
    then show ?thesis
      using r None w assms(2) charged_push(2,3) [OF c] charged_unspent [OF c]
      by (auto simp: enqueueWrite_def Let_def)
  qed
qed

lemma budget_newWrite:
  assumes "budget_inv sz s" and "newWrite m s = (w, s1)"
  shows "budget_inv sz s1" and "w < s_nextWrite s1"
proof -
  have s1: "s1 = s\<lparr>s_writes := (s_writes s)(s_nextWrite s \<mapsto> m), s_nextWrite := Suc (s_nextWrite s)\<rparr>"
    and w: "w = s_nextWrite s"
    using assms(2) by (auto simp: newWrite_def)
  show "w < s_nextWrite s1" by (simp add: s1 w)
  have same: "write_size s1 v = write_size s v" if "v < s_nextWrite s" for v
    using that by (simp add: s1 write_size_def)
  have "writes_bytes s1 ws = writes_bytes s ws" if "\<forall>v \<in> set ws. v < s_nextWrite s" for ws
    unfolding writes_bytes_def
    by (rule arg_cong [where f = sum_list], rule map_cong) (use that same in auto)
  moreover have "\<forall>v \<in> set (s_controlQueue s) \<union> set (s_outboundQueue s). v < s_nextWrite s"
    using assms(1) by (simp add: charged_def)
  ultimately have "writes_bytes s1 (s_controlQueue s) = writes_bytes s (s_controlQueue s)"
    "writes_bytes s1 (s_outboundQueue s) = writes_bytes s (s_outboundQueue s)" by auto
  then show "budget_inv sz s1"
    using assms(1) by (auto simp: charged_def held_frames_def held_bytes_def s1 less_Suc_eq fresh_ids_def)
qed

lemma budget_send:
  assumes "budget_inv sz s"
  shows "budget_inv sz (snd (sendEnvelopeAsyncAfter sz env control aft s))"
    and "budget_inv sz (snd (sendEnvelopeAfter sz env aft s))"
  using assms
  by (auto simp: sendEnvelopeAsyncAfter_def sendEnvelopeAfter_def Let_def
      split: option.splits prod.splits dest: budget_newWrite)
    (metis budget_newWrite budget_enqueueWrite snd_conv)+

section \<open>Tables, requests and shutdown\<close>

lemma budget_writes:
  assumes "budget_inv sz s" and "s_writes s w = Some m" and "ow_size m' = ow_size m"
  shows "budget_inv sz (s\<lparr>s_writes := (s_writes s)(w \<mapsto> m')\<rparr>)"
  by (rule charged_cong [OF assms(1)]) (use assms in \<open>auto simp: write_size_def\<close>)

lemma budget_write_state:
  assumes "budget_inv sz s"
  shows "budget_inv sz (snd (sendWait_result w s))" "budget_inv sz (snd (sendWait_cancel e w s))"
    "budget_inv sz (set_write_state w wst s)" "budget_inv sz (put_result w re s)"
  using assms
  by (auto simp: sendWait_result_def sendWait_cancel_def set_write_state_def put_result_def
      split: option.splits intro!: budget_writes)

lemma budget_dispatch_take:
  "budget_inv sz s \<Longrightarrow> budget_inv sz (snd (dispatch_take sz s))"
  by (auto simp: dispatch_take_def split: list.splits intro!: charged_unspent charged_pop)

lemma budget_new_channel:
  assumes "budget_inv sz s" and "reserveLocalChannelID s = (Inr i, s1)"
    and "ch_queuedFrames c = 0" "ch_queuedBytes c = 0"
  shows "budget_inv sz (s1\<lparr>s_heap := (s_heap s1)(i \<mapsto> c)\<rparr>)"
proof -
  have "fresh_ids s" using assms(1) by (simp add: charged_def)
  note new = reserveLocalChannelID_fresh [OF assms(2) this]
  note sums = map_sum_new [OF finite_heap new(1)]
  show ?thesis
    using assms(1,3,4) new(2,3,4) sums [of "\<lambda>c. unat (ch_queuedFrames c)" c]
      sums [of "\<lambda>c. unat (ch_queuedBytes c)" c]
    by (auto simp: charged_def held_frames_def held_bytes_def writes_bytes_def write_size_def
        channel_bounded_def fresh_ids_def)
qed

lemma budget_addPending:
  "budget_inv sz s \<Longrightarrow> budget_inv sz (snd (addPendingChannel i p s))"
  by (auto simp: addPendingChannel_def Let_def split: option.splits intro!: charged_mod_same)

lemma budget_activate:
  "budget_inv sz s \<Longrightarrow> budget_inv sz (snd (activateChannel i s))"
  by (auto simp: activateChannel_def intro!: charged_mod_same)

lemma budget_remove:
  "budget_inv sz s \<Longrightarrow> budget_inv sz (removeChannel i s)"
  by (auto simp: removeChannel_def intro!: charged_mod_same)

lemma budget_release_request [simp]:
  "budget_inv sz (releasePendingChannelRequest s) = budget_inv sz s"
  by (simp add: releasePendingChannelRequest_def)

lemma budget_release_requests [simp]:
  "budget_inv sz ((releasePendingChannelRequest ^^ n) s) = budget_inv sz s"
  by (induction n) simp_all

lemma budget_failPending:
  "budget_inv sz s \<Longrightarrow> budget_inv sz (failPendingRequestsLocked i e s)"
  by (auto simp: failPendingRequestsLocked_def intro!: charged_mod_same)

lemma budget_removePending:
  "budget_inv sz s \<Longrightarrow> budget_inv sz (removePendingRequest i rid s)"
  by (auto simp: removePendingRequest_def intro!: charged_mod_same)

lemma budget_channel_shutdown:
  "budget_inv sz s \<Longrightarrow> budget_inv sz (Channel_shutdown i e s)"
  by (auto simp: Channel_shutdown_def Let_def cancelChannel_def signalLocked_def
      intro!: charged_mod_same budget_failPending charged_discard)

lemma budget_cancel:
  assumes "budget_inv sz s"
  shows "budget_inv sz (cancelSession e s)"
proof -
  have "map_sum f (\<lambda>i. map_option (cancelChannel e) (s_heap s i)) = map_sum f (s_heap s)"
    if "\<And>c. f (cancelChannel e c) = f c" for f
    unfolding map_sum_def by (rule sum.cong) (auto simp: dom_def that)
  then show ?thesis
    using assms
    by (auto simp: cancelSession_def charged_def held_frames_def held_bytes_def writes_bytes_def
        write_size_def cancelChannel_def channel_bounded_def fresh_ids_def)
qed

lemma budget_fold_shutdown:
  "budget_inv sz s \<Longrightarrow> budget_inv sz (fold (\<lambda>i. Channel_shutdown i e) is s)"
  by (induction "is" arbitrary: s) (auto intro: budget_channel_shutdown)

lemma budget_session_shutdown:
  assumes "budget_inv sz s"
  shows "budget_inv sz (Session_shutdown sz e s)"
proof -
  have "budget_inv sz (snd (sendEnvelopeAsync sz env True s1))" if "budget_inv sz s1" for env s1
    using that by (simp add: sendEnvelopeAsync_def budget_send)
  then show ?thesis
    using assms
    by (auto simp: Session_shutdown_def Let_def split: option.splits serr.splits
        intro!: budget_fold_shutdown budget_cancel)
qed

lemma budget_reserved_push:
  assumes "budget_inv sz s" and "reserveQueuedLocked i f b s = (None, s1)" and "s_heap s i \<noteq> None"
    and "\<And>c. ch_queuedFrames (g c) = ch_queuedFrames c \<and> ch_queuedBytes (g c) = ch_queuedBytes c"
  shows "budget_inv sz (mod_chan i g s1)"
  using charged_reserveQueued [OF assms(1-3)] assms(4) by (intro charged_mod_same) auto

lemma budget_same_queue:
  "budget_inv sz s \<Longrightarrow> (\<And>c. ch_queuedFrames (f c) = ch_queuedFrames c \<and> ch_queuedBytes (f c) = ch_queuedBytes c)
    \<Longrightarrow> budget_inv sz (mod_chan i f s)"
  by (auto intro: charged_mod_same)

interpretation budget: session_contract sz "budget_inv sz" for sz
proof (unfold_locales, goal_cases)
  case (1 s i f) then show ?case by (auto simp: benign_def intro!: charged_mod_same)
next
  case (2 s i st f) then show ?case by (auto simp: benign_def intro!: charged_mod_same)
next
  case (19 s i s1 p ty rw mp h)
  then show ?case
    by (auto simp: newIncomingChannel_def zeroChannel_def intro!: budget_addPending budget_new_channel)
next
  case (20 s i s1 ty h)
  then show ?case
    by (auto simp: newPendingChannel_def zeroChannel_def intro!: budget_addPending budget_new_channel)
next
  case (22 s i p s1 rw mp)
  then have "budget_inv sz s1"
    by (auto simp: reservePeerChannelID_def split: if_splits intro!: budget_same_queue)
  then show ?case by (auto simp: signalLocked_def intro!: budget_activate budget_same_queue)
next
  case (29 s i s1)
  then have "budget_inv sz s1"
    by (auto simp: reservePendingChannelRequest_def split: if_splits intro!: budget_same_queue)
  then show ?case by (auto intro!: budget_same_queue)
next
  case (31 s i ev s1)
  then show ?case using live_allocated by (auto simp: push_event_def intro!: budget_reserved_push)
next
  case (32 s i ev s1)
  have "s_heap s i \<noteq> None" using 32 live_allocated by blast
  moreover have "budget_inv sz (mod_chan i (\<lambda>c. signalLocked (c\<lparr>ch_state := channelClosed\<rparr>)) s)"
    using 32 by (auto simp: signalLocked_def intro!: budget_same_queue)
  ultimately show ?case using 32 by (auto simp: push_event_def intro!: budget_reserved_push)
next
  case (34 s i frame s1)
  then have "s_heap s i \<noteq> None" by (auto simp: chan_def zeroChannel_def split: option.splits)
  with 34 show ?case by (auto simp: signalLocked_def intro!: budget_reserved_push)
qed (auto simp: budget_write_state budget_send budget_enqueueDispatch budget_dispatch_take
    budget_remove budget_channel_shutdown budget_session_shutdown budget_cancel budget_failPending
    budget_removePending signalLocked_def recv_take_def worker_take_def Let_def split: list.splits
    intro!: charged_unspent charged_pop budget_activate budget_same_queue charged_discard
      charged_releaseQueued intro: charged_reserveQueued)

end
