(* ===== verification/Session_Channels.thy ===== *)
theory Session_Channels
  imports Session_Budget Session_Admission
begin

text \<open>
  One channel: its queue accounting and its receive window.  Unless it was flushed by a local
  close or a shutdown, the queue counters of a channel are the number and the total size of
  its queued frames and events, and while it is open the window it still grants plus the bytes
  it holds are exactly the initial window.
\<close>

definition frames_bytes :: "bytes list \<Rightarrow> nat" where
  "frames_bytes fs = sum_list (map length fs)"

definition events_bytes :: "channelEvent list \<Rightarrow> nat" where
  "events_bytes es = sum_list (map (\<lambda>e. unat (event_size e)) es)"

definition queue_exact :: "Channel \<Rightarrow> bool" where
  "queue_exact c \<longleftrightarrow> unat (ch_queuedFrames c) = length (ch_frames c) + length (ch_events c)
     \<and> unat (ch_queuedBytes c) = frames_bytes (ch_frames c) + events_bytes (ch_events c)"

definition flushed :: "Channel \<Rightarrow> bool" where
  "flushed c \<longleftrightarrow> 2 \<le> state_rank (ch_state c) \<and> ch_frames c = []
     \<and> ch_queuedFrames c = 0 \<and> ch_queuedBytes c = 0"

definition window_ok :: "Config \<Rightarrow> Channel \<Rightarrow> bool" where
  "window_ok cfg c \<longleftrightarrow>
     unat (ch_localWindow c) + frames_bytes (ch_frames c) \<le> unat (InitialWindow cfg)
     \<and> (ch_maxLocalPacket c \<noteq> 0 \<and> state_rank (ch_state c) \<le> 1
         \<longrightarrow> unat (ch_localWindow c) + frames_bytes (ch_frames c) = unat (InitialWindow cfg))
     \<and> (ch_maxLocalPacket c = 0 \<or> ch_maxLocalPacket c = MaxPacketSize cfg)
     \<and> (ch_maxLocalPacket c = 0 \<longrightarrow> state_rank (ch_state c) \<noteq> 1)
     \<and> ch_pendingWindowBytes c < WindowAdjustThreshold cfg"

definition channel_ok :: "Config \<Rightarrow> Channel \<Rightarrow> bool" where
  "channel_ok cfg c \<longleftrightarrow> channel_bounded (cfg_Limits cfg) c \<and> (queue_exact c \<or> flushed c) \<and> window_ok cfg c
     \<and> (\<forall>f \<in> set (ch_frames c). f \<noteq> [] \<and> length f \<le> unat (MaxPacketSize cfg))
     \<and> (state_rank (ch_state c) = 0 \<longrightarrow> ch_frames c = [])"

definition channels_inv :: "Session \<Rightarrow> bool" where
  "channels_inv s \<longleftrightarrow> fresh_ids s \<and> valid_config (s_config s)
     \<and> (\<forall>i c. s_heap s i = Some c \<longrightarrow> channel_ok (s_config s) c)"

lemmas channel_ok_defs = channel_ok_def window_ok_def queue_exact_def flushed_def channel_bounded_def

lemma bytes_simps [simp]:
  "frames_bytes [] = 0" "frames_bytes (f # fs) = length f + frames_bytes fs"
  "frames_bytes (fs @ gs) = frames_bytes fs + frames_bytes gs"
  "events_bytes [] = 0" "events_bytes (e # es) = unat (event_size e) + events_bytes es"
  "events_bytes (es @ es') = events_bytes es + events_bytes es'"
  by (simp_all add: frames_bytes_def events_bytes_def)

section \<open>Lifting a change of one channel\<close>

lemma channels_quiet: "channels_inv s \<Longrightarrow> quiet s s' \<Longrightarrow> channels_inv s'"
  by (simp add: channels_inv_def quiet_def fresh_ids_def)

lemma channels_mod:
  assumes "channels_inv s"
    and "\<And>c. s_heap s i = Some c \<Longrightarrow> channel_ok (s_config s) c \<Longrightarrow> valid_config (s_config s)
          \<Longrightarrow> channel_ok (s_config s) (f c)"
  shows "channels_inv (mod_chan i f s)"
  using assms by (auto simp: channels_inv_def heap_mod_chan split: if_splits)

lemma channels_ok: "channels_inv s \<Longrightarrow> s_heap s i = Some c \<Longrightarrow> channel_ok (s_config s) c"
  by (simp add: channels_inv_def)

lemma channels_valid: "channels_inv s \<Longrightarrow> valid_config (s_config s)"
  by (simp add: channels_inv_def)

lemma mod_chan_twice: "mod_chan i g (mod_chan i f s) = mod_chan i (\<lambda>c. g (f c)) s"
  by (simp add: mod_chan_def split: option.splits)

lemma channels_neutral [simp]:
  "channels_inv (s\<lparr>s_channels := x1\<rparr>) = channels_inv s"
  "channels_inv (s\<lparr>s_peerChannelIDs := x2\<rparr>) = channels_inv s"
  "channels_inv (s\<lparr>s_pendingOpens := x3\<rparr>) = channels_inv s"
  "channels_inv (s\<lparr>s_activeChannels := x4\<rparr>) = channels_inv s"
  "channels_inv (s\<lparr>s_activated := x5\<rparr>) = channels_inv s"
  "channels_inv (s\<lparr>s_queuesClosed := x6\<rparr>) = channels_inv s"
  "channels_inv (s\<lparr>s_pendingChannelRequests := x7\<rparr>) = channels_inv s"
  by (simp_all add: channels_inv_def fresh_ids_def)

lemma channels_budget [simp]:
  "channels_inv (releaseQueueBudget f b s) = channels_inv s"
  by (simp add: channels_inv_def fresh_ids_def releaseQueueBudget_def)

text \<open>
  A granted reservation: the counters of the channel grow without wrapping and stay in bounds.
\<close>

lemma reserveQueued_granted:
  assumes "channels_inv s" and "s_heap s i = Some c" and "reserveQueuedLocked i f b s = (None, s1)"
  obtains s0 where "quiet s s0"
    and "s1 = mod_chan i (\<lambda>c. c\<lparr>ch_queuedFrames := ch_queuedFrames c + f, ch_queuedBytes := ch_queuedBytes c + b\<rparr>) s0"
    and "unat (ch_queuedFrames c + f) = unat (ch_queuedFrames c) + unat f"
    and "unat (ch_queuedBytes c + b) = unat (ch_queuedBytes c) + unat b"
    and "ch_queuedFrames c + f \<le> MaxQueuedFramesPerChannel (limits s)"
    and "ch_queuedBytes c + b \<le> MaxQueuedBytesPerChannel (limits s)"
proof -
  have bounded: "channel_bounded (limits s) c"
    using channels_ok [OF assms(1,2)] by (simp add: channel_ok_def)
  have f: "f \<le> MaxQueuedFramesPerChannel (limits s) - ch_queuedFrames c"
    and b: "b \<le> MaxQueuedBytesPerChannel (limits s) - ch_queuedBytes c"
    using assms(3) by (auto simp: reserveQueuedLocked_def chan_Some [OF assms(2)] not_less split: if_splits)
  obtain s0 where "reserveQueueBudget f b s = (None, s0)"
    and s1: "s1 = mod_chan i (\<lambda>c. c\<lparr>ch_queuedFrames := ch_queuedFrames c + f, ch_queuedBytes := ch_queuedBytes c + b\<rparr>) s0"
    using assms(3) by (auto simp: reserveQueuedLocked_def split: if_splits prod.splits option.splits)
  then have "quiet s s0" using quiet_budget(1) [of s f b] by simp
  with s1 show thesis
    using that word_reserve [OF _ f] word_reserve [OF _ b] bounded
    by (auto simp: channel_bounded_def)
qed

lemma channels_reserved:
  assumes inv: "channels_inv s" and c: "s_heap s i = Some c"
    and reserve: "reserveQueuedLocked i f b s = (None, s1)"
    and ok: "\<And>qf qb. unat qf = unat (ch_queuedFrames c) + unat f \<Longrightarrow>
        unat qb = unat (ch_queuedBytes c) + unat b \<Longrightarrow>
        qf \<le> MaxQueuedFramesPerChannel (limits s) \<Longrightarrow> qb \<le> MaxQueuedBytesPerChannel (limits s) \<Longrightarrow>
        channel_ok (s_config s) (g (c\<lparr>ch_queuedFrames := qf, ch_queuedBytes := qb\<rparr>))"
  shows "channels_inv (mod_chan i g s1)"
proof -
  obtain s0 where s0: "quiet s s0"
    and s1: "s1 = mod_chan i (\<lambda>c. c\<lparr>ch_queuedFrames := ch_queuedFrames c + f, ch_queuedBytes := ch_queuedBytes c + b\<rparr>) s0"
    and sums: "unat (ch_queuedFrames c + f) = unat (ch_queuedFrames c) + unat f"
      "unat (ch_queuedBytes c + b) = unat (ch_queuedBytes c) + unat b"
      "ch_queuedFrames c + f \<le> MaxQueuedFramesPerChannel (limits s)"
      "ch_queuedBytes c + b \<le> MaxQueuedBytesPerChannel (limits s)"
    by (rule reserveQueued_granted [OF inv c reserve])
  have same: "s_heap s0 = s_heap s" "s_config s0 = s_config s" using s0 by (auto simp: quiet_def)
  have "channels_inv s0" using channels_quiet [OF inv s0] .
  then show ?thesis
    unfolding s1 mod_chan_twice
    using ok [OF sums] by (intro channels_mod) (auto simp: same c)
qed

section \<open>The operations on one channel\<close>

lemma benign_ok: "channel_ok cfg c \<Longrightarrow> benign c c' \<Longrightarrow> channel_ok cfg c'"
  by (simp add: channel_ok_defs benign_def)

lemma state_ok:
  assumes "channel_ok cfg c" and "state_edge (ch_state c) st"
  shows "channel_ok cfg (c\<lparr>ch_state := st\<rparr>)"
  using assms by (cases st) (auto simp: channel_ok_defs state_edge_def)

lemma fail_ok:
  "channel_ok cfg c \<Longrightarrow> flushed c' \<Longrightarrow> benign (c\<lparr>ch_state := ch_state c', ch_frames := [],
      ch_queuedFrames := 0, ch_queuedBytes := 0, ch_pendingRequests := ch_pendingRequests c',
      ch_sessionErr := ch_sessionErr c'\<rparr>) c' \<Longrightarrow> channel_ok cfg c'"
  by (auto simp: channel_ok_defs benign_def)

lemma release_amount: "(if n > (a :: 'a::len word) then a else n) = min a n"
  by (auto simp: min_def)

lemma event_ok:
  assumes "channel_ok cfg c" and "state_rank (ch_state c) = 1"
    and "unat qf = unat (ch_queuedFrames c) + 1" "unat qb = unat (ch_queuedBytes c) + unat (event_size ev)"
    and "qf \<le> MaxQueuedFramesPerChannel (cfg_Limits cfg)" "qb \<le> MaxQueuedBytesPerChannel (cfg_Limits cfg)"
  shows "channel_ok cfg (push_event ev (c\<lparr>ch_queuedFrames := qf, ch_queuedBytes := qb\<rparr>))"
  using assms by (auto simp: channel_ok_defs push_event_def)

lemma close_event_ok:
  assumes "channel_ok cfg c" and "state_rank (ch_state c) = 1"
    and "unat qf = unat (ch_queuedFrames c) + 1" "unat qb = unat (ch_queuedBytes c) + unat (event_size ev)"
    and "qf \<le> MaxQueuedFramesPerChannel (cfg_Limits cfg)" "qb \<le> MaxQueuedBytesPerChannel (cfg_Limits cfg)"
  shows "channel_ok cfg (push_event ev (signalLocked (c\<lparr>ch_state := channelClosed\<rparr>)
            \<lparr>ch_queuedFrames := qf, ch_queuedBytes := qb\<rparr>))"
  using assms by (auto simp: channel_ok_defs push_event_def signalLocked_def)

lemma data_ok:
  assumes ok: "channel_ok cfg c" and rank: "state_rank (ch_state c) = 1"
    and frame: "frame \<noteq> []" "length frame \<le> 24576"
      "len32 frame \<le> ch_maxLocalPacket c" "len32 frame \<le> ch_localWindow c"
    and q: "unat qf = unat (ch_queuedFrames c) + 1" "unat qb = unat (ch_queuedBytes c) + length frame"
      "qf \<le> MaxQueuedFramesPerChannel (cfg_Limits cfg)" "qb \<le> MaxQueuedBytesPerChannel (cfg_Limits cfg)"
  shows "channel_ok cfg (signalLocked (c\<lparr>ch_queuedFrames := qf, ch_queuedBytes := qb,
      ch_localWindow := ch_localWindow c - len32 frame, ch_frames := ch_frames c @ [frame]\<rparr>))"
proof -
  have len: "unat (len32 frame) = length frame"
    using frame(2) by (simp add: len32_def unat_of_nat_u32)
  have "unat (ch_localWindow c - len32 frame) = unat (ch_localWindow c) - length frame"
    using frame(4) len by (simp add: unat_sub_le word_le_nat_alt)
  moreover have "length frame \<le> unat (ch_localWindow c)" "length frame \<le> unat (ch_maxLocalPacket c)"
    using frame(3,4) len by (simp_all add: word_le_nat_alt)
  ultimately show ?thesis
    using ok rank frame(1) q by (auto simp: channel_ok_defs signalLocked_def)
qed

lemma worker_ok:
  assumes "channel_ok cfg c" and "ch_events c = ev # rest"
  shows "channel_ok cfg (c\<lparr>ch_events := rest,
      ch_queuedFrames := ch_queuedFrames c - min (ch_queuedFrames c) 1,
      ch_queuedBytes := ch_queuedBytes c - min (ch_queuedBytes c) (event_size ev)\<rparr>)"
proof (cases "flushed c")
  case True
  then show ?thesis using assms by (auto simp: channel_ok_defs)
next
  case False
  then have q: "unat (ch_queuedFrames c) = length (ch_frames c) + length rest + 1"
    "unat (ch_queuedBytes c) = frames_bytes (ch_frames c) + events_bytes rest + unat (event_size ev)"
    using assms by (auto simp: channel_ok_def queue_exact_def)
  then have m: "min (ch_queuedFrames c) 1 = 1" "min (ch_queuedBytes c) (event_size ev) = event_size ev"
    by (simp_all add: min_absorb2 word_le_nat_alt)
  have "unat (ch_queuedFrames c - 1) = unat (ch_queuedFrames c) - 1"
    "unat (ch_queuedBytes c - event_size ev) = unat (ch_queuedBytes c) - unat (event_size ev)"
    using q unat_sub_le [of 1 "ch_queuedFrames c"] by (simp_all add: unat_sub_le)
  with assms q m show ?thesis
    by (auto simp: channel_ok_defs word_le_nat_alt)
qed

lemma recv_ok:
  assumes cfg: "valid_config cfg" and ok: "channel_ok cfg c" and fs: "ch_frames c = frame # rest"
    and p: "p = ch_pendingWindowBytes c + len32 frame"
  shows "channel_ok cfg (c\<lparr>ch_frames := rest,
      ch_queuedFrames := ch_queuedFrames c - min (ch_queuedFrames c) 1,
      ch_queuedBytes := ch_queuedBytes c - min (ch_queuedBytes c) (of_nat (length frame)),
      ch_localWindow := ch_localWindow c + len32 frame,
      ch_pendingWindowBytes := (if p \<ge> WindowAdjustThreshold cfg then 0 else p)\<rparr>)"
proof -
  have pkt: "unat (MaxPacketSize cfg) \<le> 24576" and win: "unat (InitialWindow cfg) < 4294967295"
    and thr: "0 < WindowAdjustThreshold cfg"
    using cfg by (auto simp: valid_config_def word_le_nat_alt word_less_nat_alt)
  have frame: "length frame \<le> unat (MaxPacketSize cfg)" using ok fs by (simp add: channel_ok_def)
  then have len: "unat (len32 frame) = length frame" "unat (of_nat (length frame) :: u64) = length frame"
    using pkt by (simp_all add: len32_def unat_of_nat_u32 unat_of_nat_u64)
  have q: "unat (ch_queuedFrames c) = length rest + length (ch_events c) + 1"
    "unat (ch_queuedBytes c) = length frame + frames_bytes rest + events_bytes (ch_events c)"
    using ok fs by (auto simp: channel_ok_def queue_exact_def flushed_def)
  then have m: "min (ch_queuedFrames c) 1 = 1"
    "min (ch_queuedBytes c) (of_nat (length frame)) = of_nat (length frame)"
    by (simp_all add: min_absorb2 word_le_nat_alt len)
  have u: "unat (ch_queuedFrames c - 1) = unat (ch_queuedFrames c) - 1"
    "unat (ch_queuedBytes c - of_nat (length frame)) = unat (ch_queuedBytes c) - length frame"
    using q unat_sub_le [of 1 "ch_queuedFrames c"] len by (simp_all add: unat_sub_le)
  have w: "unat (ch_localWindow c + len32 frame) = unat (ch_localWindow c) + length frame"
    using ok fs win len by (subst unat_add_no_wrap) (auto simp: channel_ok_def window_ok_def)
  define pw where "pw = (if p \<ge> WindowAdjustThreshold cfg then 0 else p)"
  have pw: "pw < WindowAdjustThreshold cfg" using thr by (auto simp: pw_def not_le)
  have le: "ch_queuedFrames c - 1 \<le> MaxQueuedFramesPerChannel (cfg_Limits cfg)"
    "ch_queuedBytes c - of_nat (length frame) \<le> MaxQueuedBytesPerChannel (cfg_Limits cfg)"
    using ok u by (auto simp: channel_ok_def channel_bounded_def word_le_nat_alt)
  have q': "unat (ch_queuedFrames c - 1) = length rest + length (ch_events c)"
    "unat (ch_queuedBytes c - of_nat (length frame)) = frames_bytes rest + events_bytes (ch_events c)"
    using q u by simp_all
  show ?thesis
    unfolding m pw_def [symmetric]
    using ok fs q' w pw le
    by (simp add: channel_ok_def window_ok_def queue_exact_def channel_bounded_def add.assoc)
qed

lemma releaseQueuedLocked_eq:
  "releaseQueuedLocked i f b s = releaseQueueBudget (min (ch_queuedFrames (chan s i)) f) (min (ch_queuedBytes (chan s i)) b)
     (mod_chan i (\<lambda>c. c\<lparr>ch_queuedFrames := ch_queuedFrames c - min (ch_queuedFrames (chan s i)) f,
                           ch_queuedBytes := ch_queuedBytes c - min (ch_queuedBytes (chan s i)) b\<rparr>) s)"
  by (simp only: releaseQueuedLocked_def Let_def release_amount)

lemma heap_recv_take:
  "s_heap s i = Some c \<Longrightarrow> quiet (mod_chan i (\<lambda>c. c\<lparr>ch_frames := rest,
      ch_queuedFrames := ch_queuedFrames c - min (ch_queuedFrames c) 1,
      ch_queuedBytes := ch_queuedBytes c - min (ch_queuedBytes c) (of_nat (length frame)),
      ch_localWindow := ch_localWindow c + len32 frame,
      ch_pendingWindowBytes := (if ch_pendingWindowBytes c + len32 frame \<ge> WindowAdjustThreshold (s_config s)
        then 0 else ch_pendingWindowBytes c + len32 frame)\<rparr>) s) (snd (recv_take i frame rest s))"
  by (simp add: recv_take_def Let_def releaseQueuedLocked_eq releaseQueueBudget_def
      quiet_def mod_chan_def chan_def)

lemma heap_worker_take:
  "s_heap s i = Some c \<Longrightarrow> ch_events c = ev # rest \<Longrightarrow> quiet (mod_chan i (\<lambda>c. c\<lparr>ch_events := rest,
      ch_queuedFrames := ch_queuedFrames c - min (ch_queuedFrames c) 1,
      ch_queuedBytes := ch_queuedBytes c - min (ch_queuedBytes c) (event_size ev)\<rparr>) s) (snd (worker_take i s))"
  by (simp add: worker_take_def Let_def releaseQueuedLocked_eq releaseQueueBudget_def
      quiet_def mod_chan_def chan_def)

lemma channels_slot: "channels_inv s \<Longrightarrow> channels_inv (mod_chan i (ch_slot_update g) s)"
  by (erule channels_mod) (simp add: channel_ok_defs)

lemma channels_tables:
  "channels_inv s \<Longrightarrow> channels_inv (snd (addPendingChannel i p s))"
  "channels_inv s \<Longrightarrow> channels_inv (snd (activateChannel i s))"
  "channels_inv s \<Longrightarrow> channels_inv (removeChannel i s)"
  by (auto simp: addPendingChannel_def activateChannel_def removeChannel_def Let_def
      split: option.splits if_splits intro!: channels_slot)

lemma channels_new_channel:
  assumes "channels_inv s" and "reserveLocalChannelID s = (Inr i, s1)" and "channel_ok (s_config s) c"
  shows "channels_inv (s1\<lparr>s_heap := (s_heap s1)(i \<mapsto> c)\<rparr>)"
proof -
  have "fresh_ids s" using assms(1) by (simp add: channels_inv_def)
  note new = reserveLocalChannelID_fresh [OF assms(2) this]
  have "fresh_ids (s1\<lparr>s_heap := (s_heap s1)(i \<mapsto> c)\<rparr>)" using new by (auto simp: fresh_ids_def)
  then show ?thesis
    using assms(1,3) new(2) by (auto simp: channels_inv_def)
qed

lemma channels_requests:
  "channels_inv s \<Longrightarrow> channels_inv (failPendingRequestsLocked i e s)"
  "channels_inv s \<Longrightarrow> channels_inv (removePendingRequest i rid s)"
proof -
  have rel: "channels_inv (releasePendingChannelRequest s) = channels_inv s" for s
    by (simp add: releasePendingChannelRequest_def)
  have rels: "channels_inv ((releasePendingChannelRequest ^^ n) s) = channels_inv s" for n s
    by (induction n) (simp_all add: rel)
  show "channels_inv s \<Longrightarrow> channels_inv (failPendingRequestsLocked i e s)"
    by (auto simp: failPendingRequestsLocked_def rels channel_ok_defs intro!: channels_mod)
  show "channels_inv s \<Longrightarrow> channels_inv (removePendingRequest i rid s)"
    by (auto simp: removePendingRequest_def rel channel_ok_defs intro!: channels_mod)
qed

lemma cancelChannel_ok [simp]: "channel_ok cfg (cancelChannel e c) = channel_ok cfg c"
  by (simp add: cancelChannel_def channel_ok_defs)

lemma channels_cancel: "channels_inv s \<Longrightarrow> channels_inv (cancelSession e s)"
  by (auto simp: channels_inv_def cancelSession_def fresh_ids_def)

lemma channels_shutdown:
  assumes "channels_inv s"
  shows "channels_inv (Channel_shutdown i e s)"
proof -
  have "channel_ok (s_config s) (shut_channel x c)" if "channel_ok (s_config s) c" for x c
    using that by (auto simp: channel_ok_defs shut_channel_def signalLocked_def cancelChannel_def)
  then show ?thesis
    using assms
    by (auto simp: channels_inv_def heap_Channel_shutdown fresh_ids_def split: if_splits)
qed

lemma channels_reset: "channels_inv s \<Longrightarrow> channels_inv (closing_reset a b s)"
  by (simp add: channels_inv_def closing_reset_def fresh_ids_def)

lemma channels_unreserve:
  assumes inv: "channels_inv s" and c: "s_heap s i = Some c" and reserve: "reserveQueuedLocked i f b s = (None, s1)"
  shows "channels_inv (releaseQueuedLocked i f b s1)"
proof -
  obtain s0 where s0: "quiet s s0"
    and s1: "s1 = mod_chan i (\<lambda>c. c\<lparr>ch_queuedFrames := ch_queuedFrames c + f, ch_queuedBytes := ch_queuedBytes c + b\<rparr>) s0"
    and sums: "unat (ch_queuedFrames c + f) = unat (ch_queuedFrames c) + unat f"
      "unat (ch_queuedBytes c + b) = unat (ch_queuedBytes c) + unat b"
    by (rule reserveQueued_granted [OF inv c reserve])
  have heap: "s_heap s0 i = Some c" using s0 c by (simp add: quiet_def)
  have "min (ch_queuedFrames c + f) f = f" "min (ch_queuedBytes c + b) b = b"
    using sums by (simp_all add: min_absorb2 word_le_nat_alt)
  then have "s_heap (releaseQueuedLocked i f b s1) = s_heap s0"
    using heap by (auto simp: releaseQueuedLocked_eq releaseQueueBudget_def s1 mod_chan_def chan_def)
  then have "quiet s0 (releaseQueuedLocked i f b s1)"
    by (auto simp: quiet_def releaseQueuedLocked_eq releaseQueueBudget_def s1)
  then show ?thesis using channels_quiet [OF channels_quiet [OF inv s0]] by blast
qed

section \<open>The contract\<close>

lemma new_channel_ok:
  assumes "valid_config cfg"
  shows "channel_ok cfg (zeroChannel\<lparr>ch_typ := ty, ch_cause := e, ch_state := channelOpening,
      ch_openWait := True, ch_handler := h\<rparr>)"
    and "channel_ok cfg (zeroChannel\<lparr>ch_peerID := p, ch_typ := ty, ch_cause := e, ch_state := channelOpening,
      ch_localWindow := InitialWindow cfg, ch_remoteWindow := rw, ch_maxLocalPacket := MaxPacketSize cfg,
      ch_maxRemotePacket := mp, ch_handler := h\<rparr>)"
  using assms by (auto simp: channel_ok_defs zeroChannel_def valid_config_def)

lemma opened_ok:
  assumes "valid_config cfg" and "channel_ok cfg c" and "ch_state c = channelOpening"
  shows "channel_ok cfg (signalLocked (c\<lparr>ch_peerID := p, ch_localWindow := InitialWindow cfg,
      ch_remoteWindow := rw, ch_maxLocalPacket := MaxPacketSize cfg, ch_maxRemotePacket := mp,
      ch_state := channelOpen\<rparr>))"
  using assms by (auto simp: channel_ok_defs signalLocked_def valid_config_def)

lemma accepted_ok:
  "channel_ok cfg c \<Longrightarrow> ch_state c = channelOpening \<Longrightarrow> ch_maxLocalPacket c \<noteq> 0
    \<Longrightarrow> channel_ok cfg (signalLocked (c\<lparr>ch_state := channelOpen\<rparr>))"
  by (auto simp: channel_ok_defs signalLocked_def)

lemma closing_ok:
  "channel_ok cfg c \<Longrightarrow> channel_ok cfg (c\<lparr>ch_state := channelClosing, ch_queuedFrames := 0,
      ch_queuedBytes := 0, ch_frames := []\<rparr>)"
  by (auto simp: channel_ok_defs)

interpretation channels: session_local sz channels_inv for sz
proof (unfold_locales, goal_cases)
  case (1 s s') then show ?case by (rule channels_quiet)
next
  case (3 s i f)
  show ?case using benign_ok 3(2) by (intro channels_mod [OF 3(1)]) blast
next
  case (4 s i st f)
  show ?case using benign_ok state_ok 4(2) by (intro channels_mod [OF 4(1)]) blast
next
  case (5 s i s1 p ty rw mp h)
  have "s_config s1 = s_config s" using 5(2) by (auto simp: reserveLocalChannelID_def split: if_splits)
  then show ?case
    unfolding newIncomingChannel_def using new_channel_ok(2) [OF channels_valid [OF 5(1)]]
    by (intro channels_tables channels_new_channel [OF 5]) simp
next
  case (6 s i s1 ty h)
  show ?case
    unfolding newPendingChannel_def using new_channel_ok(1) [OF channels_valid [OF 6(1)]]
    by (intro channels_tables channels_new_channel [OF 6])
next
  case (7 s i)
  then show ?case by (intro channels_tables channels_mod) (auto intro!: accepted_ok simp: chan_def)
next
  case (8 s i p s1 mp rw)
  define s0 where "s0 = mod_chan i (ch_openWait_update (\<lambda>_. False)) s"
  have s0: "channels_inv s0"
    using 8(1) unfolding s0_def by (rule channels_mod) (simp add: channel_ok_defs)
  have st: "ch_state c = channelOpening" if "s_heap s0 i = Some c" for c
    using that 8(3,4) by (auto simp: s0_def chan_def)
  have s1: "channels_inv s1" "s_heap s1 = s_heap s0" "s_config s1 = s_config s0"
    using 8(6) s0 unfolding s0_def [symmetric] by (auto simp: reservePeerChannelID_def split: if_splits)
  show ?case
    using s1 st by (intro channels_tables channels_mod) (auto intro!: opened_ok)
next
  case 9 then show ?case by (rule channels_tables)
next
  case (11 s e)
  show ?case
    by (rule Session_shutdown_stages [OF 11 channels_quiet channels_reset [OF 11] channels_cancel channels_shutdown])
      simp_all
next
  case (15 s i s1)
  then have "channels_inv s1"
    by (auto simp: reservePendingChannelRequest_def channel_ok_defs split: if_splits intro!: channels_mod)
  then show ?case by (auto simp: channel_ok_defs intro!: channels_mod)
next
  case (16 s i)
  then show ?case
    by (auto simp: discardQueuedLocked_def mod_chan_twice intro!: channels_mod closing_ok)
next
  case (17 s i ev s1)
  then obtain c where c: "s_heap s i = Some c" using live_allocated by blast
  show ?case
    using 17 channels_ok [OF 17(1) c]
    by (intro channels_reserved [OF 17(1) c 17(3)] event_ok) (auto simp: chan_Some [OF c])
next
  case (18 s i ev s1)
  then obtain c where c: "s_heap s i = Some c" using live_allocated by blast
  let ?s = "mod_chan i (\<lambda>c. signalLocked (c\<lparr>ch_state := channelClosed\<rparr>)) s"
  have rank: "state_rank (ch_state c) = 1" using 18(2) by (simp add: chan_Some [OF c])
  have inv: "channels_inv ?s"
    using 18(1) rank c by (intro channels_mod) (auto simp: channel_ok_defs signalLocked_def)
  have c': "s_heap ?s i = Some (signalLocked (c\<lparr>ch_state := channelClosed\<rparr>))" using c by simp
  show ?case
    using channels_ok [OF 18(1) c] rank
    by (intro channels_reserved [OF inv c' 18(3)] close_event_ok) (auto simp: signalLocked_def)
next
  case (19 s i n s1)
  then obtain c where c: "s_heap s i = Some c" by auto
  show ?case by (rule channels_unreserve [OF 19(1) c 19(3)])
next
  case (20 s i frame s1)
  then obtain c where c: "s_heap s i = Some c"
    by (auto simp: chan_def zeroChannel_def split: option.splits)
  have len: "unat (len32 frame) = length frame" using 20(4) by (simp add: len32_def unat_of_nat_u32)
  have rank: "state_rank (ch_state c) = 1" using 20(2) by (auto simp: chan_Some [OF c])
  have "channel_ok (s_config s) (signalLocked (c\<lparr>ch_queuedFrames := qf, ch_queuedBytes := qb,
      ch_localWindow := ch_localWindow c - len32 frame, ch_frames := ch_frames c @ [frame]\<rparr>))"
    if "unat qf = unat (ch_queuedFrames c) + 1" "unat qb = unat (ch_queuedBytes c) + length frame"
      "qf \<le> MaxQueuedFramesPerChannel (limits s)" "qb \<le> MaxQueuedBytesPerChannel (limits s)" for qf qb
    using 20(3-6) that by (intro data_ok channels_ok [OF 20(1) c] rank) (simp_all add: chan_Some [OF c])
  then show ?case
    by (intro channels_reserved [OF 20(1) c 20(7)]) (simp add: len unat_ucast_32_64)
next
  case (21 s i frame rest)
  then obtain c where c: "s_heap s i = Some c"
    by (auto simp: chan_def zeroChannel_def split: option.splits)
  have "ch_frames c = frame # rest" using 21(2) by (simp add: chan_Some [OF c])
  then show ?case
    using 21(1) c by (intro channels_quiet [OF channels_mod heap_recv_take [OF c]] recv_ok) auto
next
  case (22 s i)
  show ?case
  proof (cases "ch_events (chan s i)")
    case Nil
    then show ?thesis using 22 by (simp add: worker_take_def)
  next
    case (Cons ev rest)
    then obtain c where c: "s_heap s i = Some c"
      by (auto simp: chan_def zeroChannel_def split: option.splits)
    have "ch_events c = ev # rest" using Cons by (simp add: chan_Some [OF c])
    then show ?thesis
      using 22 c by (intro channels_quiet [OF channels_mod heap_worker_take [OF c]] worker_ok) auto
  qed
qed (auto simp: channels_cancel channels_requests channels_shutdown)

lemma reachable_channels:
  assumes "reachable sz cfg W" and "valid_config cfg"
  shows "channels_inv (w_sess W)"
proof -
  have "MaxPacketSize cfg \<noteq> 0" using assms(2) by (auto simp: valid_config_def)
  then show ?thesis
    using assms(2) by (intro channels.reachable_I [OF assms(1) _ reachable_admitting])
      (simp_all add: Bind_def channels_inv_def fresh_ids_def)
qed

end
