(* ===== verification/Session_Example.thy ===== *)
theory Session_Example
  imports Session_World "HOL-Library.Code_Target_Nat"
begin

text \<open>
  A concrete run of one endpoint, for the witnesses: the default configuration, a peer that
  opens a channel which the application accepts, two data frames of which the first has been
  received, and a request in each direction.
\<close>

definition zero_limits :: Limits where
  "zero_limits = \<lparr>MaxChannels = 0, MaxPendingOpens = 0, MaxPendingChannelRequests = 0,
     MaxPendingChannelRequestsPerChannel = 0, MaxPendingGlobalRequests = 0,
     MaxQueuedFramesPerChannel = 0, MaxQueuedFramesTotal = 0, MaxQueuedBytesPerChannel = 0,
     MaxQueuedBytesTotal = 0, MaxControlPayload = 0, MaxTypeLength = 0, MaxCodeLength = 0,
     MaxMessageLength = 0\<rparr>"

definition zero_config :: Config where
  "zero_config = \<lparr>InitialWindow = 0, MaxPacketSize = 0, WindowAdjustThreshold = 0,
     DisconnectTimeout = 0, ChannelCloseTimeout = 0, cfg_Limits = zero_limits\<rparr>"

definition example_config :: Config where
  "example_config = Config_withDefaults zero_config"

definition example_size :: proto_size where
  "example_size m = 10"

definition example_opening :: "action list" where
  "example_opening =
    [Work RunActivate,
     Loop (Receive (KindChannelOpen \<lparr>co_channel_type = ''x'', co_sender_channel_id = 7,
       co_initial_window = 1000, co_max_packet_size = 100, co_payload = []\<rparr>)),
     Loop Dispatch,
     Loop (DispatchOpened \<lparr>cd_OK = True, cd_Payload = [], cd_Code = [], cd_Message = [],
       cd_Handler = Some 1\<rparr>),
     Loop WriterSelect, Loop WriterOutbound, Loop (WriterSent None), Loop DispatchSentResult]"

definition example_data :: "action list" where
  "example_data =
    [Work (WorkerStart 0), Work (WorkerOpened 0),
     Loop (Receive (KindChannelData 0 [1, 2, 3])), App (RecvData 0),
     Loop (Receive (KindChannelData 0 [4])),
     App (ChannelRequest 0 ''r'' [] True),
     Loop (Receive (KindChannelRequest \<lparr>cr_recipient_channel_id = 0, cr_request_id = 5,
       cr_request_type = ''q'', cr_want_reply = True, cr_payload = []\<rparr>))]"

definition example_facts :: "World \<Rightarrow> bool" where
  "example_facts W \<longleftrightarrow>
     s_queuedFrames (w_sess W) = 3 \<and> s_queuedBytes (w_sess W) = 21
     \<and> fst (reserveQueueBudget 1 10 (w_sess W)) = None
     \<and> fst (reserveQueuedLocked 0 1 1 (w_sess W)) = None \<and> \<not> s_closing (w_sess W)
     \<and> s_activeChannels (w_sess W) = 1 \<and> s_channels (w_sess W) = [0]
     \<and> s_peerChannelIDs (w_sess W) 7 = Some 0
     \<and> ch_state (chan (w_sess W) 0) = channelOpen
     \<and> ch_frames (chan (w_sess W) 0) = [[4]] \<and> ch_pendingRequests (chan (w_sess W) 0) = [0]"

lemma example_config_valid: "valid_config example_config"
  by code_simp

lemma example_run:
  "map_option example_facts (run example_size (example_opening @ example_data) (initial example_config))
    = Some True"
  by code_simp

lemma example_reached:
  obtains W where "reachable example_size example_config W" and "valid_config example_config"
    and "example_facts W"
proof -
  obtain W where "run example_size (example_opening @ example_data) (initial example_config) = Some W"
    and "example_facts W"
    using example_run by auto
  then show thesis
    using run_reachable reach_initial example_config_valid that by blast
qed

text \<open>The same run cut while the application decides about the channel, and ended by \<open>Close\<close>.\<close>

lemma example_reached_opening:
  obtains W where "reachable example_size example_config W" and "valid_config example_config"
    and "s_channels (w_sess W) = [0]" and "ch_state (chan (w_sess W) 0) = channelOpening"
proof -
  have "map_option (\<lambda>W. s_channels (w_sess W) = [0] \<and> ch_state (chan (w_sess W) 0) = channelOpening)
      (run example_size (take 3 example_opening) (initial example_config)) = Some True"
    by code_simp
  then obtain W where "run example_size (take 3 example_opening) (initial example_config) = Some W"
    and "s_channels (w_sess W) = [0]" "ch_state (chan (w_sess W) 0) = channelOpening"
    by auto
  then show thesis
    using run_reachable reach_initial example_config_valid that by blast
qed

lemma example_reached_closing:
  obtains W where "reachable example_size example_config W" and "valid_config example_config"
    and "s_closing (w_sess W)" and "s_waitErr (w_sess W) = Some Canceled"
    and "w_receiving W" and "s_activated (w_sess W)"
proof -
  have "map_option (\<lambda>W. s_closing (w_sess W) \<and> s_waitErr (w_sess W) = Some Canceled \<and> w_receiving W
        \<and> s_activated (w_sess W))
      (run example_size [Work RunActivate, App CloseSession] (initial example_config)) = Some True"
    by code_simp
  then obtain W where "run example_size [Work RunActivate, App CloseSession] (initial example_config) = Some W"
    and "s_closing (w_sess W)" "s_waitErr (w_sess W) = Some Canceled" "w_receiving W" "s_activated (w_sess W)"
    by auto
  then show thesis
    using run_reachable reach_initial example_config_valid that by blast
qed

end
