(* ===== verification/Session_Properties.thy ===== *)
theory Session_Properties
  imports Session_Tables Session_Evolution Session_Requests Session_Channels Session_Example
begin

text \<open>
  What holds of a session in every state its goroutines and its peer can bring it to.  The
  peer is unconstrained: every envelope the decoder can produce, in every order, is an action.
\<close>

section \<open>Queue budget\<close>

lemma reachable_budget:
  assumes "reachable sz cfg W" and "valid_config cfg"
  shows "budget_inv sz (w_sess W)"
proof -
  have "MaxPacketSize cfg \<noteq> 0" using assms(2) by (auto simp: valid_config_def)
  moreover have "budget_inv sz (Bind cfg)"
    by (simp add: Bind_def charged_def held_frames_def held_bytes_def writes_bytes_def map_sum_def
        fresh_ids_def)
  ultimately show ?thesis
    using budget.reachable_I [OF assms(1)] reachable_admitting by blast
qed



text \<open>
  C19: the queue-full branches are dead.  Once \<open>reserveQueueBudget\<close> has granted one frame in a
  reachable state, the dispatch, control and outbound queues all have room, so the \<open>default\<close>
  arms of \<open>enqueueDispatch\<close> and \<open>enqueueWrite\<close> (the second would shut the session down) are
  never taken.
\<close>

theorem granted_frame_has_room:
  assumes "reachable sz cfg W" and "valid_config cfg"
    and "reserveQueueBudget 1 n (w_sess W) = (None, s1)"
  shows "length (s_dispatchQueue s1) < queueCapacity s1
    \<and> length (s_controlQueue s1) < queueCapacity s1
    \<and> length (s_outboundQueue s1) < queueCapacity s1"
proof -
  have "charged sz 1 (unat n) s1"
    using charged_reserve [OF reachable_budget [OF assms(1,2)] assms(3)] by simp
  then show ?thesis
    by (auto simp: charged_def queueCapacity_def word_le_nat_alt held_frames_def)
qed

theorem granted_frame_has_room_witness:
  "\<exists>W s1. reachable example_size example_config W
     \<and> reserveQueueBudget 1 10 (w_sess W) = (None, s1)
     \<and> length (s_controlQueue s1) < queueCapacity s1"
proof -
  obtain W where W: "reachable example_size example_config W" "valid_config example_config"
    "example_facts W"
    by (rule example_reached)
  then have "fst (reserveQueueBudget 1 10 (w_sess W)) = None"
    by (simp add: example_facts_def)
  then obtain s1 where "reserveQueueBudget 1 10 (w_sess W) = (None, s1)"
    by (metis prod.collapse)
  with granted_frame_has_room [OF W(1,2) this] W(1) show ?thesis by blast
qed

section \<open>Channel tables\<close>



text \<open>
  routing by peer id is unambiguous.  In every reachable state the peer table is injective
  and names only registered channels, whose \<open>peerID\<close> is the key: an envelope addressed by one
  peer id can only concern the one channel the peer opened under it.
\<close>

theorem peer_table_injective:
  assumes "reachable sz cfg W" and "valid_config cfg"
    and "lookupChannelByPeer p (w_sess W) = Some i"
  shows "ch_peerID (chan (w_sess W) i) = p \<and> i \<in> set (s_channels (w_sess W))
    \<and> inj_on (s_peerChannelIDs (w_sess W)) (dom (s_peerChannelIDs (w_sess W)))"
proof -
  have inv: "tables_inv {} (w_sess W)" using reachable_tables [OF assms(1,2)] .
  then have key: "s_peerChannelIDs (w_sess W) q = Some j \<Longrightarrow> ch_peerID (chan (w_sess W) j) = q" for q j
    by (simp add: tables_inv_def)
  have "inj_on (s_peerChannelIDs (w_sess W)) (dom (s_peerChannelIDs (w_sess W)))"
    by (rule inj_onI) (metis domD key)
  with inv assms(3) show ?thesis
    by (auto simp: tables_inv_def lookupChannelByPeer_def lookupChannel_def
        split: option.splits if_splits)
qed

theorem peer_table_injective_witness:
  "\<exists>W. reachable example_size example_config W \<and> lookupChannelByPeer 7 (w_sess W) = Some 0
     \<and> ch_peerID (chan (w_sess W) 0) = 7"
proof -
  obtain W where W: "reachable example_size example_config W" "valid_config example_config"
    "example_facts W"
    by (rule example_reached)
  then have "lookupChannelByPeer 7 (w_sess W) = Some 0"
    by (simp add: example_facts_def lookupChannelByPeer_def lookupChannel_def)
  with W peer_table_injective [OF W(1,2) this] show ?thesis by blast
qed

text \<open>
  Admission cannot corrupt the accounting.  In every reachable state a registered channel
  that is still opening is in the pending slot and counted, so \<open>activateChannel\<close> succeeds on it:
  its two error returns are unreachable from \<open>handleChannelOpen\<close> and
  \<open>handleChannelOpenResult\<close>.
\<close>

theorem activation_succeeds:
  assumes "reachable sz cfg W" and "valid_config cfg"
    and "i \<in> set (s_channels (w_sess W))" and "ch_state (chan (w_sess W) i) = channelOpening"
  shows "fst (activateChannel i (w_sess W)) = None"
proof -
  have inv: "tables_inv {} (w_sess W)" using reachable_tables [OF assms(1,2)] .
  then have slot: "ch_slot (chan (w_sess W) i) = channelSlotPending"
    using assms(3,4) by (simp add: tables_inv_def)
  with assms(3) have "slot_count channelSlotPending (w_sess W) \<noteq> 0"
    by (auto simp: slot_count_def filter_empty_conv)
  with inv slot show ?thesis
    by (auto simp: tables_inv_def activateChannel_def)
qed

theorem activation_succeeds_witness:
  "\<exists>W. reachable example_size example_config W \<and> ch_state (chan (w_sess W) 0) = channelOpening
     \<and> fst (activateChannel 0 (w_sess W)) = None"
proof -
  obtain W where W: "reachable example_size example_config W" "valid_config example_config"
    "s_channels (w_sess W) = [0]" "ch_state (chan (w_sess W) 0) = channelOpening"
    by (rule example_reached_opening)
  with activation_succeeds [OF W(1,2), of 0] show ?thesis by auto
qed

section \<open>What never goes back\<close>



text \<open>
  C6: the first terminal event wins.  Once a session is closing, no later event, whatever its
  order, reopens it or changes the error \<open>Wait\<close> reports or the cause its callers see, and the
  write queues, once closed, stay closed.
\<close>

theorem first_terminal_event_wins:
  assumes "reachable sz cfg W" and "valid_config cfg" and "run sz acts W = Some W'"
    and "s_closing (w_sess W)"
  shows "s_closing (w_sess W') \<and> s_waitErr (w_sess W') = s_waitErr (w_sess W)
    \<and> s_closeErr (w_sess W') = s_closeErr (w_sess W) \<and> closeCause (w_sess W') = closeCause (w_sess W)
    \<and> (s_queuesClosed (w_sess W) \<longrightarrow> s_queuesClosed (w_sess W'))"
proof -
  have pkt: "MaxPacketSize cfg \<noteq> 0" using assms(2) by (auto simp: valid_config_def)
  have "evolves (w_sess W) (w_sess W)"
    using evolves_refl evolves_fresh [OF reachable_evolves_initial [OF assms(1) pkt]] .
  then have "evolves (w_sess W) (w_sess W')"
    using run_evolves [OF assms(3,1) pkt] by blast
  moreover have "s_closeErr (w_sess W) \<noteq> None"
    using reachable_requests [OF assms(1,2)] assms(4) by (auto simp: requests_inv_def)
  ultimately show ?thesis
    using assms(4) by (auto simp: evolves_def closeCause_def split: option.splits)
qed

theorem first_terminal_event_wins_witness:
  "\<exists>W W'. reachable example_size example_config W \<and> s_waitErr (w_sess W) = Some Canceled
     \<and> run example_size [Loop (ReceiveError IoEOF)] W = Some W'
     \<and> s_waitErr (w_sess W') = Some Canceled"
proof -
  obtain W where W: "reachable example_size example_config W" "valid_config example_config"
    "s_closing (w_sess W)" "s_waitErr (w_sess W) = Some Canceled"
    "w_receiving W" "s_activated (w_sess W)"
    by (rule example_reached_closing)
  then obtain W' where "run example_size [Loop (ReceiveError IoEOF)] W = Some W'" by simp
  with W first_terminal_event_wins [OF W(1,2) this W(3)] show ?thesis by auto
qed

section \<open>One channel\<close>

text \<open>
  C3: flow control conserves the window.  In every reachable state, for every channel in one of
  the four open states, the bytes the peer may still send plus the bytes queued for \<open>Recv\<close> are
  exactly \<open>InitialWindow\<close>; every queued frame is non-empty and within \<open>MaxPacketSize\<close>; and the
  credit not yet returned to the peer is below the adjustment threshold.  In particular the
  32-bit window arithmetic never wraps.
\<close>

theorem window_conserved:
  assumes "reachable sz cfg W" and "valid_config cfg"
    and "s_heap (w_sess W) i = Some c" and "allowsRequests (ch_state c)"
  shows "unat (ch_localWindow c) + frames_bytes (ch_frames c) = unat (InitialWindow cfg)
    \<and> list_all (\<lambda>f. f \<noteq> [] \<and> length f \<le> unat (MaxPacketSize cfg)) (ch_frames c)
    \<and> ch_maxLocalPacket c = MaxPacketSize cfg
    \<and> ch_pendingWindowBytes c < WindowAdjustThreshold cfg"
proof -
  have "s_config (w_sess W) = cfg"
    using reachable_config [OF assms(1)] assms(2) by (auto simp: valid_config_def)
  then have "channel_ok cfg c"
    using channels_ok [OF reachable_channels [OF assms(1,2)] assms(3)] by simp
  moreover have "state_rank (ch_state c) = 1" using assms(4) by auto
  ultimately show ?thesis
    by (auto simp: channel_ok_def window_ok_def list_all_iff)
qed

theorem window_conserved_witness:
  "\<exists>W c. reachable example_size example_config W \<and> s_heap (w_sess W) 0 = Some c
     \<and> ch_frames c = [[4]] \<and> unat (ch_localWindow c) + 1 = unat (InitialWindow example_config)"
proof -
  obtain W where W: "reachable example_size example_config W" "valid_config example_config"
    "example_facts W"
    by (rule example_reached)
  then obtain c where c: "s_heap (w_sess W) 0 = Some c" "ch_state c = channelOpen" "ch_frames c = [[4]]"
    by (auto simp: example_facts_def chan_def zeroChannel_def split: option.splits)
  with W(1) window_conserved [OF W(1,2) c(1)] show ?thesis by auto
qed

text \<open>
  per-channel accounting is exact and bounded.  In every reachable state the two queue
  counters of an open channel are the number and the total size of its queued frames and
  events, and they respect the per-channel limits.
\<close>

theorem channel_queue_exact:
  assumes "reachable sz cfg W" and "valid_config cfg"
    and "s_heap (w_sess W) i = Some c" and "allowsRequests (ch_state c)"
  shows "unat (ch_queuedFrames c) = length (ch_frames c) + length (ch_events c)
    \<and> unat (ch_queuedBytes c) = frames_bytes (ch_frames c) + events_bytes (ch_events c)
    \<and> ch_queuedFrames c \<le> MaxQueuedFramesPerChannel (cfg_Limits cfg)
    \<and> ch_queuedBytes c \<le> MaxQueuedBytesPerChannel (cfg_Limits cfg)"
proof -
  have "s_config (w_sess W) = cfg"
    using reachable_config [OF assms(1)] assms(2) by (auto simp: valid_config_def)
  then have "channel_ok cfg c"
    using channels_ok [OF reachable_channels [OF assms(1,2)] assms(3)] by simp
  moreover have "state_rank (ch_state c) = 1" using assms(4) by auto
  ultimately show ?thesis
    by (auto simp: channel_ok_def queue_exact_def flushed_def channel_bounded_def)
qed

theorem channel_queue_exact_witness:
  "\<exists>W c. reachable example_size example_config W \<and> s_heap (w_sess W) 0 = Some c
     \<and> ch_frames c = [[4]] \<and> unat (ch_queuedFrames c) = 1 + length (ch_events c)"
proof -
  obtain W where W: "reachable example_size example_config W" "valid_config example_config"
    "example_facts W"
    by (rule example_reached)
  then obtain c where c: "s_heap (w_sess W) 0 = Some c" "ch_state c = channelOpen" "ch_frames c = [[4]]"
    by (auto simp: example_facts_def chan_def zeroChannel_def split: option.splits)
  with W(1) channel_queue_exact [OF W(1,2) c(1)] show ?thesis by auto
qed

text \<open>
  A granted event always fits.  When \<open>reserveQueuedLocked\<close> grants one frame on an open
  channel of a reachable session, its event queue has room: the \<open>default\<close> arms of
  \<open>enqueueChannelRequest\<close>, \<open>enqueueChannelEOF\<close> and \<open>enqueueChannelClose\<close> are dead, so an EOF or
  a close the accounting admits is never dropped.
\<close>

theorem granted_event_has_room:
  assumes "reachable sz cfg W" and "valid_config cfg"
    and "s_heap (w_sess W) i = Some c" and "allowsRequests (ch_state c)"
    and "reserveQueuedLocked i 1 n (w_sess W) = (None, s1)"
  shows "length (ch_events (chan s1 i)) < eventCapacity s1"
proof -
  have inv: "channels_inv (w_sess W)" using reachable_channels [OF assms(1,2)] .
  obtain s0 where "quiet (w_sess W) s0"
    and "s1 = mod_chan i (\<lambda>c. c\<lparr>ch_queuedFrames := ch_queuedFrames c + 1, ch_queuedBytes := ch_queuedBytes c + n\<rparr>) s0"
    and "unat (ch_queuedFrames c + 1) = unat (ch_queuedFrames c) + unat (1 :: u32)"
    and "ch_queuedFrames c + 1 \<le> MaxQueuedFramesPerChannel (limits (w_sess W))"
    by (rule reserveQueued_granted [OF inv assms(3,5)])
  moreover have "queue_exact c"
    using channels_ok [OF inv assms(3)] assms(4) by (auto simp: channel_ok_def flushed_def)
  ultimately show ?thesis
    using assms(3) by (auto simp: eventCapacity_def quiet_def chan_def queue_exact_def word_le_nat_alt)
qed

theorem granted_event_has_room_witness:
  "\<exists>W s1. reachable example_size example_config W \<and> reserveQueuedLocked 0 1 1 (w_sess W) = (None, s1)
     \<and> length (ch_events (chan s1 0)) < eventCapacity s1"
proof -
  obtain W where W: "reachable example_size example_config W" "valid_config example_config"
    "example_facts W"
    by (rule example_reached)
  then obtain c where c: "s_heap (w_sess W) 0 = Some c" "ch_state c = channelOpen"
    by (auto simp: example_facts_def chan_def zeroChannel_def split: option.splits)
  have "fst (reserveQueuedLocked 0 1 1 (w_sess W)) = None" using W(3) by (simp add: example_facts_def)
  then obtain s1 where "reserveQueuedLocked 0 1 1 (w_sess W) = (None, s1)" by (metis prod.collapse)
  with W(1) c(2) granted_event_has_room [OF W(1,2) c(1) _ this] show ?thesis by auto
qed



end
