(* ===== verification/Go_Strings.thy ===== *)
theory Go_Strings
  imports Prelude "HOL-Library.Sublist" "HOL-Library.Char_ord" "HOL-Library.List_Lexorder"
begin

text \<open>
  The parts of Go's \<open>strings\<close>, \<open>bytes\<close>, \<open>path/filepath\<close> and \<open>strconv\<close> that the sources use.
  A Go string is a sequence of bytes; here it is a \<open>string\<close>, whose characters are bytes.
\<close>

section \<open>Errors\<close>

text \<open>
  Errors of the packages outside \<open>lib/session\<close>: \<open>eris.New\<close> and \<open>eris.Errorf\<close> by their format
  string, \<open>eris.Wrap\<close>, \<open>errors.Join\<close>, the sentinels the sources test for, and errors that come
  from outside the repository.
\<close>

datatype goerr =
    EErr string
  | EWrap string goerr
  | EJoin goerr goerr
  | ENotExist
  | EIoEOF
  | ECanceled
  | EDeadline
  | EExternal nat

fun goerr_Is :: "goerr \<Rightarrow> goerr \<Rightarrow> bool" where
  "goerr_Is (EWrap m e) target = (EWrap m e = target \<or> goerr_Is e target)"
| "goerr_Is (EJoin a b) target = (EJoin a b = target \<or> goerr_Is a target \<or> goerr_Is b target)"
| "goerr_Is e target = (e = target)"

section \<open>Strings\<close>

definition bytes_of :: "string \<Rightarrow> bytes" where
  "bytes_of s = map (\<lambda>c. of_nat (of_char c)) s"

definition string_of :: "bytes \<Rightarrow> string" where
  "string_of b = map (\<lambda>x. char_of (unat x)) b"

lemma string_of_bytes_of [simp]: "string_of (bytes_of s) = s"
proof -
  have "char_of (unat (of_nat (of_char c) :: u8)) = c" for c :: char
    by (simp add: unat_of_nat take_bit_eq_mod)
  then show ?thesis by (simp add: string_of_def bytes_of_def comp_def)
qed

lemma length_bytes_of [simp]: "length (bytes_of s) = length s"
  by (simp add: bytes_of_def)

definition HasPrefix :: "'a list \<Rightarrow> 'a list \<Rightarrow> bool" where
  "HasPrefix s p = prefix p s"

definition TrimPrefix :: "string \<Rightarrow> string \<Rightarrow> string" where
  "TrimPrefix s p = (if prefix p s then drop (length p) s else s)"

text \<open>\<open>strings.ContainsAny\<close> and \<open>strings.ContainsRune\<close> for ASCII characters.\<close>

definition ContainsAny :: "string \<Rightarrow> string \<Rightarrow> bool" where
  "ContainsAny s cs = list_ex (\<lambda>c. c \<in> set cs) s"

definition NUL :: char where
  "NUL = CHR 0x00"

definition ContainsNUL :: "string \<Rightarrow> bool" where
  "ContainsNUL s = (NUL \<in> set s)"

text \<open>\<open>strings.Cut\<close> at a one-byte separator: before, after, and whether it was found.\<close>

fun Cut :: "char \<Rightarrow> string \<Rightarrow> string \<times> string \<times> bool" where
  "Cut sep [] = ([], [], False)"
| "Cut sep (c # s) =
    (if c = sep then ([], s, True)
     else (let (a, b, found) = Cut sep s in (c # a, b, found)))"

text \<open>\<open>strings.Split\<close> at a one-byte separator, and \<open>strings.Join\<close>.\<close>

fun Split :: "char \<Rightarrow> string \<Rightarrow> string list" where
  "Split sep [] = [[]]"
| "Split sep (c # s) =
    (if c = sep then [] # Split sep s
     else (case Split sep s of [] \<Rightarrow> [[c]] | w # ws \<Rightarrow> (c # w) # ws))"

fun Join :: "string \<Rightarrow> string list \<Rightarrow> string" where
  "Join sep [] = []"
| "Join sep [w] = w"
| "Join sep (w # ws) = w @ sep @ Join sep ws"

section \<open>\<open>TrimSpace\<close>\<close>

text \<open>
  The UTF-8 encodings of the code points of \<open>unicode.IsSpace\<close>.  No encoding is a proper prefix
  or suffix of another, and a byte that is no part of one of them ends the trimming.
\<close>

definition space_runes :: "string list" where
  "space_runes =
    [[CHR 0x09], [CHR 0x0A], [CHR 0x0B], [CHR 0x0C], [CHR 0x0D], [CHR 0x20],
     [CHR 0xC2, CHR 0x85], [CHR 0xC2, CHR 0xA0], [CHR 0xE1, CHR 0x9A, CHR 0x80],
     [CHR 0xE2, CHR 0x80, CHR 0x80], [CHR 0xE2, CHR 0x80, CHR 0x81], [CHR 0xE2, CHR 0x80, CHR 0x82],
     [CHR 0xE2, CHR 0x80, CHR 0x83], [CHR 0xE2, CHR 0x80, CHR 0x84], [CHR 0xE2, CHR 0x80, CHR 0x85],
     [CHR 0xE2, CHR 0x80, CHR 0x86], [CHR 0xE2, CHR 0x80, CHR 0x87], [CHR 0xE2, CHR 0x80, CHR 0x88],
     [CHR 0xE2, CHR 0x80, CHR 0x89], [CHR 0xE2, CHR 0x80, CHR 0x8A], [CHR 0xE2, CHR 0x80, CHR 0xA8],
     [CHR 0xE2, CHR 0x80, CHR 0xA9], [CHR 0xE2, CHR 0x80, CHR 0xAF], [CHR 0xE2, CHR 0x81, CHR 0x9F],
     [CHR 0xE3, CHR 0x80, CHR 0x80]]"

definition front_match :: "'a list list \<Rightarrow> 'a list \<Rightarrow> 'a list option" where
  "front_match ps s = find (\<lambda>p. p \<noteq> [] \<and> prefix p s) ps"

lemma front_match_Some: "front_match ps s = Some p \<Longrightarrow> p \<in> set ps \<and> p \<noteq> [] \<and> prefix p s"
  by (auto simp: front_match_def find_Some_iff)

lemma front_match_None: "front_match ps s = None \<longleftrightarrow> (\<forall>p \<in> set ps. p \<noteq> [] \<longrightarrow> \<not> prefix p s)"
  by (auto simp: front_match_def find_None_iff)

function strip_front :: "'a list list \<Rightarrow> 'a list \<Rightarrow> 'a list" where
  "strip_front ps s =
    (case front_match ps s of None \<Rightarrow> s | Some p \<Rightarrow> strip_front ps (drop (length p) s))"
  by pat_completeness auto
termination
proof (relation "measure (\<lambda>(ps, s). length s)", goal_cases)
  case (2 ps s p)
  then have "p \<noteq> []" "prefix p s" using front_match_Some by blast+
  then show ?case by (auto simp: prefix_def)
qed simp

declare strip_front.simps [simp del]

definition trim :: "'a list list \<Rightarrow> 'a list \<Rightarrow> 'a list" where
  "trim ps s = rev (strip_front (map rev ps) (rev (strip_front ps s)))"

definition TrimSpace :: "string \<Rightarrow> string" where
  "TrimSpace = trim space_runes"

definition bytes_TrimSpace :: "bytes \<Rightarrow> bytes" where
  "bytes_TrimSpace = trim (map bytes_of space_runes)"

lemma strip_front_no_match: "front_match ps (strip_front ps s) = None"
proof (induction ps s rule: strip_front.induct)
  case (1 ps s)
  then show ?case by (cases "front_match ps s") (simp_all add: strip_front.simps [of ps s])
qed

lemma strip_front_id: "front_match ps s = None \<Longrightarrow> strip_front ps s = s"
  by (simp add: strip_front.simps)

lemma strip_front_suffix: "suffix (strip_front ps s) s"
proof (induction ps s rule: strip_front.induct)
  case (1 ps s)
  then show ?case
    by (cases "front_match ps s")
      (auto simp: strip_front.simps [of ps s] intro: suffix_order.trans suffix_drop)
qed

lemma front_match_prefix: "front_match ps s = None \<Longrightarrow> prefix t s \<Longrightarrow> front_match ps t = None"
  by (auto simp: front_match_None dest: prefix_order.trans)

text \<open>A trimmed string is trimmed: no space rune is left at either end.\<close>

lemma trim_ends:
  "front_match ps (trim ps s) = None" "front_match (map rev ps) (rev (trim ps s)) = None"
proof -
  let ?u = "strip_front ps s"
  have "suffix (strip_front (map rev ps) (rev ?u)) (rev ?u)" by (rule strip_front_suffix)
  then have "prefix (trim ps s) ?u" by (simp add: trim_def suffix_to_prefix)
  then show "front_match ps (trim ps s) = None"
    using front_match_prefix [OF strip_front_no_match] by blast
  show "front_match (map rev ps) (rev (trim ps s)) = None"
    by (simp add: trim_def strip_front_no_match)
qed

lemma trim_idem [simp]: "trim ps (trim ps s) = trim ps s"
  using trim_ends [of ps s] by (simp add: trim_def [of ps "trim ps s"] strip_front_id)

lemma TrimSpace_idem [simp]: "TrimSpace (TrimSpace s) = TrimSpace s"
  by (simp add: TrimSpace_def)

lemma set_trim: "set (trim ps s) \<subseteq> set s"
proof -
  have "set (strip_front ps t) \<subseteq> set t" for ps :: "'a list list" and t
    by (rule set_mono_suffix [OF strip_front_suffix])
  then show ?thesis by (metis set_rev subset_trans trim_def)
qed

lemma length_trim: "length (trim ps s) \<le> length s"
proof -
  have "length (strip_front ps t) \<le> length t" for ps :: "'a list list" and t
    by (rule suffix_length_le [OF strip_front_suffix])
  then show ?thesis by (metis length_rev order_trans trim_def)
qed

lemma TrimSpace_NUL: "\<not> ContainsNUL s \<Longrightarrow> \<not> ContainsNUL (TrimSpace s)"
  using set_trim [of space_runes s] by (auto simp: ContainsNUL_def TrimSpace_def)

lemma TrimSpace_length: "length (TrimSpace s) \<le> length s"
  by (simp add: TrimSpace_def length_trim)

section \<open>Paths\<close>

definition slash :: char where
  "slash = CHR ''/''"

definition IsAbs :: "string \<Rightarrow> bool" where
  "IsAbs path = prefix [slash] path"

text \<open>
  \<open>filepath.Clean\<close>: the lexical normal form, on the elements between slashes.  \<open>stack\<close> holds the
  elements kept so far, last first.
\<close>

fun clean_parts :: "bool \<Rightarrow> string list \<Rightarrow> string list \<Rightarrow> string list" where
  "clean_parts rooted stack [] = rev stack"
| "clean_parts rooted stack (w # ws) =
    (if w = [] \<or> w = ''.'' then clean_parts rooted stack ws
     else if w = ''..'' then
       (case stack of
          [] \<Rightarrow> clean_parts rooted (if rooted then [] else [w]) ws
        | u # rest \<Rightarrow>
            (if u = ''..'' then clean_parts rooted (w # stack) ws else clean_parts rooted rest ws))
     else clean_parts rooted (w # stack) ws)"

definition Clean :: "string \<Rightarrow> string" where
  "Clean path =
    (let body = Join ''/'' (clean_parts (IsAbs path) [] (Split slash path))
     in if IsAbs path then slash # body else if body = [] then ''.'' else body)"

text \<open>\<open>filepath.Join\<close> of two elements: empty ones at the front are skipped.\<close>

definition filepath_Join :: "string \<Rightarrow> string \<Rightarrow> string" where
  "filepath_Join a b =
    (if a \<noteq> [] then Clean (a @ [slash] @ b) else if b \<noteq> [] then Clean b else [])"

definition filepath_Dir :: "string \<Rightarrow> string" where
  "filepath_Dir path = Clean (rev (dropWhile (\<lambda>c. c \<noteq> slash) (rev path)))"

definition filepath_Base :: "string \<Rightarrow> string" where
  "filepath_Base path =
    (if path = [] then ''.''
     else let stripped = dropWhile (\<lambda>c. c = slash) (rev path)
          in if stripped = [] then [slash] else rev (takeWhile (\<lambda>c. c \<noteq> slash) stripped))"

text \<open>The elements of a clean path: none is empty, \<open>.\<close>, and \<open>..\<close> only leads a relative path.\<close>

fun leading_dots :: "string list \<Rightarrow> bool" where
  "leading_dots [] = True"
| "leading_dots (w # ws) = (if w = ''..'' then leading_dots ws else ''..'' \<notin> set ws)"

definition clean_elements :: "bool \<Rightarrow> string list \<Rightarrow> bool" where
  "clean_elements rooted ws \<longleftrightarrow> list_all (\<lambda>w. w \<noteq> [] \<and> w \<noteq> ''.'' \<and> slash \<notin> set w) ws
     \<and> (if rooted then ''..'' \<notin> set ws else leading_dots ws)"

lemma Split_no_slash: "list_all (\<lambda>w. sep \<notin> set w) (Split sep s)"
  by (induction sep s rule: Split.induct) (auto split: list.splits)

lemma leading_dots_snoc:
  "leading_dots (ws @ [w]) \<longleftrightarrow> leading_dots ws \<and> (w = ''..'' \<longrightarrow> list_all (\<lambda>v. v = ''..'') ws)"
  by (induction ws) (auto simp: list_all_iff)

lemma clean_elements_snoc:
  "clean_elements rooted (ws @ [w]) \<longleftrightarrow> clean_elements rooted ws \<and> w \<noteq> [] \<and> w \<noteq> ''.'' \<and> slash \<notin> set w
     \<and> (w = ''..'' \<longrightarrow> \<not> rooted \<and> list_all (\<lambda>v. v = ''..'') ws)"
  by (auto simp: clean_elements_def leading_dots_snoc)

lemma leading_dots_last:
  "leading_dots (ws @ [''..'']) \<Longrightarrow> list_all (\<lambda>v. v = ''..'') ws"
  by (simp add: leading_dots_snoc)

lemma clean_parts_clean:
  "clean_elements rooted (rev stack) \<Longrightarrow> list_all (\<lambda>w. slash \<notin> set w) ws
    \<Longrightarrow> clean_elements rooted (clean_parts rooted stack ws)"
proof (induction rooted stack ws rule: clean_parts.induct)
  case (2 rooted stack w ws)
  show ?case
  proof (cases "w = ''..''")
    case False
    then show ?thesis using 2 by (auto simp: clean_elements_snoc)
  next
    case dots: True
    show ?thesis
    proof (cases stack)
      case Nil
      then show ?thesis
        using 2 dots by (auto simp: clean_elements_def slash_def)
    next
      case (Cons u rest)
      show ?thesis
      proof (cases "u = ''..''")
        case True
        then have "\<not> rooted \<and> list_all (\<lambda>v. v = ''..'') (rev rest)"
          using 2(6) Cons by (simp add: clean_elements_snoc)
        then have "clean_elements rooted (rev (w # stack))"
          using 2(6) dots Cons True by (simp only: rev.simps clean_elements_snoc) (simp add: slash_def)
        then show ?thesis
          using 2 dots Cons True by simp
      next
        case False
        then show ?thesis
          using 2 dots Cons by (simp add: clean_elements_snoc)
      qed
    qed
  qed
qed simp

lemma Clean_elements:
  "clean_elements (IsAbs path) (clean_parts (IsAbs path) [] (Split slash path))"
proof (rule clean_parts_clean)
  show "clean_elements (IsAbs path) (rev [])" by (simp add: clean_elements_def)
  show "list_all (\<lambda>w. slash \<notin> set w) (Split slash path)" by (rule Split_no_slash)
qed

section \<open>Decimal numbers\<close>

definition digit_char :: "nat \<Rightarrow> char" where
  "digit_char d = char_of (48 + d)"

fun FormatUint :: "nat \<Rightarrow> string" where
  "FormatUint n =
    (if n < 10 then [digit_char n] else FormatUint (n div 10) @ [digit_char (n mod 10)])"

declare FormatUint.simps [simp del]

definition is_digit :: "char \<Rightarrow> bool" where
  "is_digit c = (48 \<le> (of_char c :: nat) \<and> (of_char c :: nat) \<le> 57)"

fun decimal_value :: "nat \<Rightarrow> string \<Rightarrow> nat" where
  "decimal_value acc [] = acc"
| "decimal_value acc (c # s) = decimal_value (10 * acc + (of_char c - 48)) s"

datatype num_error = ErrSyntax | ErrRange

text \<open>\<open>strconv.ParseUint(s, 10, 32)\<close> with the value it returns besides an error.\<close>

definition ParseUint32 :: "string \<Rightarrow> u32 \<times> num_error option" where
  "ParseUint32 s =
    (if s = [] \<or> \<not> list_all is_digit s then (0, Some ErrSyntax)
     else if decimal_value 0 s > MaxUint32 then (- 1, Some ErrRange)
     else (of_nat (decimal_value 0 s), None))"

lemma digit_char_value: "d < 10 \<Longrightarrow> (of_char (digit_char d) :: nat) = 48 + d"
  by (simp add: digit_char_def)

lemma decimal_value_append: "decimal_value acc (s @ t) = decimal_value (decimal_value acc s) t"
  by (induction acc s rule: decimal_value.induct) simp_all

lemma mod_10_le: "n mod 10 \<le> (9 :: nat)"
  by presburger

lemma FormatUint_digits: "list_all is_digit (FormatUint n) \<and> FormatUint n \<noteq> []"
proof (induction n rule: FormatUint.induct)
  case (1 n)
  then show ?case
    by (simp add: FormatUint.simps [of n] is_digit_def [of "digit_char _"] digit_char_value mod_10_le)
qed

lemma FormatUint_value: "decimal_value 0 (FormatUint n) = n"
proof (induction n rule: FormatUint.induct)
  case (1 n)
  then show ?case
    by (simp add: FormatUint.simps [of n] decimal_value_append digit_char_value)
qed

lemma ParseUint32_FormatUint: "ParseUint32 (FormatUint (unat n)) = (n, None)"
proof -
  have "\<not> decimal_value 0 (FormatUint (unat n)) > MaxUint32"
    using unat_u32_less [of n] by (simp only: FormatUint_value)
  then show ?thesis
    unfolding ParseUint32_def using FormatUint_digits [of "unat n"]
    by (simp only: FormatUint_value if_False) simp
qed

end
