(* ===== verification/Keys.thy ===== *)
theory Keys
  imports Go_Strings Bincoder
begin

text \<open>
  \<open>lib/keys\<close>: public keys with their order, keypairs and their validation, and the OpenSSH
  private-key parser on top of the cursor of \<open>lib/bincoder\<close>.  The Ed25519 primitives, the PEM
  decoder and the SSH wire codec belong to other packages and are arguments: \<open>derive\<close> is the
  public key of a seed, \<open>sign\<close> and \<open>verify\<close> the signature scheme, \<open>pem\<close> is \<open>pem.Decode\<close>,
  \<open>ssh_marshal\<close> and \<open>ssh_parse\<close> are \<open>ssh.NewPublicKey(...).Marshal\<close> and \<open>ssh.ParsePublicKey\<close>.
\<close>

section \<open>Keys\<close>

definition AlgorithmEd25519 :: string where
  "AlgorithmEd25519 = ''ed25519''"

record PublicKey =
  pk_Algorithm :: string
  pk_bytes :: bytes
  pk_Comment :: string

record Keypair =
  kp_public :: bytes
  kp_private :: bytes
  kp_Comment :: string

definition validateKeyLength :: "bytes \<Rightarrow> nat \<Rightarrow> string \<Rightarrow> goerr option" where
  "validateKeyLength b want lbl =
    (if length b \<noteq> want then Some (EErr (lbl @ '' key length does not match expected length'')) else None)"

definition validateAlgorithm :: "string \<Rightarrow> goerr option" where
  "validateAlgorithm alg =
    (if alg = AlgorithmEd25519 then None else Some (EErr ''unsupported key algorithm''))"

definition PublicKey_Validate :: "PublicKey \<Rightarrow> goerr option" where
  "PublicKey_Validate k =
    (case validateAlgorithm (pk_Algorithm k) of
       Some e \<Rightarrow> Some e
     | None \<Rightarrow>
         if pk_Algorithm k = AlgorithmEd25519 then validateKeyLength (pk_bytes k) 32 ''public''
         else Some (EErr ''validate public key: unsupported algorithm''))"

fun list_Compare :: "'a::linorder list \<Rightarrow> 'a list \<Rightarrow> int" where
  "list_Compare [] [] = 0"
| "list_Compare [] (y # ys) = - 1"
| "list_Compare (x # xs) [] = 1"
| "list_Compare (x # xs) (y # ys) =
    (if x < y then - 1 else if y < x then 1 else list_Compare xs ys)"

text \<open>\<open>cmp.Or\<close> of two comparisons: the first that is not zero.\<close>

definition PublicKey_Compare :: "PublicKey \<Rightarrow> PublicKey \<Rightarrow> int" where
  "PublicKey_Compare k other =
    (let a = list_Compare (pk_Algorithm k) (pk_Algorithm other)
     in if a \<noteq> 0 then a else list_Compare (pk_bytes k) (pk_bytes other))"

definition PublicKey_Equal :: "PublicKey \<Rightarrow> PublicKey \<Rightarrow> bool" where
  "PublicKey_Equal k other = (PublicKey_Compare k other = 0)"

definition PublicKey_IsZero :: "PublicKey \<Rightarrow> bool" where
  "PublicKey_IsZero k = (pk_bytes k = [] \<or> list_all (\<lambda>b. b = 0) (pk_bytes k))"

definition Keypair_Equal :: "Keypair \<Rightarrow> Keypair \<Rightarrow> bool" where
  "Keypair_Equal k other = (kp_public k = kp_public other \<and> kp_private k = kp_private other)"

definition Keypair_PublicKey :: "Keypair \<Rightarrow> PublicKey" where
  "Keypair_PublicKey k =
    \<lparr>pk_Algorithm = AlgorithmEd25519, pk_bytes = kp_public k, pk_Comment = kp_Comment k\<rparr>"

definition deriveEd25519Public :: "(bytes \<Rightarrow> bytes) \<Rightarrow> bytes \<Rightarrow> (goerr, bytes) result" where
  "deriveEd25519Public derive seed =
    (case validateKeyLength seed 32 ''private'' of
       Some e \<Rightarrow> Inl (EWrap ''derive ed25519 public key'' e)
     | None \<Rightarrow> Inr (derive seed))"

definition Keypair_Validate :: "(bytes \<Rightarrow> bytes) \<Rightarrow> Keypair \<Rightarrow> goerr option" where
  "Keypair_Validate derive k =
    (case validateKeyLength (kp_public k) 32 ''public'' of
       Some e \<Rightarrow> Some e
     | None \<Rightarrow>
    (case validateKeyLength (kp_private k) 32 ''private'' of
       Some e \<Rightarrow> Some e
     | None \<Rightarrow>
    (case deriveEd25519Public derive (kp_private k) of
       Inl e \<Rightarrow> Some e
     | Inr derived \<Rightarrow>
         if derived \<noteq> kp_public k
         then Some (EErr ''ed25519 keypair public key does not match private key'')
         else None)))"

definition GenerateEd25519FromSeed :: "(bytes \<Rightarrow> bytes) \<Rightarrow> bytes \<Rightarrow> (goerr, Keypair) result" where
  "GenerateEd25519FromSeed derive seed =
    (case validateKeyLength seed 32 ''private'' of
       Some e \<Rightarrow> Inl (EWrap ''generate ed25519 key from seed'' e)
     | None \<Rightarrow>
    (case deriveEd25519Public derive seed of
       Inl e \<Rightarrow> Inl (EWrap ''generate ed25519 key from seed'' e)
     | Inr public \<Rightarrow> Inr \<lparr>kp_public = public, kp_private = seed, kp_Comment = []\<rparr>))"

section \<open>Signing\<close>

text \<open>\<open>None\<close> is the panic of \<open>Sign\<close> and \<open>Verify\<close> on an invalid key.\<close>

definition Keypair_Sign ::
    "(bytes \<Rightarrow> bytes) \<Rightarrow> (bytes \<Rightarrow> bytes \<Rightarrow> bytes) \<Rightarrow> Keypair \<Rightarrow> bytes \<Rightarrow> bytes option" where
  "Keypair_Sign derive sign k msg =
    (if Keypair_Validate derive k \<noteq> None then None else Some (sign (kp_private k) msg))"

definition PublicKey_Verify ::
    "(bytes \<Rightarrow> bytes \<Rightarrow> bytes \<Rightarrow> bool) \<Rightarrow> PublicKey \<Rightarrow> bytes \<Rightarrow> bytes \<Rightarrow> bool option" where
  "PublicKey_Verify verify k msg sig =
    (if PublicKey_Validate k \<noteq> None then None else Some (verify (pk_bytes k) msg sig))"

section \<open>SSH public keys\<close>

text \<open>
  An \<open>ssh.PublicKey\<close> as the code sees it: its type name and what \<open>CryptoPublicKey\<close> gives, if it
  exposes a crypto key at all.
\<close>

datatype crypto_key = NoCrypto | CryptoEd25519 bytes | CryptoOther

record ssh_key =
  sk_Type :: string
  sk_crypto :: crypto_key

definition KeyAlgoED25519 :: string where
  "KeyAlgoED25519 = ''ssh-ed25519''"

text \<open>The boolean of the source is \<open>Inr None\<close> for false.\<close>

definition ParseSSHPublicKey :: "ssh_key \<Rightarrow> string \<Rightarrow> (goerr, PublicKey option) result" where
  "ParseSSHPublicKey k comment =
    (if sk_Type k \<noteq> KeyAlgoED25519 then Inr None
     else case sk_crypto k of
       NoCrypto \<Rightarrow> Inl (EErr ''ssh public key does not expose a crypto public key'')
     | CryptoOther \<Rightarrow> Inl (EErr ''ssh public key is not an ed25519 public key'')
     | CryptoEd25519 b \<Rightarrow>
         Inr (Some \<lparr>pk_Algorithm = AlgorithmEd25519, pk_bytes = b, pk_Comment = comment\<rparr>))"

definition MarshalBinary ::
    "(bytes \<Rightarrow> (goerr, bytes) result) \<Rightarrow> PublicKey \<Rightarrow> (goerr, bytes) result" where
  "MarshalBinary ssh_marshal k =
    (case PublicKey_Validate k of
       Some e \<Rightarrow> Inl e
     | None \<Rightarrow>
    (case ssh_marshal (pk_bytes k) of
       Inl e \<Rightarrow> Inl (EWrap ''encode public key'' e)
     | Inr b \<Rightarrow> Inr b))"

definition ParsePublicKey ::
    "(bytes \<Rightarrow> (goerr, ssh_key) result) \<Rightarrow> bytes \<Rightarrow> (goerr, PublicKey) result" where
  "ParsePublicKey ssh_parse b =
    (case ssh_parse b of
       Inl e \<Rightarrow> Inl (EWrap ''decode public key'' e)
     | Inr k \<Rightarrow>
    (case ParseSSHPublicKey k [] of
       Inl e \<Rightarrow> Inl (EWrap ''decode public key'' e)
     | Inr None \<Rightarrow> Inl (EErr ''decode public key: unsupported public key type'')
     | Inr (Some pk) \<Rightarrow> Inr pk))"

section \<open>OpenSSH private keys\<close>

definition opensshKeyV1Magic :: bytes where
  "opensshKeyV1Magic = bytes_of ''openssh-key-v1'' @ [0]"

definition opensshEd25519KeyType :: bytes where
  "opensshEd25519KeyType = bytes_of ''ssh-ed25519''"

definition dec_failed :: "string \<Rightarrow> goerr" where
  "dec_failed msg = EWrap msg (EErr ''bincoder'')"

text \<open>The padding bytes count 1, 2, 3, ... modulo 256.\<close>

definition validOpensshPadding :: "bytes \<Rightarrow> bool" where
  "validOpensshPadding padding = list_all (\<lambda>(i, b). b = of_nat (i + 1)) (enumerate 0 padding)"

definition parseOpensshEd25519PublicBlob :: "bytes \<Rightarrow> (goerr, bytes) result" where
  "parseOpensshEd25519PublicBlob blob =
    (let c0 = WithMaxBytes 1024 (NewCursor blob);
         (keyType, c1) = Decoder_UTF8String c0;
         (public, c2) = Decoder_Bytes c1
     in if Decoder_Done c2 \<noteq> None then Inl (dec_failed ''decode public key blob'')
        else if keyType \<noteq> opensshEd25519KeyType then Inl (EErr ''unsupported public key type'')
        else if length public \<noteq> 32 then Inl (EErr ''public key length does not match expected length'')
        else Inr public)"

definition parseOpensshEd25519PrivateBlob ::
    "(bytes \<Rightarrow> bytes) \<Rightarrow> bytes \<Rightarrow> (goerr, Keypair) result" where
  "parseOpensshEd25519PrivateBlob derive blob =
    (let c0 = WithMaxBytes 16384 (NewCursor blob);
         (check1, c1) = Decoder_U32 c0;
         (check2, c2) = Decoder_U32 c1
     in if dec_err c2 \<noteq> None then Inl (dec_failed ''decode private key block'')
        else if check1 \<noteq> check2 then Inl (EErr ''checkints don't match'')
        else
          let (keyType, c3) = Decoder_UTF8String c2;
              (public, c4) = Decoder_Bytes c3;
              (private, c5) = Decoder_Bytes c4;
              (comment, c6) = Decoder_UTF8String c5
          in if dec_err c6 \<noteq> None then Inl (dec_failed ''decode ed25519 private key'')
             else if keyType \<noteq> opensshEd25519KeyType then Inl (EErr ''unsupported private key type'')
             else if length public \<noteq> 32 then Inl (EErr ''public key length does not match expected length'')
             else if length private \<noteq> 64 then Inl (EErr ''private key length does not match expected length'')
             else if drop 32 private \<noteq> public
             then Inl (EErr ''embedded public key does not match public key field'')
             else if \<not> validOpensshPadding (Decoder_Rest c6)
             then Inl (EErr ''invalid OpenSSH private key padding'')
             else
               let keypair = \<lparr>kp_public = public, kp_private = take 32 private,
                              kp_Comment = string_of comment\<rparr>
               in case Keypair_Validate derive keypair of
                    Some e \<Rightarrow> Inl (EWrap ''decode ed25519 private key'' e)
                  | None \<Rightarrow> Inr keypair)"

definition parseOpensshPrivateKeyV1 :: "(bytes \<Rightarrow> bytes) \<Rightarrow> bytes \<Rightarrow> (goerr, Keypair) result" where
  "parseOpensshPrivateKeyV1 derive key =
    (let c0 = Decoder_ExpectBytes opensshKeyV1Magic (WithMaxBytes 16384 (NewCursor key));
         (ciphername, c1) = Decoder_UTF8String c0;
         (kdfname, c2) = Decoder_UTF8String c1;
         (kdfoptions, c3) = Decoder_Bytes c2;
         (numKeys, c4) = Decoder_U32 c3
     in if dec_err c4 \<noteq> None then Inl (dec_failed ''decode private key header'')
        else if ciphername \<noteq> bytes_of ''none'' \<or> kdfname \<noteq> bytes_of ''none''
        then Inl (EErr ''encrypted keys not supported'')
        else if kdfoptions \<noteq> [] then Inl (EErr ''unexpected kdf options for unencrypted key'')
        else if numKeys \<noteq> 1 then Inl (EErr ''only one key per file is supported'')
        else
          let (publicBlob, c5) = Decoder_Bytes c4;
              (privateBlob, c6) = Decoder_Bytes c5
          in if Decoder_Done c6 \<noteq> None then Inl (dec_failed ''decode private key envelope'')
             else case parseOpensshEd25519PublicBlob publicBlob of
                    Inl e \<Rightarrow> Inl e
                  | Inr public \<Rightarrow>
                 (case parseOpensshEd25519PrivateBlob derive privateBlob of
                    Inl e \<Rightarrow> Inl e
                  | Inr privateKey \<Rightarrow>
                      if public \<noteq> kp_public privateKey
                      then Inl (EErr ''public key mismatch between public and private sections'')
                      else Inr privateKey))"

definition ParseOpensshPrivateKeyRaw ::
    "(bytes \<Rightarrow> bytes) \<Rightarrow> (bytes \<Rightarrow> (string \<times> bytes) option) \<Rightarrow> bytes \<Rightarrow> (goerr, Keypair) result" where
  "ParseOpensshPrivateKeyRaw derive pem raw0 =
    (let raw = bytes_TrimSpace raw0
     in if raw = [] then Inl (EErr ''decode OpenSSH private key: empty input'')
        else if HasPrefix raw opensshKeyV1Magic then parseOpensshPrivateKeyV1 derive raw
        else case pem raw of
          None \<Rightarrow> Inl (EErr ''decode OpenSSH private key: expected PEM block or openssh-key-v1 payload'')
        | Some (typ, contents) \<Rightarrow>
            if typ \<noteq> ''OPENSSH PRIVATE KEY'' then Inl (EErr ''decode OpenSSH private key: unexpected PEM type'')
            else parseOpensshPrivateKeyV1 derive contents)"

section \<open>What a key file is\<close>

text \<open>
  The layout of an unencrypted single-key \<open>openssh-key-v1\<close> payload: the reference encoding the
  parser is compared with.  \<open>check\<close> is the repeated random word and \<open>pad\<close> the trailing padding.
\<close>

definition openssh_public_blob :: "bytes \<Rightarrow> bytes" where
  "openssh_public_blob public =
    concat (map enc_field [FUTF8 opensshEd25519KeyType, FBytes public])"

definition openssh_private_fields :: "u32 \<Rightarrow> Keypair \<Rightarrow> field list" where
  "openssh_private_fields check kp =
    [FU32 check, FU32 check, FUTF8 opensshEd25519KeyType, FBytes (kp_public kp),
     FBytes (kp_private kp @ kp_public kp), FUTF8 (bytes_of (kp_Comment kp))]"

definition openssh_private_blob :: "u32 \<Rightarrow> bytes \<Rightarrow> Keypair \<Rightarrow> bytes" where
  "openssh_private_blob check pad kp =
    concat (map enc_field (openssh_private_fields check kp)) @ pad"

definition openssh_file :: "u32 \<Rightarrow> bytes \<Rightarrow> Keypair \<Rightarrow> bytes" where
  "openssh_file check pad kp = opensshKeyV1Magic @
    concat (map enc_field
      [FUTF8 (bytes_of ''none''), FUTF8 (bytes_of ''none''), FBytes [], FU32 1,
       FBytes (openssh_public_blob (kp_public kp)), FBytes (openssh_private_blob check pad kp)])"

lemma Done_advance:
  assumes "at_input c (bs @ r)"
  shows "Decoder_Done (advance (length bs) c) = None \<longleftrightarrow> r = []"
    and "Decoder_Rest (advance (length bs) c) = r"
  using at_input_advance [OF assms] by (auto simp: Decoder_Done_def Decoder_Rest_def at_input_def)

lemma Done_ok: "Decoder_Done c = None \<Longrightarrow> dec_err c = None"
  by (auto simp: Decoder_Done_def split: if_splits)

lemma Validate_exact:
  "Keypair_Validate derive kp = None \<longleftrightarrow>
    length (kp_public kp) = 32 \<and> length (kp_private kp) = 32 \<and> derive (kp_private kp) = kp_public kp"
  by (auto simp: Keypair_Validate_def validateKeyLength_def deriveEd25519Public_def)

lemma parse_public_blob_exact:
  "parseOpensshEd25519PublicBlob blob = Inr public \<longleftrightarrow>
    blob = openssh_public_blob public \<and> length public = 32"
proof -
  let ?c = "WithMaxBytes 1024 (NewCursor blob)"
  have inp: "at_input ?c blob" by (rule at_input_WithMaxBytes)
  show ?thesis
  proof
    assume *: "parseOpensshEd25519PublicBlob blob = Inr public"
    obtain keyType c1 public' c2 where r: "Decoder_UTF8String ?c = (keyType, c1)"
        "Decoder_Bytes c1 = (public', c2)"
      by (metis surj_pair)
    have d: "Decoder_Done c2 = None" and k: "keyType = opensshEd25519KeyType"
      and p: "public' = public" "length public = 32"
      using * by (auto simp: parseOpensshEd25519PublicBlob_def r split: if_splits)
    have g: "get_fields [SUTF8, SBytes] ?c = ([FUTF8 keyType, FBytes public'], c2)"
      by (simp add: r)
    obtain rest where c2: "c2 = advance (length (openssh_public_blob public)) ?c"
      and b: "blob = openssh_public_blob public @ rest"
      using get_fields_canonical [OF inp g Done_ok [OF d]] k p
      by (auto simp: openssh_public_blob_def)
    have "rest = []" using Done_advance(1) [of ?c "openssh_public_blob public" rest] inp b c2 d by simp
    then show "blob = openssh_public_blob public \<and> length public = 32" using b p by simp
  next
    assume *: "blob = openssh_public_blob public \<and> length public = 32"
    let ?fs = "[FUTF8 opensshEd25519KeyType, FBytes public]"
    have i2: "at_input ?c (concat (map enc_field ?fs) @ [])"
      using inp * by (simp add: openssh_public_blob_def)
    have g: "get_fields [SUTF8, SBytes] ?c = (?fs, advance (length (concat (map enc_field ?fs))) ?c)"
      using get_fields_back [OF i2] *
      by (simp add: readable_UTF8_def readable_Bytes_def opensshEd25519KeyType_def bytes_of_def utf8_cont_def)
    have d: "Decoder_Done (advance (length (concat (map enc_field ?fs))) ?c) = None"
      using Done_advance(1) [OF i2] by simp
    from g d * show "parseOpensshEd25519PublicBlob blob = Inr public"
      by (auto simp: parseOpensshEd25519PublicBlob_def split: prod.splits)
  qed
qed

lemma bytes_of_string_of [simp]: "bytes_of (string_of b) = b"
proof -
  have "(of_nat (of_char (char_of (unat x) :: char)) :: u8) = x" for x :: u8
    using unsigned_less [of x, where ?'a = nat] by simp
  then show ?thesis by (simp add: string_of_def bytes_of_def comp_def)
qed

lemma utf8_constants [simp]:
  "readable_UTF8 m opensshEd25519KeyType \<longleftrightarrow> 11 \<le> unat m"
  "readable_UTF8 m (bytes_of ''none'') \<longleftrightarrow> 4 \<le> unat m"
  by (auto simp: readable_UTF8_def opensshEd25519KeyType_def bytes_of_def utf8_cont_def)

lemma parse_private_blob_sound:
  assumes "parseOpensshEd25519PrivateBlob derive blob = Inr kp"
  obtains check pad where "blob = openssh_private_blob check pad kp" "validOpensshPadding pad"
    "Keypair_Validate derive kp = None" "utf8_Valid (bytes_of (kp_Comment kp))"
proof -
  let ?c = "WithMaxBytes 16384 (NewCursor blob)"
  have inp: "at_input ?c blob" by (rule at_input_WithMaxBytes)
  obtain check1 c1 check2 c2 keyType c3 public c4 priv c5 comment c6 where
    r: "Decoder_U32 ?c = (check1, c1)" "Decoder_U32 c1 = (check2, c2)"
       "Decoder_UTF8String c2 = (keyType, c3)" "Decoder_Bytes c3 = (public, c4)"
       "Decoder_Bytes c4 = (priv, c5)" "Decoder_UTF8String c5 = (comment, c6)"
    by (metis surj_pair)
  have e: "dec_err c6 = None" and chk: "check2 = check1" and k: "keyType = opensshEd25519KeyType"
    and emb: "priv = take 32 priv @ public" and pd: "validOpensshPadding (Decoder_Rest c6)"
    and v: "Keypair_Validate derive kp = None"
    and kp: "kp = \<lparr>kp_public = public, kp_private = take 32 priv, kp_Comment = string_of comment\<rparr>"
    using assms append_take_drop_id [of 32 priv]
    by (auto simp: parseOpensshEd25519PrivateBlob_def r Let_def split: if_splits option.splits)
  let ?fs = "openssh_private_fields check1 kp"
  have g: "get_fields [SU32, SU32, SUTF8, SBytes, SBytes, SUTF8] ?c = (?fs, c6)"
    using emb by (simp add: r openssh_private_fields_def kp chk k)
  obtain rest where c6: "c6 = advance (length (concat (map enc_field ?fs))) ?c"
    and b: "blob = concat (map enc_field ?fs) @ rest"
    and u: "list_all (readable 16384) ?fs"
    using get_fields_canonical [OF inp g e] by auto
  have "Decoder_Rest c6 = rest"
    using Done_advance(2) [of ?c "concat (map enc_field ?fs)" rest] inp b c6 by simp
  then show ?thesis
    using that [of check1 rest] b pd v u
    by (simp add: openssh_private_blob_def openssh_private_fields_def readable_UTF8_def)
qed

lemma parse_private_blob_complete:
  assumes "validOpensshPadding pad" and "Keypair_Validate derive kp = None"
    and "utf8_Valid (bytes_of (kp_Comment kp))" and "length (kp_Comment kp) \<le> 16384"
  shows "parseOpensshEd25519PrivateBlob derive (openssh_private_blob check pad kp) = Inr kp"
proof -
  let ?b = "openssh_private_blob check pad kp"
  let ?c = "WithMaxBytes 16384 (NewCursor ?b)"
  let ?fs = "openssh_private_fields check kp"
  let ?c6 = "advance (length (concat (map enc_field ?fs))) ?c"
  note v = assms(2) [unfolded Validate_exact]
  have inp: "at_input ?c (concat (map enc_field ?fs) @ pad)"
    using at_input_WithMaxBytes [of 16384 ?b] by (simp add: openssh_private_blob_def)
  have "list_all (readable (dec_maxBytes ?c)) ?fs"
    using assms(3,4) v by (simp add: openssh_private_fields_def readable_Bytes_def) (simp add: readable_UTF8_def)
  then have g: "get_fields [SU32, SU32, SUTF8, SBytes, SBytes, SUTF8] ?c = (?fs, ?c6)"
    using get_fields_back [OF inp] by (simp add: openssh_private_fields_def)
  obtain check1 c1 check2 c2 keyType c3 public c4 priv c5 comment c6 where
    r: "Decoder_U32 ?c = (check1, c1)" "Decoder_U32 c1 = (check2, c2)"
       "Decoder_UTF8String c2 = (keyType, c3)" "Decoder_Bytes c3 = (public, c4)"
       "Decoder_Bytes c4 = (priv, c5)" "Decoder_UTF8String c5 = (comment, c6)"
    by (metis surj_pair)
  have q: "[FU32 check1, FU32 check2, FUTF8 keyType, FBytes public, FBytes priv, FUTF8 comment] = ?fs"
    and c6: "c6 = ?c6"
    using g by (simp_all add: r)
  have e: "dec_err c6 = None" and rest: "Decoder_Rest c6 = pad"
    using at_input_advance [OF inp] Done_advance(2) [OF inp] by (simp_all add: c6 at_input_def)
  have e2: "dec_err c2 = None"
    using get_fields_sticky [of c2 "[SUTF8, SBytes, SBytes, SUTF8]"] e by (cases "dec_err c2") (simp_all add: r)
  have kp: "\<lparr>kp_public = kp_public kp, kp_private = kp_private kp, kp_Comment = kp_Comment kp\<rparr> = kp"
    by simp
  show ?thesis
    using q v assms(1,2) e e2 rest
    by (simp add: parseOpensshEd25519PrivateBlob_def r openssh_private_fields_def Let_def kp)
qed

text \<open>The envelope: the magic, then the six fields.\<close>

lemma ExpectBytes_back:
  assumes "at_input c (want @ r)" and "length want < 2 ^ 32"
  shows "Decoder_ExpectBytes want c = advance (length want) c"
proof -
  have "unat (of_nat (length want) :: u32) = length want"
    using assms(2) by (simp add: unat_of_nat take_bit_nat_eq_self)
  from Take_exact [OF assms(1) this] assms(1) show ?thesis
    by (simp add: Decoder_ExpectBytes_def at_input_def)
qed

lemma ExpectBytes_canonical:
  assumes "at_input c bs" and "dec_err (Decoder_ExpectBytes want c) = None"
  shows "\<exists>r. bs = want @ r \<and> Decoder_ExpectBytes want c = advance (length want) c"
proof -
  obtain got c1 where t: "Decoder_Take (of_nat (length want)) c = (got, c1)" by fastforce
  with assms(2) have "dec_err c1 = None" "got = want" "Decoder_ExpectBytes want c = c1"
    by (auto simp: Decoder_ExpectBytes_def split: if_splits)
  then show ?thesis using Take_canonical [OF assms(1) t] by auto
qed

lemma Bytes_advance: "dec_maxBytes (Decoder_ExpectBytes want c) = dec_maxBytes c"
  by (simp add: Decoder_ExpectBytes_def Decoder_Take_def)

lemma parse_file_fields:
  assumes "parseOpensshPrivateKeyV1 derive key = Inr kp"
  obtains publicBlob privateBlob where
    "key = opensshKeyV1Magic @ concat (map enc_field
      [FUTF8 (bytes_of ''none''), FUTF8 (bytes_of ''none''), FBytes [], FU32 1,
       FBytes publicBlob, FBytes privateBlob])"
    "length privateBlob \<le> 16384"
    "parseOpensshEd25519PublicBlob publicBlob = Inr (kp_public kp)"
    "parseOpensshEd25519PrivateBlob derive privateBlob = Inr kp"
proof -
  let ?c = "WithMaxBytes 16384 (NewCursor key)"
  define c0 where "c0 = Decoder_ExpectBytes opensshKeyV1Magic ?c"
  have inp: "at_input ?c key" by (rule at_input_WithMaxBytes)
  obtain cipher c1 kdf c2 opts c3 n c4 pubb c5 privb c6 where
    r: "Decoder_UTF8String c0 = (cipher, c1)" "Decoder_UTF8String c1 = (kdf, c2)"
       "Decoder_Bytes c2 = (opts, c3)" "Decoder_U32 c3 = (n, c4)"
       "Decoder_Bytes c4 = (pubb, c5)" "Decoder_Bytes c5 = (privb, c6)"
    by (metis surj_pair)
  note d = assms [unfolded parseOpensshPrivateKeyV1_def Let_def, folded c0_def, simplified r prod.case]
  have k: "cipher = bytes_of ''none''" "kdf = bytes_of ''none''" "opts = []" "n = 1"
    and dn: "Decoder_Done c6 = None"
    and p: "parseOpensshEd25519PublicBlob pubb = Inr (kp_public kp)"
      "parseOpensshEd25519PrivateBlob derive privb = Inr kp"
    using d by (auto split: if_splits sum.splits)
  let ?fs = "[FUTF8 cipher, FUTF8 kdf, FBytes opts, FU32 n, FBytes pubb, FBytes privb]"
  have g: "get_fields [SUTF8, SUTF8, SBytes, SU32, SBytes, SBytes] c0 = (?fs, c6)"
    by (simp add: r)
  have e0: "dec_err c0 = None"
    using get_fields_sticky [of c0 "[SUTF8, SUTF8, SBytes, SU32, SBytes, SBytes]"] Done_ok [OF dn] g
    by (cases "dec_err c0") simp_all
  obtain rest where key: "key = opensshKeyV1Magic @ rest" and c0: "c0 = advance (length opensshKeyV1Magic) ?c"
    using ExpectBytes_canonical [OF inp e0 [unfolded c0_def]] by (auto simp: c0_def)
  have in0: "at_input c0 rest" using at_input_advance [of ?c opensshKeyV1Magic rest] inp key c0 by simp
  obtain r' where rest: "rest = concat (map enc_field ?fs) @ r'" and c6: "c6 = advance (length (concat (map enc_field ?fs))) c0"
    and ok: "list_all (readable (dec_maxBytes c0)) ?fs"
    using get_fields_canonical [OF in0 g Done_ok [OF dn]] by blast
  have "r' = []" using Done_advance(1) [of c0 "concat (map enc_field ?fs)" r'] in0 rest c6 dn by simp
  then show ?thesis
    using that [of pubb privb] key rest k p ok c0 by (simp add: readable_Bytes_def)
qed

lemma parse_file_complete:
  assumes "length publicBlob \<le> 16384" and "length privateBlob \<le> 16384"
    and "parseOpensshEd25519PublicBlob publicBlob = Inr (kp_public kp)"
    and "parseOpensshEd25519PrivateBlob derive privateBlob = Inr kp"
  shows "parseOpensshPrivateKeyV1 derive (opensshKeyV1Magic @ concat (map enc_field
      [FUTF8 (bytes_of ''none''), FUTF8 (bytes_of ''none''), FBytes [], FU32 1,
       FBytes publicBlob, FBytes privateBlob])) = Inr kp"
proof -
  let ?fs = "[FUTF8 (bytes_of ''none''), FUTF8 (bytes_of ''none''), FBytes [], FU32 1,
       FBytes publicBlob, FBytes privateBlob]"
  let ?bs = "concat (map enc_field ?fs)"
  let ?c = "WithMaxBytes 16384 (NewCursor (opensshKeyV1Magic @ ?bs))"
  define c0 where "c0 = Decoder_ExpectBytes opensshKeyV1Magic ?c"
  have inp: "at_input ?c (opensshKeyV1Magic @ ?bs)" by (rule at_input_WithMaxBytes)
  have c0: "c0 = advance (length opensshKeyV1Magic) ?c"
    unfolding c0_def by (rule ExpectBytes_back [OF inp]) (simp add: opensshKeyV1Magic_def)
  have in0: "at_input c0 (?bs @ [])" using at_input_advance [OF inp] c0 by simp
  have g: "get_fields [SUTF8, SUTF8, SBytes, SU32, SBytes, SBytes] c0 = (?fs, advance (length ?bs) c0)"
    using get_fields_back [OF in0] assms(1,2) by (simp add: c0 readable_Bytes_def)
  obtain cipher c1 kdf c2 opts c3 n c4 pubb c5 privb c6 where
    r: "Decoder_UTF8String c0 = (cipher, c1)" "Decoder_UTF8String c1 = (kdf, c2)"
       "Decoder_Bytes c2 = (opts, c3)" "Decoder_U32 c3 = (n, c4)"
       "Decoder_Bytes c4 = (pubb, c5)" "Decoder_Bytes c5 = (privb, c6)"
    by (metis surj_pair)
  have q: "cipher = bytes_of ''none''" "kdf = bytes_of ''none''" "opts = []" "n = 1"
    "pubb = publicBlob" "privb = privateBlob" "c6 = advance (length ?bs) c0"
    using g by (simp_all add: r)
  have dn: "Decoder_Done c6 = None" using Done_advance(1) [OF in0] q by simp
  have e4: "dec_err c4 = None"
    using get_fields_sticky [of c4 "[SBytes, SBytes]"] Done_ok [OF dn]
    by (cases "dec_err c4") (simp_all add: r)
  show ?thesis
    unfolding parseOpensshPrivateKeyV1_def c0_def [symmetric] Let_def
    using q(1-6) dn e4 assms(3,4) by (simp add: r)
qed

text \<open>
  C27: The private-key parser accepts exactly the well-formed single-key files.  A payload is
  accepted with keypair \<open>kp\<close> if and only if it is the reference encoding of \<open>kp\<close> for some check
  word and some counting padding, the private section fits the 16 KiB limit, the comment is valid
  UTF-8, and the keypair is valid: both halves are 32 bytes long and the public key is the one
  derived from the seed.
\<close>

theorem openssh_key_accepted_iff:
  "parseOpensshPrivateKeyV1 derive key = Inr kp \<longleftrightarrow>
    Keypair_Validate derive kp = None \<and> utf8_Valid (bytes_of (kp_Comment kp)) \<and>
    (\<exists>check pad. key = openssh_file check pad kp \<and> validOpensshPadding pad
       \<and> length (openssh_private_blob check pad kp) \<le> 16384)"
proof
  assume "parseOpensshPrivateKeyV1 derive key = Inr kp"
  then show "Keypair_Validate derive kp = None \<and> utf8_Valid (bytes_of (kp_Comment kp)) \<and>
    (\<exists>check pad. key = openssh_file check pad kp \<and> validOpensshPadding pad
       \<and> length (openssh_private_blob check pad kp) \<le> 16384)"
  proof (rule parse_file_fields)
    fix pubb privb
    assume key: "key = opensshKeyV1Magic @ concat (map enc_field
      [FUTF8 (bytes_of ''none''), FUTF8 (bytes_of ''none''), FBytes [], FU32 1, FBytes pubb, FBytes privb])"
      and len: "length privb \<le> 16384"
      and pub: "parseOpensshEd25519PublicBlob pubb = Inr (kp_public kp)"
      and prv: "parseOpensshEd25519PrivateBlob derive privb = Inr kp"
    from pub have "pubb = openssh_public_blob (kp_public kp)"
      by (simp add: parse_public_blob_exact)
    with key len show ?thesis
      by (auto simp: openssh_file_def intro: parse_private_blob_sound [OF prv])
  qed
next
  assume *: "Keypair_Validate derive kp = None \<and> utf8_Valid (bytes_of (kp_Comment kp)) \<and>
    (\<exists>check pad. key = openssh_file check pad kp \<and> validOpensshPadding pad
       \<and> length (openssh_private_blob check pad kp) \<le> 16384)"
  then obtain check pad where key: "key = openssh_file check pad kp" and pad: "validOpensshPadding pad"
    and len: "length (openssh_private_blob check pad kp) \<le> 16384"
    and v: "Keypair_Validate derive kp = None" and u: "utf8_Valid (bytes_of (kp_Comment kp))"
    by blast
  have "length (kp_Comment kp) \<le> 16384"
    using len by (simp add: openssh_private_blob_def openssh_private_fields_def enc_Bytes_def)
  note prv = parse_private_blob_complete [OF pad v u this]
  have pub: "length (kp_public kp) = 32" using v by (simp add: Validate_exact)
  then have "length (openssh_public_blob (kp_public kp)) \<le> 16384"
    by (simp add: openssh_public_blob_def enc_Bytes_def opensshEd25519KeyType_def)
  from parse_file_complete [OF this len] prv pub show "parseOpensshPrivateKeyV1 derive key = Inr kp"
    by (simp add: key openssh_file_def parse_public_blob_exact)
qed

section \<open>The order of public keys\<close>

lemma list_Compare_lex:
  "list_Compare xs ys = (if xs = ys then 0 else if xs < ys then - 1 else 1)"
  by (induction xs ys rule: list_Compare.induct) auto

lemma Compare_exact:
  "PublicKey_Compare k l =
    (let x = (pk_Algorithm k, pk_bytes k); y = (pk_Algorithm l, pk_bytes l)
     in if x = y then 0 else if fst x < fst y \<or> fst x = fst y \<and> snd x < snd y then - 1 else 1)"
  by (auto simp: PublicKey_Compare_def list_Compare_lex Let_def)

text \<open>
  \<open>Compare\<close> is a total order on key material and \<open>Equal\<close> is its equality: swapping the
  arguments negates the result, it is transitive, and two keys are equal exactly when algorithm
  and bytes agree, whatever their comments.
\<close>

theorem Compare_total_order:
  "PublicKey_Compare b a = - PublicKey_Compare a b
   \<and> (PublicKey_Compare a b \<le> 0 \<and> PublicKey_Compare b c \<le> 0 \<longrightarrow> PublicKey_Compare a c \<le> 0)
   \<and> (PublicKey_Equal a b \<longleftrightarrow> pk_Algorithm a = pk_Algorithm b \<and> pk_bytes a = pk_bytes b)"
proof (intro conjI impI)
  show "PublicKey_Compare b a = - PublicKey_Compare a b"
    by (auto simp: Compare_exact Let_def)
  show "PublicKey_Equal a b \<longleftrightarrow> pk_Algorithm a = pk_Algorithm b \<and> pk_bytes a = pk_bytes b"
    by (auto simp: PublicKey_Equal_def Compare_exact Let_def)
  assume "PublicKey_Compare a b \<le> 0 \<and> PublicKey_Compare b c \<le> 0"
  then show "PublicKey_Compare a c \<le> 0"
    by (auto simp: Compare_exact Let_def split: if_splits)
qed

definition example_key :: "u8 \<Rightarrow> PublicKey" where
  "example_key n = \<lparr>pk_Algorithm = AlgorithmEd25519, pk_bytes = replicate 32 n, pk_Comment = []\<rparr>"

theorem Compare_total_order_witness:
  "PublicKey_Compare (example_key 1) (example_key 3) \<le> 0"
proof -
  have "PublicKey_Compare (example_key 1) (example_key 2) \<le> 0"
    "PublicKey_Compare (example_key 2) (example_key 3) \<le> 0"
    by code_simp+
  then show ?thesis
    using Compare_total_order [of "example_key 2" "example_key 1" "example_key 3"] by blast
qed

end
