(* ===== verification/Go_Unquote.thy ===== *)
theory Go_Unquote
  imports Go_Strings Bincoder
begin

text \<open>
  \<open>strconv.Unquote\<close>, which the \<open>authorized_keys\<close> reader applies to the value of a \<open>command\<close>
  option: interpreted strings with their escapes, raw strings, and rune literals.
\<close>

definition unhex :: "u8 \<Rightarrow> nat option" where
  "unhex c =
    (if 48 \<le> c \<and> c \<le> 57 then Some (unat c - 48)
     else if 97 \<le> c \<and> c \<le> 102 then Some (unat c - 87)
     else if 65 \<le> c \<and> c \<le> 70 then Some (unat c - 55)
     else None)"

definition unoct :: "u8 \<Rightarrow> nat option" where
  "unoct c = (if 48 \<le> c \<and> c \<le> 55 then Some (unat c - 48) else None)"

fun digits_value :: "(u8 \<Rightarrow> nat option) \<Rightarrow> nat \<Rightarrow> nat \<Rightarrow> bytes \<Rightarrow> nat option" where
  "digits_value dig base acc [] = Some acc"
| "digits_value dig base acc (c # cs) =
    (case dig c of None \<Rightarrow> None | Some d \<Rightarrow> digits_value dig base (acc * base + d) cs)"

definition ValidRune :: "nat \<Rightarrow> bool" where
  "ValidRune r \<longleftrightarrow> r < 0xD800 \<or> 0xDFFF < r \<and> r \<le> 0x10FFFF"

definition AppendRune :: "nat \<Rightarrow> bytes" where
  "AppendRune r =
    (if r < 0x80 then [of_nat r]
     else if r < 0x800 then [of_nat (0xC0 + r div 0x40), of_nat (0x80 + r mod 0x40)]
     else if r < 0x10000 then
       [of_nat (0xE0 + r div 0x1000), of_nat (0x80 + r div 0x40 mod 0x40), of_nat (0x80 + r mod 0x40)]
     else
       [of_nat (0xF0 + r div 0x40000), of_nat (0x80 + r div 0x1000 mod 0x40),
        of_nat (0x80 + r div 0x40 mod 0x40), of_nat (0x80 + r mod 0x40)])"

text \<open>
  The encoding of the first rune of a non-empty input and how many bytes it takes; an invalid
  sequence is one byte read as U+FFFD.
\<close>

definition first_rune :: "bytes \<Rightarrow> bytes \<times> nat" where
  "first_rune s =
    (case find (\<lambda>n. n \<le> length s \<and> utf8_Valid (take n s)) [1, 2, 3, 4] of
       Some n \<Rightarrow> (take n s, n)
     | None \<Rightarrow> (AppendRune 0xFFFD, 1))"

text \<open>\<open>UnquoteChar\<close>: the bytes one step appends and how much input it reads.\<close>

definition hex_escape :: "nat \<Rightarrow> bytes \<Rightarrow> nat option" where
  "hex_escape n s = (if length s < n then None else digits_value unhex 16 0 (take n s))"

definition UnquoteChar :: "u8 \<Rightarrow> bytes \<Rightarrow> (bytes \<times> nat) option" where
  "UnquoteChar quote s =
    (case s of
       [] \<Rightarrow> None
     | c # t \<Rightarrow>
         if c = quote \<and> (quote = 39 \<or> quote = 34) then None
         else if 0x80 \<le> c then Some (first_rune s)
         else if c \<noteq> 92 then Some ([c], 1)
         else case t of
           [] \<Rightarrow> None
         | d # u \<Rightarrow>
             if d = 97 then Some ([7], 2)
             else if d = 98 then Some ([8], 2)
             else if d = 102 then Some ([12], 2)
             else if d = 110 then Some ([10], 2)
             else if d = 114 then Some ([13], 2)
             else if d = 116 then Some ([9], 2)
             else if d = 118 then Some ([11], 2)
             else if d = 120 then map_option (\<lambda>v. ([of_nat v], 4)) (hex_escape 2 u)
             else if d = 117 \<or> d = 85 then
               (let n = (if d = 117 then 4 else 8)
                in case hex_escape n u of
                     None \<Rightarrow> None
                   | Some v \<Rightarrow> if ValidRune v then Some (AppendRune v, 2 + n) else None)
             else if 48 \<le> d \<and> d \<le> 55 then
               (if length t < 3 then None
                else case digits_value unoct 8 0 (take 3 t) of
                  None \<Rightarrow> None
                | Some v \<Rightarrow> if 255 < v then None else Some ([of_nat v], 4))
             else if d = 92 then Some ([92], 2)
             else if d = 39 \<or> d = 34 then (if d \<noteq> quote then None else Some ([d], 2))
             else None)"

text \<open>The loop of \<open>unquote\<close> after the opening quote: the value and what follows the closing quote.\<close>

function unquote_loop :: "u8 \<Rightarrow> bytes \<Rightarrow> bytes \<Rightarrow> (bytes \<times> bytes) option" where
  "unquote_loop quote buf s =
    (case s of
       [] \<Rightarrow> None
     | c # t \<Rightarrow>
         if c = quote then Some (buf, t)
         else if c = 10 then None
         else case UnquoteChar quote s of
           None \<Rightarrow> None
         | Some (b, n) \<Rightarrow>
             if quote = 39
             then (case drop n s of
                     [] \<Rightarrow> None
                   | c' # t' \<Rightarrow> if c' = quote then Some (buf @ b, t') else None)
             else if n = 0 then None
             else unquote_loop quote (buf @ b) (drop n s))"
  by pat_completeness auto
termination by (relation "measure (\<lambda>(_, _, s). length s)") auto

definition Unquote :: "bytes \<Rightarrow> bytes option" where
  "Unquote s =
    (if length s < 2 then None
     else let quote = hd s; body = tl s
          in if quote \<notin> set body then None
             else if quote = 96 then
               (let inner = takeWhile (\<lambda>c. c \<noteq> quote) body
                in if length inner + 1 = length body then Some (filter (\<lambda>c. c \<noteq> 13) inner) else None)
             else if quote = 34 \<or> quote = 39 then
               (case unquote_loop quote [] body of
                  Some (out, []) \<Rightarrow> Some out
                | _ \<Rightarrow> None)
             else None)"

end
