(* ===== verification/Trust.thy ===== *)
theory Trust
  imports Keys Go_Unquote
begin

text \<open>
  \<open>lib/trust\<close>: the \<open>authorized_keys\<close> reader with its options and constraints, the
  \<open>known_hosts\<close> reader with its host-key lookup, and the join of host-key tables.  The line
  parsers of the SSH package are arguments (\<open>ssh.ParseAuthorizedKey\<close>, \<open>ssh.ParseKnownHosts\<close>).
  A loop over one of them returns because the parser leaves less input than it was given; the
  loops are partial functions and that they return is proved from this hypothesis.
\<close>

section \<open>Authorized keys\<close>

record AuthorizedKeyOption =
  opt_Name :: string
  opt_Value :: string
  opt_HasValue :: bool

record AuthorizedKeyEntry =
  ak_Options :: "AuthorizedKeyOption list"
  ak_Key :: PublicKey

record AuthorizedKeyConstraints =
  akc_ForcedCommand :: string
  akc_NoPTY :: bool
  akc_Restricted :: bool

definition no_constraints :: AuthorizedKeyConstraints where
  "no_constraints = \<lparr>akc_ForcedCommand = [], akc_NoPTY = False, akc_Restricted = False\<rparr>"

definition parse_command_option :: "AuthorizedKeyOption \<Rightarrow> (goerr, string) result" where
  "parse_command_option option =
    (if \<not> opt_HasValue option then Inl (EErr ''authorized_keys command option requires a value'')
     else case map_option string_of (Unquote (bytes_of (opt_Value option))) of
       None \<Rightarrow> Inl (EWrap ''decode authorized_keys command option'' (EErr ''invalid syntax''))
     | Some command \<Rightarrow>
         if TrimSpace command = [] then Inl (EErr ''authorized_keys command option must not be empty'')
         else if ContainsNUL command then Inl (EErr ''authorized_keys command option contains NUL'')
         else if length command > 24 * 1024
         then Inl (EErr ''authorized_keys command option exceeds maximum size'')
         else Inr command)"

fun constraints_loop ::
    "string list \<Rightarrow> AuthorizedKeyConstraints \<Rightarrow> AuthorizedKeyOption list
      \<Rightarrow> (goerr, AuthorizedKeyConstraints) result" where
  "constraints_loop seen constraints [] = Inr constraints"
| "constraints_loop seen constraints (option # options) =
    (if opt_Name option \<in> set seen then Inl (EErr ''duplicate authorized_keys option'')
     else let seen' = opt_Name option # seen
          in if opt_Name option = ''command'' then
               (case parse_command_option option of
                  Inl e \<Rightarrow> Inl e
                | Inr command \<Rightarrow>
                    constraints_loop seen' (constraints\<lparr>akc_ForcedCommand := command\<rparr>) options)
             else if opt_Name option = ''no-pty'' then
               (if opt_HasValue option
                then Inl (EErr ''authorized_keys no-pty option must not have a value'')
                else constraints_loop seen' (constraints\<lparr>akc_NoPTY := True\<rparr>) options)
             else if opt_Name option = ''restrict'' then
               (if opt_HasValue option
                then Inl (EErr ''authorized_keys restrict option must not have a value'')
                else constraints_loop seen'
                       (constraints\<lparr>akc_Restricted := True, akc_NoPTY := True\<rparr>) options)
             else Inl (EErr ''unsupported authorized_keys option''))"

definition parseAuthorizedKeyConstraints ::
    "AuthorizedKeyOption list \<Rightarrow> (goerr, AuthorizedKeyConstraints) result" where
  "parseAuthorizedKeyConstraints options = constraints_loop [] no_constraints options"

definition AuthorizedKeyEntry_Constraints ::
    "AuthorizedKeyEntry option \<Rightarrow> (goerr, AuthorizedKeyConstraints) result" where
  "AuthorizedKeyEntry_Constraints e =
    (case e of
       None \<Rightarrow> Inl (EErr ''authorized_keys entry is required'')
     | Some e \<Rightarrow> parseAuthorizedKeyConstraints (ak_Options e))"

definition parseAuthorizedKeyOption :: "string \<Rightarrow> (goerr, AuthorizedKeyOption) result" where
  "parseAuthorizedKeyOption option =
    (if option = [] then Inl (EErr ''authorized_keys option is empty'')
     else let (name, value, hasValue) = Cut (CHR ''='') option
          in if name = [] then Inl (EErr ''authorized_keys option name is empty'')
             else Inr \<lparr>opt_Name = name, opt_Value = (if hasValue then value else []),
                       opt_HasValue = hasValue\<rparr>)"

fun parseAuthorizedKeyOptions :: "string list \<Rightarrow> (goerr, AuthorizedKeyOption list) result" where
  "parseAuthorizedKeyOptions [] = Inr []"
| "parseAuthorizedKeyOptions (option # options) =
    (case parseAuthorizedKeyOption option of
       Inl e \<Rightarrow> Inl e
     | Inr parsed \<Rightarrow>
    (case parseAuthorizedKeyOptions options of
       Inl e \<Rightarrow> Inl e
     | Inr rest \<Rightarrow> Inr (parsed # rest)))"

definition sshEd25519PublicKey :: "ssh_key \<Rightarrow> string \<Rightarrow> (goerr, PublicKey option) result" where
  "sshEd25519PublicKey k comment =
    (case ParseSSHPublicKey k comment of
       Inl e \<Rightarrow> Inl (EWrap ''parse ssh public key'' e)
     | Inr r \<Rightarrow> Inr r)"

text \<open>What \<open>ssh.ParseAuthorizedKey\<close> returns for one line: key, comment, options and the rest.\<close>

record auth_line =
  al_key :: ssh_key
  al_comment :: string
  al_options :: "string list"
  al_rest :: bytes

text \<open>The part of the loop body after the line is parsed: \<open>None\<close> is \<open>continue\<close>.\<close>

definition authorized_entry :: "auth_line \<Rightarrow> (goerr, AuthorizedKeyEntry option) result" where
  "authorized_entry l =
    (if sk_Type (al_key l) \<noteq> KeyAlgoED25519 then Inr None
     else case sshEd25519PublicKey (al_key l) (al_comment l) of
       Inl e \<Rightarrow> Inl (EWrap ''parse authorized_keys entry'' e)
     | Inr None \<Rightarrow> Inr None
     | Inr (Some publicKey) \<Rightarrow>
    (case parseAuthorizedKeyOptions (al_options l) of
       Inl e \<Rightarrow> Inl (EWrap ''parse authorized_keys options'' e)
     | Inr parsedOptions \<Rightarrow>
    (case parseAuthorizedKeyConstraints parsedOptions of
       Inl e \<Rightarrow> Inl (EWrap ''validate authorized_keys options'' e)
     | Inr _ \<Rightarrow> Inr (Some \<lparr>ak_Options = parsedOptions, ak_Key = publicKey\<rparr>))))"

partial_function (option) authorized_loop ::
    "(bytes \<Rightarrow> (goerr, auth_line) result) \<Rightarrow> bytes \<Rightarrow> AuthorizedKeyEntry list
      \<Rightarrow> (goerr, AuthorizedKeyEntry list) result option" where
  "authorized_loop parse contents out =
    (if contents = [] then Some (Inr out)
     else case parse contents of
       Inl e \<Rightarrow> Some (Inl (EWrap ''parse authorized_keys entry'' e))
     | Inr l \<Rightarrow>
    (case authorized_entry l of
       Inl e \<Rightarrow> Some (Inl e)
     | Inr None \<Rightarrow> authorized_loop parse (bytes_TrimSpace (al_rest l)) out
     | Inr (Some entry) \<Rightarrow> authorized_loop parse (bytes_TrimSpace (al_rest l)) (out @ [entry])))"

definition ParseAuthorizedKeys ::
    "(bytes \<Rightarrow> (goerr, auth_line) result) \<Rightarrow> bytes \<Rightarrow> (goerr, AuthorizedKeyEntry list) result option" where
  "ParseAuthorizedKeys parse contents = authorized_loop parse (bytes_TrimSpace contents) []"

definition AuthorizedKeys_Match ::
    "AuthorizedKeyEntry list option \<Rightarrow> (AuthorizedKeyEntry \<Rightarrow> bool) option \<Rightarrow> AuthorizedKeyEntry option" where
  "AuthorizedKeys_Match k policy =
    (case (k, policy) of
       (Some entries, Some p) \<Rightarrow> find p entries
     | _ \<Rightarrow> None)"

section \<open>Known hosts\<close>

datatype KnownHostMarker = KnownHostEmptyMarker | KnownHostCertAuthority | KnownHostRevoked

record KnownHostEntry =
  kh_Marker :: KnownHostMarker
  kh_Hosts :: "string list"
  kh_HostKey :: PublicKey

datatype HostKeyMatch = HostKeyNoHost | HostKeyMismatch | HostKeyAccepted | HostKeyRevoked

definition KnownHostEntry_Match :: "KnownHostEntry \<Rightarrow> string \<Rightarrow> bool" where
  "KnownHostEntry_Match k host = (host \<in> set (kh_Hosts k))"

definition KnownHostEntry_MatchesValid :: "KnownHostEntry \<Rightarrow> string \<Rightarrow> bool" where
  "KnownHostEntry_MatchesValid k host =
    (kh_Marker k \<noteq> KnownHostRevoked \<and> KnownHostEntry_Match k host)"

fun match_host_loop ::
    "string \<Rightarrow> PublicKey \<Rightarrow> bool \<Rightarrow> bool \<Rightarrow> KnownHostEntry list \<Rightarrow> HostKeyMatch" where
  "match_host_loop host key hostFound keyAccepted [] =
    (if keyAccepted then HostKeyAccepted
     else if hostFound then HostKeyMismatch
     else HostKeyNoHost)"
| "match_host_loop host key hostFound keyAccepted (entry # entries) =
    (if \<not> KnownHostEntry_Match entry host
     then match_host_loop host key hostFound keyAccepted entries
     else if \<not> PublicKey_Equal (kh_HostKey entry) key
     then match_host_loop host key True keyAccepted entries
     else if kh_Marker entry = KnownHostRevoked then HostKeyRevoked
     else match_host_loop host key True
            (keyAccepted \<or> kh_Marker entry = KnownHostEmptyMarker) entries)"

definition MatchHostKey :: "KnownHostEntry list option \<Rightarrow> string \<Rightarrow> PublicKey \<Rightarrow> HostKeyMatch" where
  "MatchHostKey k host key =
    (case k of None \<Rightarrow> HostKeyNoHost | Some entries \<Rightarrow> match_host_loop host key False False entries)"

definition KnownHosts_Match ::
    "KnownHostEntry list option \<Rightarrow> (KnownHostEntry \<Rightarrow> bool) option \<Rightarrow> KnownHostEntry option" where
  "KnownHosts_Match k policy =
    (case (k, policy) of
       (Some entries, Some p) \<Rightarrow> find p entries
     | _ \<Rightarrow> None)"

definition parseMarkerString :: "string \<Rightarrow> KnownHostMarker option" where
  "parseMarkerString marker =
    (if marker = '''' then Some KnownHostEmptyMarker
     else if marker = ''cert-authority'' then Some KnownHostCertAuthority
     else if marker = ''revoked'' then Some KnownHostRevoked
     else None)"

definition host_identity_error :: "string \<Rightarrow> goerr option" where
  "host_identity_error host =
    (if host = [] then Some (EErr ''known_hosts entry has an empty host identity'')
     else if HasPrefix host ''|'' then Some (EErr ''hashed known_hosts identity is not supported'')
     else if HasPrefix host ''!'' then Some (EErr ''negated known_hosts identity is not supported'')
     else if ContainsAny host ''*?'' then Some (EErr ''wildcard known_hosts identity is not supported'')
     else if HasPrefix host ''['' then Some (EErr ''host-plus-port known_hosts identity is not supported'')
     else if ContainsAny host [CHR '' '', CHR 0x09, CHR 0x0D, CHR 0x0A, NUL]
     then Some (EErr ''invalid known_hosts identity'')
     else None)"

fun first_invalid :: "('a \<Rightarrow> goerr option) \<Rightarrow> 'a list \<Rightarrow> goerr option" where
  "first_invalid f [] = None"
| "first_invalid f (x # xs) = (case f x of Some e \<Rightarrow> Some e | None \<Rightarrow> first_invalid f xs)"

definition validateKnownHostPatterns :: "string list \<Rightarrow> goerr option" where
  "validateKnownHostPatterns hosts =
    (if hosts = [] then Some (EErr ''known_hosts entry has no host identities'')
     else first_invalid host_identity_error hosts)"

record host_line =
  hl_marker :: string
  hl_hosts :: "string list"
  hl_key :: ssh_key
  hl_comment :: string
  hl_rest :: bytes

definition known_host_entry :: "host_line \<Rightarrow> (goerr, KnownHostEntry option) result" where
  "known_host_entry l =
    (case parseMarkerString (hl_marker l) of
       None \<Rightarrow> Inl (EErr ''unsupported marker in known_hosts entry'')
     | Some marker \<Rightarrow>
         if marker = KnownHostCertAuthority
         then Inl (EErr ''known_hosts certificate-authority entries are not supported'')
         else case validateKnownHostPatterns (hl_hosts l) of
           Some e \<Rightarrow> Inl e
         | None \<Rightarrow>
        (case sshEd25519PublicKey (hl_key l) (hl_comment l) of
           Inl e \<Rightarrow> Inl (EWrap ''parse known_hosts entry'' e)
         | Inr None \<Rightarrow> Inr None
         | Inr (Some parsed) \<Rightarrow>
             Inr (Some \<lparr>kh_Marker = marker, kh_Hosts = hl_hosts l, kh_HostKey = parsed\<rparr>)))"

partial_function (option) known_hosts_loop ::
    "(bytes \<Rightarrow> (goerr, host_line) result) \<Rightarrow> bytes \<Rightarrow> KnownHostEntry list
      \<Rightarrow> (goerr, KnownHostEntry list) result option" where
  "known_hosts_loop parse contents entries =
    (if contents = [] then Some (Inr entries)
     else case parse contents of
       Inl e \<Rightarrow> if goerr_Is e EIoEOF then Some (Inr entries)
                else Some (Inl (EWrap ''parse known_hosts entry'' e))
     | Inr l \<Rightarrow>
    (case known_host_entry l of
       Inl e \<Rightarrow> Some (Inl e)
     | Inr None \<Rightarrow> known_hosts_loop parse (hl_rest l) entries
     | Inr (Some entry) \<Rightarrow> known_hosts_loop parse (hl_rest l) (entries @ [entry])))"

definition ParseKnownHosts ::
    "(bytes \<Rightarrow> (goerr, host_line) result) \<Rightarrow> bytes \<Rightarrow> (goerr, KnownHostEntry list) result option" where
  "ParseKnownHosts parse contents = known_hosts_loop parse contents []"

section \<open>Tables of host keys\<close>

text \<open>\<open>merged[host] = append(merged[host], ...)\<close> reads a missing entry as the empty slice.\<close>

definition JoinHostPublicKeys ::
    "(string \<rightharpoonup> PublicKey list) \<Rightarrow> (string \<rightharpoonup> PublicKey list) \<Rightarrow> (string \<rightharpoonup> PublicKey list)" where
  "JoinHostPublicKeys left right =
    (\<lambda>host. case right host of
       None \<Rightarrow> left host
     | Some publicKeys \<Rightarrow> Some ((case left host of None \<Rightarrow> [] | Some ks \<Rightarrow> ks) @ publicKeys))"

section \<open>Constraints of a key\<close>

text \<open>
  The options a key may carry, as a table: at most one each of \<open>command\<close>, \<open>no-pty\<close> and
  \<open>restrict\<close>, each with the value it needs.
\<close>

definition option_ok :: "AuthorizedKeyOption \<Rightarrow> bool" where
  "option_ok opt \<longleftrightarrow>
    (opt_Name opt = ''command'' \<and> (\<exists>c. parse_command_option opt = Inr c)) \<or>
    (opt_Name opt \<in> {''no-pty'', ''restrict''} \<and> \<not> opt_HasValue opt)"

definition forced_command_of :: "string \<Rightarrow> AuthorizedKeyOption list \<Rightarrow> string" where
  "forced_command_of dflt options =
    (case find (\<lambda>opt. opt_Name opt = ''command'') options of
       None \<Rightarrow> dflt
     | Some opt \<Rightarrow> (case parse_command_option opt of Inr c \<Rightarrow> c | Inl _ \<Rightarrow> dflt))"

lemma forced_command_of_Nil [simp]: "forced_command_of d [] = d"
  by (simp add: forced_command_of_def)

lemma forced_command_of_other:
  "opt_Name opt \<noteq> ''command'' \<Longrightarrow> forced_command_of d (opt # options) = forced_command_of d options"
  by (simp add: forced_command_of_def)

lemma forced_command_of_none:
  "''command'' \<notin> opt_Name ` set options \<Longrightarrow> forced_command_of d options = d"
  by (induction options) (auto simp: forced_command_of_other)

lemma forced_command_of_command:
  "opt_Name opt = ''command'' \<Longrightarrow> parse_command_option opt = Inr c \<Longrightarrow> forced_command_of d (opt # options) = c"
  by (simp add: forced_command_of_def)

definition with_options ::
    "AuthorizedKeyOption list \<Rightarrow> AuthorizedKeyConstraints \<Rightarrow> AuthorizedKeyConstraints" where
  "with_options options c =
    \<lparr>akc_ForcedCommand = forced_command_of (akc_ForcedCommand c) options,
     akc_NoPTY = (akc_NoPTY c \<or> ''no-pty'' \<in> opt_Name ` set options \<or> ''restrict'' \<in> opt_Name ` set options),
     akc_Restricted = (akc_Restricted c \<or> ''restrict'' \<in> opt_Name ` set options)\<rparr>"

lemma constraints_loop_exact:
  "constraints_loop seen c options = Inr c' \<longleftrightarrow>
    list_all option_ok options \<and> distinct (map opt_Name options)
    \<and> opt_Name ` set options \<inter> set seen = {} \<and> c' = with_options options c"
proof (induction seen c options rule: constraints_loop.induct)
  case (1 seen c)
  then show ?case by (auto simp: with_options_def)
next
  case (2 seen c opt options)
  show ?case
  proof (cases "opt_Name opt \<in> set seen")
    case True
    then show ?thesis by simp
  next
    case new: False
    consider (command) "opt_Name opt = ''command''" | (no_pty) "opt_Name opt = ''no-pty''"
      | (restrict) "opt_Name opt = ''restrict''"
      | (other) "opt_Name opt \<notin> {''command'', ''no-pty'', ''restrict''}" by blast
    then show ?thesis
    proof cases
      case command
      show ?thesis
      proof (cases "parse_command_option opt")
        case (Inl e)
        then show ?thesis using new command by (simp add: option_ok_def)
      next
        case (Inr cmd)
        have "''command'' \<notin> opt_Name ` set options \<Longrightarrow>
            with_options options (c\<lparr>akc_ForcedCommand := cmd\<rparr>) = with_options (opt # options) c"
          using command Inr by (simp add: with_options_def forced_command_of_none forced_command_of_command)
        then show ?thesis
          using 2(1) [OF new refl command Inr] new command Inr by (auto simp: option_ok_def image_iff)
      qed
    next
      case no_pty
      have "with_options options (c\<lparr>akc_NoPTY := True\<rparr>) = with_options (opt # options) c"
        using no_pty by (simp add: with_options_def forced_command_of_other)
      then show ?thesis using 2(2) new no_pty by (auto simp: option_ok_def image_iff)
    next
      case restrict
      have "with_options options (c\<lparr>akc_Restricted := True, akc_NoPTY := True\<rparr>) = with_options (opt # options) c"
        using restrict by (simp add: with_options_def forced_command_of_other)
      then show ?thesis using 2(3) new restrict by (auto simp: option_ok_def image_iff)
    next
      case other
      then show ?thesis by (simp add: option_ok_def)
    qed
  qed
qed

lemma parse_command_sound:
  "parse_command_option opt = Inr c \<Longrightarrow> TrimSpace c \<noteq> [] \<and> \<not> ContainsNUL c \<and> length c \<le> 24 * 1024"
  by (auto simp: parse_command_option_def split: if_splits option.splits)

text \<open>
  A list of options is accepted exactly when every option is one of the three known ones
  with the value it needs and no name occurs twice, and then the constraints are the ones the
  options name: the decoded forced command if there is a \<open>command\<close> option, no pseudo-terminal if
  there is \<open>no-pty\<close> or \<open>restrict\<close>, restricted if there is \<open>restrict\<close>.  Order does not matter.
\<close>

theorem key_constraints_exact:
  "parseAuthorizedKeyConstraints options = Inr c \<longleftrightarrow>
    list_all option_ok options \<and> distinct (map opt_Name options)
    \<and> c = with_options options no_constraints"
  by (simp add: parseAuthorizedKeyConstraints_def constraints_loop_exact)

section \<open>Reading a file\<close>

text \<open>
  Both readers have the same shape: a line parser that leaves less input than it was given, a
  body that rejects the file, skips the line or appends an entry.  Such a loop returns, and every
  entry it returns was appended by the body.
\<close>

lemma reader_returns:
  assumes unroll: "\<And>contents out.
    (\<exists>r. run contents out = Some r \<and> (\<forall>es. r = Inr es \<longrightarrow> es = out)) \<or>
    (\<exists>rest new. length rest < length contents \<and> list_all good new
       \<and> run contents out = run rest (out @ new))"
  shows "\<exists>r. run contents out = Some r
    \<and> (\<forall>es. r = Inr es \<longrightarrow> (\<exists>new. es = out @ new \<and> list_all good new))"
proof (induction "length contents" arbitrary: contents out rule: less_induct)
  case less
  show ?case
    using unroll [of contents out]
  proof (elim disjE exE conjE)
    fix r assume "run contents out = Some r" "\<forall>es. r = Inr es \<longrightarrow> es = out"
    then show ?thesis by (auto intro!: exI [of _ "[]"])
  next
    fix rest new
    assume "length rest < length contents" and g: "list_all good new"
      and eq: "run contents out = run rest (out @ new)"
    from less [OF this(1), of "out @ new"] obtain r where r: "run rest (out @ new) = Some r"
      and es: "\<forall>es. r = Inr es \<longrightarrow> (\<exists>new'. es = (out @ new) @ new' \<and> list_all good new')" by blast
    have "\<exists>new'. es = out @ new' \<and> list_all good new'" if "r = Inr es" for es
    proof -
      from es that obtain new' where "es = (out @ new) @ new'" "list_all good new'" by blast
      with g show ?thesis by (auto intro!: exI [of _ "new @ new'"])
    qed
    with r eq show ?thesis by auto
  qed
qed

definition shrinking :: "(bytes \<Rightarrow> (goerr, 'l) result) \<Rightarrow> ('l \<Rightarrow> bytes) \<Rightarrow> bool" where
  "shrinking parse rest_of \<longleftrightarrow> (\<forall>b l. parse b = Inr l \<longrightarrow> length (rest_of l) < length b)"

definition entry_ok :: "AuthorizedKeyEntry \<Rightarrow> bool" where
  "entry_ok e \<longleftrightarrow> pk_Algorithm (ak_Key e) = AlgorithmEd25519 \<and>
    (\<exists>c. AuthorizedKeyEntry_Constraints (Some e) = Inr c)"

definition host_entry_ok :: "KnownHostEntry \<Rightarrow> bool" where
  "host_entry_ok e \<longleftrightarrow> pk_Algorithm (kh_HostKey e) = AlgorithmEd25519
    \<and> kh_Marker e \<in> {KnownHostEmptyMarker, KnownHostRevoked}
    \<and> kh_Hosts e \<noteq> [] \<and> list_all (\<lambda>h. host_identity_error h = None) (kh_Hosts e)"

lemma first_invalid_None [simp]: "first_invalid f xs = None \<longleftrightarrow> list_all (\<lambda>x. f x = None) xs"
  by (induction xs) (auto split: option.splits)

lemma sshEd25519_algorithm:
  "sshEd25519PublicKey k c = Inr (Some pk) \<Longrightarrow> pk_Algorithm pk = AlgorithmEd25519"
  by (auto simp: sshEd25519PublicKey_def ParseSSHPublicKey_def split: if_splits crypto_key.splits sum.splits)

lemma authorized_entry_ok: "authorized_entry l = Inr (Some e) \<Longrightarrow> entry_ok e"
  by (auto simp: authorized_entry_def entry_ok_def AuthorizedKeyEntry_Constraints_def
      dest: sshEd25519_algorithm split: if_splits sum.splits option.splits)

lemma parseMarkerString_cases:
  "parseMarkerString m = Some x \<Longrightarrow> x \<noteq> KnownHostCertAuthority \<Longrightarrow> x \<in> {KnownHostEmptyMarker, KnownHostRevoked}"
  by (cases x) auto

lemma known_host_entry_ok: "known_host_entry l = Inr (Some e) \<Longrightarrow> host_entry_ok e"
  by (auto simp: known_host_entry_def host_entry_ok_def validateKnownHostPatterns_def
      dest: sshEd25519_algorithm parseMarkerString_cases split: if_splits sum.splits option.splits)

lemma authorized_loop_unroll:
  assumes "shrinking parse al_rest"
  shows "(\<exists>r. authorized_loop parse contents out = Some r \<and> (\<forall>es. r = Inr es \<longrightarrow> es = out)) \<or>
    (\<exists>rest new. length rest < length contents \<and> list_all entry_ok new
       \<and> authorized_loop parse contents out = authorized_loop parse rest (out @ new))"
proof (cases "contents = [] \<or> (\<exists>e. parse contents = Inl e) \<or>
    (\<exists>l e. parse contents = Inr l \<and> authorized_entry l = Inl e)")
  case True
  then show ?thesis by (auto simp: authorized_loop.simps [of parse contents])
next
  case False
  then obtain l oe where ne: "contents \<noteq> []" and l: "parse contents = Inr l"
    and e: "authorized_entry l = Inr oe"
    by (metis sum.exhaust)
  define new where "new = (case oe of None \<Rightarrow> [] | Some x \<Rightarrow> [x])"
  have "authorized_loop parse contents out = authorized_loop parse (bytes_TrimSpace (al_rest l)) (out @ new)"
    using ne l e by (subst authorized_loop.simps) (simp add: new_def split: option.splits)
  moreover have "length (bytes_TrimSpace (al_rest l)) < length contents"
    using assms l length_trim [of "map bytes_of space_runes" "al_rest l"]
    by (fastforce simp: shrinking_def bytes_TrimSpace_def)
  moreover have "list_all entry_ok new"
    using e by (auto simp: new_def dest: authorized_entry_ok split: option.splits)
  ultimately show ?thesis by blast
qed

lemma known_hosts_loop_unroll:
  assumes "shrinking parse hl_rest"
  shows "(\<exists>r. known_hosts_loop parse contents out = Some r \<and> (\<forall>es. r = Inr es \<longrightarrow> es = out)) \<or>
    (\<exists>rest new. length rest < length contents \<and> list_all host_entry_ok new
       \<and> known_hosts_loop parse contents out = known_hosts_loop parse rest (out @ new))"
proof (cases "contents = [] \<or> (\<exists>e. parse contents = Inl e) \<or>
    (\<exists>l e. parse contents = Inr l \<and> known_host_entry l = Inl e)")
  case True
  then show ?thesis by (auto simp: known_hosts_loop.simps [of parse contents])
next
  case False
  then obtain l oe where ne: "contents \<noteq> []" and l: "parse contents = Inr l"
    and e: "known_host_entry l = Inr oe"
    by (metis sum.exhaust)
  define new where "new = (case oe of None \<Rightarrow> [] | Some x \<Rightarrow> [x])"
  have "known_hosts_loop parse contents out = known_hosts_loop parse (hl_rest l) (out @ new)"
    using ne l e by (subst known_hosts_loop.simps) (simp add: new_def split: option.splits)
  moreover have "length (hl_rest l) < length contents"
    using assms l by (simp add: shrinking_def)
  moreover have "list_all host_entry_ok new"
    using e by (auto simp: new_def dest: known_host_entry_ok split: option.splits)
  ultimately show ?thesis by blast
qed

text \<open>
  Reading a trust file ends.  Whenever the line parser consumes input, both readers return;
  every \<open>authorized_keys\<close> entry they return is an Ed25519 key whose options have constraints, so
  that asking for the constraints of a matched entry cannot fail, and every \<open>known_hosts\<close> entry is
  an unmarked or revoked Ed25519 key with at least one host, all of them exact host names.
\<close>

theorem trust_files_read:
  assumes "shrinking parseA al_rest" and "shrinking parseK hl_rest"
  shows "(\<exists>r. ParseAuthorizedKeys parseA contents = Some r
            \<and> (case r of Inl _ \<Rightarrow> True | Inr es \<Rightarrow> list_all entry_ok es))
    \<and> (\<exists>r. ParseKnownHosts parseK contents = Some r
            \<and> (case r of Inl _ \<Rightarrow> True | Inr es \<Rightarrow> list_all host_entry_ok es))"
proof
  from reader_returns [of "authorized_loop parseA" entry_ok, OF authorized_loop_unroll [OF assms(1)],
      of "bytes_TrimSpace contents" "[]"]
  show "\<exists>r. ParseAuthorizedKeys parseA contents = Some r
            \<and> (case r of Inl _ \<Rightarrow> True | Inr es \<Rightarrow> list_all entry_ok es)"
    by (fastforce simp: ParseAuthorizedKeys_def split: sum.splits)
  from reader_returns [of "known_hosts_loop parseK" host_entry_ok, OF known_hosts_loop_unroll [OF assms(2)],
      of contents "[]"]
  show "\<exists>r. ParseKnownHosts parseK contents = Some r
            \<and> (case r of Inl _ \<Rightarrow> True | Inr es \<Rightarrow> list_all host_entry_ok es)"
    by (fastforce simp: ParseKnownHosts_def split: sum.splits)
qed

text \<open>A line parser for examples: one raw Ed25519 key per line.\<close>

definition rest_of_line :: "bytes \<Rightarrow> bytes" where
  "rest_of_line b = drop 1 (dropWhile (\<lambda>c. c \<noteq> 10) b)"

definition line_key :: "bytes \<Rightarrow> ssh_key" where
  "line_key b = \<lparr>sk_Type = KeyAlgoED25519, sk_crypto = CryptoEd25519 (takeWhile (\<lambda>c. c \<noteq> 10) b)\<rparr>"

definition example_auth_line :: "bytes \<Rightarrow> (goerr, auth_line) result" where
  "example_auth_line b =
    (if b = [] then Inl EIoEOF
     else Inr \<lparr>al_key = line_key b, al_comment = [], al_options = [''no-pty''], al_rest = rest_of_line b\<rparr>)"

definition example_host_line :: "bytes \<Rightarrow> (goerr, host_line) result" where
  "example_host_line b =
    (if b = [] then Inl EIoEOF
     else Inr \<lparr>hl_marker = [], hl_hosts = [''host''], hl_key = line_key b, hl_comment = [],
               hl_rest = rest_of_line b\<rparr>)"

lemma rest_of_line_shorter: "b \<noteq> [] \<Longrightarrow> length (rest_of_line b) < length b"
  using length_dropWhile_le [of "\<lambda>c. c \<noteq> 10" b]
  by (cases b) (auto simp: rest_of_line_def)

lemma example_lines_shrink:
  "shrinking example_auth_line al_rest" "shrinking example_host_line hl_rest"
  by (auto simp: shrinking_def example_auth_line_def example_host_line_def rest_of_line_shorter
      split: if_splits)

theorem trust_files_read_witness:
  "\<exists>r. ParseAuthorizedKeys example_auth_line (bytes_of ''abc'') = Some r
     \<and> (case r of Inl _ \<Rightarrow> True | Inr es \<Rightarrow> list_all entry_ok es)"
  using trust_files_read [OF example_lines_shrink, of "bytes_of ''abc''"] by blast

section \<open>Host keys\<close>

lemma match_host_loop_exact:
  "match_host_loop host key hf ka entries =
    (let at_host = filter (\<lambda>e. KnownHostEntry_Match e host) entries;
         with_key = filter (\<lambda>e. PublicKey_Equal (kh_HostKey e) key) at_host
     in if list_ex (\<lambda>e. kh_Marker e = KnownHostRevoked) with_key then HostKeyRevoked
        else if ka \<or> list_ex (\<lambda>e. kh_Marker e = KnownHostEmptyMarker) with_key then HostKeyAccepted
        else if hf \<or> at_host \<noteq> [] then HostKeyMismatch
        else HostKeyNoHost)"
  by (induction entries arbitrary: hf ka) (auto simp: Let_def)

text \<open>
  C28: Revocation takes precedence.  The lookup answers \<open>HostKeyRevoked\<close> exactly when some
  entry for this host and key is marked revoked, wherever it stands in the file; otherwise it
  accepts exactly when some entry for this host and key is unmarked; otherwise it tells a host
  known under other keys from an unknown host.
\<close>

theorem revocation_wins:
  "MatchHostKey (Some entries) host key =
    (let at_host = filter (\<lambda>e. host \<in> set (kh_Hosts e)) entries;
         with_key = filter (\<lambda>e. PublicKey_Equal (kh_HostKey e) key) at_host
     in if list_ex (\<lambda>e. kh_Marker e = KnownHostRevoked) with_key then HostKeyRevoked
        else if list_ex (\<lambda>e. kh_Marker e = KnownHostEmptyMarker) with_key then HostKeyAccepted
        else if at_host \<noteq> [] then HostKeyMismatch
        else HostKeyNoHost)"
  by (simp add: MatchHostKey_def match_host_loop_exact KnownHostEntry_Match_def Let_def)

end
