(* ===== verification/Account.thy ===== *)
theory Account
  imports Go_Strings
begin

text \<open>
  \<open>lib/account\<close>: the account record, decimal ids, and the lookups through the C library with
  their growing buffers.  The C library is a parameter: what \<open>sysconf\<close> suggests, whether
  \<open>malloc\<close> gives a buffer of a size, and what \<open>getpwnam_r\<close>, \<open>getgrgid_r\<close> and \<open>getgrouplist\<close>
  answer for a buffer of a size.  Every retry uses a larger buffer, so an answer per size is an
  answer per call.
\<close>

section \<open>Data\<close>

record Group =
  grp_Id :: u32
  grp_Name :: string

record Account =
  acc_Username :: string
  acc_Name :: string
  acc_Id :: u32
  acc_PrimaryGroup :: Group
  acc_SupplementaryGroups :: "Group list"
  acc_HomeDir :: string
  acc_LoginShell :: string

record passwd_t =
  pw_name :: string
  pw_passwd :: string
  pw_uid :: u32
  pw_gid :: u32
  pw_gecos :: string
  pw_dir :: string
  pw_shell :: string

definition IsASCIINumeric :: "string \<Rightarrow> bool" where
  "IsASCIINumeric s = list_all is_digit s"

definition ParseID :: "string \<Rightarrow> u32 \<times> goerr option" where
  "ParseID s =
    (if \<not> IsASCIINumeric s then (0, Some (EErr ''ID is not a valid ASCII decimal''))
     else let (n, err) = ParseUint32 s
          in (n, map_option (\<lambda>_. EErr ''strconv.ParseUint'') err))"

definition FormatID :: "u32 \<Rightarrow> string" where
  "FormatID n = FormatUint (unat n)"

definition Group_GID :: "Group \<Rightarrow> string" where
  "Group_GID g = FormatID (grp_Id g)"

definition Account_UID :: "Account \<Rightarrow> string" where
  "Account_UID a = FormatID (acc_Id a)"

definition Account_GID :: "Account \<Rightarrow> string" where
  "Account_GID a = Group_GID (acc_PrimaryGroup a)"

section \<open>The C library\<close>

datatype 'a c_ret = CErange | CErrno nat | CNoEntry | CEntry 'a

record libc =
  c_pw_size :: int
  c_gr_size :: int
  c_malloc :: "int \<Rightarrow> bool"
  c_getpwnam_r :: "string \<Rightarrow> int \<Rightarrow> passwd_t c_ret"
  c_getgrgid_r :: "u32 \<Rightarrow> int \<Rightarrow> string c_ret"
  c_getgrouplist :: "string \<Rightarrow> u32 \<Rightarrow> int \<Rightarrow> bool \<times> int \<times> u32 list"

text \<open>A C \<open>long\<close> is 64 bits wide and doubling wraps around.\<close>

definition long_double :: "int \<Rightarrow> int" where
  "long_double n = (2 * n + 2 ^ 63) mod 2 ^ 64 - 2 ^ 63"

definition buf_size :: "int \<Rightarrow> int" where
  "buf_size n = (if n < 1024 then 16384 else n)"

text \<open>
  The loop both \<open>getpwnamR\<close> and \<open>getgrgidR\<close> have: allocate, call, and on \<open>ERANGE\<close> double the
  buffer up to 1 MiB.
\<close>

record lookup_errors =
  le_too_large :: goerr
  le_failed :: goerr
  le_not_found :: goerr

partial_function (option) erange_loop ::
    "(int \<Rightarrow> bool) \<Rightarrow> (int \<Rightarrow> 'a c_ret) \<Rightarrow> lookup_errors \<Rightarrow> int \<Rightarrow> (goerr, 'a) result option" where
  "erange_loop malloc call errs bufSize =
    (if \<not> malloc bufSize then Some (Inl (EErr ''malloc failed''))
     else case call bufSize of
       CErange \<Rightarrow>
         (let bufSize' = long_double bufSize
          in if bufSize' > 2 ^ 20 then Some (Inl (le_too_large errs))
             else erange_loop malloc call errs bufSize')
     | CErrno _ \<Rightarrow> Some (Inl (le_failed errs))
     | CNoEntry \<Rightarrow> Some (Inl (le_not_found errs))
     | CEntry x \<Rightarrow> Some (Inr x))"

definition ErrNotFound :: goerr where
  "ErrNotFound = EErr ''user not found''"

definition getpwnamR :: "libc \<Rightarrow> string \<Rightarrow> (goerr, passwd_t) result option" where
  "getpwnamR c name =
    erange_loop (c_malloc c) (c_getpwnam_r c name)
      \<lparr>le_too_large = EErr ''passwd entry too large'', le_failed = EErr ''getpwnam_r'',
       le_not_found = ErrNotFound\<rparr>
      (buf_size (c_pw_size c))"

definition getgrgidR :: "libc \<Rightarrow> u32 \<Rightarrow> (goerr, string) result option" where
  "getgrgidR c gid =
    erange_loop (c_malloc c) (c_getgrgid_r c gid)
      \<lparr>le_too_large = EErr ''group entry is too large'', le_failed = EErr ''getgrgid_r'',
       le_not_found = EErr ''group not found''\<rparr>
      (buf_size (c_gr_size c))"

text \<open>
  \<open>getgrouplist\<close> answers whether the buffer was big enough, the count it stored and the ids it
  wrote.  The \<open>C.int\<close> count stays below \<open>2 ^ 17\<close> where the code doubles it.
\<close>

function grouplist_loop ::
    "(int \<Rightarrow> bool) \<Rightarrow> (int \<Rightarrow> bool \<times> int \<times> u32 list) \<Rightarrow> int \<Rightarrow> (goerr, u32 list) result" where
  "grouplist_loop malloc call groupCount =
    (if groupCount \<le> 0 \<or> groupCount > 65536 then Inl (EErr ''group count for user exceeds limit'')
     else if \<not> malloc (groupCount * 4) then Inl (EErr ''malloc failed'')
     else case call groupCount of
       (False, count, _) \<Rightarrow>
         grouplist_loop malloc call (if count \<le> groupCount then groupCount * 2 else count)
     | (True, count, gids) \<Rightarrow>
         if count < 0 \<or> count > groupCount
         then Inl (EErr ''getgrouplist returned invalid group count'')
         else Inr (take (nat count) gids))"
  by pat_completeness auto
termination
  by (relation "measure (\<lambda>(_, _, n). nat (65537 - n))") (auto split: if_splits)

definition getgrouplist :: "libc \<Rightarrow> string \<Rightarrow> u32 \<Rightarrow> (goerr, u32 list) result" where
  "getgrouplist c username primaryGroupID =
    grouplist_loop (c_malloc c) (c_getgrouplist c username primaryGroupID) 16"

section \<open>Resolving an account\<close>

definition lookupGroup :: "libc \<Rightarrow> u32 \<Rightarrow> (goerr, Group) result option" where
  "lookupGroup c groupID =
    (case getgrgidR c groupID of
       None \<Rightarrow> None
     | Some (Inl e) \<Rightarrow> Some (Inl (EWrap ''lookup group'' e))
     | Some (Inr groupName) \<Rightarrow> Some (Inr \<lparr>grp_Id = groupID, grp_Name = groupName\<rparr>))"

fun supplementary_loop ::
    "libc \<Rightarrow> u32 list \<Rightarrow> Group list \<Rightarrow> u32 list \<Rightarrow> (goerr, Group list) result option" where
  "supplementary_loop c seen groups [] = Some (Inr groups)"
| "supplementary_loop c seen groups (groupID # groupIDs) =
    (if groupID \<in> set seen then supplementary_loop c seen groups groupIDs
     else case lookupGroup c groupID of
       None \<Rightarrow> None
     | Some (Inl e) \<Rightarrow> Some (Inl (EWrap ''lookup supplementary group for user'' e))
     | Some (Inr g) \<Rightarrow> supplementary_loop c (groupID # seen) (groups @ [g]) groupIDs)"

definition lookupSupplementaryGroups ::
    "libc \<Rightarrow> passwd_t \<Rightarrow> u32 \<Rightarrow> (goerr, Group list) result option" where
  "lookupSupplementaryGroups c pwd primaryGroupID =
    (case getgrouplist c (pw_name pwd) primaryGroupID of
       Inl e \<Rightarrow> Some (Inl (EWrap ''list groups for user'' e))
     | Inr groupIDs \<Rightarrow> supplementary_loop c [primaryGroupID] [] groupIDs)"

text \<open>\<open>ctx_err\<close> is the error of the context when the call starts; a nil context has none.\<close>

definition OSResolver_Resolve ::
    "libc \<Rightarrow> goerr option \<Rightarrow> string \<Rightarrow> (goerr, Account) result option" where
  "OSResolver_Resolve c ctx_err username =
    (case ctx_err of
       Some e \<Rightarrow> Some (Inl e)
     | None \<Rightarrow>
    (case getpwnamR c username of
       None \<Rightarrow> None
     | Some (Inl e) \<Rightarrow> Some (Inl (EWrap ''lookup user'' e))
     | Some (Inr pwd) \<Rightarrow>
    (case lookupGroup c (pw_gid pwd) of
       None \<Rightarrow> None
     | Some (Inl e) \<Rightarrow> Some (Inl (EWrap ''lookup primary group for user'' e))
     | Some (Inr primaryGroup) \<Rightarrow>
    (case lookupSupplementaryGroups c pwd (grp_Id primaryGroup) of
       None \<Rightarrow> None
     | Some (Inl e) \<Rightarrow> Some (Inl (EWrap ''lookup supplementary groups for user'' e))
     | Some (Inr supplementaryGroups) \<Rightarrow>
         (let (name, _, _) = Cut (CHR '','') (pw_gecos pwd)
          in Some (Inr
            \<lparr>acc_Username = pw_name pwd, acc_Name = name, acc_Id = pw_uid pwd,
             acc_PrimaryGroup = primaryGroup, acc_SupplementaryGroups = supplementaryGroups,
             acc_HomeDir = pw_dir pwd, acc_LoginShell = pw_shell pwd\<rparr>))))))"

section \<open>The lookups return\<close>

lemma erange_loop_returns:
  assumes "0 < n" and "n < 2 ^ 62"
  shows "\<exists>r. erange_loop malloc call errs n = Some r"
  using assms
proof (induction "nat (2 ^ 62 - n)" arbitrary: n rule: less_induct)
  case less
  have d: "long_double n = 2 * n"
    using less.prems by (simp add: long_double_def)
  show ?case
  proof (cases "2 * n > 2 ^ 20")
    case True
    then show ?thesis
      by (subst erange_loop.simps) (auto simp: d split: c_ret.splits)
  next
    case False
    then have "nat (2 ^ 62 - 2 * n) < nat (2 ^ 62 - n)" "0 < 2 * n" "2 * n < 2 ^ 62"
      using less.prems by auto
    from less.hyps [OF this] False show ?thesis
      by (subst erange_loop.simps) (auto simp: d split: c_ret.splits)
  qed
qed

definition sane_libc :: "libc \<Rightarrow> bool" where
  "sane_libc c \<longleftrightarrow> c_pw_size c < 2 ^ 62 \<and> c_gr_size c < 2 ^ 62"

lemma lookups_return:
  assumes "sane_libc c"
  shows "\<exists>r. getpwnamR c name = Some r" "\<exists>r. lookupGroup c gid = Some r"
proof -
  show "\<exists>r. getpwnamR c name = Some r"
    using assms unfolding getpwnamR_def
    by (intro erange_loop_returns) (auto simp: sane_libc_def buf_size_def)
  have "\<exists>r. getgrgidR c gid = Some r"
    using assms unfolding getgrgidR_def
    by (intro erange_loop_returns) (auto simp: sane_libc_def buf_size_def)
  then show "\<exists>r. lookupGroup c gid = Some r"
    by (auto simp: lookupGroup_def split: sum.splits)
qed

lemma supplementary_loop_returns:
  "sane_libc c \<Longrightarrow> \<exists>r. supplementary_loop c seen groups ids = Some r"
proof (induction c seen groups ids rule: supplementary_loop.induct)
  case (2 c seen groups g gs)
  then show ?case using lookups_return(2) [of c g] by (auto split: sum.splits)
qed simp

text \<open>First occurrences, in order: what skipping seen ids leaves.\<close>

fun first_occurrences :: "'a list \<Rightarrow> 'a list \<Rightarrow> 'a list" where
  "first_occurrences seen [] = []"
| "first_occurrences seen (x # xs) =
    (if x \<in> set seen then first_occurrences seen xs else x # first_occurrences (x # seen) xs)"

lemma set_first_occurrences: "set (first_occurrences seen xs) = set xs - set seen"
  by (induction seen xs rule: first_occurrences.induct) auto

lemma distinct_first_occurrences: "distinct (first_occurrences seen xs)"
  by (induction seen xs rule: first_occurrences.induct) (auto simp: set_first_occurrences)

lemma lookupGroup_Id: "lookupGroup c g = Some (Inr x) \<Longrightarrow> grp_Id x = g"
  by (auto simp: lookupGroup_def split: option.splits sum.splits)

lemma supplementary_loop_ids:
  "supplementary_loop c seen groups ids = Some (Inr r)
    \<Longrightarrow> map grp_Id r = map grp_Id groups @ first_occurrences seen ids"
proof (induction c seen groups ids arbitrary: r rule: supplementary_loop.induct)
  case (2 c seen groups g gs)
  show ?case
  proof (cases "g \<in> set seen")
    case True
    then show ?thesis using 2 by simp
  next
    case False
    then obtain x where x: "lookupGroup c g = Some (Inr x)"
      and "supplementary_loop c (g # seen) (groups @ [x]) gs = Some (Inr r)"
      using 2(3) by (auto split: option.splits sum.splits)
    then show ?thesis using 2(2) [OF False x refl] False lookupGroup_Id [OF x] by simp
  qed
qed simp

text \<open>
  C29: Resolving an account always returns, and the account it returns is consistent: it carries
  the entry the C library gave, the primary group is the group of that entry, and the
  supplementary groups are the listed groups without the primary one, each once and in the order
  of their first occurrence.
\<close>

theorem account_resolved:
  assumes "sane_libc c"
  shows "\<exists>r. OSResolver_Resolve c ctx_err username = Some r \<and>
    (case r of
       Inl _ \<Rightarrow> True
     | Inr a \<Rightarrow> \<exists>pwd ids. getpwnamR c username = Some (Inr pwd)
         \<and> getgrouplist c (pw_name pwd) (pw_gid pwd) = Inr ids
         \<and> acc_Username a = pw_name pwd \<and> acc_Id a = pw_uid pwd \<and> acc_HomeDir a = pw_dir pwd
         \<and> acc_LoginShell a = pw_shell pwd \<and> grp_Id (acc_PrimaryGroup a) = pw_gid pwd
         \<and> map grp_Id (acc_SupplementaryGroups a) = first_occurrences [pw_gid pwd] ids)"
proof -
  obtain rp where rp: "getpwnamR c username = Some rp" using lookups_return(1) [OF assms] by blast
  show ?thesis
  proof (cases "ctx_err = None \<and> \<not> isl rp")
    case False
    then show ?thesis using rp by (cases ctx_err; cases rp) (simp_all add: OSResolver_Resolve_def)
  next
    case True
    then obtain pwd where pwd: "ctx_err = None" "rp = Inr pwd" by (cases rp) auto
    obtain rg where rg: "lookupGroup c (pw_gid pwd) = Some rg" using lookups_return(2) [OF assms] by blast
    show ?thesis
    proof (cases rg)
      case (Inl e)
      then show ?thesis using rp pwd rg by (simp add: OSResolver_Resolve_def)
    next
      case (Inr g)
      have g: "grp_Id g = pw_gid pwd" using rg Inr lookupGroup_Id by simp
      have step: "OSResolver_Resolve c ctx_err username =
          (case lookupSupplementaryGroups c pwd (pw_gid pwd) of
             None \<Rightarrow> None
           | Some (Inl e) \<Rightarrow> Some (Inl (EWrap ''lookup supplementary groups for user'' e))
           | Some (Inr gs) \<Rightarrow> Some (Inr
              \<lparr>acc_Username = pw_name pwd, acc_Name = fst (Cut (CHR '','') (pw_gecos pwd)), acc_Id = pw_uid pwd,
               acc_PrimaryGroup = g, acc_SupplementaryGroups = gs,
               acc_HomeDir = pw_dir pwd, acc_LoginShell = pw_shell pwd\<rparr>))"
        using rp pwd rg Inr g by (simp add: OSResolver_Resolve_def case_prod_unfold Let_def split: option.splits sum.splits)
      obtain rs where rs: "lookupSupplementaryGroups c pwd (pw_gid pwd) = Some rs"
        using supplementary_loop_returns [OF assms]
        by (fastforce simp: lookupSupplementaryGroups_def split: sum.splits)
      then show ?thesis
        unfolding step using rp pwd(2) g supplementary_loop_ids [of c "[pw_gid pwd]" "[]"]
        by (cases rs) (auto simp: lookupSupplementaryGroups_def split: sum.splits)
    qed
  qed
qed

text \<open>A C library with one user in three groups; the first password buffer is too small.\<close>

definition example_libc :: libc where
  "example_libc =
    \<lparr>c_pw_size = 1024, c_gr_size = - 1, c_malloc = (\<lambda>_. True),
     c_getpwnam_r = (\<lambda>name size.
        if size < 2048 then CErange
        else if name = ''ann''
        then CEntry \<lparr>pw_name = ''ann'', pw_passwd = ''x'', pw_uid = 1000, pw_gid = 100, pw_gecos = ''Ann,,'',
                     pw_dir = ''/home/ann'', pw_shell = ''/bin/sh''\<rparr>
        else CNoEntry),
     c_getgrgid_r = (\<lambda>gid _. CEntry ''group''),
     c_getgrouplist = (\<lambda>_ _ _. (True, 4, [100, 7, 8, 7]))\<rparr>"

theorem account_resolved_witness:
  "\<exists>a. OSResolver_Resolve example_libc None ''ann'' = Some (Inr a)
     \<and> acc_HomeDir a = ''/home/ann'' \<and> map grp_Id (acc_SupplementaryGroups a) = [7, 8]"
proof -
  have sane: "sane_libc example_libc" by (simp add: sane_libc_def example_libc_def)
  have pw: "getpwnamR example_libc ''ann'' = Some (Inr
      \<lparr>pw_name = ''ann'', pw_passwd = ''x'', pw_uid = 1000, pw_gid = 100, pw_gecos = ''Ann,,'',
       pw_dir = ''/home/ann'', pw_shell = ''/bin/sh''\<rparr>)"
    by (simp add: getpwnamR_def example_libc_def buf_size_def erange_loop.simps long_double_def)
  have gr: "getgrgidR example_libc g = Some (Inr ''group'')" for g
    by (simp add: getgrgidR_def example_libc_def buf_size_def erange_loop.simps)
  have gl: "getgrouplist example_libc n g = Inr [100, 7, 8, 7]" for n g
    by (simp add: getgrouplist_def example_libc_def)
  have "\<exists>a. OSResolver_Resolve example_libc None ''ann'' = Some (Inr a)"
    by (simp add: OSResolver_Resolve_def pw lookupGroup_def gr lookupSupplementaryGroups_def gl)
  then show ?thesis
    using account_resolved [OF sane, of None "''ann''"] by (auto simp: pw gl)
qed

lemma ParseID_FormatID: "ParseID (FormatID n) = (n, None)"
  using FormatUint_digits [of "unat n"]
  by (simp add: ParseID_def FormatID_def IsASCIINumeric_def ParseUint32_FormatUint)

end
