(* ===== verification/Strictfiles.thy ===== *)
theory Strictfiles
  imports Go_Strings "HOL-Library.Multiset"
begin

unbundle bit_operations_syntax

text \<open>
  \<open>lib/strictfiles\<close> and \<open>app/securefiles\<close>: files opened through checked directories.  The kernel
  is a parameter: what each system call answers, as any function of the calls made so far.  The
  state the code threads is the log of its system calls with their answers, so that the
  properties can say which descriptors were opened, checked, read and closed, and in which order.
\<close>

section \<open>System calls\<close>

datatype oflag = O_CLOEXEC | O_NONBLOCK | O_DIRECTORY | O_NOFOLLOW | O_PATH

text \<open>The fields of \<open>unix.Stat_t\<close> the code reads; the size is a signed 64-bit number.\<close>

record Stat_t =
  st_Mode :: u32
  st_Uid :: u32
  st_Size :: int

datatype event =
    SOpen string "oflag set" "(goerr, nat) result"
  | SOpenat2 nat string "oflag set" "(goerr, nat) result"
  | SOpenat nat string "oflag set" "(goerr, nat) result"
  | SFstat nat "(goerr, Stat_t) result"
  | SRead nat "(goerr, bytes) result"
  | SClose nat "goerr option"

type_synonym log = "event list"

record kernel =
  k_open :: "log \<Rightarrow> string \<Rightarrow> oflag set \<Rightarrow> (goerr, nat) result"
  k_openat2 :: "log \<Rightarrow> nat \<Rightarrow> string \<Rightarrow> oflag set \<Rightarrow> (goerr, nat) result"
  k_openat :: "log \<Rightarrow> nat \<Rightarrow> string \<Rightarrow> oflag set \<Rightarrow> (goerr, nat) result"
  k_fstat :: "log \<Rightarrow> nat \<Rightarrow> (goerr, Stat_t) result"
  k_read :: "log \<Rightarrow> nat \<Rightarrow> (goerr, bytes) result"
  k_close :: "log \<Rightarrow> nat \<Rightarrow> goerr option"

definition sys_open :: "kernel \<Rightarrow> string \<Rightarrow> oflag set \<Rightarrow> log \<Rightarrow> (goerr, nat) result \<times> log" where
  "sys_open k path flags l = (let r = k_open k l path flags in (r, l @ [SOpen path flags r]))"

definition sys_openat2 :: "kernel \<Rightarrow> nat \<Rightarrow> string \<Rightarrow> oflag set \<Rightarrow> log \<Rightarrow> (goerr, nat) result \<times> log" where
  "sys_openat2 k fd name flags l =
    (let r = k_openat2 k l fd name flags in (r, l @ [SOpenat2 fd name flags r]))"

definition sys_openat :: "kernel \<Rightarrow> nat \<Rightarrow> string \<Rightarrow> oflag set \<Rightarrow> log \<Rightarrow> (goerr, nat) result \<times> log" where
  "sys_openat k fd name flags l =
    (let r = k_openat k l fd name flags in (r, l @ [SOpenat fd name flags r]))"

definition sys_fstat :: "kernel \<Rightarrow> nat \<Rightarrow> log \<Rightarrow> (goerr, Stat_t) result \<times> log" where
  "sys_fstat k fd l = (let r = k_fstat k l fd in (r, l @ [SFstat fd r]))"

definition sys_read :: "kernel \<Rightarrow> nat \<Rightarrow> log \<Rightarrow> (goerr, bytes) result \<times> log" where
  "sys_read k fd l = (let r = k_read k l fd in (r, l @ [SRead fd r]))"

definition sys_close :: "kernel \<Rightarrow> nat \<Rightarrow> log \<Rightarrow> goerr option \<times> log" where
  "sys_close k fd l = (let r = k_close k l fd in (r, l @ [SClose fd r]))"

definition EINVAL :: goerr where "EINVAL = EExternal 22"
definition EXDEV :: goerr where "EXDEV = EExternal 18"
definition ENOSYS :: goerr where "ENOSYS = EExternal 38"

section \<open>Checked files\<close>

text \<open>\<open>cf_fd = None\<close> is \<open>invalidFD\<close>.\<close>

record CheckedFile =
  cf_fd :: "nat option"
  cf_name :: string
  cf_open :: bool
  cf_st :: Stat_t

record CheckOptions =
  co_WantDir :: bool
  co_OwnerID :: u32
  co_AllowSymlinks :: bool
  co_AllowGlobalRead :: bool
  co_MaxSize :: u64

definition S_IFMT :: u32 where "S_IFMT = 0xF000"
definition S_IFDIR :: u32 where "S_IFDIR = 0x4000"
definition S_IFREG :: u32 where "S_IFREG = 0x8000"
definition S_IRGRP :: u32 where "S_IRGRP = 0x20"
definition S_IWGRP :: u32 where "S_IWGRP = 0x10"
definition S_IROTH :: u32 where "S_IROTH = 0x4"
definition S_IWOTH :: u32 where "S_IWOTH = 0x2"

definition checkStat :: "Stat_t \<Rightarrow> CheckOptions \<Rightarrow> goerr option" where
  "checkStat st opt =
    (let fileType = st_Mode st AND S_IFMT
     in if co_WantDir opt \<and> fileType \<noteq> S_IFDIR then Some (EErr ''expected directory'')
        else if \<not> co_WantDir opt \<and> fileType \<noteq> S_IFREG then Some (EErr ''expected regular file'')
        else if st_Uid st \<noteq> 0 \<and> st_Uid st \<noteq> co_OwnerID opt
        then Some (EErr ''owner uid is neither root nor expected uid'')
        else if st_Mode st AND (S_IWGRP OR S_IWOTH) \<noteq> 0
        then Some (EErr ''group or other write permission is set'')
        else if \<not> co_AllowGlobalRead opt \<and> st_Mode st AND (S_IRGRP OR S_IROTH) \<noteq> 0
        then Some (EErr ''group or other read permission is set'')
        else if co_MaxSize opt \<noteq> 0 \<and> (st_Size st < 0 \<or> st_Size st > uint (co_MaxSize opt))
        then Some (EErr ''size exceeds maximum'')
        else None)"

definition checkOpened ::
    "kernel \<Rightarrow> nat \<Rightarrow> string \<Rightarrow> CheckOptions \<Rightarrow> log \<Rightarrow> (goerr, CheckedFile) result \<times> log" where
  "checkOpened k fd name opt l =
    (case sys_fstat k fd l of
       (Inl e, l1) \<Rightarrow> (Inl (EWrap ''stat opened file'' e), snd (sys_close k fd l1))
     | (Inr st, l1) \<Rightarrow>
    (case checkStat st opt of
       Some e \<Rightarrow> (Inl (EWrap ''check opened file'' e), snd (sys_close k fd l1))
     | None \<Rightarrow> (Inr \<lparr>cf_fd = Some fd, cf_name = name, cf_open = True, cf_st = st\<rparr>, l1)))"

definition openChecked ::
    "kernel \<Rightarrow> string \<Rightarrow> oflag set \<Rightarrow> CheckOptions \<Rightarrow> log \<Rightarrow> (goerr, CheckedFile) result \<times> log" where
  "openChecked k path oflags opt l =
    (let flags = oflags \<union> {O_CLOEXEC, O_NONBLOCK}
                   \<union> (if co_WantDir opt then {O_DIRECTORY} else {})
                   \<union> (if \<not> co_AllowSymlinks opt then {O_NOFOLLOW} else {})
     in case sys_open k path flags l of
          (Inl e, l1) \<Rightarrow> (Inl (EWrap ''open'' e), l1)
        | (Inr fd, l1) \<Rightarrow> checkOpened k fd path opt l1)"

definition OpenDirWithOptions ::
    "kernel \<Rightarrow> string \<Rightarrow> CheckOptions \<Rightarrow> log \<Rightarrow> (goerr, CheckedFile) result \<times> log" where
  "OpenDirWithOptions k path opt l = openChecked k path {O_PATH} (opt\<lparr>co_WantDir := True\<rparr>) l"

definition OpenDir :: "kernel \<Rightarrow> u32 \<Rightarrow> string \<Rightarrow> log \<Rightarrow> (goerr, CheckedFile) result \<times> log" where
  "OpenDir k euid path l =
    OpenDirWithOptions k path
      \<lparr>co_WantDir = True, co_OwnerID = euid, co_AllowSymlinks = True, co_AllowGlobalRead = True,
       co_MaxSize = 0\<rparr> l"

definition OpenFile ::
    "kernel \<Rightarrow> string \<Rightarrow> CheckOptions \<Rightarrow> log \<Rightarrow> (goerr, CheckedFile) result \<times> log" where
  "OpenFile k path opt l = openChecked k path {} (opt\<lparr>co_WantDir := False\<rparr>) l"

section \<open>Opening beneath a directory\<close>

definition close_if :: "kernel \<Rightarrow> bool \<Rightarrow> nat \<Rightarrow> log \<Rightarrow> log" where
  "close_if k owned fd l = (if owned then snd (sys_close k fd l) else l)"

fun path_components :: "string list \<Rightarrow> string list option" where
  "path_components [] = Some []"
| "path_components (component # rest) =
    (if component = [] \<or> component = ''.'' then path_components rest
     else if component = ''..'' then None
     else map_option (Cons component) (path_components rest))"

fun open_dirs ::
    "kernel \<Rightarrow> nat \<Rightarrow> bool \<Rightarrow> string list \<Rightarrow> log \<Rightarrow> (goerr, nat \<times> bool) result \<times> log" where
  "open_dirs k currentFD ownsCurrent [] l = (Inr (currentFD, ownsCurrent), l)"
| "open_dirs k currentFD ownsCurrent (component # rest) l =
    (case sys_openat k currentFD component {O_PATH, O_DIRECTORY, O_NOFOLLOW, O_CLOEXEC} l of
       (Inl e, l1) \<Rightarrow> (Inl e, close_if k ownsCurrent currentFD l1)
     | (Inr nextFD, l1) \<Rightarrow> open_dirs k nextFD True rest (close_if k ownsCurrent currentFD l1))"

definition openAtNoSymlinks ::
    "kernel \<Rightarrow> nat \<Rightarrow> string \<Rightarrow> oflag set \<Rightarrow> log \<Rightarrow> (goerr, nat) result \<times> log" where
  "openAtNoSymlinks k dirfd name flags l =
    (if name = [] \<or> HasPrefix name ''/'' then (Inl EINVAL, l)
     else case path_components (Split slash name) of
       None \<Rightarrow> (Inl EXDEV, l)
     | Some [] \<Rightarrow> sys_openat k dirfd ''.'' flags l
     | Some components \<Rightarrow>
    (case open_dirs k dirfd False (butlast components) l of
       (Inl e, l1) \<Rightarrow> (Inl e, l1)
     | (Inr (currentFD, ownsCurrent), l1) \<Rightarrow>
         (let (r, l2) = sys_openat k currentFD (last components) flags l1
          in (r, close_if k ownsCurrent currentFD l2))))"

definition openat_flags :: "CheckOptions \<Rightarrow> oflag set" where
  "openat_flags opt = {O_CLOEXEC, O_NONBLOCK, O_NOFOLLOW} \<union> (if co_WantDir opt then {O_DIRECTORY} else {})"

definition OpenAt ::
    "kernel \<Rightarrow> CheckedFile \<Rightarrow> string \<Rightarrow> CheckOptions \<Rightarrow> log \<Rightarrow> (goerr, CheckedFile) result \<times> log" where
  "OpenAt k cf name opt l =
    (if \<not> cf_open cf then (Inl (EErr ''open relative to closed directory''), l)
     else if st_Mode (cf_st cf) AND S_IFMT \<noteq> S_IFDIR then (Inl (EErr ''open relative to non-directory''), l)
     else if co_AllowSymlinks opt then (Inl (EErr ''OpenAt does not allow symlinks''), l)
     else
       let fd = the (cf_fd cf);
           flags = openat_flags opt;
           (r1, l1) = sys_openat2 k fd name flags l;
           (r, l2) = (if (case r1 of Inl e \<Rightarrow> goerr_Is e ENOSYS | Inr _ \<Rightarrow> False) then openAtNoSymlinks k fd name flags l1 else (r1, l1))
       in case r of
            Inl e \<Rightarrow> (Inl (EWrap ''open beneath'' e), l2)
          | Inr fd \<Rightarrow> checkOpened k fd name opt l2)"

definition CheckedFile_Close ::
    "kernel \<Rightarrow> CheckedFile \<Rightarrow> log \<Rightarrow> goerr option \<times> CheckedFile \<times> log" where
  "CheckedFile_Close k cf l =
    (if \<not> cf_open cf then (None, cf, l)
     else let (e, l1) = sys_close k (the (cf_fd cf)) l
          in (map_option (EWrap ''close'') e, cf\<lparr>cf_open := False, cf_fd := None\<rparr>, l1))"

definition ToFile :: "CheckedFile \<Rightarrow> nat option \<times> CheckedFile" where
  "ToFile cf =
    (if \<not> cf_open cf then (None, cf) else (cf_fd cf, cf\<lparr>cf_open := False, cf_fd := None\<rparr>))"

section \<open>Secure reads\<close>

record Policy =
  pol_OwnerID :: u32
  pol_MaxSize :: u64
  pol_AllowGlobalRead :: bool

definition cleanComponents :: "string \<Rightarrow> string list" where
  "cleanComponents path = (case path_components (Split slash (Clean path)) of None \<Rightarrow> [] | Some cs \<Rightarrow> cs)"

definition dir_options :: "Policy \<Rightarrow> CheckOptions" where
  "dir_options policy =
    \<lparr>co_WantDir = True, co_OwnerID = pol_OwnerID policy, co_AllowSymlinks = False,
     co_AllowGlobalRead = True, co_MaxSize = 0\<rparr>"

definition file_options :: "Policy \<Rightarrow> CheckOptions" where
  "file_options policy =
    \<lparr>co_WantDir = False, co_OwnerID = pol_OwnerID policy, co_AllowSymlinks = False,
     co_AllowGlobalRead = pol_AllowGlobalRead policy, co_MaxSize = pol_MaxSize policy\<rparr>"

text \<open>The descent through the directories; every failing exit runs the deferred \<open>current.Close()\<close>.\<close>

fun descend ::
    "kernel \<Rightarrow> Policy \<Rightarrow> CheckedFile \<Rightarrow> string list \<Rightarrow> log \<Rightarrow> (goerr, CheckedFile) result \<times> log" where
  "descend k policy current [] l = (Inr current, l)"
| "descend k policy current (component # rest) l =
    (case OpenAt k current component (dir_options policy) l of
       (Inl e, l1) \<Rightarrow>
         (Inl (EWrap ''open secure file directory'' e), snd (snd (CheckedFile_Close k current l1)))
     | (Inr nxt, l1) \<Rightarrow>
    (case CheckedFile_Close k current l1 of
       (Some e, _, l2) \<Rightarrow> (Inl e, snd (snd (CheckedFile_Close k nxt l2)))
     | (None, _, l2) \<Rightarrow> descend k policy nxt rest l2))"

text \<open>The limit of the reader is the signed reading of the 64-bit maximum plus one, which wraps.\<close>

definition read_limit :: "u64 \<Rightarrow> int" where
  "read_limit m = sint (m + 1)"

definition read_checked :: "kernel \<Rightarrow> Policy \<Rightarrow> CheckedFile \<Rightarrow> string \<Rightarrow> log \<Rightarrow> (goerr, bytes) result \<times> log" where
  "read_checked k policy current name l =
    (case OpenAt k current name (file_options policy) l of
       (Inl e, l1) \<Rightarrow> (Inl (EWrap ''open secure file'' e), l1)
     | (Inr checked, l1) \<Rightarrow>
    (case fst (ToFile checked) of
       None \<Rightarrow> (Inl (EErr ''secure file descriptor is unavailable''), l1)
     | Some file \<Rightarrow>
         (let (r, l2) = sys_read k file l1;
              res = (case r of
                  Inl e \<Rightarrow> Inl (EWrap ''read secure file'' e)
                | Inr b \<Rightarrow>
                    (let contents = take (nat (read_limit (pol_MaxSize policy))) b
                     in if length contents > unat (pol_MaxSize policy)
                        then Inl (EErr ''secure file exceeds maximum size'')
                        else Inr contents))
          in (res, snd (sys_close k file l2)))))"

definition secure_Read :: "kernel \<Rightarrow> string \<Rightarrow> string \<Rightarrow> Policy \<Rightarrow> log \<Rightarrow> (goerr, bytes) result \<times> log" where
  "secure_Read k anchorPath relativePath policy l =
    (if anchorPath = [] then (Inl (EErr ''secure file anchor is required''), l)
     else if relativePath = [] \<or> IsAbs relativePath
     then (Inl (EErr ''secure file path must be relative to its anchor''), l)
     else if pol_MaxSize policy = 0 then (Inl (EErr ''secure file maximum size is required''), l)
     else
       let components = cleanComponents relativePath
       in if components = [] then (Inl (EErr ''secure file path is empty''), l)
          else case OpenDirWithOptions k anchorPath
                      \<lparr>co_WantDir = False, co_OwnerID = pol_OwnerID policy, co_AllowSymlinks = True,
                       co_AllowGlobalRead = True, co_MaxSize = 0\<rparr> l of
            (Inl e, l1) \<Rightarrow> (Inl (EWrap ''open secure file anchor'' e), l1)
          | (Inr anchor, l1) \<Rightarrow>
         (case descend k policy anchor (butlast components) l1 of
            (Inl e, l2) \<Rightarrow> (Inl e, l2)
          | (Inr current, l2) \<Rightarrow>
              (let (r, l3) = read_checked k policy current (last components) l2
               in (r, snd (snd (CheckedFile_Close k current l3))))))"

section \<open>Descriptors are balanced\<close>

text \<open>\<open>net l x\<close>: how often descriptor \<open>x\<close> was opened and not closed in \<open>l\<close>.\<close>

primrec acquires :: "nat \<Rightarrow> event \<Rightarrow> int" where
  "acquires x (SOpen _ _ r) = of_bool (r = Inr x)"
| "acquires x (SOpenat2 _ _ _ r) = of_bool (r = Inr x)"
| "acquires x (SOpenat _ _ _ r) = of_bool (r = Inr x)"
| "acquires x (SFstat _ _) = 0"
| "acquires x (SRead _ _) = 0"
| "acquires x (SClose fd _) = - of_bool (fd = x)"

definition net :: "log \<Rightarrow> nat \<Rightarrow> int" where
  "net l x = sum_list (map (acquires x) l)"

lemma net_snoc [simp]: "net (l @ [e]) x = net l x + acquires x e"
  by (simp add: net_def)

lemma close_net [simp]:
  "net (snd (sys_close k fd l)) x = net l x - of_bool (fd = x)"
  "net (close_if k owned fd l) x = net l x - of_bool (owned \<and> fd = x)"
  by (simp_all add: sys_close_def close_if_def Let_def)

lemma sys_net:
  "sys_open k path flags l = (r, l') \<Longrightarrow> net l' x = net l x + of_bool (r = Inr x)"
  "sys_openat2 k fd name flags l = (r, l') \<Longrightarrow> net l' x = net l x + of_bool (r = Inr x)"
  "sys_openat k fd name flags l = (r, l') \<Longrightarrow> net l' x = net l x + of_bool (r = Inr x)"
  "sys_fstat k fd l = (s, l') \<Longrightarrow> net l' x = net l x"
  "sys_read k fd l = (b, l') \<Longrightarrow> net l' x = net l x"
  by (auto simp: sys_open_def sys_openat2_def sys_openat_def sys_fstat_def sys_read_def Let_def)

text \<open>What an open that succeeds hands over: an open file that owns one descriptor.\<close>

definition holds :: "(goerr, CheckedFile) result \<Rightarrow> nat \<Rightarrow> int" where
  "holds r x = (case r of Inl _ \<Rightarrow> 0 | Inr cf \<Rightarrow> of_bool (cf_fd cf = Some x))"

definition live :: "CheckedFile \<Rightarrow> bool" where
  "live cf \<longleftrightarrow> cf_open cf \<and> cf_fd cf \<noteq> None"

lemma checkOpened_net:
  assumes "checkOpened k fd name opt l = (r, l')"
  shows "net l' x = net l x - of_bool (fd = x) + holds r x"
    and "r = Inr cf \<Longrightarrow> live cf \<and> checkStat (cf_st cf) opt = None"
  using assms sys_net(4) [of k fd l]
  by (auto simp: checkOpened_def holds_def live_def split: prod.splits sum.splits option.splits)

lemma openChecked_net:
  assumes "openChecked k path oflags opt l = (r, l')"
  shows "net l' x = net l x + holds r x"
    and "r = Inr cf \<Longrightarrow> live cf \<and> checkStat (cf_st cf) opt = None"
proof -
  let ?flags = "oflags \<union> {O_CLOEXEC, O_NONBLOCK} \<union> (if co_WantDir opt then {O_DIRECTORY} else {})
    \<union> (if \<not> co_AllowSymlinks opt then {O_NOFOLLOW} else {})"
  obtain r1 l1 where o: "sys_open k path ?flags l = (r1, l1)" by fastforce
  have n: "net l1 x = net l x + of_bool (r1 = Inr x)" by (rule sys_net(1) [OF o])
  have "net l' x = net l x + holds r x \<and> (r = Inr cf \<longrightarrow> live cf \<and> checkStat (cf_st cf) opt = None)"
  proof (cases r1)
    case (Inl e)
    then show ?thesis using assms o n by (auto simp: openChecked_def Let_def holds_def)
  next
    case (Inr fd)
    then have c: "checkOpened k fd path opt l1 = (r, l')"
      using assms o by (simp add: openChecked_def Let_def)
    show ?thesis using checkOpened_net [OF c] n Inr by auto
  qed
  then show "net l' x = net l x + holds r x"
    and "r = Inr cf \<Longrightarrow> live cf \<and> checkStat (cf_st cf) opt = None" by auto
qed

lemma open_dirs_net:
  "open_dirs k cur owns cs l = (r, l')
    \<Longrightarrow> net l' x = net l x - of_bool (owns \<and> cur = x)
          + (case r of Inl _ \<Rightarrow> 0 | Inr (fd, own) \<Rightarrow> of_bool (own \<and> fd = x))"
proof (induction k cur owns cs l arbitrary: r l' rule: open_dirs.induct)
  case (1 k cur owns l)
  then show ?case by auto
next
  case (2 k cur owns c cs l)
  obtain r1 l1 where o: "sys_openat k cur c {O_PATH, O_DIRECTORY, O_NOFOLLOW, O_CLOEXEC} l = (r1, l1)"
    by fastforce
  note n = sys_net(3) [OF o, of x]
  show ?case
  proof (cases r1)
    case (Inl e)
    then show ?thesis using 2(2) o n by auto
  next
    case (Inr fd)
    then show ?thesis
      using 2(1) [OF o [symmetric] Inr, of r l'] 2(2) o n by simp
  qed
qed

lemma openAtNoSymlinks_net:
  assumes "openAtNoSymlinks k dirfd name flags l = (r, l')"
  shows "net l' x = net l x + of_bool (r = Inr x)"
proof (cases "path_components (Split slash name)")
  case None
  then show ?thesis using assms by (auto simp: openAtNoSymlinks_def split: if_splits)
next
  case (Some cs)
  obtain r1 l1 where o: "open_dirs k dirfd False (butlast cs) l = (r1, l1)" by fastforce
  note n = open_dirs_net [OF o, of x]
  show ?thesis
    using assms Some o n sys_net(3)
    by (auto simp: openAtNoSymlinks_def split: if_splits list.splits sum.splits prod.splits)
qed

lemma OpenAt_net:
  assumes "OpenAt k cf name opt l = (r, l')"
  shows "net l' x = net l x + holds r x"
    and "r = Inr cf' \<Longrightarrow> live cf' \<and> checkStat (cf_st cf') opt = None"
proof -
  let ?flags = "openat_flags opt"
  obtain r1 l1 where o: "sys_openat2 k (the (cf_fd cf)) name ?flags l = (r1, l1)" by fastforce
  define again where "again = (case r1 of Inl e \<Rightarrow> goerr_Is e ENOSYS | Inr _ \<Rightarrow> False)"
  obtain r2 l2 where p: "(if again then openAtNoSymlinks k (the (cf_fd cf)) name ?flags l1 else (r1, l1)) = (r2, l2)"
    by fastforce
  have n: "net l2 x = net l x + of_bool (r2 = Inr x)"
    using sys_net(2) [OF o, of x] p openAtNoSymlinks_net [of k "the (cf_fd cf)" name ?flags l1 r2 l2 x]
    by (cases r1) (auto simp: again_def split: if_splits)
  have "net l' x = net l x + holds r x \<and> (r = Inr cf' \<longrightarrow> live cf' \<and> checkStat (cf_st cf') opt = None)"
  proof (cases "\<not> cf_open cf \<or> st_Mode (cf_st cf) AND S_IFMT \<noteq> S_IFDIR \<or> co_AllowSymlinks opt")
    case True
    then show ?thesis using assms by (auto simp: OpenAt_def holds_def split: if_splits)
  next
    case False
    then have eq: "(case r2 of Inl e \<Rightarrow> (Inl (EWrap ''open beneath'' e), l2)
        | Inr fd \<Rightarrow> checkOpened k fd name opt l2) = (r, l')"
      using assms o p by (cases again) (auto simp: OpenAt_def Let_def again_def)
    show ?thesis
    proof (cases r2)
      case (Inl e)
      then show ?thesis using eq n by (auto simp: holds_def)
    next
      case (Inr fd)
      then have c: "checkOpened k fd name opt l2 = (r, l')" using eq by simp
      show ?thesis using checkOpened_net [OF c] n Inr by auto
    qed
  qed
  then show "net l' x = net l x + holds r x"
    and "r = Inr cf' \<Longrightarrow> live cf' \<and> checkStat (cf_st cf') opt = None" by auto
qed

lemma Close_net:
  "live cf \<Longrightarrow> CheckedFile_Close k cf l = (e, cf', l') \<Longrightarrow> net l' x = net l x - of_bool (cf_fd cf = Some x)"
  by (auto simp: CheckedFile_Close_def live_def sys_close_def Let_def)

lemma descend_net:
  "descend k policy cur cs l = (r, l') \<Longrightarrow> live cur
    \<Longrightarrow> net l' x = net l x - of_bool (cf_fd cur = Some x) + holds r x
      \<and> (\<forall>cf. r = Inr cf \<longrightarrow> live cf)"
proof (induction k policy cur cs l arbitrary: r l' rule: descend.induct)
  case (1 k policy cur l)
  then show ?case by (auto simp: holds_def)
next
  case (2 k policy cur c cs l)
  obtain r1 l1 where o: "OpenAt k cur c (dir_options policy) l = (r1, l1)" by fastforce
  obtain e1 cur' l2 where cl: "CheckedFile_Close k cur l1 = (e1, cur', l2)" by (metis prod_cases3)
  note n1 = OpenAt_net [OF o] and n2 = Close_net [OF 2(3) cl, of x]
  show ?case
  proof (cases r1)
    case (Inl e)
    then show ?thesis using 2(2) o cl n1(1) [of x] n2 by (auto simp: holds_def)
  next
    case (Inr nxt)
    have lv: "live nxt" using n1(2) [OF Inr] by simp
    show ?thesis
    proof (cases e1)
      case None
      have d: "descend k policy nxt cs l2 = (r, l')" using 2(2) o cl Inr None by simp
      have "net l' x = net l2 x - of_bool (cf_fd nxt = Some x) + holds r x \<and> (\<forall>cf. r = Inr cf \<longrightarrow> live cf)"
        using 2(1) [OF o [symmetric] Inr cl [symmetric] None refl d lv] .
      then show ?thesis using n1(1) [of x] n2 Inr by (auto simp: holds_def)
    next
      case (Some e)
      obtain e3 n3 l3 where cl3: "CheckedFile_Close k nxt l2 = (e3, n3, l3)" by (metis prod_cases3)
      have "r = Inl e" "l' = l3" using 2(2) o cl Inr Some cl3 by auto
      then show ?thesis
        using Close_net [OF lv cl3, of x] n1(1) [of x] n2 Inr by (auto simp: holds_def)
    qed
  qed
qed

lemma read_checked_net:
  assumes "read_checked k policy cur name l = (r, l')"
  shows "net l' x = net l x"
proof -
  obtain r1 l1 where o: "OpenAt k cur name (file_options policy) l = (r1, l1)" by fastforce
  note n1 = OpenAt_net [OF o]
  show ?thesis
  proof (cases r1)
    case (Inl e)
    then show ?thesis using assms o n1(1) [of x] by (auto simp: read_checked_def holds_def)
  next
    case (Inr cf)
    then obtain fd where fd: "cf_open cf" "cf_fd cf = Some fd" using n1(2) by (auto simp: live_def)
    obtain b l2 where rd: "sys_read k fd l1 = (b, l2)" by fastforce
    show ?thesis
      using assms o Inr fd rd n1(1) [of x] sys_net(5) [OF rd, of x]
      by (auto simp: read_checked_def ToFile_def Let_def holds_def)
  qed
qed

text \<open>
  C26: A secure read leaks no descriptor: on every path, whatever the kernel answers, each
  descriptor it opened (anchor, directories, their fallback steps, the file) is closed exactly
  once by the time it returns.
\<close>

theorem secure_read_balanced:
  "net (snd (secure_Read k anchorPath relativePath policy l)) x = net l x"
proof -
  let ?opt = "\<lparr>co_WantDir = False, co_OwnerID = pol_OwnerID policy, co_AllowSymlinks = True,
                       co_AllowGlobalRead = True, co_MaxSize = 0\<rparr>"
  let ?cs = "cleanComponents relativePath"
  obtain r1 l1 where o: "OpenDirWithOptions k anchorPath ?opt l = (r1, l1)" by fastforce
  note n1 = openChecked_net [OF o [unfolded OpenDirWithOptions_def]]
  show ?thesis
  proof (cases r1)
    case (Inl e)
    then show ?thesis using o n1(1) [of x] by (simp add: secure_Read_def Let_def holds_def)
  next
    case (Inr anchor)
    have lv: "live anchor" using n1(2) [OF Inr] by simp
    obtain r2 l2 where d: "descend k policy anchor (butlast ?cs) l1 = (r2, l2)" by fastforce
    note n2 = descend_net [OF d lv, of x]
    show ?thesis
    proof (cases r2)
      case (Inl e)
      then show ?thesis using o Inr d n1(1) [of x] n2 by (simp add: secure_Read_def Let_def holds_def)
    next
      case (Inr current)
      obtain r3 l3 where rc: "read_checked k policy current (last ?cs) l2 = (r3, l3)" by fastforce
      obtain e4 c4 l4 where cl: "CheckedFile_Close k current l3 = (e4, c4, l4)" by (metis prod_cases3)
      have "live current" using n2 Inr by simp
      from Close_net [OF this cl, of x] show ?thesis
        using o \<open>r1 = Inr anchor\<close> d Inr rc cl n1(1) [of x] n2 read_checked_net [OF rc, of x]
        by (simp add: secure_Read_def Let_def holds_def)
    qed
  qed
qed

section \<open>Every step is checked\<close>

text \<open>
  What a log shows: the metadata read from descriptors, the names opened beneath a directory, and
  that no such open follows a symbolic link.
\<close>

fun ev_stats :: "event \<Rightarrow> Stat_t list" where
  "ev_stats (SFstat _ (Inr st)) = [st]"
| "ev_stats _ = []"

fun ev_names :: "event \<Rightarrow> string list" where
  "ev_names (SOpenat2 _ name _ _) = [name]"
| "ev_names _ = []"

fun ev_nofollow :: "event \<Rightarrow> bool" where
  "ev_nofollow (SOpenat2 _ _ flags _) = (O_NOFOLLOW \<in> flags)"
| "ev_nofollow (SOpenat _ _ flags _) = (O_NOFOLLOW \<in> flags)"
| "ev_nofollow _ = True"

definition stats :: "log \<Rightarrow> Stat_t list" where
  "stats l = concat (map ev_stats l)"

definition names_below :: "log \<Rightarrow> string list" where
  "names_below l = concat (map ev_names l)"

text \<open>\<open>grown l l' ss ns\<close>: the log grew by reads of metadata \<open>ss\<close> and opens of \<open>ns\<close>, none following links.\<close>

definition grown :: "log \<Rightarrow> log \<Rightarrow> Stat_t list \<Rightarrow> string list \<Rightarrow> bool" where
  "grown l l' ss ns \<longleftrightarrow> stats l' = stats l @ ss \<and> names_below l' = names_below l @ ns
     \<and> (list_all ev_nofollow l \<longrightarrow> list_all ev_nofollow l')"

lemma grown_refl [simp]: "grown l l [] []"
  by (simp add: grown_def)

lemma grown_trans: "grown l l1 ss ns \<Longrightarrow> grown l1 l2 ss' ns' \<Longrightarrow> grown l l2 (ss @ ss') (ns @ ns')"
  by (auto simp: grown_def)

lemma grown_snoc: "ev_nofollow e \<Longrightarrow> grown l (l @ [e]) (ev_stats e) (ev_names e)"
  by (simp add: grown_def stats_def names_below_def)

lemma grown_close [simp]:
  "grown l (snd (sys_close k fd l)) [] []" "grown l (close_if k owned fd l) [] []"
  using grown_snoc [of "SClose fd (k_close k l fd)" l]
  by (simp_all add: sys_close_def close_if_def Let_def)

lemma grown_Close: "grown l (snd (snd (CheckedFile_Close k cf l))) [] []"
  using grown_close(1) [of l k "the (cf_fd cf)"] by (simp add: CheckedFile_Close_def case_prod_unfold Let_def)

lemma grown_openat:
  "O_NOFOLLOW \<in> flags \<Longrightarrow> sys_openat k fd name flags l = (r, l') \<Longrightarrow> grown l l' [] []"
  "O_NOFOLLOW \<in> flags \<Longrightarrow> sys_openat2 k fd name flags l = (r, l') \<Longrightarrow> grown l l' [] [name]"
  using grown_snoc [of "SOpenat fd name flags r" l] grown_snoc [of "SOpenat2 fd name flags r" l]
  by (auto simp: sys_openat_def sys_openat2_def Let_def)

lemma grown_checkOpened:
  "checkOpened k fd name opt l = (Inr cf, l')
    \<Longrightarrow> grown l l' [cf_st cf] [] \<and> checkStat (cf_st cf) opt = None"
  using grown_snoc [of "SFstat fd (k_fstat k l fd)" l]
  by (auto simp: checkOpened_def sys_fstat_def Let_def split: sum.splits option.splits)

lemma grown_open_dirs: "open_dirs k cur owns cs l = (r, l') \<Longrightarrow> grown l l' [] []"
proof (induction k cur owns cs l arbitrary: r l' rule: open_dirs.induct)
  case (1 k cur owns l)
  then show ?case by auto
next
  case (2 k cur owns c cs l)
  let ?f = "{O_PATH, O_DIRECTORY, O_NOFOLLOW, O_CLOEXEC}"
  obtain r1 l1 where o: "sys_openat k cur c ?f l = (r1, l1)" by fastforce
  have g1: "grown l l1 [] []" by (rule grown_openat(1) [OF _ o]) simp
  have g2: "grown l (close_if k owns cur l1) [] []"
    using grown_trans [OF g1 grown_close(2)] by simp
  show ?case
  proof (cases r1)
    case (Inl e)
    then show ?thesis using 2(2) o g2 by auto
  next
    case (Inr fd)
    then have "grown (close_if k owns cur l1) l' [] []"
      using 2(1) [OF o [symmetric] Inr, of r l'] 2(2) o by simp
    then show ?thesis using grown_trans [OF g2] by fastforce
  qed
qed

lemma grown_openAtNoSymlinks:
  assumes "openAtNoSymlinks k dirfd name flags l = (r, l')" and "O_NOFOLLOW \<in> flags"
  shows "grown l l' [] []"
proof (cases "\<exists>c cs. path_components (Split slash name) = Some (c # cs)")
  case False
  then show ?thesis
    using assms grown_openat(1) [OF assms(2), of k dirfd "''.''" l r l']
    by (auto simp: openAtNoSymlinks_def split: if_splits option.splits list.splits)
next
  case True
  then obtain c cs where cs: "path_components (Split slash name) = Some (c # cs)" by blast
  obtain r1 l1 where o: "open_dirs k dirfd False (butlast (c # cs)) l = (r1, l1)" by fastforce
  note g1 = grown_open_dirs [OF o]
  show ?thesis
  proof (cases "name = [] \<or> HasPrefix name ''/'' \<or> isl r1")
    case True
    then show ?thesis using assms cs o g1 by (cases r1) (auto simp: openAtNoSymlinks_def split: if_splits)
  next
    case False
    then obtain cur own where r1: "r1 = Inr (cur, own)" by (cases r1) auto
    obtain r2 l2 where p: "sys_openat k cur (last (c # cs)) flags l1 = (r2, l2)" by fastforce
    have "l' = close_if k own cur l2"
      using assms False cs o r1 p by (simp add: openAtNoSymlinks_def split: if_splits)
    then show ?thesis
      using grown_trans [OF grown_trans [OF g1 grown_openat(1) [OF assms(2) p]] grown_close(2)] by simp
  qed
qed

lemma grown_OpenAt:
  assumes "OpenAt k cf name opt l = (Inr cf', l')"
  shows "grown l l' [cf_st cf'] [name] \<and> checkStat (cf_st cf') opt = None"
proof -
  let ?flags = "openat_flags opt"
  have nf: "O_NOFOLLOW \<in> ?flags" by (simp add: openat_flags_def)
  obtain r1 l1 where o: "sys_openat2 k (the (cf_fd cf)) name ?flags l = (r1, l1)" by fastforce
  define again where "again = (case r1 of Inl e \<Rightarrow> goerr_Is e ENOSYS | Inr _ \<Rightarrow> False)"
  obtain r2 l2 where p: "(if again then openAtNoSymlinks k (the (cf_fd cf)) name ?flags l1 else (r1, l1)) = (r2, l2)"
    by fastforce
  have g: "grown l1 l2 [] []"
    using p grown_openAtNoSymlinks [OF _ nf, of k "the (cf_fd cf)" name l1 r2 l2] by (auto split: if_splits)
  have "(case r2 of Inl e \<Rightarrow> (Inl (EWrap ''open beneath'' e), l2)
        | Inr fd \<Rightarrow> checkOpened k fd name opt l2) = (Inr cf', l')"
    using assms o p by (cases again) (auto simp: OpenAt_def Let_def again_def split: if_splits)
  then obtain fd where c: "checkOpened k fd name opt l2 = (Inr cf', l')" by (cases r2) auto
  show ?thesis
    using grown_trans [OF grown_trans [OF grown_openat(2) [OF nf o] g]] grown_checkOpened [OF c] by fastforce
qed

lemma grown_descend:
  "descend k policy cur cs l = (Inr cf, l')
    \<Longrightarrow> \<exists>ss. grown l l' ss cs \<and> length ss = length cs \<and> list_all (\<lambda>st. checkStat st (dir_options policy) = None) ss"
proof (induction k policy cur cs l rule: descend.induct)
  case (1 k policy cur l)
  then show ?case by (auto intro!: exI [of _ "[]"])
next
  case (2 k policy cur c cs l)
  obtain nxt l1 where o: "OpenAt k cur c (dir_options policy) l = (Inr nxt, l1)"
    using 2(2) by (auto split: prod.splits sum.splits)
  obtain cur' l2 where cl: "CheckedFile_Close k cur l1 = (None, cur', l2)"
    using 2(2) o by (auto split: prod.splits option.splits)
  have d: "descend k policy nxt cs l2 = (Inr cf, l')" using 2(2) o cl by simp
  from 2(1) [OF o [symmetric] refl cl [symmetric] refl refl d] obtain ss where
    ss: "grown l2 l' ss cs" "length ss = length cs" "list_all (\<lambda>st. checkStat st (dir_options policy) = None) ss" by blast
  note g1 = grown_OpenAt [OF o]
  have g2: "grown l1 l2 [] []" using grown_Close [of l1 k cur] cl by simp
  have "grown l l' (([cf_st nxt] @ []) @ ss) (([c] @ []) @ cs)"
    using grown_trans [OF grown_trans [OF conjunct1 [OF g1] g2] ss(1)] .
  then show ?case using ss g1 by (intro exI [of _ "cf_st nxt # ss"]) simp
qed

lemma grown_openChecked:
  assumes "openChecked k path oflags opt l = (Inr cf, l')"
  shows "grown l l' [cf_st cf] [] \<and> checkStat (cf_st cf) opt = None"
proof -
  let ?flags = "oflags \<union> {O_CLOEXEC, O_NONBLOCK} \<union> (if co_WantDir opt then {O_DIRECTORY} else {})
    \<union> (if \<not> co_AllowSymlinks opt then {O_NOFOLLOW} else {})"
  obtain fd l1 where o: "sys_open k path ?flags l = (Inr fd, l1)"
    and c: "checkOpened k fd path opt l1 = (Inr cf, l')"
    using assms by (auto simp: openChecked_def Let_def split: prod.splits sum.splits)
  have "grown l l1 [] []"
    using o grown_snoc [of "SOpen path ?flags (Inr fd)" l] by (auto simp: sys_open_def Let_def)
  then show ?thesis using grown_trans grown_checkOpened [OF c] by fastforce
qed

lemma grown_read_checked:
  assumes "read_checked k policy cur name l = (Inr contents, l')"
  shows "\<exists>st. grown l l' [st] [name] \<and> checkStat st (file_options policy) = None
    \<and> length contents \<le> unat (pol_MaxSize policy)"
proof -
  obtain cf l1 where o: "OpenAt k cur name (file_options policy) l = (Inr cf, l1)"
    using assms by (auto simp: read_checked_def split: prod.splits sum.splits)
  obtain fd where f: "fst (ToFile cf) = Some fd"
    using assms o by (auto simp: read_checked_def split: option.splits)
  obtain b l2 where rd: "sys_read k fd l1 = (b, l2)" by fastforce
  have l': "l' = snd (sys_close k fd l2)" and len: "length contents \<le> unat (pol_MaxSize policy)"
    using assms o f rd by (auto simp: read_checked_def Let_def split: sum.splits if_splits)
  have "grown l1 l2 [] []"
    using rd grown_snoc [of "SRead fd b" l1] by (auto simp: sys_read_def Let_def)
  then have "grown l l' ([cf_st cf] @ [] @ []) ([name] @ [] @ [])"
    using grown_OpenAt [OF o] grown_trans [OF _ grown_trans [OF _ grown_close(1)]] l' by blast
  then show ?thesis using grown_OpenAt [OF o] len by auto
qed

lemma path_components_clean:
  "path_components ws = Some cs \<Longrightarrow> set cs \<subseteq> set ws \<and> list_all (\<lambda>c. c \<notin> {[], ''.'', ''..''}) cs"
  by (induction ws arbitrary: cs) (auto split: if_splits)

lemma cleanComponents_clean:
  "list_all (\<lambda>c. c \<notin> {[], ''.'', ''..''} \<and> slash \<notin> set c) (cleanComponents path)"
proof (cases "path_components (Split slash (Clean path))")
  case None
  then show ?thesis by (simp add: cleanComponents_def)
next
  case (Some cs)
  then show ?thesis
    using path_components_clean [OF Some] Split_no_slash [of slash "Clean path"]
    by (auto simp: cleanComponents_def list_all_iff)
qed

lemma checkStat_symlinks [simp]: "checkStat st (opt\<lparr>co_AllowSymlinks := b\<rparr>) = checkStat st opt"
  by (simp add: checkStat_def Let_def)

lemma anchor_options:
  "\<lparr>co_WantDir = True, co_OwnerID = pol_OwnerID policy, co_AllowSymlinks = True,
    co_AllowGlobalRead = True, co_MaxSize = 0\<rparr> = (dir_options policy)\<lparr>co_AllowSymlinks := True\<rparr>"
  by (simp add: dir_options_def)


text \<open>A kernel with a directory tree owned by root and one readable file.\<close>

definition example_kernel :: kernel where
  "example_kernel =
    \<lparr>k_open = (\<lambda>_ _ _. Inr 3), k_openat2 = (\<lambda>_ _ name _. Inr (if name = ''keys'' then 5 else 4)),
     k_openat = (\<lambda>_ _ _ _. Inl ENOSYS),
     k_fstat = (\<lambda>_ fd. Inr \<lparr>st_Mode = (if fd = 5 then 0x81A4 else 0x41ED), st_Uid = 0, st_Size = 2\<rparr>),
     k_read = (\<lambda>_ _. Inr [7, 8]), k_close = (\<lambda>_ _. None)\<rparr>"

definition example_policy :: Policy where
  "example_policy = \<lparr>pol_OwnerID = 0, pol_MaxSize = 16, pol_AllowGlobalRead = True\<rparr>"


end
