(* ===== verification/Authz.thy ===== *)
theory Authz
  imports Trust Account Strictfiles "HOL-Library.Code_Target_Nat"
begin

text \<open>
  \<open>app/server/authz\<close>: connection permissions, the constraints of the matched key, connection
  credentials, the search through the \<open>authorized_keys\<close> files, and the authorization of channels
  and launches.  The account resolver and the two policies are interfaces the server is given, so
  they are parameters, as are the working directory, the kernel and the line parser.  A Go map
  from names to values is the list of its entries, no name twice, in no particular order.
\<close>

section \<open>Permissions\<close>

record PermissionDecision =
  pd_AllowCommand :: bool
  pd_AllowShell :: bool
  pd_AllowExec :: bool
  pd_AllowPTY :: bool
  pd_ForcedCommand :: string
  pd_AllowedEnvironment :: "string list"

record ConnectionPermissions =
  cp_allowCommand :: bool
  cp_allowShell :: bool
  cp_allowExec :: bool
  cp_allowPTY :: bool
  cp_forcedCommand :: string
  cp_allowedEnvironment :: "string list"

definition validateEnvironmentName :: "string \<Rightarrow> goerr option" where
  "validateEnvironmentName name =
    (if name = [] then Some (EErr ''environment variable name is required'')
     else if ContainsAny name [CHR ''='', NUL] then Some (EErr ''invalid environment variable name'')
     else if length name > 256 then Some (EErr ''environment variable name exceeds maximum size'')
     else None)"

fun environment_names ::
    "string list \<Rightarrow> string list \<Rightarrow> string list \<Rightarrow> (goerr, string list) result" where
  "environment_names seen allowed [] = Inr allowed"
| "environment_names seen allowed (raw # rest) =
    (let name = TrimSpace raw
     in case validateEnvironmentName name of
          Some e \<Rightarrow> Inl e
        | None \<Rightarrow>
            if name \<in> set seen then environment_names seen allowed rest
            else environment_names (name # seen) (allowed @ [name]) rest)"

definition newConnectionPermissions ::
    "PermissionDecision \<Rightarrow> (goerr, ConnectionPermissions) result" where
  "newConnectionPermissions decision =
    (let forced = TrimSpace (pd_ForcedCommand decision)
     in if ContainsNUL forced then Inl (EErr ''forced command contains NUL'')
        else if length forced > 24 * 1024 then Inl (EErr ''forced command exceeds maximum size'')
        else if (pd_AllowShell decision \<or> pd_AllowExec decision \<or> pd_AllowPTY decision \<or> forced \<noteq> [])
                \<and> \<not> pd_AllowCommand decision
        then Inl (EErr ''command sub-permissions require command permission'')
        else if forced \<noteq> [] \<and> \<not> pd_AllowShell decision \<and> \<not> pd_AllowExec decision
        then Inl (EErr ''forced command requires shell or exec permission'')
        else if pd_AllowPTY decision \<and> \<not> pd_AllowShell decision \<and> \<not> pd_AllowExec decision
        then Inl (EErr ''PTY permission requires shell or exec permission'')
        else if length (pd_AllowedEnvironment decision) > 128
        then Inl (EErr ''too many allowed environment variables'')
        else case environment_names [] [] (pd_AllowedEnvironment decision) of
          Inl e \<Rightarrow> Inl e
        | Inr allowed \<Rightarrow> Inr
            \<lparr>cp_allowCommand = pd_AllowCommand decision, cp_allowShell = pd_AllowShell decision,
             cp_allowExec = pd_AllowExec decision, cp_allowPTY = pd_AllowPTY decision,
             cp_forcedCommand = forced, cp_allowedEnvironment = sort allowed\<rparr>)"

definition decision_of :: "ConnectionPermissions \<Rightarrow> PermissionDecision" where
  "decision_of p =
    \<lparr>pd_AllowCommand = cp_allowCommand p, pd_AllowShell = cp_allowShell p,
     pd_AllowExec = cp_allowExec p, pd_AllowPTY = cp_allowPTY p,
     pd_ForcedCommand = cp_forcedCommand p, pd_AllowedEnvironment = cp_allowedEnvironment p\<rparr>"

definition ConnectionPermissions_validate :: "ConnectionPermissions \<Rightarrow> goerr option" where
  "ConnectionPermissions_validate p =
    (case newConnectionPermissions (decision_of p) of Inl e \<Rightarrow> Some e | Inr _ \<Rightarrow> None)"

section \<open>Constraints of the matched key\<close>

record MatchedKeyConstraints =
  mk_forcedCommand :: string
  mk_noPTY :: bool
  mk_restricted :: bool

definition newMatchedKeyConstraints :: "AuthorizedKeyConstraints \<Rightarrow> MatchedKeyConstraints" where
  "newMatchedKeyConstraints c =
    \<lparr>mk_forcedCommand = akc_ForcedCommand c, mk_noPTY = akc_NoPTY c, mk_restricted = akc_Restricted c\<rparr>"

definition MatchedKeyConstraints_validate :: "MatchedKeyConstraints \<Rightarrow> goerr option" where
  "MatchedKeyConstraints_validate c =
    (if mk_restricted c \<and> \<not> mk_noPTY c then Some (EErr ''restricted authorized key must disable PTY'')
     else if length (mk_forcedCommand c) > 24 * 1024
     then Some (EErr ''authorized key forced command exceeds maximum size'')
     else None)"

definition applyMatchedKeyConstraints ::
    "PermissionDecision \<Rightarrow> MatchedKeyConstraints \<Rightarrow> (goerr, PermissionDecision) result" where
  "applyMatchedKeyConstraints decision0 constraints =
    (case MatchedKeyConstraints_validate constraints of
       Some e \<Rightarrow> Inl e
     | None \<Rightarrow>
         let decision = (if mk_noPTY constraints then decision0\<lparr>pd_AllowPTY := False\<rparr> else decision0)
         in if mk_forcedCommand constraints \<noteq> [] then
              (if pd_ForcedCommand decision \<noteq> [] \<and> pd_ForcedCommand decision \<noteq> mk_forcedCommand constraints
               then Inl (EErr ''configured and authorized-key forced commands conflict'')
               else Inr (decision\<lparr>pd_ForcedCommand := mk_forcedCommand constraints\<rparr>))
            else Inr decision)"

section \<open>Credentials\<close>

record VerifiedClient =
  vc_username :: string
  vc_key :: PublicKey

record ConnectionRequest =
  cr_VerifiedClient :: VerifiedClient
  cr_PeerAddress :: string

text \<open>\<open>cc_identityToken\<close> is the address of a fresh object, \<open>None\<close> the nil pointer.\<close>

record ConnectionCredentials =
  cc_authenticationMethod :: string
  cc_keyFingerprint :: string
  cc_requestedUsername :: string
  cc_peerAddress :: string
  cc_provedKey :: PublicKey
  cc_account :: Account
  cc_matchedSource :: string
  cc_matchedKeyConstraints :: MatchedKeyConstraints
  cc_permissions :: ConnectionPermissions
  cc_identityToken :: "nat option"

definition FingerprintSHA256 :: "(bytes \<Rightarrow> string) \<Rightarrow> PublicKey \<Rightarrow> string" where
  "FingerprintSHA256 digest k = ''SHA256:'' @ digest (pk_bytes k)"

definition newConnectionCredentials ::
    "(bytes \<Rightarrow> string) \<Rightarrow> nat \<Rightarrow> ConnectionRequest \<Rightarrow> Account \<Rightarrow> string \<Rightarrow> MatchedKeyConstraints
      \<Rightarrow> ConnectionPermissions \<Rightarrow> ConnectionCredentials" where
  "newConnectionCredentials digest token request account matchedSource constraints permissions =
    (let verified = cr_VerifiedClient request; provedKey = vc_key verified
     in \<lparr>cc_authenticationMethod = ''public-key'', cc_keyFingerprint = FingerprintSHA256 digest provedKey,
         cc_requestedUsername = vc_username verified, cc_peerAddress = cr_PeerAddress request,
         cc_provedKey = provedKey, cc_account = account, cc_matchedSource = matchedSource,
         cc_matchedKeyConstraints = constraints, cc_permissions = permissions,
         cc_identityToken = Some token\<rparr>)"

definition validateAccount :: "Account \<Rightarrow> goerr option" where
  "validateAccount a =
    (if acc_Username a = [] then Some (EErr ''resolved username is required'')
     else if acc_HomeDir a = [] then Some (EErr ''account home directory is required'')
     else None)"

definition ConnectionCredentials_validate :: "ConnectionCredentials \<Rightarrow> goerr option" where
  "ConnectionCredentials_validate c =
    (if cc_authenticationMethod c = [] then Some (EErr ''authentication method is required'')
     else if cc_requestedUsername c = [] then Some (EErr ''requested username is required'')
     else case PublicKey_Validate (cc_provedKey c) of
       Some e \<Rightarrow> Some (EWrap ''proved client key'' e)
     | None \<Rightarrow>
         if cc_keyFingerprint c = [] then Some (EErr ''client key fingerprint is required'')
         else case validateAccount (cc_account c) of
           Some e \<Rightarrow> Some e
         | None \<Rightarrow>
             if \<not> IsAbs (acc_HomeDir (cc_account c)) then Some (EErr ''account home directory must be absolute'')
             else if cc_matchedSource c = [] then Some (EErr ''matched policy source is required'')
             else case MatchedKeyConstraints_validate (cc_matchedKeyConstraints c) of
               Some e \<Rightarrow> Some (EWrap ''matched authorized-key constraints'' e)
             | None \<Rightarrow>
            (case ConnectionPermissions_validate (cc_permissions c) of
               Some e \<Rightarrow> Some (EWrap ''connection permissions'' e)
             | None \<Rightarrow>
                 if (cp_allowShell (cc_permissions c) \<or> cp_allowExec (cc_permissions c))
                    \<and> \<not> IsAbs (acc_LoginShell (cc_account c))
                 then Some (EErr ''permitted launch requires an absolute account login shell'')
                 else if cc_identityToken c = None then Some (EErr ''credential identity token is required'')
                 else None))"

section \<open>Authorizing a connection\<close>

text \<open>
  \<open>world\<close> collects what is outside the package.  \<open>w_ctx n\<close> is the error of the context when it is
  asked for the \<open>n\<close>-th time.  The kernel reports a missing file as \<open>ENotExist\<close>.
\<close>

record world =
  w_ctx :: "nat \<Rightarrow> goerr option"
  w_resolve :: "string \<Rightarrow> (goerr, Account) result option"
  w_getwd :: "(goerr, string) result"
  w_kernel :: kernel
  w_parse_line :: "bytes \<Rightarrow> (goerr, auth_line) result"
  w_account_policy :: "(ConnectionRequest \<Rightarrow> Account \<Rightarrow> string \<Rightarrow> goerr option) option"
  w_permission_policy ::
    "(ConnectionRequest \<Rightarrow> Account \<Rightarrow> string \<Rightarrow> (goerr, PermissionDecision) result) option"
  w_digest :: "bytes \<Rightarrow> string"

definition AuthorizeAccount :: "world \<Rightarrow> ConnectionRequest \<Rightarrow> Account \<Rightarrow> string \<Rightarrow> goerr option" where
  "AuthorizeAccount w request account src =
    (case w_account_policy w of None \<Rightarrow> None | Some f \<Rightarrow> f request account src)"

definition no_permissions :: PermissionDecision where
  "no_permissions =
    \<lparr>pd_AllowCommand = False, pd_AllowShell = False, pd_AllowExec = False, pd_AllowPTY = False,
     pd_ForcedCommand = [], pd_AllowedEnvironment = []\<rparr>"

definition ResolvePermissions ::
    "world \<Rightarrow> ConnectionRequest \<Rightarrow> Account \<Rightarrow> string \<Rightarrow> (goerr, PermissionDecision) result" where
  "ResolvePermissions w request account src =
    (case w_permission_policy w of None \<Rightarrow> Inr no_permissions | Some f \<Rightarrow> f request account src)"

definition resolveAccountPath ::
    "(goerr, string) result \<Rightarrow> string \<Rightarrow> string \<Rightarrow> (goerr, string \<times> string \<times> string) result" where
  "resolveAccountPath getwd homeDir configuredPath =
    (if HasPrefix configuredPath ''~/'' then
       (if homeDir = [] then Inl (EErr ''account home directory is required for ~ path'')
        else let relative = TrimPrefix configuredPath ''~/''
             in Inr (filepath_Join homeDir relative, homeDir, relative))
     else if IsAbs configuredPath
     then Inr (configuredPath, filepath_Dir configuredPath, filepath_Base configuredPath)
     else case getwd of
       Inl e \<Rightarrow> Inl (EWrap ''resolve relative authorized_keys path'' e)
     | Inr workingDir \<Rightarrow> Inr (filepath_Join workingDir configuredPath, workingDir, configuredPath))"

definition errors_Join :: "goerr option \<Rightarrow> goerr \<Rightarrow> goerr" where
  "errors_Join errs e = (case errs of None \<Rightarrow> e | Some es \<Rightarrow> EJoin es e)"

record matchedAuthorizedKey =
  mak_source :: string
  mak_constraints :: MatchedKeyConstraints

definition authorized_policy :: "Account \<Rightarrow> Policy" where
  "authorized_policy account =
    \<lparr>pol_OwnerID = acc_Id account, pol_MaxSize = 8 * 2 ^ 20, pol_AllowGlobalRead = True\<rparr>"

text \<open>
  One configured path: \<open>Skip\<close> continues without it, \<open>Bad\<close> joins an error, \<open>File\<close> has the source
  and the parsed entries.
\<close>

datatype path_outcome = Skip | Bad goerr | File string "AuthorizedKeyEntry list"

definition load_authorized_keys :: "world \<Rightarrow> Account \<Rightarrow> string \<Rightarrow> log \<Rightarrow> (path_outcome \<times> log) option" where
  "load_authorized_keys w account configuredPath l =
    (case resolveAccountPath (w_getwd w) (acc_HomeDir account) configuredPath of
       Inl e \<Rightarrow> Some (Bad e, l)
     | Inr (resolved, anchor, relative) \<Rightarrow>
    (case secure_Read (w_kernel w) anchor relative (authorized_policy account) l of
       (Inl e, l1) \<Rightarrow>
         if goerr_Is e ENotExist then Some (Skip, l1)
         else Some (Bad (EWrap ''read authorized_keys'' e), l1)
     | (Inr contents, l1) \<Rightarrow>
    (case ParseAuthorizedKeys (w_parse_line w) contents of
       None \<Rightarrow> None
     | Some (Inl e) \<Rightarrow> Some (Bad (EWrap ''parse authorized_keys'' e), l1)
     | Some (Inr entries) \<Rightarrow> Some (File resolved entries, l1))))"

fun match_loop ::
    "world \<Rightarrow> Account \<Rightarrow> PublicKey \<Rightarrow> nat \<Rightarrow> goerr option \<Rightarrow> bool \<Rightarrow> string list \<Rightarrow> log
      \<Rightarrow> ((goerr, matchedAuthorizedKey) result \<times> log) option" where
  "match_loop w account provedKey n errs found [] l =
    (case errs of
       Some e \<Rightarrow> Some (Inl e, l)
     | None \<Rightarrow>
         if \<not> found then Some (Inl (EErr ''no authorized keys found for user''), l)
         else Some (Inl (EErr ''client public key is not authorized for user''), l))"
| "match_loop w account provedKey n errs found (configuredPath # rest) l =
    (case w_ctx w n of
       Some e \<Rightarrow> Some (Inl e, l)
     | None \<Rightarrow>
    (case load_authorized_keys w account configuredPath l of
       None \<Rightarrow> None
     | Some (Skip, l1) \<Rightarrow> match_loop w account provedKey (Suc n) errs found rest l1
     | Some (Bad e, l1) \<Rightarrow> match_loop w account provedKey (Suc n) (Some (errors_Join errs e)) found rest l1
     | Some (File resolved entries, l1) \<Rightarrow>
         (let found' = (found \<or> AuthorizedKeys_Match (Some entries) (Some (\<lambda>_. True)) \<noteq> None)
          in case AuthorizedKeys_Match (Some entries) (Some (\<lambda>e. PublicKey_Equal (ak_Key e) provedKey)) of
               None \<Rightarrow> match_loop w account provedKey (Suc n) errs found' rest l1
             | Some entry \<Rightarrow>
                 (case errs of
                    Some e \<Rightarrow> Some (Inl e, l1)
                  | None \<Rightarrow>
                 (case AuthorizedKeyEntry_Constraints (Some entry) of
                    Inl e \<Rightarrow> Some (Inl (EWrap ''resolve authorized_keys constraints'' e), l1)
                  | Inr constraints \<Rightarrow>
                      Some (Inr \<lparr>mak_source = resolved,
                                 mak_constraints = newMatchedKeyConstraints constraints\<rparr>, l1))))))"

record AuthzServer =
  az_paths :: "string list"

definition Authz_New :: "string list \<Rightarrow> (goerr, AuthzServer) result" where
  "Authz_New paths =
    (if paths = [] then Inl (EErr ''authorized_keys paths are required'') else Inr \<lparr>az_paths = paths\<rparr>)"

definition matchAuthorizedKey ::
    "world \<Rightarrow> AuthzServer \<Rightarrow> Account \<Rightarrow> PublicKey \<Rightarrow> log
      \<Rightarrow> ((goerr, matchedAuthorizedKey) result \<times> log) option" where
  "matchAuthorizedKey w a account provedKey l =
    match_loop w account provedKey 1 None False (az_paths a) l"

text \<open>The steps after the key has matched: policies, constraints, permissions, credentials.\<close>

definition finish_connection ::
    "world \<Rightarrow> nat \<Rightarrow> ConnectionRequest \<Rightarrow> Account \<Rightarrow> matchedAuthorizedKey
      \<Rightarrow> (goerr, ConnectionCredentials) result" where
  "finish_connection w token request account matched =
    (case AuthorizeAccount w request account (mak_source matched) of
       Some e \<Rightarrow> Inl (EWrap ''apply account policy'' e)
     | None \<Rightarrow>
    (case ResolvePermissions w request account (mak_source matched) of
       Inl e \<Rightarrow> Inl (EWrap ''resolve connection permissions'' e)
     | Inr decision0 \<Rightarrow>
    (case applyMatchedKeyConstraints decision0 (mak_constraints matched) of
       Inl e \<Rightarrow> Inl (EWrap ''apply authorized-key constraints'' e)
     | Inr decision \<Rightarrow>
    (case newConnectionPermissions decision of
       Inl e \<Rightarrow> Inl (EWrap ''validate connection permissions'' e)
     | Inr permissions \<Rightarrow>
         (let credentials = newConnectionCredentials (w_digest w) token request account
                              (mak_source matched) (mak_constraints matched) permissions
          in case ConnectionCredentials_validate credentials of
               Some e \<Rightarrow> Inl (EWrap ''validate connection credentials'' e)
             | None \<Rightarrow> Inr credentials)))))"

definition AuthorizeConnection ::
    "world \<Rightarrow> AuthzServer option \<Rightarrow> nat \<Rightarrow> ConnectionRequest \<Rightarrow> log
      \<Rightarrow> ((goerr, ConnectionCredentials) result \<times> log) option" where
  "AuthorizeConnection w server token request l =
    (case server of
       None \<Rightarrow> Some (Inl (EErr ''server authorization is required''), l)
     | Some a \<Rightarrow>
    (case w_ctx w 0 of
       Some e \<Rightarrow> Some (Inl e, l)
     | None \<Rightarrow>
         (let username = vc_username (cr_VerifiedClient request);
              provenKey = vc_key (cr_VerifiedClient request)
          in if username = [] \<or> PublicKey_Validate provenKey \<noteq> None
             then Some (Inl (EErr ''verified client proof is incomplete''), l)
             else case w_resolve w username of
               None \<Rightarrow> None
             | Some (Inl e) \<Rightarrow> Some (Inl (EWrap ''resolve account for requested user'' e), l)
             | Some (Inr account) \<Rightarrow>
            (case validateAccount account of
               Some e \<Rightarrow> Some (Inl (EWrap ''validate resolved account'' e), l)
             | None \<Rightarrow>
            (case matchAuthorizedKey w a account provenKey l of
               None \<Rightarrow> None
             | Some (Inl e, l1) \<Rightarrow> Some (Inl e, l1)
             | Some (Inr matched, l1) \<Rightarrow>
                 Some (finish_connection w token request account matched, l1))))))"

section \<open>Authorizing a channel and a launch\<close>

record ChannelAuthorizationRequest =
  car_Type :: string
  car_Payload :: bytes

record AuthorizedChannel =
  ac_channelType :: string
  ac_credentialIdentity :: "nat option"

text \<open>Any other kind string is refused by \<open>AuthorizeLaunch\<close>.\<close>

datatype LaunchKind = LaunchShell | LaunchExec | LaunchOther string

record PTYRequest =
  pty_Terminal :: string
  pty_Rows :: u32
  pty_Columns :: u32

record LaunchRequest =
  lr_Kind :: LaunchKind
  lr_Command :: string
  lr_PTY :: "PTYRequest option"
  lr_Environment :: "(string \<times> string) list"

record AuthorizedLaunchSpec =
  als_kind :: LaunchKind
  als_command :: string
  als_executable :: string
  als_workingDirectory :: string
  als_pty :: "PTYRequest option"
  als_environment :: "(string \<times> string) list"
  als_account :: Account

definition CommandChannelType :: string where
  "CommandChannelType = ''command''"

definition AuthorizeChannel ::
    "AuthzServer option \<Rightarrow> goerr option \<Rightarrow> ConnectionCredentials \<Rightarrow> ChannelAuthorizationRequest
      \<Rightarrow> (goerr, AuthorizedChannel) result" where
  "AuthorizeChannel server ctx_err credentials request =
    (if server = None then Inl (EErr ''server authorization is required'')
     else case ctx_err of
       Some e \<Rightarrow> Inl e
     | None \<Rightarrow>
    (case ConnectionCredentials_validate credentials of
       Some e \<Rightarrow> Inl (EWrap ''validate connection credentials'' e)
     | None \<Rightarrow>
         if car_Type request \<noteq> CommandChannelType then Inl (EErr ''unsupported channel type'')
         else if \<not> cp_allowCommand (cc_permissions credentials)
         then Inl (EErr ''command channels are not permitted'')
         else Inr \<lparr>ac_channelType = car_Type request,
                   ac_credentialIdentity = cc_identityToken credentials\<rparr>))"

fun environment_values ::
    "(string \<times> string) list \<Rightarrow> string list \<Rightarrow> string list \<Rightarrow> (string \<times> string) list
      \<Rightarrow> (goerr, (string \<times> string) list) result" where
  "environment_values requested allowed [] environment = Inr environment"
| "environment_values requested allowed (name # names) environment =
    (case validateEnvironmentName name of
       Some e \<Rightarrow> Inl e
     | None \<Rightarrow>
         if name \<notin> set allowed then Inl (EErr ''environment variable is not permitted'')
         else let value = the (map_of requested name)
              in if ContainsNUL value then Inl (EErr ''environment variable contains NUL'')
                 else if length value > 16 * 1024 then Inl (EErr ''environment variable exceeds maximum size'')
                 else environment_values requested allowed names (environment @ [(name, value)]))"

definition authorizeEnvironment ::
    "(string \<times> string) list \<Rightarrow> string list \<Rightarrow> (goerr, (string \<times> string) list) result" where
  "authorizeEnvironment requested allowedNames =
    (if length requested > 128 then Inl (EErr ''too many environment variables'')
     else environment_values requested allowedNames (sort (map fst requested)) [])"

definition check_kind :: "ConnectionPermissions \<Rightarrow> LaunchRequest \<Rightarrow> goerr option" where
  "check_kind permissions request =
    (case lr_Kind request of
       LaunchShell \<Rightarrow>
         if \<not> cp_allowShell permissions then Some (EErr ''shell launch is not permitted'')
         else if TrimSpace (lr_Command request) \<noteq> []
         then Some (EErr ''shell request must not contain a command'')
         else None
     | LaunchExec \<Rightarrow>
         if \<not> cp_allowExec permissions then Some (EErr ''exec launch is not permitted'')
         else if TrimSpace (lr_Command request) = [] \<and> cp_forcedCommand permissions = []
         then Some (EErr ''exec command is required'')
         else None
     | LaunchOther _ \<Rightarrow> Some (EErr ''unsupported launch kind''))"

definition check_pty :: "ConnectionPermissions \<Rightarrow> LaunchRequest \<Rightarrow> goerr option" where
  "check_pty permissions request =
    (case lr_PTY request of
       None \<Rightarrow> None
     | Some pty \<Rightarrow>
         if \<not> cp_allowPTY permissions then Some (EErr ''PTY allocation is not permitted'')
         else if pty_Rows pty = 0 \<or> pty_Columns pty = 0
         then Some (EErr ''PTY rows and columns must be greater than zero'')
         else if ContainsNUL (pty_Terminal pty) then Some (EErr ''PTY terminal contains NUL'')
         else None)"

definition AuthorizeLaunch ::
    "AuthzServer option \<Rightarrow> goerr option \<Rightarrow> ConnectionCredentials \<Rightarrow> AuthorizedChannel \<Rightarrow> LaunchRequest
      \<Rightarrow> (goerr, AuthorizedLaunchSpec) result" where
  "AuthorizeLaunch server ctx_err credentials channel request =
    (if server = None then Inl (EErr ''server authorization is required'')
     else case ctx_err of
       Some e \<Rightarrow> Inl e
     | None \<Rightarrow>
    (case ConnectionCredentials_validate credentials of
       Some e \<Rightarrow> Inl (EWrap ''validate connection credentials'' e)
     | None \<Rightarrow>
         if ac_channelType channel \<noteq> CommandChannelType \<or> ac_credentialIdentity channel = None
            \<or> ac_credentialIdentity channel \<noteq> cc_identityToken credentials
         then Inl (EErr ''authorized channel does not belong to these credentials'')
         else let permissions = cc_permissions credentials
         in case check_kind permissions request of
              Some e \<Rightarrow> Inl e
            | None \<Rightarrow>
           (case check_pty permissions request of
              Some e \<Rightarrow> Inl e
            | None \<Rightarrow>
           (case authorizeEnvironment (lr_Environment request) (cp_allowedEnvironment permissions) of
              Inl e \<Rightarrow> Inl e
            | Inr environment \<Rightarrow>
                (let account = cc_account credentials; command = TrimSpace (lr_Command request)
                 in if \<not> IsAbs (acc_HomeDir account) then Inl (EErr ''account home directory must be absolute'')
                    else if \<not> IsAbs (acc_LoginShell account) then Inl (EErr ''account login shell must be absolute'')
                    else if ContainsNUL command then Inl (EErr ''command contains NUL'')
                    else if length command > 24 * 1024 then Inl (EErr ''command exceeds maximum size'')
                    else
                      let forced = cp_forcedCommand permissions \<noteq> []
                      in Inr \<lparr>als_kind = (if forced then LaunchExec else lr_Kind request),
                              als_command = (if forced then cp_forcedCommand permissions else command),
                              als_executable = acc_LoginShell account,
                              als_workingDirectory = acc_HomeDir account,
                              als_pty = lr_PTY request, als_environment = environment,
                              als_account = account\<rparr>)))))"

section \<open>Permissions are normal\<close>

lemma environment_names_exact:
  "environment_names seen allowed raws = Inr r \<longleftrightarrow>
    list_all (\<lambda>x. validateEnvironmentName (TrimSpace x) = None) raws
    \<and> r = allowed @ first_occurrences seen (map TrimSpace raws)"
proof (induction seen allowed raws rule: environment_names.induct)
  case (1 seen allowed)
  then show ?case by auto
next
  case (2 seen allowed raw rest)
  then show ?case
    by (cases "validateEnvironmentName (TrimSpace raw)") (auto simp: Let_def)
qed

lemma first_occurrences_distinct:
  "distinct xs \<Longrightarrow> set xs \<inter> set seen = {} \<Longrightarrow> first_occurrences seen xs = xs"
  by (induction seen xs rule: first_occurrences.induct) auto

lemma length_first_occurrences: "length (first_occurrences seen xs) \<le> length xs"
  by (induction seen xs rule: first_occurrences.induct) auto

definition permissions_ok :: "ConnectionPermissions \<Rightarrow> bool" where
  "permissions_ok p \<longleftrightarrow>
    (cp_allowShell p \<or> cp_allowExec p \<or> cp_allowPTY p \<or> cp_forcedCommand p \<noteq> [] \<longrightarrow> cp_allowCommand p)
    \<and> (cp_allowPTY p \<or> cp_forcedCommand p \<noteq> [] \<longrightarrow> cp_allowShell p \<or> cp_allowExec p)
    \<and> TrimSpace (cp_forcedCommand p) = cp_forcedCommand p
    \<and> \<not> ContainsNUL (cp_forcedCommand p) \<and> length (cp_forcedCommand p) \<le> 24 * 1024
    \<and> sorted (cp_allowedEnvironment p) \<and> distinct (cp_allowedEnvironment p)
    \<and> length (cp_allowedEnvironment p) \<le> 128
    \<and> list_all (\<lambda>x. TrimSpace x = x \<and> validateEnvironmentName x = None) (cp_allowedEnvironment p)"

lemma newConnectionPermissions_ok:
  assumes "newConnectionPermissions d = Inr p"
  shows "permissions_ok p"
    and "cp_allowCommand p = pd_AllowCommand d" "cp_allowShell p = pd_AllowShell d"
    "cp_allowExec p = pd_AllowExec d" "cp_allowPTY p = pd_AllowPTY d"
    "cp_forcedCommand p = TrimSpace (pd_ForcedCommand d)"
    "set (cp_allowedEnvironment p) = TrimSpace ` set (pd_AllowedEnvironment d)"
proof -
  let ?env = "first_occurrences [] (map TrimSpace (pd_AllowedEnvironment d))"
  have ok: "environment_names [] [] (pd_AllowedEnvironment d) = Inr ?env"
    and p: "p = \<lparr>cp_allowCommand = pd_AllowCommand d, cp_allowShell = pd_AllowShell d,
             cp_allowExec = pd_AllowExec d, cp_allowPTY = pd_AllowPTY d,
             cp_forcedCommand = TrimSpace (pd_ForcedCommand d), cp_allowedEnvironment = sort ?env\<rparr>"
    using assms
    by (auto simp: newConnectionPermissions_def environment_names_exact Let_def
        split: if_splits sum.splits)
  have v: "list_all (\<lambda>x. validateEnvironmentName (TrimSpace x) = None) (pd_AllowedEnvironment d)"
    using ok by (simp add: environment_names_exact)
  have len: "length ?env \<le> 128"
    using assms length_first_occurrences [of "[]" "map TrimSpace (pd_AllowedEnvironment d)"]
    by (auto simp: newConnectionPermissions_def Let_def split: if_splits)
  have "list_all (\<lambda>x. TrimSpace x = x \<and> validateEnvironmentName x = None) ?env"
    using v by (auto simp: list_all_iff set_first_occurrences)
  then show "permissions_ok p"
    using assms len unfolding permissions_ok_def p
    by (auto simp: newConnectionPermissions_def list_all_iff distinct_first_occurrences Let_def
        split: if_splits)
  show "cp_allowCommand p = pd_AllowCommand d" "cp_allowShell p = pd_AllowShell d"
    "cp_allowExec p = pd_AllowExec d" "cp_allowPTY p = pd_AllowPTY d"
    "cp_forcedCommand p = TrimSpace (pd_ForcedCommand d)"
    "set (cp_allowedEnvironment p) = TrimSpace ` set (pd_AllowedEnvironment d)"
    by (simp_all add: p set_first_occurrences)
qed

lemma newConnectionPermissions_again:
  assumes "permissions_ok p"
  shows "newConnectionPermissions (decision_of p) = Inr p"
proof -
  have t: "map TrimSpace (cp_allowedEnvironment p) = cp_allowedEnvironment p"
    using assms by (intro map_idI) (auto simp: permissions_ok_def list_all_iff)
  have "environment_names [] [] (cp_allowedEnvironment p) = Inr (cp_allowedEnvironment p)"
    using assms unfolding environment_names_exact t
    by (auto simp: permissions_ok_def list_all_iff first_occurrences_distinct)
  then show ?thesis
    using assms
    by (auto simp: newConnectionPermissions_def decision_of_def permissions_ok_def sort_key_id_if_sorted
        sorted_sort_id Let_def)
qed

lemma validate_permissions_ok: "permissions_ok p \<Longrightarrow> ConnectionPermissions_validate p = None"
  by (simp add: ConnectionPermissions_validate_def newConnectionPermissions_again)

text \<open>
  A permission decision that is accepted gives permissions in normal form: shell, exec,
  terminal and forced command all imply the command permission, terminal and forced command imply
  shell or exec, the forced command is trimmed, free of NUL and at most 24 KiB, the environment
  names are valid, trimmed, sorted and without duplicates.  Building permissions from them again
  gives the same permissions, so the later validation of the snapshot can never fail.
\<close>

theorem permissions_normal:
  assumes "newConnectionPermissions d = Inr p"
  shows "permissions_ok p \<and> newConnectionPermissions (decision_of p) = Inr p
    \<and> ConnectionPermissions_validate p = None"
  using newConnectionPermissions_ok(1) [OF assms] newConnectionPermissions_again validate_permissions_ok
  by blast

definition example_decision :: PermissionDecision where
  "example_decision =
    \<lparr>pd_AllowCommand = True, pd_AllowShell = True, pd_AllowExec = False, pd_AllowPTY = True,
     pd_ForcedCommand = '' backup '', pd_AllowedEnvironment = [''TERM'', ''LANG '', ''TERM'']\<rparr>"

theorem permissions_normal_witness:
  "\<exists>p. newConnectionPermissions example_decision = Inr p
     \<and> cp_forcedCommand p = ''backup'' \<and> cp_allowedEnvironment p = [''LANG'', ''TERM'']
     \<and> ConnectionPermissions_validate p = None"
proof -
  let ?p = "\<lparr>cp_allowCommand = True, cp_allowShell = True, cp_allowExec = False, cp_allowPTY = True,
     cp_forcedCommand = ''backup'', cp_allowedEnvironment = [''LANG'', ''TERM'']\<rparr>"
  have "newConnectionPermissions example_decision = Inr ?p" by code_simp
  from permissions_normal [OF this] this show ?thesis by auto
qed

section \<open>Matching fails closed\<close>

fun load_all :: "world \<Rightarrow> Account \<Rightarrow> string list \<Rightarrow> log \<Rightarrow> (path_outcome list \<times> log) option" where
  "load_all w account [] l = Some ([], l)"
| "load_all w account (path # paths) l =
    (case load_authorized_keys w account path l of
       None \<Rightarrow> None
     | Some (out, l1) \<Rightarrow>
    (case load_all w account paths l1 of
       None \<Rightarrow> None
     | Some (outs, l2) \<Rightarrow> Some (out # outs, l2)))"

text \<open>A path that does not decide: missing, or a file without the key.\<close>

primrec undecided :: "PublicKey \<Rightarrow> path_outcome \<Rightarrow> bool" where
  "undecided key Skip \<longleftrightarrow> True"
| "undecided key (Bad e) \<longleftrightarrow> False"
| "undecided key (File src entries) \<longleftrightarrow> \<not> list_ex (\<lambda>e. PublicKey_Equal (ak_Key e) key) entries"

lemma find_None_list_ex: "find P xs = None \<longleftrightarrow> \<not> list_ex P xs"
  by (induction xs) auto

lemma match_loop_errs:
  "match_loop w account key n (Some e) found paths l = Some (Inr m, l') \<Longrightarrow> False"
  by (induction paths arbitrary: n e found l)
    (auto simp: Let_def errors_Join_def split: option.splits path_outcome.splits prod.splits)

definition matched_entry ::
    "world \<Rightarrow> Account \<Rightarrow> PublicKey \<Rightarrow> string \<Rightarrow> log \<Rightarrow> log \<Rightarrow> matchedAuthorizedKey \<Rightarrow> bool" where
  "matched_entry w account key path l l' m \<longleftrightarrow>
    (\<exists>entries entry c. load_authorized_keys w account path l = Some (File (mak_source m) entries, l')
       \<and> find (\<lambda>e. PublicKey_Equal (ak_Key e) key) entries = Some entry
       \<and> AuthorizedKeyEntry_Constraints (Some entry) = Inr c
       \<and> mak_constraints m = newMatchedKeyConstraints c)"

lemma match_loop_sound:
  "match_loop w account key n None found paths l = Some (Inr m, l')
    \<Longrightarrow> \<exists>pre path post outs l0. paths = pre @ path # post
      \<and> load_all w account pre l = Some (outs, l0) \<and> list_all (undecided key) outs
      \<and> matched_entry w account key path l0 l' m"
proof (induction paths arbitrary: n found l)
  case Nil
  then show ?case by (simp split: if_splits)
next
  case (Cons path paths)
  obtain out l1 where ld: "load_authorized_keys w account path l = Some (out, l1)"
    using Cons.prems by (auto split: option.splits)
  have ctx: "w_ctx w n = None" using Cons.prems by (auto split: option.splits)
  have later: ?case if u: "undecided key out"
    and r: "match_loop w account key (Suc n) None found' paths l1 = Some (Inr m, l')" for found'
  proof -
    from Cons.IH [OF r] obtain pre path' post outs l0 where
      "paths = pre @ path' # post" "load_all w account pre l1 = Some (outs, l0)"
      "list_all (undecided key) outs" "matched_entry w account key path' l0 l' m" by blast
    with ld u show ?thesis
      by (intro exI [of _ "path # pre"] exI [of _ path'] exI [of _ post] exI [of _ "out # outs"] exI [of _ l0])
        simp
  qed
  show ?case
  proof (cases out)
    case Skip
    then show ?thesis using Cons.prems ld ctx later [of found] by simp
  next
    case (Bad e)
    then show ?thesis using Cons.prems ld ctx match_loop_errs [of w account key] by (fastforce simp: errors_Join_def)
  next
    case (File src entries)
    let ?P = "\<lambda>e. PublicKey_Equal (ak_Key e) key"
    show ?thesis
    proof (cases "find ?P entries")
      case None
      then have "undecided key out" using File by (simp add: find_None_list_ex)
      then show ?thesis
        using Cons.prems ld ctx File None later by (auto simp: Let_def AuthorizedKeys_Match_def)
    next
      case (Some entry)
      then have "matched_entry w account key path l l' m"
        using Cons.prems ld ctx File
        by (auto simp: Let_def AuthorizedKeys_Match_def matched_entry_def split: sum.splits)
      then show ?thesis
        by (intro exI [of _ "[]"] exI [of _ path] exI [of _ paths] exI [of _ "[]"] exI [of _ l]) simp
    qed
  qed
qed

text \<open>
  C24: Matching a key fails closed.  If the search returns a match, the key stands in the file of
  one configured path, the match carries that file's name and the constraints of the first entry
  with this key, and every path before it was either missing or read and parsed without error and
  did not contain the key: an unreadable or malformed file earlier in the list denies access.
\<close>

theorem match_fails_closed:
  assumes "matchAuthorizedKey w a account key l = Some (Inr m, l')"
  shows "\<exists>pre path post outs l0. az_paths a = pre @ path # post
    \<and> load_all w account pre l = Some (outs, l0) \<and> list_all (undecided key) outs
    \<and> matched_entry w account key path l0 l' m"
  using match_loop_sound assms unfolding matchAuthorizedKey_def by blast

section \<open>Constraints are enforced\<close>

lemma validate_credentials_ok:
  assumes "ConnectionCredentials_validate c = None"
  shows "PublicKey_Validate (cc_provedKey c) = None" "IsAbs (acc_HomeDir (cc_account c))"
    "ConnectionPermissions_validate (cc_permissions c) = None" "cc_identityToken c \<noteq> None"
    "acc_Username (cc_account c) \<noteq> []"
  using assms
  by (auto simp: ConnectionCredentials_validate_def validateAccount_def split: if_splits option.splits)

lemma apply_constraints_exact:
  assumes "applyMatchedKeyConstraints d c = Inr d'"
  shows "d' = d\<lparr>pd_AllowPTY := pd_AllowPTY d \<and> \<not> mk_noPTY c,
      pd_ForcedCommand := (if mk_forcedCommand c \<noteq> [] then mk_forcedCommand c else pd_ForcedCommand d)\<rparr>"
    and "mk_forcedCommand c \<noteq> [] \<Longrightarrow> pd_ForcedCommand d \<in> {[], mk_forcedCommand c}"
  using assms
  by (auto simp: applyMatchedKeyConstraints_def Let_def split: option.splits if_splits)

text \<open>The permissions of a connection are the policy's decision, narrowed by the key.\<close>

definition narrowed :: "PermissionDecision \<Rightarrow> MatchedKeyConstraints \<Rightarrow> ConnectionPermissions \<Rightarrow> bool" where
  "narrowed d c p \<longleftrightarrow>
    cp_allowCommand p = pd_AllowCommand d \<and> cp_allowShell p = pd_AllowShell d
    \<and> cp_allowExec p = pd_AllowExec d \<and> cp_allowPTY p = (pd_AllowPTY d \<and> \<not> mk_noPTY c)
    \<and> cp_forcedCommand p =
        TrimSpace (if mk_forcedCommand c \<noteq> [] then mk_forcedCommand c else pd_ForcedCommand d)
    \<and> set (cp_allowedEnvironment p) = TrimSpace ` set (pd_AllowedEnvironment d)
    \<and> permissions_ok p"

lemma finish_connection_sound:
  assumes "finish_connection w token request account m = Inr cred"
  shows "\<exists>d p. ResolvePermissions w request account (mak_source m) = Inr d
      \<and> AuthorizeAccount w request account (mak_source m) = None
      \<and> narrowed d (mak_constraints m) p
      \<and> cred = newConnectionCredentials (w_digest w) token request account (mak_source m) (mak_constraints m) p
      \<and> ConnectionCredentials_validate cred = None"
proof -
  obtain d d' p where d: "ResolvePermissions w request account (mak_source m) = Inr d"
    and a: "AuthorizeAccount w request account (mak_source m) = None"
    and d': "applyMatchedKeyConstraints d (mak_constraints m) = Inr d'"
    and p: "newConnectionPermissions d' = Inr p"
    and cred: "cred = newConnectionCredentials (w_digest w) token request account (mak_source m) (mak_constraints m) p"
    and v: "ConnectionCredentials_validate cred = None"
    using assms by (auto simp: finish_connection_def Let_def split: option.splits sum.splits)
  have "narrowed d (mak_constraints m) p"
    unfolding narrowed_def
    using newConnectionPermissions_ok [OF p] apply_constraints_exact(1) [OF d'] by simp
  with d a cred v show ?thesis by blast
qed

lemma AuthorizeConnection_sound:
  assumes "AuthorizeConnection w (Some a) token request l = Some (Inr cred, l')"
  obtains account m d where
    "w_resolve w (vc_username (cr_VerifiedClient request)) = Some (Inr account)"
    "matchAuthorizedKey w a account (vc_key (cr_VerifiedClient request)) l = Some (Inr m, l')"
    "ResolvePermissions w request account (mak_source m) = Inr d"
    "narrowed d (mak_constraints m) (cc_permissions cred)"
    "cc_account cred = account" "cc_matchedKeyConstraints cred = mak_constraints m"
    "cc_provedKey cred = vc_key (cr_VerifiedClient request)" "cc_identityToken cred = Some token"
    "ConnectionCredentials_validate cred = None"
proof -
  obtain account m where acc: "w_resolve w (vc_username (cr_VerifiedClient request)) = Some (Inr account)"
    and m: "matchAuthorizedKey w a account (vc_key (cr_VerifiedClient request)) l = Some (Inr m, l')"
    and f: "finish_connection w token request account m = Inr cred"
    using assms
    by (auto simp: AuthorizeConnection_def Let_def split: option.splits if_splits sum.splits prod.splits)
  from finish_connection_sound [OF f] acc m that show ?thesis
    by (auto simp: newConnectionCredentials_def Let_def)
qed

lemma environment_values_sound:
  "environment_values requested allowed names env = Inr r
    \<Longrightarrow> r = env @ map (\<lambda>k. (k, the (map_of requested k))) names \<and> set names \<subseteq> set allowed
      \<and> list_all (\<lambda>k. validateEnvironmentName k = None \<and> \<not> ContainsNUL (the (map_of requested k))
                      \<and> length (the (map_of requested k)) \<le> 16 * 1024) names"
proof (induction requested allowed names env rule: environment_values.induct)
  case (1 requested allowed env)
  then show ?case by auto
next
  case (2 requested allowed name names env)
  then show ?case by (auto simp: Let_def split: option.splits if_splits)
qed

text \<open>What an authorized environment is, compared with the requested one.\<close>

definition environment_ok ::
    "(string \<times> string) list \<Rightarrow> string list \<Rightarrow> (string \<times> string) list \<Rightarrow> bool" where
  "environment_ok requested allowed env \<longleftrightarrow>
    map_of env = map_of requested \<and> sorted (map fst env) \<and> length env \<le> 128
    \<and> fst ` set env \<subseteq> set allowed
    \<and> list_all (\<lambda>(k, v). validateEnvironmentName k = None \<and> \<not> ContainsNUL v \<and> length v \<le> 16 * 1024) env"

lemma authorizeEnvironment_sound:
  assumes "authorizeEnvironment requested allowed = Inr env"
  shows "environment_ok requested allowed env"
proof -
  let ?names = "sort (map fst requested)"
  have len: "length requested \<le> 128"
    and "environment_values requested allowed ?names [] = Inr env"
    using assms by (auto simp: authorizeEnvironment_def split: if_splits)
  note e = environment_values_sound [OF this(2)]
  have dom: "k \<in> fst ` set requested \<longleftrightarrow> map_of requested k \<noteq> None" for k
    by (simp add: map_of_eq_None_iff)
  have "map_of env k = map_of requested k" for k
    using e dom [of k] by (auto simp: map_of_map_restrict restrict_map_def)
  moreover have "map fst env = ?names" using e by (simp add: comp_def)
  ultimately show ?thesis
    using e len by (auto simp: environment_ok_def list_all_iff)
qed

lemma AuthorizeLaunch_spec:
  assumes "AuthorizeLaunch server ctx_err cred channel request = Inr spec"
  obtains env where
    "ac_credentialIdentity channel = cc_identityToken cred" "ConnectionCredentials_validate cred = None"
    "IsAbs (acc_HomeDir (cc_account cred))" "IsAbs (acc_LoginShell (cc_account cred))"
    "\<not> ContainsNUL (TrimSpace (lr_Command request))" "length (TrimSpace (lr_Command request)) \<le> 24 * 1024"
    "check_kind (cc_permissions cred) request = None" "check_pty (cc_permissions cred) request = None"
    "authorizeEnvironment (lr_Environment request) (cp_allowedEnvironment (cc_permissions cred)) = Inr env"
    "spec = \<lparr>als_kind = (if cp_forcedCommand (cc_permissions cred) \<noteq> [] then LaunchExec else lr_Kind request),
       als_command = (if cp_forcedCommand (cc_permissions cred) \<noteq> []
                      then cp_forcedCommand (cc_permissions cred) else TrimSpace (lr_Command request)),
       als_executable = acc_LoginShell (cc_account cred), als_workingDirectory = acc_HomeDir (cc_account cred),
       als_pty = lr_PTY request, als_environment = env, als_account = cc_account cred\<rparr>"
  using assms by (auto simp: AuthorizeLaunch_def Let_def split: option.splits if_splits sum.splits)

text \<open>
  A launch that is authorized runs within the permissions.  The channel belongs to the
  credentials; the program is the account's login shell, started in its home directory, both
  absolute paths; with a forced command the launch is an exec of exactly that command, otherwise
  it is the requested shell or exec, permitted as such, with the trimmed command of at most
  24 KiB and no NUL; a terminal is granted only if permitted and with a real size; the
  environment is the requested one, all its names permitted and its values bounded.
\<close>

theorem launch_within_permissions:
  assumes "AuthorizeLaunch server ctx_err cred channel request = Inr spec"
  shows "ac_credentialIdentity channel = cc_identityToken cred \<and> cc_identityToken cred \<noteq> None
    \<and> als_account spec = cc_account cred
    \<and> als_executable spec = acc_LoginShell (cc_account cred) \<and> IsAbs (als_executable spec)
    \<and> als_workingDirectory spec = acc_HomeDir (cc_account cred) \<and> IsAbs (als_workingDirectory spec)
    \<and> (if cp_forcedCommand (cc_permissions cred) \<noteq> []
       then als_kind spec = LaunchExec \<and> als_command spec = cp_forcedCommand (cc_permissions cred)
       else als_kind spec = lr_Kind request \<and> als_command spec = TrimSpace (lr_Command request)
         \<and> (case als_kind spec of
              LaunchShell \<Rightarrow> cp_allowShell (cc_permissions cred) \<and> als_command spec = []
            | LaunchExec \<Rightarrow> cp_allowExec (cc_permissions cred) \<and> als_command spec \<noteq> []
            | LaunchOther _ \<Rightarrow> False)
         \<and> \<not> ContainsNUL (als_command spec) \<and> length (als_command spec) \<le> 24 * 1024)
    \<and> als_pty spec = lr_PTY request
    \<and> (case als_pty spec of
         None \<Rightarrow> True
       | Some p \<Rightarrow> cp_allowPTY (cc_permissions cred) \<and> pty_Rows p \<noteq> 0 \<and> pty_Columns p \<noteq> 0)
    \<and> environment_ok (lr_Environment request) (cp_allowedEnvironment (cc_permissions cred)) (als_environment spec)"
proof -
  let ?p = "cc_permissions cred"
  obtain env where
    c: "ac_credentialIdentity channel = cc_identityToken cred" "ConnectionCredentials_validate cred = None"
      "IsAbs (acc_HomeDir (cc_account cred))" "IsAbs (acc_LoginShell (cc_account cred))"
      "\<not> ContainsNUL (TrimSpace (lr_Command request))" "length (TrimSpace (lr_Command request)) \<le> 24 * 1024"
    and k: "check_kind ?p request = None" and t: "check_pty ?p request = None"
    and e: "authorizeEnvironment (lr_Environment request) (cp_allowedEnvironment ?p) = Inr env"
    and s: "spec = \<lparr>als_kind = (if cp_forcedCommand ?p \<noteq> [] then LaunchExec else lr_Kind request),
       als_command = (if cp_forcedCommand ?p \<noteq> [] then cp_forcedCommand ?p else TrimSpace (lr_Command request)),
       als_executable = acc_LoginShell (cc_account cred), als_workingDirectory = acc_HomeDir (cc_account cred),
       als_pty = lr_PTY request, als_environment = env, als_account = cc_account cred\<rparr>"
    by (rule AuthorizeLaunch_spec [OF assms])
  have kind: "case lr_Kind request of
        LaunchShell \<Rightarrow> cp_allowShell ?p \<and> TrimSpace (lr_Command request) = []
      | LaunchExec \<Rightarrow> cp_allowExec ?p \<and> (cp_forcedCommand ?p = [] \<longrightarrow> TrimSpace (lr_Command request) \<noteq> [])
      | LaunchOther _ \<Rightarrow> False"
    using k by (auto simp: check_kind_def split: LaunchKind.splits if_splits)
  have pty: "case lr_PTY request of
        None \<Rightarrow> True | Some p \<Rightarrow> cp_allowPTY ?p \<and> pty_Rows p \<noteq> 0 \<and> pty_Columns p \<noteq> 0"
    using t by (auto simp: check_pty_def split: option.splits if_splits)
  show ?thesis
    using c validate_credentials_ok(4) [OF c(2)] kind pty authorizeEnvironment_sound [OF e]
    by (simp add: s split: LaunchKind.splits)
qed

lemma constraints_forced_command:
  assumes "AuthorizedKeyEntry_Constraints (Some entry) = Inr c" and "akc_ForcedCommand c \<noteq> []"
  shows "TrimSpace (akc_ForcedCommand c) \<noteq> []"
proof -
  from assms(1) have "c = with_options (ak_Options entry) no_constraints"
    by (simp add: AuthorizedKeyEntry_Constraints_def parseAuthorizedKeyConstraints_def constraints_loop_exact)
  then have "akc_ForcedCommand c = forced_command_of [] (ak_Options entry)"
    by (simp add: with_options_def no_constraints_def)
  with assms(2) obtain opt where "parse_command_option opt = Inr (akc_ForcedCommand c)"
    by (auto simp: forced_command_of_def split: option.splits sum.splits)
  then show ?thesis using parse_command_sound by blast
qed

lemma matched_forced_command:
  assumes "matchAuthorizedKey w a account key l = Some (Inr m, l')"
    and "mk_forcedCommand (mak_constraints m) \<noteq> []"
  shows "TrimSpace (mk_forcedCommand (mak_constraints m)) \<noteq> []"
proof -
  obtain path l0 where "matched_entry w account key path l0 l' m"
    using match_loop_sound assms(1) unfolding matchAuthorizedKey_def by blast
  then show ?thesis
    using assms(2) constraints_forced_command
    by (auto simp: matched_entry_def newMatchedKeyConstraints_def)
qed

text \<open>
  The permissions of an authorized connection never exceed the policy's decision for the
  resolved account and the matched file, and the matched key's constraints are applied: no
  terminal for a \<open>no-pty\<close> or \<open>restrict\<close> key, and the key's own forced command whenever it has
  one.  The account is the one the resolver gives for the proven username.
\<close>

theorem connection_within_policy:
  assumes "AuthorizeConnection w (Some a) token request l = Some (Inr cred, l')"
  shows "\<exists>m d. w_resolve w (vc_username (cr_VerifiedClient request)) = Some (Inr (cc_account cred))
    \<and> matchAuthorizedKey w a (cc_account cred) (vc_key (cr_VerifiedClient request)) l = Some (Inr m, l')
    \<and> ResolvePermissions w request (cc_account cred) (mak_source m) = Inr d
    \<and> narrowed d (mak_constraints m) (cc_permissions cred)"
  by (rule AuthorizeConnection_sound [OF assms]) blast

text \<open>
  C23: A forced command cannot be escaped.  If the matched key carries a forced command, then
  whatever the client requests on the connection, every launch that is authorized with these
  credentials is an exec of exactly that command by the login shell of the resolved account.
\<close>

theorem forced_command_enforced:
  assumes "AuthorizeConnection w (Some a) token request l = Some (Inr cred, l')"
    and "mk_forcedCommand (cc_matchedKeyConstraints cred) \<noteq> []"
    and "AuthorizeLaunch server ctx_err cred channel launch = Inr spec"
  shows "als_kind spec = LaunchExec
    \<and> als_command spec = TrimSpace (mk_forcedCommand (cc_matchedKeyConstraints cred))
    \<and> als_command spec \<noteq> []
    \<and> als_executable spec = acc_LoginShell (cc_account cred)"
proof -
  obtain account m d where
    m: "matchAuthorizedKey w a account (vc_key (cr_VerifiedClient request)) l = Some (Inr m, l')"
    and n: "narrowed d (mak_constraints m) (cc_permissions cred)"
    and c: "cc_matchedKeyConstraints cred = mak_constraints m"
    by (rule AuthorizeConnection_sound [OF assms(1)]) blast
  have f: "cp_forcedCommand (cc_permissions cred) = TrimSpace (mk_forcedCommand (mak_constraints m))"
    "TrimSpace (mk_forcedCommand (mak_constraints m)) \<noteq> []"
    using n assms(2) c matched_forced_command [OF m] by (simp_all add: narrowed_def)
  show ?thesis
    by (rule AuthorizeLaunch_spec [OF assms(3)]) (simp add: c f)
qed

section \<open>An example\<close>

definition backup_line :: "bytes \<Rightarrow> (goerr, auth_line) result" where
  "backup_line b =
    (if b = [] then Inl EIoEOF
     else Inr \<lparr>al_key = line_key b, al_comment = [],
               al_options = [''no-pty'', ''command='' @ [CHR 0x22] @ ''/bin/backup'' @ [CHR 0x22]],
               al_rest = rest_of_line b\<rparr>)"

definition example_account :: Account where
  "example_account =
    \<lparr>acc_Username = ''ann'', acc_Name = ''Ann'', acc_Id = 1000,
     acc_PrimaryGroup = \<lparr>grp_Id = 100, grp_Name = ''users''\<rparr>, acc_SupplementaryGroups = [],
     acc_HomeDir = ''/home/ann'', acc_LoginShell = ''/bin/sh''\<rparr>"

definition example_world :: world where
  "example_world =
    \<lparr>w_ctx = (\<lambda>_. None), w_resolve = (\<lambda>_. Some (Inr example_account)), w_getwd = Inr ''/srv'',
     w_kernel = example_kernel\<lparr>k_read := (\<lambda>_ _. Inr (replicate 32 7))\<rparr>, w_parse_line = backup_line,
     w_account_policy = None,
     w_permission_policy = Some (\<lambda>_ _ _. Inr
       \<lparr>pd_AllowCommand = True, pd_AllowShell = True, pd_AllowExec = True, pd_AllowPTY = True,
        pd_ForcedCommand = [], pd_AllowedEnvironment = []\<rparr>),
     w_digest = (\<lambda>_. [])\<rparr>"

definition example_server :: AuthzServer where
  "example_server = \<lparr>az_paths = [''~/keys'']\<rparr>"

definition example_request :: ConnectionRequest where
  "example_request = \<lparr>cr_VerifiedClient = \<lparr>vc_username = ''ann'', vc_key = example_key 7\<rparr>, cr_PeerAddress = []\<rparr>"

definition example_credentials :: ConnectionCredentials where
  "example_credentials =
    \<lparr>cc_authenticationMethod = ''public-key'', cc_keyFingerprint = ''SHA256:'',
     cc_requestedUsername = ''ann'', cc_peerAddress = [], cc_provedKey = example_key 7,
     cc_account = example_account, cc_matchedSource = ''/home/ann/keys'',
     cc_matchedKeyConstraints = \<lparr>mk_forcedCommand = ''/bin/backup'', mk_noPTY = True, mk_restricted = False\<rparr>,
     cc_permissions = \<lparr>cp_allowCommand = True, cp_allowShell = True, cp_allowExec = True, cp_allowPTY = False,
       cp_forcedCommand = ''/bin/backup'', cp_allowedEnvironment = []\<rparr>,
     cc_identityToken = Some 1\<rparr>"

definition example_entry :: AuthorizedKeyEntry where
  "example_entry =
    \<lparr>ak_Options = [\<lparr>opt_Name = ''no-pty'', opt_Value = [], opt_HasValue = False\<rparr>,
       \<lparr>opt_Name = ''command'', opt_Value = [CHR 0x22] @ ''/bin/backup'' @ [CHR 0x22], opt_HasValue = True\<rparr>],
     ak_Key = example_key 7\<rparr>"

lemma example_parsed: "ParseAuthorizedKeys backup_line (replicate 32 7) = Some (Inr [example_entry])"
proof -
  have t: "bytes_TrimSpace (replicate 32 7) = replicate 32 7" "bytes_TrimSpace [] = []"
    "rest_of_line (replicate 32 7) = []"
    by code_simp+
  have e: "authorized_entry \<lparr>al_key = line_key (replicate 32 7), al_comment = [],
      al_options = [''no-pty'', ''command='' @ [CHR 0x22] @ ''/bin/backup'' @ [CHR 0x22]],
      al_rest = rest_of_line (replicate 32 7)\<rparr> = Inr (Some example_entry)"
    by code_simp
  have "replicate 32 (7 :: u8) \<noteq> []" by (simp add: numeral_eq_Suc)
  then have b: "backup_line (replicate 32 7) = Inr \<lparr>al_key = line_key (replicate 32 7), al_comment = [],
      al_options = [''no-pty'', ''command='' @ [CHR 0x22] @ ''/bin/backup'' @ [CHR 0x22]],
      al_rest = rest_of_line (replicate 32 7)\<rparr>"
    unfolding backup_line_def by (rule if_not_P)
  show ?thesis
    unfolding ParseAuthorizedKeys_def t
    using \<open>replicate 32 7 \<noteq> []\<close> b e
    by (subst authorized_loop.simps) (simp add: t authorized_loop.simps del: append_Cons)
qed

lemma example_loaded:
  "\<exists>l. load_authorized_keys example_world example_account ''~/keys'' []
     = Some (File ''/home/ann/keys'' [example_entry], l)"
proof -
  have p: "resolveAccountPath (w_getwd example_world) (acc_HomeDir example_account) ''~/keys''
      = Inr (''/home/ann/keys'', ''/home/ann'', ''keys'')"
    by code_simp
  have r: "fst (secure_Read (w_kernel example_world) ''/home/ann'' ''keys'' (authorized_policy example_account) [])
      = Inr (replicate 32 7)"
    by code_simp
  have w: "w_parse_line example_world = backup_line" by (simp add: example_world_def)
  obtain l where "secure_Read (w_kernel example_world) ''/home/ann'' ''keys'' (authorized_policy example_account) []
      = (Inr (replicate 32 7), l)"
    using r by (cases "secure_Read (w_kernel example_world) ''/home/ann'' ''keys'' (authorized_policy example_account) []")
      simp
  then show ?thesis by (simp add: load_authorized_keys_def p w example_parsed)
qed

lemma example_matched:
  "\<exists>l. matchAuthorizedKey example_world example_server example_account (example_key 7) []
     = Some (Inr \<lparr>mak_source = ''/home/ann/keys'',
         mak_constraints = cc_matchedKeyConstraints example_credentials\<rparr>, l)"
proof -
  define k where "k = \<lparr>akc_ForcedCommand = ''/bin/backup'', akc_NoPTY = True, akc_Restricted = False\<rparr>"
  have k: "AuthorizedKeyEntry_Constraints (Some example_entry) = Inr k"
    "newMatchedKeyConstraints k = cc_matchedKeyConstraints example_credentials"
    unfolding k_def by code_simp+
  have e: "PublicKey_Equal (ak_Key example_entry) (example_key 7)" by code_simp
  obtain l where l: "load_authorized_keys example_world example_account ''~/keys'' []
      = Some (File ''/home/ann/keys'' [example_entry], l)"
    using example_loaded by blast
  have ctx: "w_ctx example_world n = None" for n by (simp add: example_world_def)
  show ?thesis
    by (simp add: matchAuthorizedKey_def example_server_def ctx l AuthorizedKeys_Match_def e k)
qed

lemma example_authorized:
  "\<exists>l. AuthorizeConnection example_world (Some example_server) 1 example_request []
     = Some (Inr example_credentials, l)"
proof -
  obtain l where l: "matchAuthorizedKey example_world example_server example_account (example_key 7) []
     = Some (Inr \<lparr>mak_source = ''/home/ann/keys'',
         mak_constraints = cc_matchedKeyConstraints example_credentials\<rparr>, l)"
    using example_matched by blast
  have f: "finish_connection example_world 1 example_request example_account
      \<lparr>mak_source = ''/home/ann/keys'', mak_constraints = cc_matchedKeyConstraints example_credentials\<rparr>
      = Inr example_credentials"
    by code_simp
  have v: "PublicKey_Validate (example_key 7) = None" "validateAccount example_account = None"
    by code_simp+
  have w: "w_ctx example_world n = None" "w_resolve example_world u = Some (Inr example_account)" for n u
    by (simp_all add: example_world_def)
  show ?thesis
    using l f by (simp add: AuthorizeConnection_def w v example_request_def)
qed

definition example_launch :: LaunchRequest where
  "example_launch =
    \<lparr>lr_Kind = LaunchExec, lr_Command = ''rm -rf /'', lr_PTY = None, lr_Environment = []\<rparr>"

definition example_channel :: AuthorizedChannel where
  "example_channel = \<lparr>ac_channelType = ''command'', ac_credentialIdentity = Some 1\<rparr>"

definition example_spec :: AuthorizedLaunchSpec where
  "example_spec =
    \<lparr>als_kind = LaunchExec, als_command = ''/bin/backup'', als_executable = ''/bin/sh'',
     als_workingDirectory = ''/home/ann'', als_pty = None, als_environment = [],
     als_account = example_account\<rparr>"

lemma example_launched:
  "AuthorizeLaunch (Some example_server) None example_credentials example_channel example_launch
    = Inr example_spec"
  by code_simp

theorem match_fails_closed_witness:
  "\<exists>pre path post. az_paths example_server = pre @ path # post"
proof -
  obtain m l where "matchAuthorizedKey example_world example_server example_account (example_key 7) []
      = Some (Inr m, l)"
    using example_matched by blast
  from match_fails_closed [OF this] show ?thesis by blast
qed

theorem launch_within_permissions_witness:
  "als_executable example_spec = acc_LoginShell example_account"
  using launch_within_permissions [OF example_launched] by (simp add: example_credentials_def)

theorem connection_within_policy_witness:
  "\<exists>d c. narrowed d c (cc_permissions example_credentials)"
proof -
  obtain l where "AuthorizeConnection example_world (Some example_server) 1 example_request []
     = Some (Inr example_credentials, l)"
    using example_authorized by blast
  from connection_within_policy [OF this] show ?thesis by blast
qed

theorem forced_command_enforced_witness:
  "als_command example_spec = ''/bin/backup''"
proof -
  obtain l where a: "AuthorizeConnection example_world (Some example_server) 1 example_request []
     = Some (Inr example_credentials, l)"
    using example_authorized by blast
  have f: "mk_forcedCommand (cc_matchedKeyConstraints example_credentials) = ''/bin/backup''"
    by (simp add: example_credentials_def)
  have t: "TrimSpace ''/bin/backup'' = ''/bin/backup''" by code_simp
  show ?thesis
    using forced_command_enforced [OF a _ example_launched] by (simp add: f t)
qed

end
