(* ===== verification/Go_Net.thy ===== *)
theory Go_Net
  imports Go_Strings
begin

text \<open>
  Host and port strings: \<open>net.SplitHostPort\<close>, \<open>net.JoinHostPort\<close> and \<open>strconv.Atoi\<close>, as the sources use
  them.  Positions in a string are found from the front or the back.
\<close>

section \<open>Positions\<close>

text \<open>The position of the first occurrence of a byte, and of the last one.\<close>

fun IndexByte :: "char \<Rightarrow> string \<Rightarrow> nat option" where
  "IndexByte c [] = None"
| "IndexByte c (x # xs) = (if x = c then Some 0 else map_option Suc (IndexByte c xs))"

fun LastIndexByte :: "char \<Rightarrow> string \<Rightarrow> nat option" where
  "LastIndexByte c [] = None"
| "LastIndexByte c (x # xs) =
    (case LastIndexByte c xs of Some i \<Rightarrow> Some (Suc i) | None \<Rightarrow> if x = c then Some 0 else None)"

lemma IndexByte_None: "IndexByte c s = None \<longleftrightarrow> c \<notin> set s"
  by (induction s) auto

lemma LastIndexByte_None: "LastIndexByte c s = None \<longleftrightarrow> c \<notin> set s"
  by (induction s) (auto split: option.splits)

lemma IndexByte_append: "c \<notin> set a \<Longrightarrow> IndexByte c (a @ c # b) = Some (length a)"
  by (induction a) auto

lemma LastIndexByte_append: "c \<notin> set b \<Longrightarrow> LastIndexByte c (a @ c # b) = Some (length a)"
proof (induction a)
  case Nil
  then have "LastIndexByte c b = None" by (simp add: LastIndexByte_None)
  then show ?case by simp
qed simp

lemma LastIndexByte_split:
  "LastIndexByte c s = Some i \<Longrightarrow> s = take i s @ c # drop (Suc i) s \<and> c \<notin> set (drop (Suc i) s) \<and> i < length s"
proof (induction s arbitrary: i)
  case (Cons x xs)
  show ?case
  proof (cases "LastIndexByte c xs")
    case None
    moreover have "c \<notin> set xs" using None by (simp add: LastIndexByte_None)
    ultimately show ?thesis using Cons.prems by (auto split: if_splits)
  next
    case (Some j)
    then show ?thesis using Cons.prems Cons.IH [OF Some] by auto
  qed
qed simp

lemma IndexByte_split:
  "IndexByte c s = Some i \<Longrightarrow> s = take i s @ c # drop (Suc i) s \<and> c \<notin> set (take i s) \<and> i < length s"
proof (induction s arbitrary: i)
  case (Cons x xs)
  then show ?case by (cases i) (auto split: if_splits)
qed simp

section \<open>Host and port\<close>

definition colon :: char where "colon = CHR '':''"
definition lbracket :: char where "lbracket = CHR ''[''"
definition rbracket :: char where "rbracket = CHR '']''"

lemma address_chars [simp]: "colon \<noteq> lbracket" "colon \<noteq> rbracket" "lbracket \<noteq> rbracket" "lbracket \<noteq> colon"
    "rbracket \<noteq> colon" "rbracket \<noteq> lbracket"
  by (simp_all add: colon_def lbracket_def rbracket_def)

definition split_tail :: "string \<Rightarrow> string \<Rightarrow> nat \<Rightarrow> nat \<Rightarrow> nat \<Rightarrow> (goerr, string \<times> string) result" where
  "split_tail hostport host i j k =
    (if lbracket \<in> set (drop j hostport) then Inl (EErr ''unexpected '[' in address'')
     else if rbracket \<in> set (drop k hostport) then Inl (EErr ''unexpected ']' in address'')
     else Inr (host, drop (Suc i) hostport))"

definition SplitHostPort :: "string \<Rightarrow> (goerr, string \<times> string) result" where
  "SplitHostPort hostport =
    (case LastIndexByte colon hostport of
       None \<Rightarrow> Inl (EErr ''missing port in address'')
     | Some i \<Rightarrow>
         if hd hostport = lbracket then
           (case IndexByte rbracket hostport of
              None \<Rightarrow> Inl (EErr ''missing ']' in address'')
            | Some e \<Rightarrow>
                if Suc e = length hostport then Inl (EErr ''missing port in address'')
                else if Suc e = i
                then split_tail hostport (take (e - 1) (drop 1 hostport)) i 1 (Suc e)
                else if hostport ! Suc e = colon then Inl (EErr ''too many colons in address'')
                else Inl (EErr ''missing port in address''))
         else if colon \<in> set (take i hostport) then Inl (EErr ''too many colons in address'')
         else split_tail hostport (take i hostport) i 0 0)"

definition JoinHostPort :: "string \<Rightarrow> string \<Rightarrow> string" where
  "JoinHostPort host port =
    (if colon \<in> set host then [lbracket] @ host @ [rbracket, colon] @ port else host @ [colon] @ port)"

text \<open>\<open>strconv.Atoi\<close>: an optional sign, decimal digits and the range of a 64-bit \<open>int\<close>.\<close>

definition Atoi :: "string \<Rightarrow> int option" where
  "Atoi s =
    (let digits = (if s \<noteq> [] \<and> (hd s = CHR ''-'' \<or> hd s = CHR ''+'') then tl s else s);
         n = int (decimal_value 0 digits);
         v = (if s \<noteq> [] \<and> hd s = CHR ''-'' then - n else n)
     in if digits = [] \<or> \<not> list_all is_digit digits then None
        else if - (2 ^ 63) \<le> v \<and> v < 2 ^ 63 then Some v else None)"

definition no_brackets :: "string \<Rightarrow> bool" where
  "no_brackets s \<longleftrightarrow> lbracket \<notin> set s \<and> rbracket \<notin> set s"

lemma SplitHostPort_plain:
  assumes "no_brackets host" "no_brackets port" "colon \<notin> set host" "colon \<notin> set port"
  shows "SplitHostPort (host @ colon # port) = Inr (host, port)"
proof -
  have "hd (host @ colon # port) \<noteq> lbracket" using assms(1) by (cases host) (auto simp: no_brackets_def)
  then show ?thesis
    using assms by (simp add: SplitHostPort_def LastIndexByte_append split_tail_def no_brackets_def)
qed

lemma SplitHostPort_bracketed:
  assumes "no_brackets host" "no_brackets port" "colon \<notin> set port"
  shows "SplitHostPort (lbracket # host @ rbracket # colon # port) = Inr (host, port)"
proof -
  let ?s = "lbracket # host @ rbracket # colon # port"
  have "LastIndexByte colon ?s = Some (Suc (Suc (length host)))"
    using LastIndexByte_append [of colon port "lbracket # host @ [rbracket]"] assms by simp
  moreover have "IndexByte rbracket ?s = Some (Suc (length host))"
    using IndexByte_append [of rbracket "lbracket # host" "colon # port"] assms by (simp add: no_brackets_def)
  ultimately show ?thesis using assms by (simp add: SplitHostPort_def split_tail_def no_brackets_def)
qed

lemma SplitHostPort_JoinHostPort:
  assumes "no_brackets host" "no_brackets port" "colon \<notin> set port"
  shows "SplitHostPort (JoinHostPort host port) = Inr (host, port)"
  using assms by (simp add: JoinHostPort_def SplitHostPort_plain SplitHostPort_bracketed)

lemma SplitHostPort_port: "SplitHostPort s = Inr (host, port) \<Longrightarrow> colon \<notin> set port \<and> no_brackets host"
proof -
  assume s: "SplitHostPort s = Inr (host, port)"
  then obtain i where i: "LastIndexByte colon s = Some i" by (auto simp: SplitHostPort_def split: option.splits)
  note sp = LastIndexByte_split [OF i]
  show ?thesis
  proof (cases "hd s = lbracket")
    case True
    then obtain e where e: "IndexByte rbracket s = Some e" "Suc e = i"
      and t: "split_tail s (take (e - 1) (drop 1 s)) i 1 (Suc e) = Inr (host, port)"
      using s i by (auto simp: SplitHostPort_def split: option.splits if_splits)
    have h: "host = take (e - 1) (drop 1 s)" "port = drop (Suc i) s" "lbracket \<notin> set (drop 1 s)"
      using t by (auto simp: split_tail_def split: if_splits)
    have "rbracket \<notin> set (take e s)" using IndexByte_split [OF e(1)] by blast
    moreover have "take (e - 1) (drop 1 s) = drop 1 (take e s)" by (cases e) (simp_all add: take_drop)
    ultimately have "rbracket \<notin> set host" using h(1) by (auto dest: in_set_dropD)
    moreover have "lbracket \<notin> set host" using h(1,3) by (auto dest: in_set_takeD)
    ultimately show ?thesis using h(2) sp by (simp add: no_brackets_def)
  next
    case False
    then have t: "split_tail s (take i s) i 0 0 = Inr (host, port)"
      using s i by (auto simp: SplitHostPort_def split: if_splits)
    then have "host = take i s" "port = drop (Suc i) s" "lbracket \<notin> set s" "rbracket \<notin> set s"
      by (auto simp: split_tail_def split: if_splits)
    then show ?thesis using sp [THEN conjunct2, THEN conjunct1] by (auto simp: no_brackets_def dest: in_set_takeD)
  qed
qed

lemma FormatUint_Atoi: "n < 2 ^ 63 \<Longrightarrow> Atoi (FormatUint n) = Some (int n)"
proof -
  assume n: "n < 2 ^ 63"
  have d: "list_all is_digit (FormatUint n)" "FormatUint n \<noteq> []" using FormatUint_digits by simp_all
  then have "is_digit (hd (FormatUint n))" by (cases "FormatUint n") simp_all
  then have "hd (FormatUint n) \<noteq> CHR ''-''" "hd (FormatUint n) \<noteq> CHR ''+''"
    by (auto simp: is_digit_def)
  then show ?thesis using d n by (simp add: Atoi_def FormatUint_value)
qed

end
