(* ===== verification/App_Config.thy ===== *)
theory App_Config
  imports Authz Go_Net
begin

text \<open>
  The configuration of client and server (\<open>app/config\<close>) and the settings of the log
  (\<open>app/logging/logger.go\<close>): what the loaders do to the decoded values and which they accept.  Reading
  the file and decoding it are done by a library, so a loader starts from the decoded record.
\<close>

section \<open>Log settings\<close>

record LogConfig =
  log_Level :: string
  log_JSON :: bool
  log_File :: string

text \<open>
  \<open>strings.ToUpper\<close> where it matters: the lower-case letters and the two other characters whose upper
  case is an ASCII letter, the dotless i and the long s, in UTF-8.  All other characters have no
  ASCII letter as upper case, so a level with one is refused either way.
\<close>

definition upper_char :: "char \<Rightarrow> char" where
  "upper_char c = (let n = (of_char c :: nat) in if 97 \<le> n \<and> n \<le> 122 then char_of (n - 32) else c)"

fun ToUpper :: "string \<Rightarrow> string" where
  "ToUpper (c # d # s) =
    (if c = CHR 0xC4 \<and> d = CHR 0xB1 then CHR ''I'' # ToUpper s
     else if c = CHR 0xC5 \<and> d = CHR 0xBF then CHR ''S'' # ToUpper s
     else upper_char c # ToUpper (d # s))"
| "ToUpper [c] = [upper_char c]"
| "ToUpper [] = []"

definition log_levels :: "string list" where
  "log_levels = [[], ''NONE'', ''DEBUG'', ''INFO'', ''WARN'', ''ERROR'', ''FATAL'']"

definition LogConfig_Validate :: "LogConfig \<Rightarrow> goerr option" where
  "LogConfig_Validate c =
    (if ToUpper (TrimSpace (log_Level c)) \<in> set log_levels then None
     else Some (EErr ''log.level must be one of DEBUG, INFO, WARN, ERROR, FATAL, NONE''))"

definition NormalizeConfig :: "LogConfig \<Rightarrow> int \<Rightarrow> (goerr, LogConfig) result" where
  "NormalizeConfig cfg verbosity =
    (let level1 = ToUpper (TrimSpace (log_Level cfg));
         level2 = (if level1 = ''WARNING'' then ''WARN'' else level1);
         level3 = (if verbosity = 1 then ''INFO'' else level2);
         level4 = (if verbosity \<ge> 2 then ''DEBUG'' else level3);
         out = cfg\<lparr>log_Level := level4, log_File := TrimSpace (log_File cfg)\<rparr>
     in case LogConfig_Validate out of Some e \<Rightarrow> Inl e | None \<Rightarrow> Inr out)"

definition enabledLevel :: "string \<Rightarrow> bool" where
  "enabledLevel level = (let l = ToUpper (TrimSpace level) in l \<noteq> [] \<and> l \<noteq> ''NONE'')"

section \<open>Server\<close>

record ServerDaemon =
  sd_MaxConnections :: int
  sd_MaxConnectionsPerIP :: int
  sd_ShutdownTimeout :: int

record ServerPermissions =
  perm_AllowShell :: bool
  perm_AllowExec :: bool
  perm_AllowPTY :: bool
  perm_AllowedEnvironment :: "string list"
  perm_ForcedCommand :: string

record Server =
  srv_ConfigFile :: string
  srv_ListenAddress :: string
  srv_Daemon :: ServerDaemon
  srv_HostKey :: string
  srv_AuthorizedKeys :: "string list"
  srv_Permissions :: "ServerPermissions option"
  srv_Log :: LogConfig

fun check_environment :: "string list \<Rightarrow> string list \<Rightarrow> goerr option" where
  "check_environment seen [] = None"
| "check_environment seen (name # names) =
    (if name = [] \<or> ContainsAny name [CHR ''='', NUL] \<or> length name > 256
     then Some (EErr ''allowed_environment contains invalid name'')
     else if name \<in> set seen then Some (EErr ''allowed_environment contains duplicate'')
     else check_environment (name # seen) names)"

definition ServerPermissions_Validate :: "ServerPermissions \<Rightarrow> goerr option" where
  "ServerPermissions_Validate p =
    (if perm_AllowPTY p \<and> \<not> perm_AllowShell p \<and> \<not> perm_AllowExec p
     then Some (EErr ''allow_pty requires shell or exec permission'')
     else if perm_ForcedCommand p \<noteq> [] \<and> \<not> perm_AllowShell p \<and> \<not> perm_AllowExec p
     then Some (EErr ''forced_command requires shell or exec permission'')
     else if ContainsNUL (perm_ForcedCommand p) then Some (EErr ''forced_command contains NUL'')
     else if length (perm_ForcedCommand p) > 24 * 1024
     then Some (EErr ''forced_command exceeds maximum size'')
     else if length (perm_AllowedEnvironment p) > 128
     then Some (EErr ''allowed_environment has too many entries'')
     else check_environment [] (perm_AllowedEnvironment p))"

definition listen_error :: "string \<Rightarrow> goerr option" where
  "listen_error address =
    (case SplitHostPort address of
       Inl e \<Rightarrow> Some (EWrap ''listen.address must be a host:port address'' e)
     | Inr (host, portText) \<Rightarrow>
         if TrimSpace host = [] then Some (EErr ''listen.address host must not be empty'')
         else (case Atoi portText of
                 None \<Rightarrow> Some (EErr ''listen.address port must be between 1 and 65535'')
               | Some port \<Rightarrow>
                   if port < 1 \<or> port > 65535
                   then Some (EErr ''listen.address port must be between 1 and 65535'') else None))"

definition Server_Validate :: "Server \<Rightarrow> goerr option" where
  "Server_Validate s =
    (case listen_error (srv_ListenAddress s) of
       Some e \<Rightarrow> Some e
     | None \<Rightarrow>
    (let d = srv_Daemon s
     in if TrimSpace (srv_HostKey s) = [] then Some (EErr ''identity.host_key must not be empty'')
        else if sd_MaxConnections d < 1 \<or> sd_MaxConnections d > 4096
        then Some (EErr ''daemon.max_connections must be between 1 and 4096'')
        else if sd_MaxConnectionsPerIP d < 1 \<or> sd_MaxConnectionsPerIP d > sd_MaxConnections d
        then Some (EErr ''daemon.max_connections_per_ip must be between 1 and daemon.max_connections'')
        else if sd_ShutdownTimeout d \<le> 0 \<or> sd_ShutdownTimeout d > 5 * 60 * 1000000000
        then Some (EErr ''daemon.shutdown_timeout must be greater than zero and at most 5m'')
        else if srv_AuthorizedKeys s = [] then Some (EErr ''authorization.authorized_keys must not be empty'')
        else if [] \<in> set (srv_AuthorizedKeys s)
        then Some (EErr ''authorization.authorized_keys entries must not be empty'')
        else case srv_Permissions s of
          None \<Rightarrow> Some (EErr ''authorization.permissions must be configured explicitly'')
        | Some p \<Rightarrow>
       (case ServerPermissions_Validate p of
          Some e \<Rightarrow> Some e
        | None \<Rightarrow> LogConfig_Validate (srv_Log s))))"

text \<open>The part of \<open>LoadServer\<close> after the file has been decoded.\<close>

definition LoadServer :: "string \<Rightarrow> int \<Rightarrow> Server \<Rightarrow> (goerr, Server) result" where
  "LoadServer path verbosity decoded =
    (let cfg = decoded\<lparr>srv_ConfigFile := (if TrimSpace path = [] then ''mygosh-server.toml'' else path),
           srv_ListenAddress := TrimSpace (srv_ListenAddress decoded),
           srv_HostKey := TrimSpace (srv_HostKey decoded),
           srv_AuthorizedKeys := map TrimSpace (srv_AuthorizedKeys decoded),
           srv_Permissions := map_option (\<lambda>p. p\<lparr>perm_ForcedCommand := TrimSpace (perm_ForcedCommand p),
             perm_AllowedEnvironment := map TrimSpace (perm_AllowedEnvironment p)\<rparr>) (srv_Permissions decoded)\<rparr>
     in case NormalizeConfig (srv_Log cfg) verbosity of
          Inl e \<Rightarrow> Inl e
        | Inr logConfig \<Rightarrow>
            (let out = cfg\<lparr>srv_Log := logConfig\<rparr>
             in case Server_Validate out of Some e \<Rightarrow> Inl e | None \<Rightarrow> Inr out))"

text \<open>The permission policy \<open>RunServer\<close> builds from the configuration.\<close>

definition configured_decision :: "ServerPermissions \<Rightarrow> PermissionDecision" where
  "configured_decision p =
    \<lparr>pd_AllowCommand = perm_AllowShell p \<or> perm_AllowExec p, pd_AllowShell = perm_AllowShell p,
     pd_AllowExec = perm_AllowExec p, pd_AllowPTY = perm_AllowPTY p,
     pd_ForcedCommand = perm_ForcedCommand p, pd_AllowedEnvironment = perm_AllowedEnvironment p\<rparr>"

section \<open>Client\<close>

record ClientCfg =
  cl_ConfigFile :: string
  cl_DefaultPort :: int
  cl_PrivateKey :: string
  cl_KnownHosts :: string
  cl_Log :: LogConfig

definition Client_Validate :: "ClientCfg \<Rightarrow> goerr option" where
  "Client_Validate c =
    (if cl_DefaultPort c < 1 \<or> cl_DefaultPort c > 65535
     then Some (EErr ''connection.default_port must be between 1 and 65535'')
     else if TrimSpace (cl_PrivateKey c) = [] then Some (EErr ''identity.private_key must not be empty'')
     else if TrimSpace (cl_KnownHosts c) = [] then Some (EErr ''trust.known_hosts must not be empty'')
     else LogConfig_Validate (cl_Log c))"

definition LoadClient :: "string \<Rightarrow> int \<Rightarrow> ClientCfg \<Rightarrow> (goerr, ClientCfg) result" where
  "LoadClient path verbosity decoded =
    (let cfg = decoded\<lparr>cl_ConfigFile := (if TrimSpace path = [] then ''mygosh-client.toml'' else path),
           cl_PrivateKey := TrimSpace (cl_PrivateKey decoded),
           cl_KnownHosts := TrimSpace (cl_KnownHosts decoded)\<rparr>
     in case NormalizeConfig (cl_Log cfg) verbosity of
          Inl e \<Rightarrow> Inl e
        | Inr logConfig \<Rightarrow>
            (let out = cfg\<lparr>cl_Log := logConfig\<rparr>
             in case Client_Validate out of Some e \<Rightarrow> Inl e | None \<Rightarrow> Inr out))"

section \<open>A loaded configuration is usable\<close>

lemma check_environment_None:
  "check_environment seen names = None \<longleftrightarrow>
    list_all (\<lambda>n. n \<noteq> [] \<and> \<not> ContainsAny n [CHR ''='', NUL] \<and> length n \<le> 256) names
    \<and> distinct names \<and> set names \<inter> set seen = {}"
  by (induction seen names rule: check_environment.induct) (auto simp: not_less)

lemma Server_Validate_None:
  assumes "Server_Validate s = None"
  obtains p where "srv_Permissions s = Some p" "ServerPermissions_Validate p = None"
    "1 \<le> sd_MaxConnectionsPerIP (srv_Daemon s)"
    "sd_MaxConnectionsPerIP (srv_Daemon s) \<le> sd_MaxConnections (srv_Daemon s)"
    "sd_MaxConnections (srv_Daemon s) \<le> 4096" "0 < sd_ShutdownTimeout (srv_Daemon s)"
    "srv_AuthorizedKeys s \<noteq> []" "LogConfig_Validate (srv_Log s) = None" "listen_error (srv_ListenAddress s) = None"
  using assms by (auto simp: Server_Validate_def Let_def split: option.splits if_splits)

lemma LoadServer_trimmed:
  assumes "LoadServer path verbosity decoded = Inr cfg"
  shows "Server_Validate cfg = None"
    and "srv_Permissions cfg = Some p \<Longrightarrow> TrimSpace (perm_ForcedCommand p) = perm_ForcedCommand p
      \<and> map TrimSpace (perm_AllowedEnvironment p) = perm_AllowedEnvironment p"
  using assms by (auto simp: LoadServer_def Let_def split: sum.splits option.splits)

lemma configured_decision_accepted:
  assumes "ServerPermissions_Validate p = None"
    and "TrimSpace (perm_ForcedCommand p) = perm_ForcedCommand p"
    and "map TrimSpace (perm_AllowedEnvironment p) = perm_AllowedEnvironment p"
  shows "newConnectionPermissions (configured_decision p) = Inr
    \<lparr>cp_allowCommand = perm_AllowShell p \<or> perm_AllowExec p, cp_allowShell = perm_AllowShell p,
     cp_allowExec = perm_AllowExec p, cp_allowPTY = perm_AllowPTY p,
     cp_forcedCommand = perm_ForcedCommand p, cp_allowedEnvironment = sort (perm_AllowedEnvironment p)\<rparr>"
proof -
  let ?names = "perm_AllowedEnvironment p"
  have ok: "check_environment [] ?names = None" "length ?names \<le> 128" "length (perm_ForcedCommand p) \<le> 24 * 1024"
    "\<not> ContainsNUL (perm_ForcedCommand p)"
    "perm_AllowPTY p \<or> perm_ForcedCommand p \<noteq> [] \<Longrightarrow> perm_AllowShell p \<or> perm_AllowExec p"
    using assms(1) by (auto simp: ServerPermissions_Validate_def split: if_splits)
  have t: "TrimSpace n = n" if "n \<in> set ?names" for n
    using assms(3) that by (metis map_eq_conv map_ident)
  have "environment_names [] [] ?names = Inr ?names"
    unfolding environment_names_exact assms(3)
    using ok(1) t by (auto simp: check_environment_None list_all_iff validateEnvironmentName_def not_less
        first_occurrences_distinct)
  then show ?thesis
    using ok assms(2) by (auto simp: newConnectionPermissions_def configured_decision_def Let_def)
qed

text \<open>
  A configuration the server loads can be served.  Its connection limits are positive and the
  limit per address is within the total, some authorized-keys file is named, and the permission
  policy built from it is accepted for every connection, with exactly the configured permissions:
  no connection is refused because of an inconsistent configuration.
\<close>

theorem loaded_config_usable:
  assumes "LoadServer path verbosity decoded = Inr cfg"
  shows "\<exists>p. srv_Permissions cfg = Some p
    \<and> newConnectionPermissions (configured_decision p) = Inr
        \<lparr>cp_allowCommand = perm_AllowShell p \<or> perm_AllowExec p, cp_allowShell = perm_AllowShell p,
         cp_allowExec = perm_AllowExec p, cp_allowPTY = perm_AllowPTY p,
         cp_forcedCommand = perm_ForcedCommand p, cp_allowedEnvironment = sort (perm_AllowedEnvironment p)\<rparr>
    \<and> 1 \<le> sd_MaxConnectionsPerIP (srv_Daemon cfg)
    \<and> sd_MaxConnectionsPerIP (srv_Daemon cfg) \<le> sd_MaxConnections (srv_Daemon cfg)
    \<and> sd_MaxConnections (srv_Daemon cfg) \<le> 4096 \<and> srv_AuthorizedKeys cfg \<noteq> []"
proof -
  obtain p where p: "srv_Permissions cfg = Some p" "ServerPermissions_Validate p = None"
    "1 \<le> sd_MaxConnectionsPerIP (srv_Daemon cfg)"
    "sd_MaxConnectionsPerIP (srv_Daemon cfg) \<le> sd_MaxConnections (srv_Daemon cfg)"
    "sd_MaxConnections (srv_Daemon cfg) \<le> 4096" "srv_AuthorizedKeys cfg \<noteq> []"
    by (rule Server_Validate_None [OF LoadServer_trimmed(1) [OF assms]]) blast
  note t = LoadServer_trimmed(2) [OF assms p(1)]
  from configured_decision_accepted [OF p(2)] t p show ?thesis by simp
qed

definition example_decoded :: Server where
  "example_decoded =
    \<lparr>srv_ConfigFile = [], srv_ListenAddress = '' localhost:42022'',
     srv_Daemon = \<lparr>sd_MaxConnections = 32, sd_MaxConnectionsPerIP = 4, sd_ShutdownTimeout = 5000000000\<rparr>,
     srv_HostKey = ''~/.mygosh/host_ed25519'', srv_AuthorizedKeys = [''~/.ssh/authorized_keys ''],
     srv_Permissions = Some \<lparr>perm_AllowShell = True, perm_AllowExec = False, perm_AllowPTY = True,
       perm_AllowedEnvironment = ['' TERM'', ''LANG''], perm_ForcedCommand = '' ''\<rparr>,
     srv_Log = \<lparr>log_Level = '' warning'', log_JSON = False, log_File = []\<rparr>\<rparr>"

theorem loaded_config_usable_witness:
  "\<exists>cfg. LoadServer [] 0 example_decoded = Inr cfg \<and> log_Level (srv_Log cfg) = ''WARN''
     \<and> 1 \<le> sd_MaxConnectionsPerIP (srv_Daemon cfg)"
proof -
  have "case LoadServer [] 0 example_decoded of Inl _ \<Rightarrow> False | Inr cfg \<Rightarrow> log_Level (srv_Log cfg) = ''WARN''"
    by code_simp
  then obtain cfg where c: "LoadServer [] 0 example_decoded = Inr cfg" "log_Level (srv_Log cfg) = ''WARN''"
    by (auto split: sum.splits)
  from loaded_config_usable [OF c(1)] c show ?thesis by blast
qed

end
