(* ===== verification/Daemon.thy ===== *)
theory Daemon
  imports App_Config
begin

text \<open>
  The accept loop of the server (\<open>app/server/daemon.go\<close>): admission limits, the handler goroutines
  with their deferred calls, and the shutdown.  One step is one return of \<open>Accept\<close>, one stage of a
  handler goroutine, or one arm of the final \<open>select\<close>.
\<close>

section \<open>Admission\<close>

record connectionAdmission =
  ad_maxTotal :: int
  ad_maxPerIP :: int
  ad_total :: int
  ad_perIP :: "string \<rightharpoonup> int"

definition newConnectionAdmission :: "int \<Rightarrow> int \<Rightarrow> connectionAdmission" where
  "newConnectionAdmission maxTotal maxPerIP =
    \<lparr>ad_maxTotal = maxTotal, ad_maxPerIP = maxPerIP, ad_total = 0, ad_perIP = Map.empty\<rparr>"

text \<open>Reading a missing key of a Go map of \<open>int\<close>s gives zero.\<close>

definition per_IP :: "connectionAdmission \<Rightarrow> string \<Rightarrow> int" where
  "per_IP a source = (case ad_perIP a source of None \<Rightarrow> 0 | Some n \<Rightarrow> n)"

definition acquire :: "string \<Rightarrow> connectionAdmission \<Rightarrow> bool \<times> connectionAdmission" where
  "acquire source a =
    (if ad_total a \<ge> ad_maxTotal a \<or> per_IP a source \<ge> ad_maxPerIP a then (False, a)
     else (True, a\<lparr>ad_total := ad_total a + 1, ad_perIP := (ad_perIP a)(source \<mapsto> per_IP a source + 1)\<rparr>))"

definition admission_release :: "string \<Rightarrow> connectionAdmission \<Rightarrow> connectionAdmission" where
  "admission_release source a =
    a\<lparr>ad_total := (if ad_total a > 0 then ad_total a - 1 else ad_total a),
      ad_perIP := (if per_IP a source \<le> 1 then (ad_perIP a)(source := None)
                   else (ad_perIP a)(source \<mapsto> per_IP a source - 1))\<rparr>"

definition snapshot :: "string \<Rightarrow> connectionAdmission \<Rightarrow> int \<times> int" where
  "snapshot source a = (ad_total a, per_IP a source)"

section \<open>The accept loop\<close>

text \<open>
  A handler goroutine runs the handler, then its deferred calls: recover from a panic, release the
  admission, close the connection and leave the wait group.
\<close>

datatype stage = HandlerRuns | ReleasesAdmission | ClosesConnection | HandlerDone

datatype daemon_phase = Accepting | Draining | Returned "goerr option"

text \<open>
  \<open>dm_delay\<close> is \<open>temporaryDelay\<close> in milliseconds, \<open>dm_nextID\<close> the atomic counter, \<open>dm_rejected\<close> the
  number of connections closed at once.
\<close>

record daemon =
  dm_admission :: connectionAdmission
  dm_conns :: "(string \<times> u64 \<times> stage) list"
  dm_nextID :: u64
  dm_delay :: nat
  dm_canceled :: bool
  dm_phase :: daemon_phase
  dm_rejected :: nat

definition daemon_init :: "ServerDaemon \<Rightarrow> daemon" where
  "daemon_init cfg =
    \<lparr>dm_admission = newConnectionAdmission (sd_MaxConnections cfg) (sd_MaxConnectionsPerIP cfg),
     dm_conns = [], dm_nextID = 0, dm_delay = 0, dm_canceled = False, dm_phase = Accepting, dm_rejected = 0\<rparr>"

definition next_delay :: "nat \<Rightarrow> nat" where
  "next_delay d = (let d1 = (if d = 0 then 5 else 2 * d) in if d1 > 1000 then 1000 else d1)"

definition daemon_accepted :: "string \<Rightarrow> daemon \<Rightarrow> daemon" where
  "daemon_accepted source d =
    (let d0 = d\<lparr>dm_delay := 0\<rparr>
     in case acquire source (dm_admission d0) of
          (False, a) \<Rightarrow> d0\<lparr>dm_rejected := dm_rejected d0 + 1\<rparr>
        | (True, a) \<Rightarrow>
            d0\<lparr>dm_admission := a, dm_nextID := dm_nextID d0 + 1,
               dm_conns := dm_conns d0 @ [(source, dm_nextID d0 + 1, HandlerRuns)]\<rparr>)"

definition daemon_accept_error :: "bool \<Rightarrow> goerr \<Rightarrow> daemon \<Rightarrow> daemon" where
  "daemon_accept_error temporary err d =
    (if dm_canceled d then d\<lparr>dm_phase := Draining\<rparr>
     else if temporary then d\<lparr>dm_delay := next_delay (dm_delay d)\<rparr>
     else d\<lparr>dm_phase := Returned (Some (EWrap ''accept connection'' err))\<rparr>)"

text \<open>The next stage of the goroutine of one connection.\<close>

definition handler_stage :: "nat \<Rightarrow> daemon \<Rightarrow> daemon option" where
  "handler_stage i d =
    (if i < length (dm_conns d) then
       (case dm_conns d ! i of (source, cid, st) \<Rightarrow>
          (case st of
             HandlerRuns \<Rightarrow> Some (d\<lparr>dm_conns := (dm_conns d)[i := (source, cid, ReleasesAdmission)]\<rparr>)
           | ReleasesAdmission \<Rightarrow>
               Some (d\<lparr>dm_admission := admission_release source (dm_admission d),
                       dm_conns := (dm_conns d)[i := (source, cid, ClosesConnection)]\<rparr>)
           | ClosesConnection \<Rightarrow> Some (d\<lparr>dm_conns := (dm_conns d)[i := (source, cid, HandlerDone)]\<rparr>)
           | HandlerDone \<Rightarrow> None))
     else None)"

datatype daemon_step =
    Accepted string
  | AcceptFails bool goerr
  | Cancel
  | HandlerStage nat
  | DrainComplete
  | ShutdownTimer

fun daemon_exec :: "daemon_step \<Rightarrow> daemon \<Rightarrow> daemon option" where
  "daemon_exec (Accepted source) d =
    (if dm_phase d = Accepting then Some (daemon_accepted source d) else None)"
| "daemon_exec (AcceptFails temporary err) d =
    (if dm_phase d = Accepting then Some (daemon_accept_error temporary err d) else None)"
| "daemon_exec Cancel d = Some (d\<lparr>dm_canceled := True\<rparr>)"
| "daemon_exec (HandlerStage i) d = handler_stage i d"
| "daemon_exec DrainComplete d =
    (if dm_phase d = Draining \<and> list_all (\<lambda>(_, _, st). st = HandlerDone) (dm_conns d)
     then Some (d\<lparr>dm_phase := Returned None\<rparr>) else None)"
| "daemon_exec ShutdownTimer d =
    (if dm_phase d = Draining
     then Some (d\<lparr>dm_phase := Returned (Some (EErr ''server shutdown exceeded''))\<rparr>) else None)"

inductive daemon_reachable :: "ServerDaemon \<Rightarrow> daemon \<Rightarrow> bool" for cfg where
  daemon_start: "daemon_reachable cfg (daemon_init cfg)"
| daemon_next: "daemon_reachable cfg d \<Longrightarrow> daemon_exec a d = Some d' \<Longrightarrow> daemon_reachable cfg d'"

section \<open>Admission counts exactly the running handlers\<close>

text \<open>A connection holds its admission until its goroutine has released it.\<close>

definition holds_admission :: "string \<times> u64 \<times> stage \<Rightarrow> bool" where
  "holds_admission c = (case c of (_, _, st) \<Rightarrow> st = HandlerRuns \<or> st = ReleasesAdmission)"

definition admitted :: "daemon \<Rightarrow> string \<Rightarrow> nat" where
  "admitted d source = length (filter (\<lambda>c. holds_admission c \<and> fst c = source) (dm_conns d))"

lemma filter_update_same:
  "i < length xs \<Longrightarrow> P y = P (xs ! i) \<Longrightarrow> length (filter P (xs[i := y])) = length (filter P xs)"
  by (induction xs arbitrary: i) (auto split: nat.splits simp: nth_Cons')

lemma filter_update_drop:
  "i < length xs \<Longrightarrow> P (xs ! i) \<Longrightarrow> \<not> P y
    \<Longrightarrow> length (filter P xs) = Suc (length (filter P (xs[i := y])))"
  by (induction xs arbitrary: i) (auto split: nat.splits simp: nth_Cons')

text \<open>The counters for a list of connections.\<close>

definition counted :: "connectionAdmission \<Rightarrow> (string \<times> u64 \<times> stage) list \<Rightarrow> bool" where
  "counted a conns \<longleftrightarrow>
    ad_total a = int (length (filter holds_admission conns))
    \<and> (\<forall>source. let n = length (filter (\<lambda>c. holds_admission c \<and> fst c = source) conns)
          in ad_perIP a source = (if n = 0 then None else Some (int n)))"

lemma per_IP_counted:
  "counted a conns \<Longrightarrow> per_IP a source = int (length (filter (\<lambda>c. holds_admission c \<and> fst c = source) conns))"
  by (simp add: counted_def per_IP_def Let_def)

lemma counted_total: "counted a conns \<Longrightarrow> ad_total a = int (length (filter holds_admission conns))"
  by (simp add: counted_def)

lemma counted_acquire:
  assumes "counted a conns" "acquire source a = (True, a')"
  shows "counted a' (conns @ [(source, cid, HandlerRuns)])"
proof -
  have a': "a' = a\<lparr>ad_total := ad_total a + 1, ad_perIP := (ad_perIP a)(source \<mapsto> per_IP a source + 1)\<rparr>"
    using assms(2) by (auto simp: acquire_def split: if_splits)
  show ?thesis
    using assms(1) per_IP_counted [OF assms(1), of source] unfolding a' counted_def
    by (simp add: holds_admission_def Let_def)
qed

lemma counted_release:
  assumes c: "counted a conns" and i: "i < length conns" "conns ! i = (source, cid, ReleasesAdmission)"
  shows "counted (admission_release source a) (conns[i := (source, cid, ClosesConnection)])"
proof -
  let ?y = "(source, cid, ClosesConnection)"
  have t: "length (filter holds_admission conns) = Suc (length (filter holds_admission (conns[i := ?y])))"
    by (rule filter_update_drop) (use i in \<open>simp_all add: holds_admission_def\<close>)
  have s: "length (filter (\<lambda>c. holds_admission c \<and> fst c = source) conns)
      = Suc (length (filter (\<lambda>c. holds_admission c \<and> fst c = source) (conns[i := ?y])))"
    by (rule filter_update_drop) (use i in \<open>simp_all add: holds_admission_def\<close>)
  have o: "length (filter (\<lambda>c. holds_admission c \<and> fst c = src) (conns[i := ?y]))
      = length (filter (\<lambda>c. holds_admission c \<and> fst c = src) conns)" if "src \<noteq> source" for src
    by (rule filter_update_same) (use i that in \<open>simp_all add: holds_admission_def\<close>)
  have p: "per_IP a source = int (Suc (length (filter (\<lambda>c. holds_admission c \<and> fst c = source) (conns[i := ?y]))))"
    using per_IP_counted [OF c, of source] s by simp
  have "ad_perIP (admission_release source a) src
      = (let n = length (filter (\<lambda>c. holds_admission c \<and> fst c = src) (conns[i := ?y]))
         in if n = 0 then None else Some (int n))" for src
  proof (cases "src = source")
    case True
    then show ?thesis using p by (simp add: admission_release_def Let_def)
  next
    case False
    then show ?thesis using c o [OF False] by (simp add: admission_release_def counted_def Let_def)
  qed
  then show ?thesis using counted_total [OF c] t by (simp add: counted_def admission_release_def)
qed

lemma counted_stage:
  assumes "counted a conns" "i < length conns" "holds_admission y = holds_admission (conns ! i)" "fst y = fst (conns ! i)"
  shows "counted a (conns[i := y])"
proof -
  have "length (filter holds_admission (conns[i := y])) = length (filter holds_admission conns)"
    by (rule filter_update_same) (use assms in simp_all)
  moreover have "length (filter (\<lambda>c. holds_admission c \<and> fst c = src) (conns[i := y]))
      = length (filter (\<lambda>c. holds_admission c \<and> fst c = src) conns)" for src
    by (rule filter_update_same) (use assms in simp_all)
  ultimately show ?thesis using assms(1) by (simp add: counted_def)
qed

text \<open>The limits hold because admission is only granted below them and counts never grow otherwise.\<close>

definition within_limits :: "connectionAdmission \<Rightarrow> bool" where
  "within_limits a \<longleftrightarrow> 0 \<le> ad_maxPerIP a \<and> ad_total a \<le> ad_maxTotal a \<and> (\<forall>source. per_IP a source \<le> ad_maxPerIP a)"

lemma acquire_within: "within_limits a \<Longrightarrow> acquire source a = (r, a') \<Longrightarrow> within_limits a'"
  by (auto simp: within_limits_def acquire_def per_IP_def split: if_splits option.splits)

lemma release_within: "within_limits a \<Longrightarrow> within_limits (admission_release source a)"
  unfolding within_limits_def admission_release_def per_IP_def
  by (auto split: option.splits) force+

lemma limits_kept [simp]:
  "ad_maxTotal (admission_release source a) = ad_maxTotal a" "ad_maxPerIP (admission_release source a) = ad_maxPerIP a"
  by (simp_all add: admission_release_def)

lemma acquire_limits: "acquire source a = (r, a') \<Longrightarrow> ad_maxTotal a' = ad_maxTotal a \<and> ad_maxPerIP a' = ad_maxPerIP a"
  by (auto simp: acquire_def split: if_splits)

definition admission_ok :: "ServerDaemon \<Rightarrow> daemon \<Rightarrow> bool" where
  "admission_ok cfg d \<longleftrightarrow>
    ad_maxTotal (dm_admission d) = sd_MaxConnections cfg \<and> ad_maxPerIP (dm_admission d) = sd_MaxConnectionsPerIP cfg
    \<and> counted (dm_admission d) (dm_conns d) \<and> within_limits (dm_admission d)"

lemma admission_ok_stage:
  assumes "admission_ok cfg d" "handler_stage i d = Some d'"
  shows "admission_ok cfg d'"
proof -
  obtain source cid st where c: "i < length (dm_conns d)" "dm_conns d ! i = (source, cid, st)"
    using assms(2) by (cases "dm_conns d ! i") (auto simp: handler_stage_def split: if_splits)
  show ?thesis
  proof (cases st)
    case HandlerRuns
    then have d': "d' = d\<lparr>dm_conns := (dm_conns d)[i := (source, cid, ReleasesAdmission)]\<rparr>"
      using assms(2) c by (simp add: handler_stage_def)
    then show ?thesis using assms(1) c HandlerRuns by (simp add: admission_ok_def counted_stage holds_admission_def)
  next
    case ReleasesAdmission
    then have d': "d' = d\<lparr>dm_admission := admission_release source (dm_admission d),
        dm_conns := (dm_conns d)[i := (source, cid, ClosesConnection)]\<rparr>"
      using assms(2) c by (simp add: handler_stage_def)
    then show ?thesis using assms(1) c ReleasesAdmission
      by (simp add: admission_ok_def counted_release release_within)
  next
    case ClosesConnection
    then have d': "d' = d\<lparr>dm_conns := (dm_conns d)[i := (source, cid, HandlerDone)]\<rparr>"
      using assms(2) c by (simp add: handler_stage_def)
    then show ?thesis using assms(1) c ClosesConnection by (simp add: admission_ok_def counted_stage holds_admission_def)
  next
    case HandlerDone
    then show ?thesis using assms(2) c by (simp add: handler_stage_def)
  qed
qed

lemma admission_ok_accepted: "admission_ok cfg d \<Longrightarrow> admission_ok cfg (daemon_accepted source d)"
  by (auto simp: admission_ok_def daemon_accepted_def Let_def counted_acquire
      split: prod.splits bool.splits dest: acquire_within acquire_limits)

lemma admission_ok_step:
  assumes "admission_ok cfg d" "daemon_exec a d = Some d'"
  shows "admission_ok cfg d'"
proof (cases a)
  case (Accepted source)
  then show ?thesis using assms admission_ok_accepted by (auto split: if_splits)
next
  case (AcceptFails temporary err)
  then show ?thesis using assms by (auto simp: daemon_accept_error_def admission_ok_def split: if_splits)
next
  case (HandlerStage i)
  then show ?thesis using assms admission_ok_stage by simp
qed (use assms in \<open>auto simp: admission_ok_def split: if_splits\<close>)

lemma daemon_admission_ok:
  "daemon_reachable cfg d \<Longrightarrow> 0 \<le> sd_MaxConnections cfg \<Longrightarrow> 0 \<le> sd_MaxConnectionsPerIP cfg \<Longrightarrow> admission_ok cfg d"
proof (induction rule: daemon_reachable.induct)
  case daemon_start
  then show ?case
    by (simp add: admission_ok_def daemon_init_def newConnectionAdmission_def counted_def within_limits_def per_IP_def)
next
  case (daemon_next d a d')
  then show ?case using admission_ok_step by blast
qed

lemma next_delay_le: "next_delay d \<le> 1000"
  by (simp add: next_delay_def Let_def)

definition all_done :: "daemon \<Rightarrow> bool" where
  "all_done d = list_all (\<lambda>(_, _, st). st = HandlerDone) (dm_conns d)"

lemma all_done_stage: "all_done d \<Longrightarrow> handler_stage i d = None"
  by (auto simp: all_done_def handler_stage_def list_all_length split: prod.splits)

definition ended_ok :: "daemon \<Rightarrow> bool" where
  "ended_ok d \<longleftrightarrow> dm_delay d \<le> 1000 \<and> (dm_phase d = Returned None \<longrightarrow> all_done d)"

lemma ended_ok_step: "ended_ok d \<Longrightarrow> daemon_exec a d = Some d' \<Longrightarrow> ended_ok d'"
proof (cases a)
  case (HandlerStage i)
  assume e: "ended_ok d" and s: "daemon_exec a d = Some d'"
  then have "\<not> all_done d" using HandlerStage all_done_stage by auto
  then have "dm_phase d \<noteq> Returned None" using e by (auto simp: ended_ok_def)
  then show ?thesis using e s HandlerStage
    by (auto simp: ended_ok_def handler_stage_def split: if_splits prod.splits stage.splits)
next
  case (Accepted source)
  assume "ended_ok d" and "daemon_exec a d = Some d'"
  then show ?thesis using Accepted
    by (auto simp: ended_ok_def daemon_accepted_def Let_def split: if_splits prod.splits bool.splits)
qed (auto simp: ended_ok_def all_done_def daemon_accept_error_def next_delay_le split: if_splits)

lemma daemon_ended_ok: "daemon_reachable cfg d \<Longrightarrow> ended_ok d"
proof (induction rule: daemon_reachable.induct)
  case daemon_start
  then show ?case by (simp add: ended_ok_def daemon_init_def)
next
  case (daemon_next d a d')
  then show ?case using ended_ok_step by blast
qed

lemma all_done_none: "all_done d \<Longrightarrow> filter holds_admission (dm_conns d) = []"
  by (auto simp: all_done_def list_all_iff holds_admission_def filter_empty_conv)

text \<open>
  C39: The server admits exactly as configured.  In every reachable state of the daemon of a loaded
  configuration the counters equal the connections whose handler has not released them, in total and
  per source address, and respect both limits; the next connection is turned away exactly when one
  of the limits is reached; the delay after accept failures never exceeds a second; and the daemon
  returns success only after every handler has finished and every admission is returned.
\<close>

theorem admission_exact:
  assumes "LoadServer path verbosity decoded = Inr cfg" and "daemon_reachable (srv_Daemon cfg) d"
  shows "ad_total (dm_admission d) = int (length (filter holds_admission (dm_conns d)))
    \<and> (\<forall>source. snapshot source (dm_admission d) = (ad_total (dm_admission d), int (admitted d source))
        \<and> int (admitted d source) \<le> sd_MaxConnectionsPerIP (srv_Daemon cfg)
        \<and> (fst (acquire source (dm_admission d)) \<longleftrightarrow>
             int (length (filter holds_admission (dm_conns d))) < sd_MaxConnections (srv_Daemon cfg)
             \<and> int (admitted d source) < sd_MaxConnectionsPerIP (srv_Daemon cfg)))
    \<and> ad_total (dm_admission d) \<le> sd_MaxConnections (srv_Daemon cfg)
    \<and> dm_delay d \<le> 1000
    \<and> (dm_phase d = Returned None \<longrightarrow> all_done d \<and> ad_total (dm_admission d) = 0)"
proof -
  have "1 \<le> sd_MaxConnectionsPerIP (srv_Daemon cfg)
      \<and> sd_MaxConnectionsPerIP (srv_Daemon cfg) \<le> sd_MaxConnections (srv_Daemon cfg)"
    by (rule Server_Validate_None [OF LoadServer_trimmed(1) [OF assms(1)]]) simp
  then have ok: "admission_ok (srv_Daemon cfg) d" using daemon_admission_ok [OF assms(2)] by simp
  then have c: "counted (dm_admission d) (dm_conns d)" and l: "within_limits (dm_admission d)"
    and m: "ad_maxTotal (dm_admission d) = sd_MaxConnections (srv_Daemon cfg)"
      "ad_maxPerIP (dm_admission d) = sd_MaxConnectionsPerIP (srv_Daemon cfg)"
    by (simp_all add: admission_ok_def)
  have p: "per_IP (dm_admission d) source = int (admitted d source)" for source
    using per_IP_counted [OF c] by (simp add: admitted_def)
  have lim: "int (admitted d source) \<le> sd_MaxConnectionsPerIP (srv_Daemon cfg)"
    "ad_total (dm_admission d) \<le> sd_MaxConnections (srv_Daemon cfg)" for source
    using l m p by (auto simp: within_limits_def)
  have e: "dm_delay d \<le> 1000" "dm_phase d = Returned None \<Longrightarrow> all_done d"
    using daemon_ended_ok [OF assms(2)] by (simp_all add: ended_ok_def)
  show ?thesis
    using counted_total [OF c] p lim m e all_done_none [of d]
    by (auto simp: snapshot_def acquire_def)
qed

definition example_daemon_run :: "daemon_step list" where
  "example_daemon_run =
    [AcceptFails True EIoEOF, Accepted ''10.0.0.1'', Accepted ''10.0.0.1'', HandlerStage 0, HandlerStage 0,
     Cancel, AcceptFails False EIoEOF]"

fun daemon_run :: "daemon_step list \<Rightarrow> daemon \<Rightarrow> daemon option" where
  "daemon_run [] d = Some d"
| "daemon_run (a # as) d = (case daemon_exec a d of None \<Rightarrow> None | Some d' \<Rightarrow> daemon_run as d')"

lemma daemon_reachable_run:
  "daemon_reachable cfg d \<Longrightarrow> daemon_run as d = Some d' \<Longrightarrow> daemon_reachable cfg d'"
  by (induction as arbitrary: d) (auto split: option.splits intro: daemon_next)

theorem admission_exact_witness:
  "\<exists>cfg d. LoadServer [] 0 example_decoded = Inr cfg
     \<and> daemon_run example_daemon_run (daemon_init (srv_Daemon cfg)) = Some d
     \<and> dm_phase d = Draining \<and> length (filter holds_admission (dm_conns d)) = 1 \<and> ad_total (dm_admission d) = 1"
proof -
  have "case LoadServer [] 0 example_decoded of Inl _ \<Rightarrow> False
    | Inr cfg \<Rightarrow> (case daemon_run example_daemon_run (daemon_init (srv_Daemon cfg)) of None \<Rightarrow> False
        | Some d \<Rightarrow> dm_phase d = Draining \<and> length (filter holds_admission (dm_conns d)) = 1)"
    by code_simp
  then obtain cfg d where c: "LoadServer [] 0 example_decoded = Inr cfg"
    and d: "daemon_run example_daemon_run (daemon_init (srv_Daemon cfg)) = Some d"
    "dm_phase d = Draining" "length (filter holds_admission (dm_conns d)) = 1"
    by (auto split: sum.splits option.splits)
  from admission_exact [OF c daemon_reachable_run [OF daemon_start d(1)]] c d show ?thesis by auto
qed

end
