(* ===== verification/Command.thy ===== *)
theory Command
  imports Go_Strings "HOL-Library.Code_Target_Nat"
begin

text \<open>
  \<open>lib/command\<close>: the start request, the protocol messages with their validation rules, the
  codec between them, and the chunking of byte streams into frames of bounded size.  The protobuf
  encoder and decoder are parameters; the \<open>buf.validate\<close> rules of the schema are predicates.
  A Go map from names to values is the list of its entries, no name twice.
\<close>

section \<open>Requests and results\<close>

datatype StartKind = StartShell | StartExec | StartOther u8

record CommandPTY =
  cpty_Terminal :: string
  cpty_Rows :: u32
  cpty_Columns :: u32

record StartRequest =
  sr_Kind :: StartKind
  sr_Command :: string
  sr_PTY :: "CommandPTY option"
  sr_Environment :: "(string \<times> string) list"

record WindowSize =
  ws_Rows :: u32
  ws_Columns :: u32

record ExitResult =
  ex_Status :: int
  ex_Signal :: string
  ex_RuntimeFailure :: string

section \<open>Messages\<close>

datatype pb_target = TargetUnset | TargetShell | TargetExec string

record pb_start =
  pbs_version :: u32
  pbs_target :: pb_target
  pbs_pty :: "CommandPTY option"
  pbs_environment :: "(string \<times> string) list"

datatype ClientFrame =
    CFUnset
  | CFStart pb_start
  | CFStdin bytes
  | CFStdinEof
  | CFWindowChange u32 u32

datatype pb_exit = ExitUnset | ExitStatus "32 word" | ExitSignal string | ExitRuntimeFailure string

datatype ServerFrame =
    SFUnset
  | SFStartResult bool string string
  | SFStdout bytes
  | SFStderr bytes
  | SFExit pb_exit

definition valid_dimension :: "u32 \<Rightarrow> bool" where
  "valid_dimension n \<longleftrightarrow> 0 < n \<and> n \<le> 65535"

definition valid_pty :: "CommandPTY \<Rightarrow> bool" where
  "valid_pty p \<longleftrightarrow> runes_in 0 256 (cpty_Terminal p) \<and> valid_dimension (cpty_Rows p) \<and> valid_dimension (cpty_Columns p)"

primrec valid_target :: "pb_target \<Rightarrow> bool" where
  "valid_target TargetUnset \<longleftrightarrow> False"
| "valid_target TargetShell \<longleftrightarrow> True"
| "valid_target (TargetExec command) \<longleftrightarrow> runes_in 1 24576 command"

definition valid_start :: "pb_start \<Rightarrow> bool" where
  "valid_start s \<longleftrightarrow> pbs_version s = 1 \<and> valid_target (pbs_target s)
     \<and> (case pbs_pty s of None \<Rightarrow> True | Some p \<Rightarrow> valid_pty p)
     \<and> length (pbs_environment s) \<le> 128
     \<and> list_all (\<lambda>(name, value). runes_in 1 256 name \<and> runes_in 0 16384 value) (pbs_environment s)"

primrec valid_ClientFrame :: "ClientFrame \<Rightarrow> bool" where
  "valid_ClientFrame CFUnset \<longleftrightarrow> False"
| "valid_ClientFrame (CFStart s) \<longleftrightarrow> valid_start s"
| "valid_ClientFrame (CFStdin d) \<longleftrightarrow> len_in 1 8388608 d"
| "valid_ClientFrame CFStdinEof \<longleftrightarrow> True"
| "valid_ClientFrame (CFWindowChange r c) \<longleftrightarrow> valid_dimension r \<and> valid_dimension c"

primrec valid_exit :: "pb_exit \<Rightarrow> bool" where
  "valid_exit ExitUnset \<longleftrightarrow> False"
| "valid_exit (ExitStatus _) \<longleftrightarrow> True"
| "valid_exit (ExitSignal s) \<longleftrightarrow> runes_in 1 64 s"
| "valid_exit (ExitRuntimeFailure m) \<longleftrightarrow> runes_in 0 1024 m"

primrec valid_ServerFrame :: "ServerFrame \<Rightarrow> bool" where
  "valid_ServerFrame SFUnset \<longleftrightarrow> False"
| "valid_ServerFrame (SFStartResult a code msg) \<longleftrightarrow> runes_in 0 64 code \<and> runes_in 0 1024 msg"
| "valid_ServerFrame (SFStdout d) \<longleftrightarrow> len_in 1 8388608 d"
| "valid_ServerFrame (SFStderr d) \<longleftrightarrow> len_in 1 8388608 d"
| "valid_ServerFrame (SFExit e) \<longleftrightarrow> valid_exit e"

section \<open>Codec\<close>

definition marshalMessage ::
    "('m \<Rightarrow> bool) \<Rightarrow> ('m \<Rightarrow> (goerr, bytes) result) \<Rightarrow> 'm \<Rightarrow> int \<Rightarrow> (goerr, bytes) result" where
  "marshalMessage valid enc message maximum =
    (if \<not> valid message then Inl (EErr ''validate command message'')
     else case enc message of
       Inl e \<Rightarrow> Inl (EWrap ''encode command message'' e)
     | Inr frame \<Rightarrow>
         if frame = [] then Inl (EErr ''encoded command frame is empty'')
         else if maximum > 0 \<and> int (length frame) > maximum
         then Inl (EErr ''command frame exceeds maximum size'')
         else Inr frame)"

definition unmarshalMessage ::
    "('m \<Rightarrow> bool) \<Rightarrow> (bytes \<Rightarrow> (goerr, 'm) result) \<Rightarrow> bytes \<Rightarrow> (goerr, 'm) result" where
  "unmarshalMessage valid dec frame =
    (if frame = [] then Inl (EErr ''empty command frame'')
     else case dec frame of
       Inl e \<Rightarrow> Inl (EWrap ''decode command message'' e)
     | Inr m \<Rightarrow> if valid m then Inr m else Inl (EErr ''validate command message''))"

definition encodeStart :: "StartRequest \<Rightarrow> (goerr, ClientFrame) result" where
  "encodeStart request =
    (let start = (\<lambda>target. CFStart
           \<lparr>pbs_version = 1, pbs_target = target, pbs_pty = sr_PTY request,
            pbs_environment =
              map (\<lambda>name. (name, the (map_of (sr_Environment request) name)))
                (sort (map fst (sr_Environment request)))\<rparr>)
     in case sr_Kind request of
          StartShell \<Rightarrow>
            if TrimSpace (sr_Command request) \<noteq> [] then Inl (EErr ''shell start must not include a command'')
            else Inr (start TargetShell)
        | StartExec \<Rightarrow>
            if TrimSpace (sr_Command request) = [] then Inl (EErr ''exec command is required'')
            else Inr (start (TargetExec (sr_Command request)))
        | StartOther _ \<Rightarrow> Inl (EErr ''unsupported command start kind''))"

fun decode_environment ::
    "(string \<times> string) list \<Rightarrow> (string \<times> string) list \<Rightarrow> (goerr, (string \<times> string) list) result" where
  "decode_environment env [] = Inr env"
| "decode_environment env ((name, value) # entries) =
    (if ContainsAny name [CHR ''='', NUL] then Inl (EErr ''invalid environment variable'')
     else if ContainsNUL value then Inl (EErr ''environment variable contains NUL'')
     else if name \<in> fst ` set env then Inl (EErr ''duplicate environment variable'')
     else decode_environment (env @ [(name, value)]) entries)"

definition decodeStart :: "pb_start \<Rightarrow> (goerr, StartRequest) result" where
  "decodeStart start =
    (let finish = (\<lambda>kind command.
           case decode_environment [] (pbs_environment start) of
             Inl e \<Rightarrow> Inl e
           | Inr env \<Rightarrow> Inr \<lparr>sr_Kind = kind, sr_Command = command, sr_PTY = pbs_pty start, sr_Environment = env\<rparr>)
     in case pbs_target start of
          TargetUnset \<Rightarrow> Inl (EErr ''start target is required'')
        | TargetShell \<Rightarrow> finish StartShell []
        | TargetExec command \<Rightarrow> finish StartExec command)"

datatype ServerEvent =
    ServerEventStartResult bool string string
  | ServerEventStdout bytes
  | ServerEventStderr bytes
  | ServerEventExit ExitResult

definition no_exit :: ExitResult where
  "no_exit = \<lparr>ex_Status = 0, ex_Signal = [], ex_RuntimeFailure = []\<rparr>"

definition server_event :: "ServerFrame \<Rightarrow> (goerr, ServerEvent) result" where
  "server_event message =
    (case message of
       SFUnset \<Rightarrow> Inl (EErr ''unsupported server frame'')
     | SFStartResult accepted code msg \<Rightarrow>
         if accepted \<and> (code \<noteq> [] \<or> msg \<noteq> [])
         then Inl (EErr ''accepted start result contains rejection details'')
         else Inr (ServerEventStartResult accepted code msg)
     | SFStdout d \<Rightarrow> Inr (ServerEventStdout d)
     | SFStderr d \<Rightarrow> Inr (ServerEventStderr d)
     | SFExit e \<Rightarrow>
         (case e of
            ExitUnset \<Rightarrow> Inl (EErr ''exit result is required'')
          | ExitStatus s \<Rightarrow> Inr (ServerEventExit (no_exit\<lparr>ex_Status := sint s\<rparr>))
          | ExitSignal s \<Rightarrow> Inr (ServerEventExit (no_exit\<lparr>ex_Signal := s\<rparr>))
          | ExitRuntimeFailure m \<Rightarrow> Inr (ServerEventExit (no_exit\<lparr>ex_RuntimeFailure := m\<rparr>))))"

definition DecodeServerEvent ::
    "(bytes \<Rightarrow> (goerr, ServerFrame) result) \<Rightarrow> bytes \<Rightarrow> (goerr, ServerEvent) result" where
  "DecodeServerEvent dec frame =
    (case unmarshalMessage valid_ServerFrame dec frame of
       Inl e \<Rightarrow> Inl e
     | Inr message \<Rightarrow> server_event message)"

section \<open>Chunking\<close>

function chunk_search ::
    "(bytes \<Rightarrow> (goerr, bytes) result) \<Rightarrow> bytes \<Rightarrow> int \<Rightarrow> int \<Rightarrow> int \<Rightarrow> bytes \<Rightarrow> int \<times> bytes" where
  "chunk_search mk data low high best encoded =
    (if low \<le> high then
       let mid = low + (high - low) div 2
       in case mk (take (nat mid) data) of
            Inr frame \<Rightarrow> chunk_search mk data (mid + 1) high mid frame
          | Inl _ \<Rightarrow> chunk_search mk data low (mid - 1) best encoded
     else (best, encoded))"
  by pat_completeness auto
termination
  by (relation "measure (\<lambda>(_, _, low, high, _, _). nat (high + 1 - low))") auto

declare chunk_search.simps [simp del]

lemma chunk_search_steps:
  "\<not> low \<le> high \<Longrightarrow> chunk_search mk data low high best encoded = (best, encoded)"
  "low \<le> high \<Longrightarrow> mk (take (nat (low + (high - low) div 2)) data) = Inr frame
    \<Longrightarrow> chunk_search mk data low high best encoded
      = chunk_search mk data (low + (high - low) div 2 + 1) high (low + (high - low) div 2) frame"
  "low \<le> high \<Longrightarrow> mk (take (nat (low + (high - low) div 2)) data) = Inl x
    \<Longrightarrow> chunk_search mk data low high best encoded
      = chunk_search mk data low (low + (high - low) div 2 - 1) best encoded"
  by (simp_all add: chunk_search.simps [of mk data low high] Let_def)

text \<open>
  The search returns its last success.  If one byte can be carried it finds a non-empty chunk:
  it either has a success already or has not yet given up on length one.
\<close>

lemma chunk_search_sound:
  "chunk_search mk data low high best encoded = (b, e)
    \<Longrightarrow> ((b = best \<and> e = encoded) \<or> (low \<le> b \<and> b \<le> high \<and> mk (take (nat b) data) = Inr e))
      \<and> (mk (take 1 data) = Inr f \<and> 0 \<le> best \<and> 1 \<le> low \<and> (best \<noteq> 0 \<or> low = 1 \<and> 1 \<le> high) \<longrightarrow> 0 < b)"
proof (induction mk data low high best encoded rule: chunk_search.induct)
  case (1 mk data low high best encoded)
  let ?mid = "low + (high - low) div 2"
  show ?case
  proof (cases "low \<le> high")
    case True
    then have mid: "low \<le> ?mid" "?mid \<le> high" by auto
    show ?thesis
    proof (cases "mk (take (nat ?mid) data)")
      case (Inl x)
      have "chunk_search mk data low (?mid - 1) best encoded = (b, e)"
        using 1(3) chunk_search_steps(3) [where mk = mk and data = data, OF True Inl] by simp
      note ih = 1(1) [OF True refl Inl this]
      have "1 \<le> ?mid - 1" if "mk (take 1 data) = Inr f" "low = 1"
        using Inl that mid by (cases "?mid = 1") auto
      with ih mid show ?thesis by auto
    next
      case (Inr frame)
      have "chunk_search mk data (?mid + 1) high ?mid frame = (b, e)"
        using 1(3) chunk_search_steps(2) [where mk = mk and data = data, OF True Inr] by simp
      from 1(2) [OF True refl Inr this] mid Inr show ?thesis by auto
    qed
  next
    case False
    then show ?thesis using 1(3) chunk_search_steps(1) [OF False, of mk data best encoded] by auto
  qed
qed

function chunk_loop ::
    "(bytes \<Rightarrow> (goerr, bytes) result) \<Rightarrow> int \<Rightarrow> bytes \<Rightarrow> (goerr, bytes list) result" where
  "chunk_loop mk maximum data =
    (if data = [] then Inr []
     else case chunk_search mk data 1 (min (int (length data)) maximum) 0 [] of
       (best, encoded) \<Rightarrow>
         if best = 0 then Inl (EErr ''maximum command frame size cannot carry data'')
         else case chunk_loop mk maximum (drop (nat best) data) of
           Inl e \<Rightarrow> Inl e
         | Inr frames \<Rightarrow> Inr (encoded # frames))"
  by pat_completeness auto
termination
proof (relation "measure (\<lambda>(_, _, data). length data)", goal_cases)
  case (2 mk maximum data best encoded)
  then have "1 \<le> best"
    using chunk_search_sound [of mk data 1 "min (int (length data)) maximum" 0 "[]" best encoded] by auto
  with 2 show ?case by (cases data) auto
qed simp

declare chunk_loop.simps [simp del]

definition defaultMaximumFrameSize :: int where
  "defaultMaximumFrameSize = 16384"

definition chunkedFrames ::
    "(int \<Rightarrow> bytes \<Rightarrow> (goerr, bytes) result) \<Rightarrow> bytes \<Rightarrow> int \<Rightarrow> (goerr, bytes list) result" where
  "chunkedFrames mk data maximum =
    (if data = [] then Inr []
     else let m = (if maximum \<le> 0 then defaultMaximumFrameSize else maximum)
          in chunk_loop (mk m) m data)"

definition EncodeClientStart ::
    "(ClientFrame \<Rightarrow> (goerr, bytes) result) \<Rightarrow> StartRequest \<Rightarrow> int \<Rightarrow> (goerr, bytes) result" where
  "EncodeClientStart enc request maximum =
    (case encodeStart request of
       Inl e \<Rightarrow> Inl e
     | Inr message \<Rightarrow> marshalMessage valid_ClientFrame enc message maximum)"

definition EncodeClientStdin ::
    "(ClientFrame \<Rightarrow> (goerr, bytes) result) \<Rightarrow> bytes \<Rightarrow> int \<Rightarrow> (goerr, bytes list) result" where
  "EncodeClientStdin enc data maximum =
    chunkedFrames (\<lambda>m chunk. marshalMessage valid_ClientFrame enc (CFStdin chunk) m) data maximum"

definition EncodeClientStdinEOF ::
    "(ClientFrame \<Rightarrow> (goerr, bytes) result) \<Rightarrow> int \<Rightarrow> (goerr, bytes) result" where
  "EncodeClientStdinEOF enc maximum = marshalMessage valid_ClientFrame enc CFStdinEof maximum"

definition EncodeClientWindowChange ::
    "(ClientFrame \<Rightarrow> (goerr, bytes) result) \<Rightarrow> WindowSize \<Rightarrow> int \<Rightarrow> (goerr, bytes) result" where
  "EncodeClientWindowChange enc ws maximum =
    marshalMessage valid_ClientFrame enc (CFWindowChange (ws_Rows ws) (ws_Columns ws)) maximum"

section \<open>Exit results on the wire\<close>

text \<open>The message \<open>sendExit\<close> builds; the status is truncated to 32 bits.\<close>

definition exit_message :: "ExitResult \<Rightarrow> pb_exit" where
  "exit_message result =
    (if ex_RuntimeFailure result \<noteq> [] then ExitRuntimeFailure (ex_RuntimeFailure result)
     else if ex_Signal result \<noteq> [] then ExitSignal (ex_Signal result)
     else ExitStatus (word_of_int (ex_Status result)))"

text \<open>The errors the client command package builds, besides the ones it passes on.\<close>

datatype client_error =
    StartRejectedError string string
  | ExitStatusError int
  | ExitSignalError string
  | RuntimeError string
  | ProtocolError string
  | PlainError goerr

definition terminalResult :: "ExitResult \<Rightarrow> client_error option" where
  "terminalResult result =
    (if ex_RuntimeFailure result \<noteq> [] then Some (RuntimeError (ex_RuntimeFailure result))
     else if ex_Signal result \<noteq> [] then Some (ExitSignalError (ex_Signal result))
     else if ex_Status result \<noteq> 0 then Some (ExitStatusError (ex_Status result))
     else None)"

record RemoteExitError =
  re_Code :: int
  re_Cause :: client_error
  re_silent :: bool

text \<open>\<open>signum\<close> is \<open>unix.SignalNum\<close> of the upper-cased name, 0 for an unknown one.\<close>

definition normalizeRemoteExit ::
    "(string \<Rightarrow> int) \<Rightarrow> client_error option \<Rightarrow> RemoteExitError option" where
  "normalizeRemoteExit signum err =
    (case err of
       None \<Rightarrow> None
     | Some (ExitStatusError code) \<Rightarrow>
         Some \<lparr>re_Code = (if code < 1 \<or> code > 255 then 255 else code),
               re_Cause = ExitStatusError code, re_silent = True\<rparr>
     | Some (ExitSignalError s) \<Rightarrow>
         (let number = signum s
          in Some \<lparr>re_Code = (if number = 0 then 255 else 128 + number),
                   re_Cause = ExitSignalError s, re_silent = False\<rparr>)
     | Some e \<Rightarrow> Some \<lparr>re_Code = 255, re_Cause = e, re_silent = False\<rparr>)"

section \<open>Chunking loses nothing\<close>

lemma chunk_loop_sound:
  "chunk_loop mk maximum data = Inr frames
    \<Longrightarrow> \<exists>chunks. concat chunks = data \<and> list_all (\<lambda>c. c \<noteq> []) chunks
      \<and> list_all2 (\<lambda>c f. mk c = Inr f) chunks frames"
proof (induction mk maximum data arbitrary: frames rule: chunk_loop.induct)
  case (1 mk maximum data)
  obtain best encoded where s: "chunk_search mk data 1 (min (int (length data)) maximum) 0 [] = (best, encoded)"
    by fastforce
  show ?case
  proof (cases "data = []")
    case True
    then show ?thesis using 1(2) by (intro exI [of _ "[]"]) (simp add: chunk_loop.simps)
  next
    case False
    then have b: "best \<noteq> 0" using 1(2) s by (auto simp: chunk_loop.simps [of mk maximum data])
    obtain rest where rest: "chunk_loop mk maximum (drop (nat best) data) = Inr rest"
      and frames: "frames = encoded # rest"
      using 1(2) False s b by (auto simp: chunk_loop.simps [of mk maximum data] split: sum.splits)
    have best: "1 \<le> best" "mk (take (nat best) data) = Inr encoded"
      using chunk_search_sound [OF s] b by auto
    obtain chunks where "concat chunks = drop (nat best) data" "list_all (\<lambda>c. c \<noteq> []) chunks"
      "list_all2 (\<lambda>c f. mk c = Inr f) chunks rest"
      using 1(1) [OF False s [symmetric] b rest] by blast
    then show ?thesis
      using best False frames
      by (intro exI [of _ "take (nat best) data # chunks"]) auto
  qed
qed

lemma chunk_loop_total:
  "(\<And>b. \<exists>f. mk [b] = Inr f) \<Longrightarrow> 1 \<le> maximum \<Longrightarrow> \<exists>frames. chunk_loop mk maximum data = Inr frames"
proof (induction mk maximum data rule: chunk_loop.induct)
  case (1 mk maximum data)
  obtain best encoded where s: "chunk_search mk data 1 (min (int (length data)) maximum) 0 [] = (best, encoded)"
    by fastforce
  show ?case
  proof (cases data)
    case Nil
    then show ?thesis by (simp add: chunk_loop.simps)
  next
    case (Cons x xs)
    obtain f where "mk (take 1 data) = Inr f" using 1(2) [of x] Cons by auto
    then have b: "best \<noteq> 0" using chunk_search_sound [OF s, of f] Cons 1(3) by auto
    obtain rest where "chunk_loop mk maximum (drop (nat best) data) = Inr rest"
      using 1(1) [OF _ s [symmetric] b] 1(2,3) Cons by blast
    then show ?thesis using s b Cons by (subst chunk_loop.simps) simp
  qed
qed

lemma marshalMessage_ok:
  assumes "marshalMessage valid enc m maximum = Inr f"
  shows "valid m" "enc m = Inr f" "f \<noteq> []" "0 < maximum \<Longrightarrow> int (length f) \<le> maximum"
  using assms by (auto simp: marshalMessage_def split: if_splits sum.splits)

lemma marshal_unmarshal:
  assumes "\<And>m f. enc m = Inr f \<Longrightarrow> dec f = Inr m" and "marshalMessage valid enc m maximum = Inr f"
  shows "unmarshalMessage valid dec f = Inr m"
  using assms(1) marshalMessage_ok [OF assms(2)] by (simp add: unmarshalMessage_def)

text \<open>What decoding with the inverse of the encoder means.\<close>

definition codec :: "('m \<Rightarrow> (goerr, bytes) result) \<Rightarrow> (bytes \<Rightarrow> (goerr, 'm) result) \<Rightarrow> bool" where
  "codec enc dec \<longleftrightarrow> (\<forall>m f. enc m = Inr f \<longrightarrow> dec f = Inr m)"

text \<open>
  Chunking loses and reorders nothing.  For a decoder that inverts the encoder, the frames
  into which standard input is cut each fit the maximum frame size and decode to non-empty pieces
  whose concatenation is the input.  If a single byte fits into a frame, cutting never fails.
\<close>

theorem stdin_chunks_lossless:
  assumes "codec enc dec" and "0 < maximum"
    and "\<And>b. \<exists>f. marshalMessage valid_ClientFrame enc (CFStdin [b]) maximum = Inr f"
  shows "\<exists>frames chunks. EncodeClientStdin enc data maximum = Inr frames
    \<and> map (unmarshalMessage valid_ClientFrame dec) frames = map (Inr \<circ> CFStdin) chunks
    \<and> concat chunks = data \<and> list_all (\<lambda>c. c \<noteq> []) chunks
    \<and> list_all (\<lambda>f. int (length f) \<le> maximum) frames"
proof -
  let ?mk = "\<lambda>chunk. marshalMessage valid_ClientFrame enc (CFStdin chunk) maximum"
  have eq: "EncodeClientStdin enc data maximum = chunk_loop ?mk maximum data"
    using assms(2) by (simp add: EncodeClientStdin_def chunkedFrames_def chunk_loop.simps)
  obtain frames where f: "chunk_loop ?mk maximum data = Inr frames"
    using chunk_loop_total [of ?mk maximum data] assms(2,3) by auto
  obtain chunks where c: "concat chunks = data" "list_all (\<lambda>c. c \<noteq> []) chunks"
    and l: "list_all2 (\<lambda>c f. ?mk c = Inr f) chunks frames"
    using chunk_loop_sound [OF f] by blast
  have "map (unmarshalMessage valid_ClientFrame dec) frames = map (Inr \<circ> CFStdin) chunks"
    using l assms(1) by induction (auto simp: codec_def intro: marshal_unmarshal)
  moreover have "list_all (\<lambda>f. int (length f) \<le> maximum) frames"
    using l assms(2) by induction (auto dest: marshalMessage_ok(4))
  ultimately show ?thesis using c f eq by auto
qed

text \<open>A codec for examples: a tag byte and the data of a \<open>Stdin\<close> frame.\<close>

definition example_enc :: "ClientFrame \<Rightarrow> (goerr, bytes) result" where
  "example_enc m = (case m of CFStdin d \<Rightarrow> Inr (2 # d) | _ \<Rightarrow> Inl EIoEOF)"

definition example_dec :: "bytes \<Rightarrow> (goerr, ClientFrame) result" where
  "example_dec b = Inr (CFStdin (tl b))"

theorem stdin_chunks_lossless_witness:
  "\<exists>frames chunks. EncodeClientStdin example_enc [1, 2, 3, 4, 5] 3 = Inr frames
    \<and> map (unmarshalMessage valid_ClientFrame example_dec) frames = map (Inr \<circ> CFStdin) chunks
    \<and> concat chunks = [1, 2, 3, 4, 5]"
proof -
  have "codec example_enc example_dec"
    by (auto simp: codec_def example_enc_def example_dec_def split: ClientFrame.splits)
  moreover have "\<exists>f. marshalMessage valid_ClientFrame example_enc (CFStdin [b]) 3 = Inr f" for b
    by (simp add: marshalMessage_def example_enc_def len_in_def)
  ultimately show ?thesis
    using stdin_chunks_lossless [of example_enc example_dec 3 "[1, 2, 3, 4, 5]"] by fastforce
qed

section \<open>Round trips\<close>

lemma decode_environment_ok:
  "distinct (map fst entries) \<Longrightarrow> fst ` set entries \<inter> fst ` set env = {}
    \<Longrightarrow> list_all (\<lambda>(k, v). \<not> ContainsAny k [CHR ''='', NUL] \<and> \<not> ContainsNUL v) entries
    \<Longrightarrow> decode_environment env entries = Inr (env @ entries)"
  by (induction env entries rule: decode_environment.induct) (auto simp: image_iff)

text \<open>The request a peer reconstructs: entries sorted by name, and no command for a shell.\<close>

definition canonical_request :: "StartRequest \<Rightarrow> StartRequest" where
  "canonical_request r =
    r\<lparr>sr_Command := (case sr_Kind r of StartExec \<Rightarrow> sr_Command r | _ \<Rightarrow> []),
      sr_Environment := map (\<lambda>name. (name, the (map_of (sr_Environment r) name)))
                          (sort (map fst (sr_Environment r)))\<rparr>"

definition sendable :: "StartRequest \<Rightarrow> bool" where
  "sendable r \<longleftrightarrow> distinct (map fst (sr_Environment r))
     \<and> list_all (\<lambda>(k, v). \<not> ContainsAny k [CHR ''='', NUL] \<and> \<not> ContainsNUL v) (sr_Environment r)"

lemma canonical_environment:
  "map_of (sr_Environment (canonical_request r)) = map_of (sr_Environment r)"
proof
  fix k
  have "k \<in> fst ` set (sr_Environment r) \<longleftrightarrow> map_of (sr_Environment r) k \<noteq> None"
    by (simp add: map_of_eq_None_iff)
  then show "map_of (sr_Environment (canonical_request r)) k = map_of (sr_Environment r) k"
    by (auto simp: canonical_request_def map_of_map_restrict restrict_map_def)
qed

lemma start_survives_wire:
  assumes "codec enc dec" and "sendable r" and "EncodeClientStart enc r maximum = Inr frame"
  shows "\<exists>s. unmarshalMessage valid_ClientFrame dec frame = Inr (CFStart s)
    \<and> decodeStart s = Inr (canonical_request r)
    \<and> map_of (sr_Environment (canonical_request r)) = map_of (sr_Environment r)"
proof -
  let ?env = "map (\<lambda>name. (name, the (map_of (sr_Environment r) name))) (sort (map fst (sr_Environment r)))"
  obtain m where e: "encodeStart r = Inr m" and f: "marshalMessage valid_ClientFrame enc m maximum = Inr frame"
    using assms(3) by (auto simp: EncodeClientStart_def split: sum.splits)
  have u: "unmarshalMessage valid_ClientFrame dec frame = Inr m"
    using marshal_unmarshal [OF _ f] assms(1) by (auto simp: codec_def)
  have v: "the (map_of (sr_Environment r) k) = v" if "(k, v) \<in> set (sr_Environment r)" for k v
    using that assms(2) by (simp add: sendable_def)
  have d: "decode_environment [] ?env = Inr ?env"
  proof -
    have "decode_environment [] ?env = Inr ([] @ ?env)"
      using assms(2) v by (intro decode_environment_ok) (fastforce simp: sendable_def comp_def list_all_iff)+
    then show ?thesis by simp
  qed
  obtain s where "m = CFStart s" "decodeStart s = Inr (canonical_request r)"
    using e d
    by (auto simp: encodeStart_def decodeStart_def canonical_request_def Let_def
        split: StartKind.splits if_splits)
  with u canonical_environment [of r] show ?thesis by auto
qed

definition example_start :: StartRequest where
  "example_start =
    \<lparr>sr_Kind = StartExec, sr_Command = ''ls'', sr_PTY = None,
     sr_Environment = [(''TERM'', ''xterm''), (''LANG'', ''C'')]\<rparr>"

definition example_start_enc :: "ClientFrame \<Rightarrow> (goerr, bytes) result" where
  "example_start_enc m = (if encodeStart example_start = Inr m then Inr [1] else Inl EIoEOF)"

definition example_start_dec :: "bytes \<Rightarrow> (goerr, ClientFrame) result" where
  "example_start_dec b = encodeStart example_start"

lemma exit_survives_wire:
  assumes "codec enc dec" and "marshalMessage valid_ServerFrame enc (SFExit (exit_message r)) maximum = Inr frame"
    and "- (2 ^ 31) \<le> ex_Status r" and "ex_Status r < 2 ^ 31"
  shows "\<exists>r'. DecodeServerEvent dec frame = Inr (ServerEventExit r') \<and> terminalResult r' = terminalResult r"
proof -
  have "sint (word_of_int (ex_Status r) :: 32 word) = ex_Status r"
    using assms(3,4) by (simp add: int_word_sint)
  then have "\<exists>r'. server_event (SFExit (exit_message r)) = Inr (ServerEventExit r')
      \<and> terminalResult r' = terminalResult r"
    by (auto simp: server_event_def exit_message_def no_exit_def terminalResult_def)
  then show ?thesis
    using marshal_unmarshal [OF _ assms(2), of dec] assms(1)
    by (auto simp: DecodeServerEvent_def codec_def)
qed

definition example_exit :: ExitResult where
  "example_exit = \<lparr>ex_Status = 3, ex_Signal = [], ex_RuntimeFailure = []\<rparr>"

definition example_exit_enc :: "ServerFrame \<Rightarrow> (goerr, bytes) result" where
  "example_exit_enc m = (if m = SFExit (exit_message example_exit) then Inr [4] else Inl EIoEOF)"

definition example_exit_dec :: "bytes \<Rightarrow> (goerr, ServerFrame) result" where
  "example_exit_dec b = Inr (SFExit (exit_message example_exit))"

lemma remote_exit_code:
  assumes "\<And>s. 0 \<le> signum s \<and> signum s \<le> 64" and "normalizeRemoteExit signum err = Some e"
  shows "1 \<le> re_Code e \<and> re_Code e \<le> 255"
  using assms(2) assms(1) [of "case err of Some (ExitSignalError s) \<Rightarrow> s | _ \<Rightarrow> []"]
  by (auto simp: normalizeRemoteExit_def Let_def split: option.splits client_error.splits if_splits)

end
