(* ===== verification/Command_Client.thy ===== *)
theory Command_Client
  imports Command
begin

text \<open>
  The client of the command protocol (\<open>app/client/command/client.go\<close>) as a transition system.
  Its calls and its receive loop run concurrently and share the client's fields under a lock, so
  one step is one critical section, one channel operation or one call on the connection; between
  two steps of one goroutine any step of another may come.
\<close>

section \<open>State\<close>

datatype clientState = clientIdle | clientStarting | clientRunning | clientExited | clientClosed

text \<open>
  Where the receive loop stands: handling an event with the state and terminal flag it read under
  the lock, about to send on \<open>started\<close>, or about to finish with the exit result.
\<close>

datatype receiver =
    NotReceiving
  | Receiving
  | Handling ServerEvent clientState bool
  | SendingStarted "client_error option"
  | Finishing "client_error option"
  | ReceiverDone

datatype starter = NoStart | SendingStart bytes | AwaitingStart | StartReturned "client_error option"

text \<open>
  \<open>c_started\<close> is the buffer of the channel of capacity one, \<open>c_once\<close> the \<open>sync.Once\<close> of \<open>finish\<close>,
  \<open>c_writer\<close> the frames \<open>writeStdin\<close> still has to send and \<open>c_control\<close> those of \<open>closeStdin\<close> and
  \<open>resize\<close>; \<open>c_sent\<close> is what the connection has taken.  The two sinks are what was written to them.
  \<open>c_accepted\<close> and \<open>c_exit\<close> record the server's acceptance and exit result for the properties.
\<close>

record client =
  c_state :: clientState
  c_hasPTY :: bool
  c_stdinEOF :: bool
  c_started :: "client_error option list"
  c_done :: bool
  c_waitErr :: "client_error option"
  c_once :: bool
  c_connClosed :: bool
  c_receiver :: receiver
  c_starter :: starter
  c_writer :: "bytes list"
  c_control :: "bytes list"
  c_sent :: "bytes list"
  c_hasStdout :: bool
  c_hasStderr :: bool
  c_stdout :: bytes
  c_stderr :: bytes
  c_accepted :: bool
  c_exit :: "ExitResult option"

text \<open>The connection is given by its maximum send frame size, \<open>None\<close> for a nil connection.\<close>

definition newClient :: "int option \<Rightarrow> (goerr, client) result" where
  "newClient conn =
    (case conn of
       None \<Rightarrow> Inl (EErr ''command frame connection is required'')
     | Some maxSendFrameSize \<Rightarrow>
     if maxSendFrameSize \<le> 0
     then Inl (EErr ''command maximum send frame size must be greater than zero'')
     else Inr
       \<lparr>c_state = clientIdle, c_hasPTY = False, c_stdinEOF = False, c_started = [], c_done = False,
        c_waitErr = None, c_once = False, c_connClosed = False, c_receiver = NotReceiving,
        c_starter = NoStart, c_writer = [], c_control = [], c_sent = [],
        c_hasStdout = False, c_hasStderr = False, c_stdout = [], c_stderr = [], c_accepted = False,
        c_exit = None\<rparr>)"

text \<open>
  \<open>finish\<close> closes the connection and \<open>done\<close> right after its critical section.  Taking the three as
  one step only lets \<open>wait\<close> return earlier than it could.
\<close>

definition finish :: "client_error option \<Rightarrow> client \<Rightarrow> client" where
  "finish err c =
    (if c_once c then c
     else c\<lparr>c_once := True,
            c_waitErr := (if c_waitErr c = None then err else c_waitErr c),
            c_started := (if c_state c = clientStarting \<and> c_started c = [] then [err] else c_started c),
            c_state := (if c_state c \<noteq> clientExited then clientClosed else c_state c),
            c_connClosed := True, c_done := True\<rparr>)"

section \<open>Calls\<close>

text \<open>\<open>start\<close> up to its first send; the sink is given by which of its two writers are set.\<close>

definition start_begin ::
    "(ClientFrame \<Rightarrow> (goerr, bytes) result) \<Rightarrow> int \<Rightarrow> StartRequest \<Rightarrow> bool \<Rightarrow> bool \<Rightarrow> client
      \<Rightarrow> (client_error, client) result" where
  "start_begin enc maximum request hasOut hasErr c =
    (case EncodeClientStart enc request maximum of
       Inl e \<Rightarrow> Inl (PlainError e)
     | Inr frame \<Rightarrow>
     if c_state c \<noteq> clientIdle then Inl (ProtocolError ''start may be sent exactly once'')
     else Inr (c\<lparr>c_state := clientStarting, c_hasPTY := (sr_PTY request \<noteq> None),
                 c_hasStdout := hasOut, c_hasStderr := hasErr,
                 c_receiver := Receiving, c_starter := SendingStart frame\<rparr>))"

definition start_sent :: "bytes \<Rightarrow> goerr option \<Rightarrow> client \<Rightarrow> client" where
  "start_sent frame r c =
    (case r of
       Some e \<Rightarrow> (finish (Some (PlainError (EWrap ''send command start'' e))) c)
                   \<lparr>c_starter := StartReturned (Some (PlainError e))\<rparr>
     | None \<Rightarrow> c\<lparr>c_sent := c_sent c @ [frame], c_starter := AwaitingStart\<rparr>)"

definition writeStdin_check :: "client \<Rightarrow> client_error option" where
  "writeStdin_check c =
    (if c_state c \<noteq> clientRunning then Some (ProtocolError ''stdin is legal only after start acceptance'')
     else if c_stdinEOF c then Some (ProtocolError ''stdin after EOF'')
     else None)"

definition writeStdin_begin ::
    "(ClientFrame \<Rightarrow> (goerr, bytes) result) \<Rightarrow> int \<Rightarrow> bytes \<Rightarrow> client \<Rightarrow> (client_error, client) result" where
  "writeStdin_begin enc maximum data c =
    (if data = [] then Inr c
     else case writeStdin_check c of
       Some e \<Rightarrow> Inl e
     | None \<Rightarrow>
    (case EncodeClientStdin enc data maximum of
       Inl e \<Rightarrow> Inl (PlainError e)
     | Inr frames \<Rightarrow> Inr (c\<lparr>c_writer := frames\<rparr>)))"

definition closeStdin_begin ::
    "(ClientFrame \<Rightarrow> (goerr, bytes) result) \<Rightarrow> int \<Rightarrow> client \<Rightarrow> (client_error, client) result" where
  "closeStdin_begin enc maximum c =
    (if c_state c \<noteq> clientRunning then Inl (ProtocolError ''stdin EOF is legal only after start acceptance'')
     else if c_stdinEOF c then Inl (ProtocolError ''duplicate stdin EOF'')
     else Inr (case EncodeClientStdinEOF enc maximum of
            Inl _ \<Rightarrow> c\<lparr>c_stdinEOF := True\<rparr>
          | Inr frame \<Rightarrow> c\<lparr>c_stdinEOF := True, c_control := c_control c @ [frame]\<rparr>))"

definition resize_begin ::
    "(ClientFrame \<Rightarrow> (goerr, bytes) result) \<Rightarrow> int \<Rightarrow> WindowSize \<Rightarrow> client
      \<Rightarrow> (client_error, client) result" where
  "resize_begin enc maximum sz c =
    (if c_state c \<noteq> clientRunning \<or> \<not> c_hasPTY c
     then Inl (ProtocolError ''window change requires an accepted PTY start'')
     else case EncodeClientWindowChange enc sz maximum of
       Inl e \<Rightarrow> Inl (PlainError e)
     | Inr frame \<Rightarrow> Inr (c\<lparr>c_control := c_control c @ [frame]\<rparr>))"

text \<open>\<open>wait\<close> blocks until \<open>done\<close> is closed.\<close>

definition client_wait :: "client \<Rightarrow> client_error option option" where
  "client_wait c = (if c_done c then Some (c_waitErr c) else None)"

section \<open>Receiving\<close>

definition receive_error :: "goerr \<Rightarrow> client_error" where
  "receive_error e =
    PlainError (EWrap ''receive command frame'' (if goerr_Is e EIoEOF then EErr ''unexpected EOF'' else e))"

definition stop_receiving :: "client_error \<Rightarrow> client \<Rightarrow> client" where
  "stop_receiving e c = (finish (Some e) c)\<lparr>c_receiver := ReceiverDone\<rparr>"

text \<open>
  \<open>handleServerEvent\<close> after it has read the state.  \<open>sink\<close> is what the write to the sink returns: the
  number of bytes written and the error, or \<open>None\<close> when all was written.
\<close>

definition handleServerEvent ::
    "ServerEvent \<Rightarrow> clientState \<Rightarrow> bool \<Rightarrow> (nat \<times> goerr) option \<Rightarrow> client \<Rightarrow> client" where
  "handleServerEvent event state hasPTY sink c =
    (case event of
       ServerEventStartResult accepted code msg \<Rightarrow>
         if state \<noteq> clientStarting
         then stop_receiving (ProtocolError ''duplicate or out-of-order start result'') c
         else if accepted
         then c\<lparr>c_state := clientRunning, c_accepted := True, c_receiver := SendingStarted None\<rparr>
         else c\<lparr>c_receiver := SendingStarted (Some (StartRejectedError code msg))\<rparr>
     | ServerEventStdout d \<Rightarrow>
         if state \<noteq> clientRunning
         then stop_receiving (ProtocolError ''stdout before start acceptance or after exit'') c
         else if \<not> c_hasStdout c then stop_receiving (ProtocolError ''stdout sink is not configured'') c
         else (case sink of
                 Some (n, e) \<Rightarrow> stop_receiving (PlainError (EWrap ''write command stdout'' e))
                   (c\<lparr>c_stdout := c_stdout c @ take n d\<rparr>)
               | None \<Rightarrow> c\<lparr>c_stdout := c_stdout c @ d, c_receiver := Receiving\<rparr>)
     | ServerEventStderr d \<Rightarrow>
         if state \<noteq> clientRunning
         then stop_receiving (ProtocolError ''stderr before start acceptance or after exit'') c
         else if hasPTY then stop_receiving (ProtocolError ''stderr is not legal for a PTY command'') c
         else if \<not> c_hasStderr c then stop_receiving (ProtocolError ''stderr sink is not configured'') c
         else (case sink of
                 Some (n, e) \<Rightarrow> stop_receiving (PlainError (EWrap ''write command stderr'' e))
                   (c\<lparr>c_stderr := c_stderr c @ take n d\<rparr>)
               | None \<Rightarrow> c\<lparr>c_stderr := c_stderr c @ d, c_receiver := Receiving\<rparr>)
     | ServerEventExit r \<Rightarrow>
         if state \<noteq> clientRunning
         then stop_receiving (ProtocolError ''duplicate or out-of-order exit'') c
         else c\<lparr>c_state := clientExited, c_waitErr := terminalResult r, c_exit := Some r,
                c_receiver := Finishing (terminalResult r)\<rparr>)"

section \<open>Steps\<close>

datatype client_step =
    StartCall StartRequest bool bool
  | StartSent "goerr option"
  | StartTaken
  | StartCanceled goerr
  | ReceiveFails goerr
  | ReceiveFrame bytes
  | HandleEvent "(nat \<times> goerr) option"
  | SendStarted
  | FinishExit
  | WriteCall bytes
  | WriteFrame "goerr option"
  | CloseStdinCall
  | ResizeCall WindowSize
  | SendControl nat "goerr option"
  | CloseCall

fun client_exec ::
    "(ClientFrame \<Rightarrow> (goerr, bytes) result) \<Rightarrow> (bytes \<Rightarrow> (goerr, ServerFrame) result) \<Rightarrow> int
      \<Rightarrow> client_step \<Rightarrow> client \<Rightarrow> client option" where
  "client_exec enc dec maximum (StartCall request hasOut hasErr) c =
    (case start_begin enc maximum request hasOut hasErr c of Inl _ \<Rightarrow> None | Inr c' \<Rightarrow> Some c')"
| "client_exec enc dec maximum (StartSent r) c =
    (case c_starter c of SendingStart frame \<Rightarrow> Some (start_sent frame r c) | _ \<Rightarrow> None)"
| "client_exec enc dec maximum StartTaken c =
    (case c_started c of
       [] \<Rightarrow> None
     | x # rest \<Rightarrow>
         if c_starter c = AwaitingStart
         then Some (c\<lparr>c_started := rest, c_starter := StartReturned x\<rparr>) else None)"
| "client_exec enc dec maximum (StartCanceled e) c =
    (if c_starter c = AwaitingStart
     then Some ((finish (Some (PlainError e)) c)\<lparr>c_starter := StartReturned (Some (PlainError e))\<rparr>)
     else None)"
| "client_exec enc dec maximum (ReceiveFails e) c =
    (if c_receiver c = Receiving then Some (stop_receiving (receive_error e) c) else None)"
| "client_exec enc dec maximum (ReceiveFrame frame) c =
    (if c_receiver c = Receiving
     then Some (case DecodeServerEvent dec frame of
            Inl e \<Rightarrow> stop_receiving (ProtocolError ''invalid server frame'') c
          | Inr event \<Rightarrow> c\<lparr>c_receiver := Handling event (c_state c) (c_hasPTY c)\<rparr>)
     else None)"
| "client_exec enc dec maximum (HandleEvent sink) c =
    (case c_receiver c of
       Handling event state hasPTY \<Rightarrow> Some (handleServerEvent event state hasPTY sink c)
     | _ \<Rightarrow> None)"
| "client_exec enc dec maximum SendStarted c =
    (case c_receiver c of
       SendingStarted x \<Rightarrow>
         if c_started c \<noteq> [] then None
         else (case x of
                 None \<Rightarrow> Some (c\<lparr>c_started := [None], c_receiver := Receiving\<rparr>)
               | Some e \<Rightarrow> Some (stop_receiving e (c\<lparr>c_started := [Some e]\<rparr>)))
     | _ \<Rightarrow> None)"
| "client_exec enc dec maximum FinishExit c =
    (case c_receiver c of
       Finishing x \<Rightarrow> Some ((finish x c)\<lparr>c_receiver := Receiving\<rparr>)
     | _ \<Rightarrow> None)"
| "client_exec enc dec maximum (WriteCall data) c =
    (if c_writer c = []
     then (case writeStdin_begin enc maximum data c of Inl _ \<Rightarrow> None | Inr c' \<Rightarrow> Some c') else None)"
| "client_exec enc dec maximum (WriteFrame r) c =
    (case c_writer c of
       [] \<Rightarrow> None
     | f # rest \<Rightarrow>
         (case r of
            None \<Rightarrow> Some (c\<lparr>c_writer := rest, c_sent := c_sent c @ [f]\<rparr>)
          | Some e \<Rightarrow> Some ((finish (Some (PlainError (EWrap ''send command stdin'' e))) c)\<lparr>c_writer := []\<rparr>)))"
| "client_exec enc dec maximum CloseStdinCall c =
    (case closeStdin_begin enc maximum c of Inl _ \<Rightarrow> None | Inr c' \<Rightarrow> Some c')"
| "client_exec enc dec maximum (ResizeCall sz) c =
    (case resize_begin enc maximum sz c of Inl _ \<Rightarrow> None | Inr c' \<Rightarrow> Some c')"
| "client_exec enc dec maximum (SendControl i r) c =
    (if i < length (c_control c)
     then Some (c\<lparr>c_control := take i (c_control c) @ drop (Suc i) (c_control c),
                 c_sent := (if r = None then c_sent c @ [c_control c ! i] else c_sent c)\<rparr>)
     else None)"
| "client_exec enc dec maximum CloseCall c = Some (finish (Some (PlainError ECanceled)) c)"

inductive client_reachable ::
    "(ClientFrame \<Rightarrow> (goerr, bytes) result) \<Rightarrow> (bytes \<Rightarrow> (goerr, ServerFrame) result) \<Rightarrow> int \<Rightarrow> client \<Rightarrow> bool"
  for enc dec maximum where
  client_new: "newClient (Some maximum) = Inr c \<Longrightarrow> client_reachable enc dec maximum c"
| client_next: "client_reachable enc dec maximum c \<Longrightarrow> client_exec enc dec maximum a c = Some c'
    \<Longrightarrow> client_reachable enc dec maximum c'"

section \<open>Success is only reported if the server reported it\<close>

definition client_inv :: "client \<Rightarrow> bool" where
  "client_inv c \<longleftrightarrow>
    length (c_started c) \<le> 1
    \<and> (c_state c = clientRunning \<longrightarrow> c_accepted c)
    \<and> (c_stdout c \<noteq> [] \<or> c_stderr c \<noteq> [] \<or> c_exit c \<noteq> None \<longrightarrow> c_accepted c)
    \<and> (c_stderr c \<noteq> [] \<longrightarrow> \<not> c_hasPTY c)
    \<and> (c_done c = c_once c) \<and> (c_connClosed c = c_once c)
    \<and> (c_done c \<and> c_waitErr c = None \<longrightarrow> (\<exists>r. c_exit c = Some r \<and> terminalResult r = None))
    \<and> (\<forall>ev st pty. c_receiver c = Handling ev st pty \<longrightarrow> (st = clientRunning \<longrightarrow> c_accepted c) \<and> pty = c_hasPTY c)
    \<and> (\<forall>x. c_receiver c = Finishing x \<longrightarrow> (\<exists>r. c_exit c = Some r \<and> terminalResult r = x))
    \<and> (c_state c = clientIdle \<longrightarrow> c_receiver c = NotReceiving \<and> c_stderr c = [])"

lemma finish_keeps [simp]:
  "c_accepted (finish e c) = c_accepted c" "c_exit (finish e c) = c_exit c"
  "c_stdout (finish e c) = c_stdout c" "c_stderr (finish e c) = c_stderr c"
  "c_hasPTY (finish e c) = c_hasPTY c" "c_receiver (finish e c) = c_receiver c"
  "c_starter (finish e c) = c_starter c"
  by (simp_all add: finish_def)

lemma finish_fields:
  assumes "\<not> c_once c"
  shows "c_once (finish e c)" "c_done (finish e c)" "c_connClosed (finish e c)"
    "c_waitErr (finish e c) = (if c_waitErr c = None then e else c_waitErr c)"
    "c_started (finish e c) = (if c_state c = clientStarting \<and> c_started c = [] then [e] else c_started c)"
    "c_state (finish e c) = (if c_state c \<noteq> clientExited then clientClosed else clientExited)"
  using assms by (simp_all add: finish_def)

lemma client_inv_finish:
  assumes i: "client_inv c" and e: "err = None \<Longrightarrow> \<exists>r. c_exit c = Some r \<and> terminalResult r = None"
  shows "client_inv (finish err c)"
proof (cases "c_once c")
  case True
  then show ?thesis using i by (simp add: finish_def)
next
  case False
  have w: "\<exists>r. c_exit c = Some r \<and> terminalResult r = None" if "c_waitErr c = None" "err = None"
    using that e by blast
  show ?thesis using i False w by (simp add: client_inv_def finish_fields) (auto split: if_splits)
qed

lemma client_inv_receiver:
  assumes "client_inv c" "c_state c \<noteq> clientIdle" "r = Receiving \<or> r = ReceiverDone \<or> (\<exists>x. r = SendingStarted x)"
  shows "client_inv (c\<lparr>c_receiver := r\<rparr>)"
  using assms unfolding client_inv_def by auto

lemma client_inv_starter [simp]: "client_inv (c\<lparr>c_starter := x\<rparr>) = client_inv c"
  and client_inv_sent [simp]: "client_inv (c\<lparr>c_sent := l\<rparr>) = client_inv c"
  and client_inv_control [simp]: "client_inv (c\<lparr>c_control := l\<rparr>) = client_inv c"
  and client_inv_writer [simp]: "client_inv (c\<lparr>c_writer := l\<rparr>) = client_inv c"
  and client_inv_eof [simp]: "client_inv (c\<lparr>c_stdinEOF := b\<rparr>) = client_inv c"
  by (simp_all add: client_inv_def)

lemma finish_state: "c_state c \<noteq> clientIdle \<Longrightarrow> c_state (finish e c) \<noteq> clientIdle"
  by (simp add: finish_def)

lemma client_inv_stop:
  "client_inv c \<Longrightarrow> c_state c \<noteq> clientIdle \<Longrightarrow> client_inv (stop_receiving e c)"
  unfolding stop_receiving_def by (intro client_inv_receiver client_inv_finish finish_state) simp_all

lemma client_inv_busy: "client_inv c \<Longrightarrow> c_receiver c \<noteq> NotReceiving \<Longrightarrow> c_state c \<noteq> clientIdle"
  by (auto simp: client_inv_def)

lemma client_inv_started: "client_inv c \<Longrightarrow> length l \<le> 1 \<Longrightarrow> client_inv (c\<lparr>c_started := l\<rparr>)"
  by (simp add: client_inv_def)

lemma client_inv_stdout:
  "client_inv c \<Longrightarrow> c_accepted c \<Longrightarrow> client_inv (c\<lparr>c_stdout := l\<rparr>)"
  by (simp add: client_inv_def)

lemma client_inv_stderr:
  "client_inv c \<Longrightarrow> c_accepted c \<Longrightarrow> \<not> c_hasPTY c \<Longrightarrow> c_state c \<noteq> clientIdle
    \<Longrightarrow> client_inv (c\<lparr>c_stderr := l\<rparr>)"
  unfolding client_inv_def by auto

lemma client_inv_handle:
  assumes i: "client_inv c" and h: "c_receiver c = Handling event state hasPTY"
  shows "client_inv (handleServerEvent event state hasPTY sink c)"
proof -
  have st: "c_state c \<noteq> clientIdle" using client_inv_busy [OF i] h by simp
  have acc: "state = clientRunning \<Longrightarrow> c_accepted c" and pty: "hasPTY = c_hasPTY c"
    using i h by (simp_all add: client_inv_def)
  note rules = client_inv_stop client_inv_receiver client_inv_stdout client_inv_stderr
  show ?thesis
  proof (cases event)
    case (ServerEventStartResult accepted code msg)
    have "client_inv (c\<lparr>c_state := clientRunning, c_accepted := True, c_receiver := SendingStarted None\<rparr>)"
      using i st by (simp add: client_inv_def)
    then show ?thesis using ServerEventStartResult i st by (simp add: handleServerEvent_def rules)
  next
    case (ServerEventStdout d)
    then show ?thesis using i st acc by (auto simp: handleServerEvent_def intro!: rules split: option.splits)
  next
    case (ServerEventStderr d)
    then show ?thesis using i st acc pty
      by (auto simp: handleServerEvent_def intro!: rules split: option.splits)
  next
    case (ServerEventExit r)
    have "client_inv (c\<lparr>c_state := clientExited, c_waitErr := terminalResult r, c_exit := Some r,
        c_receiver := Finishing (terminalResult r)\<rparr>)" if "state = clientRunning"
      using i acc that by (simp add: client_inv_def)
    then show ?thesis using ServerEventExit i st by (simp add: handleServerEvent_def rules)
  qed
qed

lemma client_inv_step:
  assumes i: "client_inv c" and s: "client_exec enc dec maximum a c = Some c'"
  shows "client_inv c'"
proof (cases a)
  case (StartCall request hasOut hasErr)
  then show ?thesis using s i
    by (auto simp: start_begin_def client_inv_def split: sum.splits if_splits)
next
  case (StartSent r)
  then show ?thesis using s i
    by (auto simp: start_sent_def intro: client_inv_finish split: starter.splits option.splits)
next
  case StartTaken
  then obtain x rest where "c_started c = x # rest" "c' = c\<lparr>c_started := rest, c_starter := StartReturned x\<rparr>"
    using s by (auto split: list.splits if_splits)
  then show ?thesis using client_inv_started [OF i, of rest] i by (auto simp: client_inv_def)
next
  case (StartCanceled e)
  then show ?thesis using s i by (auto intro: client_inv_finish split: if_splits)
next
  case (ReceiveFails e)
  then show ?thesis using s i client_inv_busy [OF i] by (auto intro: client_inv_stop split: if_splits)
next
  case (ReceiveFrame frame)
  then have r: "c_receiver c = Receiving" using s by (simp split: if_splits)
  then have st: "c_state c \<noteq> clientIdle" using client_inv_busy [OF i] by simp
  have "client_inv (c\<lparr>c_receiver := Handling event (c_state c) (c_hasPTY c)\<rparr>)" for event
    using i st by (simp add: client_inv_def)
  then show ?thesis using ReceiveFrame s i r st by (auto intro: client_inv_stop split: sum.splits)
next
  case (HandleEvent sink)
  then show ?thesis using s i by (auto intro: client_inv_handle split: receiver.splits)
next
  case SendStarted
  then obtain x where r: "c_receiver c = SendingStarted x" "c_started c = []"
    using s by (auto split: receiver.splits if_splits)
  then have st: "c_state c \<noteq> clientIdle" using client_inv_busy [OF i] by simp
  have "client_inv (c\<lparr>c_started := [y]\<rparr>)" for y using client_inv_started [OF i] by simp
  then show ?thesis using SendStarted s r st
    by (auto intro!: client_inv_stop client_inv_receiver split: option.splits)
next
  case FinishExit
  then obtain x where r: "c_receiver c = Finishing x" "c' = (finish x c)\<lparr>c_receiver := Receiving\<rparr>"
    using s by (auto split: receiver.splits)
  then have "c_state c \<noteq> clientIdle" "\<exists>r. c_exit c = Some r \<and> terminalResult r = x"
    using i client_inv_busy [OF i] by (simp_all add: client_inv_def)
  then show ?thesis using r i by (auto intro!: client_inv_receiver client_inv_finish finish_state)
next
  case (WriteCall data)
  then show ?thesis using s i
    by (auto simp: writeStdin_begin_def split: if_splits sum.splits option.splits)
next
  case (WriteFrame r)
  then show ?thesis using s i by (auto intro: client_inv_finish split: list.splits option.splits)
next
  case CloseStdinCall
  then show ?thesis using s i by (auto simp: closeStdin_begin_def split: if_splits sum.splits)
next
  case (ResizeCall sz)
  then show ?thesis using s i by (auto simp: resize_begin_def split: if_splits sum.splits)
next
  case (SendControl j r)
  then show ?thesis using s i by (auto split: if_splits)
next
  case CloseCall
  then show ?thesis using s i by (auto intro: client_inv_finish)
qed

lemma client_reachable_inv: "client_reachable enc dec maximum c \<Longrightarrow> client_inv c"
proof (induction rule: client_reachable.induct)
  case (client_new c)
  then show ?case by (auto simp: newClient_def client_inv_def split: if_splits)
next
  case (client_next c a c')
  then show ?case by (blast intro: client_inv_step)
qed


text \<open>
  The state an event is handled with can be stale: when the start is canceled after the receive loop
  has read \<open>clientStarting\<close> for the server's acceptance, the handler puts the closed client back to
  \<open>clientRunning\<close> and blocks on the full \<open>started\<close> channel, which nobody reads any more.
\<close>

definition stuck_receiver :: "client \<Rightarrow> bool" where
  "stuck_receiver c \<longleftrightarrow> c_receiver c = SendingStarted None \<and> c_started c \<noteq> []
    \<and> (\<exists>e. c_starter c = StartReturned (Some e)) \<and> c_state c = clientRunning \<and> c_done c"

fun client_run ::
    "(ClientFrame \<Rightarrow> (goerr, bytes) result) \<Rightarrow> (bytes \<Rightarrow> (goerr, ServerFrame) result) \<Rightarrow> int
      \<Rightarrow> client_step list \<Rightarrow> client \<Rightarrow> client option" where
  "client_run enc dec maximum [] c = Some c"
| "client_run enc dec maximum (a # as) c =
    (case client_exec enc dec maximum a c of None \<Rightarrow> None | Some c' \<Rightarrow> client_run enc dec maximum as c')"

lemma client_reachable_run:
  "client_reachable enc dec maximum c \<Longrightarrow> client_run enc dec maximum as c = Some c'
    \<Longrightarrow> client_reachable enc dec maximum c'"
  by (induction as arbitrary: c) (auto split: option.splits intro: client_next)

lemma stuck_receiver_step:
  assumes i: "client_inv c" and st: "stuck_receiver c" and s: "client_exec enc dec maximum a c = Some c'"
  shows "stuck_receiver c'"
proof -
  have "c_once c" using i st by (simp add: client_inv_def stuck_receiver_def)
  then have "finish e c = c" for e by (simp add: finish_def)
  then show ?thesis using st s
    by (cases a) (auto simp: stuck_receiver_def start_begin_def writeStdin_begin_def closeStdin_begin_def
        resize_begin_def split: sum.splits if_splits option.splits list.splits)
qed

lemma stuck_receiver_forever:
  "client_reachable enc dec maximum c \<Longrightarrow> stuck_receiver c \<Longrightarrow> client_run enc dec maximum as c = Some c'
    \<Longrightarrow> stuck_receiver c'"
  by (induction as arbitrary: c)
    (auto split: option.splits intro: client_next stuck_receiver_step client_reachable_inv)

section \<open>Examples\<close>

definition example_server_dec :: "bytes \<Rightarrow> (goerr, ServerFrame) result" where
  "example_server_dec b =
    (if b = [1] then Inr (SFStartResult True [] []) else if b = [2] then Inr (SFStdout [7, 8])
     else Inr (SFExit (ExitStatus 0)))"

definition example_client :: client where
  "example_client = (case newClient (Some 100) of Inr c \<Rightarrow> c)"

lemma example_client_reachable: "client_reachable enc dec 100 example_client"
  by (rule client_new) (simp add: example_client_def newClient_def)

definition example_success :: "client_step list" where
  "example_success =
    [StartCall example_start True True, StartSent None, ReceiveFrame [1], HandleEvent None, SendStarted,
     StartTaken, ReceiveFrame [2], HandleEvent None, ReceiveFrame [3], HandleEvent None, FinishExit]"


definition example_late :: "client_step list" where
  "example_late =
    [StartCall example_start True True, StartSent None, ReceiveFrame [1], StartCanceled ECanceled,
     HandleEvent None]"

lemma late_acceptance_blocks_receiver:
  "\<exists>c. client_reachable example_start_enc example_server_dec 100 c \<and> stuck_receiver c"
proof -
  let ?r = "client_run example_start_enc example_server_dec 100 example_late example_client"
  have "case ?r of None \<Rightarrow> False | Some c \<Rightarrow> c_receiver c = SendingStarted None \<and> c_started c \<noteq> []
      \<and> c_starter c = StartReturned (Some (PlainError ECanceled)) \<and> c_state c = clientRunning \<and> c_done c"
    by code_simp
  then obtain c where "?r = Some c" "stuck_receiver c" by (auto simp: stuck_receiver_def split: option.splits)
  then show ?thesis using client_reachable_run [OF example_client_reachable] by blast
qed

end
