(* ===== verification/App_Files.thy ===== *)
theory App_Files
  imports Strictfiles Trust
begin

text \<open>
  The files the two programs load (\<open>app/server/files.go\<close>, \<open>app/client/files.go\<close>): the host key, the
  client's identity and its known hosts, through the secure file reads, and the check of a server's
  key against the known hosts.
\<close>

section \<open>Files of the current user\<close>

text \<open>The kernel's answers besides the file system: home directory, working directory and user.\<close>

record user_world =
  uw_home :: "(goerr, string) result"
  uw_getwd :: "(goerr, string) result"
  uw_euid :: u32
  uw_kernel :: kernel

definition user_path :: "user_world \<Rightarrow> string \<Rightarrow> (goerr, string \<times> string \<times> string) result" where
  "user_path w path =
    (case uw_home w of
       Inl e \<Rightarrow> Inl (EWrap ''resolve current user home'' e)
     | Inr homeDir \<Rightarrow>
         if HasPrefix path ''~/'' then
           (let relative = TrimPrefix path ''~/'' in Inr (filepath_Join homeDir relative, homeDir, relative))
         else if IsAbs path then Inr (path, filepath_Dir path, filepath_Base path)
         else (case uw_getwd w of
                 Inl e \<Rightarrow> Inl (EWrap ''resolve current working directory'' e)
               | Inr anchor \<Rightarrow> Inr (filepath_Join anchor path, anchor, path)))"

definition user_policy :: "user_world \<Rightarrow> u64 \<Rightarrow> bool \<Rightarrow> Policy" where
  "user_policy w maxSize allowGlobalRead =
    \<lparr>pol_OwnerID = uw_euid w, pol_MaxSize = maxSize, pol_AllowGlobalRead = allowGlobalRead\<rparr>"

definition readCurrentUserFile ::
    "user_world \<Rightarrow> string \<Rightarrow> u64 \<Rightarrow> bool \<Rightarrow> log \<Rightarrow> (goerr, bytes) result \<times> string \<times> log" where
  "readCurrentUserFile w path maxSize allowGlobalRead l =
    (case user_path w path of
       Inl e \<Rightarrow> (Inl e, [], l)
     | Inr (resolved, anchor, relative) \<Rightarrow>
         (let (contents, l1) = secure_Read (uw_kernel w) anchor relative (user_policy w maxSize allowGlobalRead) l
          in (contents, resolved, l1)))"

definition privateKeyMaxSize :: u64 where
  "privateKeyMaxSize = 16 * 1024"

definition knownHostsMaxSize :: u64 where
  "knownHostsMaxSize = 1024 * 1024"

section \<open>Keys and known hosts\<close>

text \<open>\<open>derive\<close> and \<open>pem\<close> are the key derivation and the PEM decoder of the key parser.\<close>

definition loadClientIdentity ::
    "(bytes \<Rightarrow> bytes) \<Rightarrow> (bytes \<Rightarrow> (string \<times> bytes) option) \<Rightarrow> user_world \<Rightarrow> string \<Rightarrow> log
      \<Rightarrow> (goerr, Keypair) result \<times> log" where
  "loadClientIdentity derive pem w path l =
    (case readCurrentUserFile w path privateKeyMaxSize False l of
       (Inl e, _, l1) \<Rightarrow> (Inl (EWrap ''load client identity'' e), l1)
     | (Inr contents, resolved, l1) \<Rightarrow>
         (case ParseOpensshPrivateKeyRaw derive pem contents of
            Inl e \<Rightarrow> (Inl (EWrap ''parse client identity'' e), l1)
          | Inr keypair \<Rightarrow> (Inr keypair, l1)))"

definition loadKnownHosts ::
    "(bytes \<Rightarrow> (goerr, host_line) result) \<Rightarrow> user_world \<Rightarrow> string \<Rightarrow> log
      \<Rightarrow> ((goerr, KnownHostEntry list \<times> string) result \<times> log) option" where
  "loadKnownHosts parse w path l =
    (case readCurrentUserFile w path knownHostsMaxSize True l of
       (Inl e, _, l1) \<Rightarrow> Some (Inl (EWrap ''load known_hosts'' e), l1)
     | (Inr contents, resolved, l1) \<Rightarrow>
         (case ParseKnownHosts parse contents of
            None \<Rightarrow> None
          | Some (Inl e) \<Rightarrow> Some (Inl (EWrap ''parse known_hosts'' e), l1)
          | Some (Inr knownHosts) \<Rightarrow> Some (Inr (knownHosts, resolved), l1)))"

text \<open>The server's host key: the same resolution, written out in its own function.\<close>

definition loadHostKey ::
    "(bytes \<Rightarrow> bytes) \<Rightarrow> (bytes \<Rightarrow> (string \<times> bytes) option) \<Rightarrow> user_world \<Rightarrow> string \<Rightarrow> log
      \<Rightarrow> (goerr, Keypair) result \<times> log" where
  "loadHostKey derive pem w path l =
    (case user_path w path of
       Inl e \<Rightarrow> (Inl e, l)
     | Inr (resolved, anchor, relative) \<Rightarrow>
    (case secure_Read (uw_kernel w) anchor relative (user_policy w privateKeyMaxSize False) l of
       (Inl e, l1) \<Rightarrow> (Inl (EWrap ''load host key'' e), l1)
     | (Inr contents, l1) \<Rightarrow>
         (case ParseOpensshPrivateKeyRaw derive pem contents of
            Inl e \<Rightarrow> (Inl (EWrap ''parse host key'' e), l1)
          | Inr keypair \<Rightarrow> (Inr keypair, l1))))"

definition knownHostsVerifier ::
    "KnownHostEntry list \<Rightarrow> string \<Rightarrow> PublicKey \<Rightarrow> goerr option" where
  "knownHostsVerifier knownHosts referenceIdentity hostKey =
    (case MatchHostKey (Some knownHosts) referenceIdentity hostKey of
       HostKeyAccepted \<Rightarrow> None
     | HostKeyRevoked \<Rightarrow> Some (EErr ''host key fingerprint is revoked for reference identity'')
     | HostKeyMismatch \<Rightarrow> Some (EErr ''unexpected host key fingerprint for reference identity'')
     | HostKeyNoHost \<Rightarrow> Some (EErr ''no known host keys for reference identity''))"

lemma knownHostsVerifier_accepts:
  "knownHostsVerifier entries host key = None \<longleftrightarrow>
    (\<exists>e \<in> set entries. host \<in> set (kh_Hosts e) \<and> PublicKey_Equal (kh_HostKey e) key
       \<and> kh_Marker e = KnownHostEmptyMarker)
    \<and> (\<forall>e \<in> set entries. host \<in> set (kh_Hosts e) \<and> PublicKey_Equal (kh_HostKey e) key
       \<longrightarrow> kh_Marker e \<noteq> KnownHostRevoked)"
  by (auto simp: knownHostsVerifier_def MatchHostKey_def match_host_loop_exact KnownHostEntry_Match_def
      list_ex_iff Let_def split: HostKeyMatch.splits if_splits)

text \<open>A loaded key is what the parser accepts, so it is a valid keypair.\<close>

lemma loadHostKey_parsed:
  assumes "loadHostKey derive pem w path l = (Inr keypair, l')"
  shows "\<exists>contents. ParseOpensshPrivateKeyRaw derive pem contents = Inr keypair"
  using assms by (auto simp: loadHostKey_def split: sum.splits prod.splits)

end
