(* ===== verification/Client_App.thy ===== *)
theory Client_App
  imports Command_Client App_Files Go_Net
begin

text \<open>
  The client program: the connect target (\<open>app/client/target.go\<close>), the start request built from the
  command line (\<open>app/client/client.go\<close>), the adapter from session channels to command frames
  (\<open>app/commandchannel/conn.go\<close>) and the forwarding of standard input (\<open>app/client/command/run.go\<close>).
\<close>

section \<open>Connect targets\<close>

record connectTarget =
  ct_username :: string
  ct_host :: string
  ct_port :: string

definition splitConnectHostPort :: "string \<Rightarrow> (goerr, string \<times> string) result" where
  "splitConnectHostPort target =
    (if HasPrefix target [lbracket] then
       (case IndexByte rbracket target of
          None \<Rightarrow> Inl (EErr ''connect target has an unterminated bracketed host'')
        | Some e \<Rightarrow>
            (let host = take (e - 1) (drop 1 target); rest = drop (Suc e) target
             in if host = [] then Inl (EErr ''connect target host is required'')
                else if rest = [] then Inr (host, [])
                else if HasPrefix rest [colon] then
                  (if drop 1 rest = [] then Inl (EErr ''connect target port is required'')
                   else Inr (host, drop 1 rest))
                else Inl (EErr ''connect target has unexpected characters after bracketed host'')))
     else
       (let checked = (\<lambda>host port.
          if host = [] then Inl (EErr ''connect target host is required'')
          else if port = [] then Inl (EErr ''connect target port is required'')
          else Inr (host, port))
        in case SplitHostPort target of
             Inr (host, port) \<Rightarrow> checked host port
           | Inl _ \<Rightarrow>
               if length (filter (\<lambda>c. c = colon) target) = 1
               then (let (host, port, _) = Cut colon target in checked host port)
               else Inr (target, [])))"

definition parseConnectTarget :: "string \<Rightarrow> (goerr, connectTarget) result" where
  "parseConnectTarget raw =
    (let target = TrimSpace raw;
         finish = (\<lambda>username rest.
           case splitConnectHostPort rest of
             Inl e \<Rightarrow> Inl e
           | Inr (host, port) \<Rightarrow> Inr \<lparr>ct_username = username, ct_host = host, ct_port = port\<rparr>)
     in if target = [] then Inl (EErr ''connect target is required'')
        else case LastIndexByte (CHR ''@'') target of
          None \<Rightarrow> finish [] target
        | Some idx \<Rightarrow>
            if take idx target = [] then Inl (EErr ''connect target username is required'')
            else if drop (Suc idx) target = [] then Inl (EErr ''connect target host is required'')
            else finish (take idx target) (drop (Suc idx) target))"

definition dialAddress :: "nat \<Rightarrow> connectTarget \<Rightarrow> string" where
  "dialAddress defaultPort t = JoinHostPort (ct_host t) (if ct_port t = [] then FormatUint defaultPort else ct_port t)"

definition referenceIdentity :: "connectTarget \<Rightarrow> string" where
  "referenceIdentity t = ct_host t"

text \<open>\<open>user\<close> is the value of \<open>USER\<close> in the environment.\<close>

definition localUsername :: "string \<Rightarrow> string" where
  "localUsername user = (let u = TrimSpace user in if u = [] then ''unknown'' else u)"

definition resolvedUsername :: "string \<Rightarrow> connectTarget \<Rightarrow> string" where
  "resolvedUsername user t = (if ct_username t \<noteq> [] then ct_username t else localUsername user)"

section \<open>The start request\<close>

record ConnectArgs =
  ca_Target :: string
  ca_Command :: "string list"
  ca_ForcePTY :: bool
  ca_DisablePTY :: bool
  ca_Environment :: "string list"

text \<open>The environment of the client's process and its terminal.\<close>

record local_world =
  lw_env :: "string \<Rightarrow> string option"
  lw_terminal :: bool
  lw_size :: "(goerr, int \<times> int) result"

definition env_value :: "local_world \<Rightarrow> string \<Rightarrow> string" where
  "env_value w name = (case lw_env w name of None \<Rightarrow> [] | Some v \<Rightarrow> v)"

fun requestedEnvironment ::
    "local_world \<Rightarrow> (string \<times> string) list \<Rightarrow> string list \<Rightarrow> (goerr, (string \<times> string) list) result" where
  "requestedEnvironment w environment [] = Inr environment"
| "requestedEnvironment w environment (option # options) =
    (let (name0, value0, explicit) = Cut (CHR ''='') option; name = TrimSpace name0
     in if name = [] \<or> ContainsAny name [CHR ''='', NUL] then Inl (EErr ''invalid environment option'')
        else case (if explicit then Some value0 else lw_env w name) of
          None \<Rightarrow> Inl (EErr ''local environment variable is not set'')
        | Some value \<Rightarrow>
            if ContainsNUL value then Inl (EErr ''environment variable contains NUL'')
            else if name \<in> fst ` set environment
            then Inl (EErr ''environment variable was requested more than once'')
            else requestedEnvironment w (environment @ [(name, value)]) options)"

definition terminal_size :: "local_world \<Rightarrow> int \<times> int" where
  "terminal_size w =
    (if lw_terminal w
     then (case lw_size w of
             Inr (width, height) \<Rightarrow> if width > 0 \<and> height > 0 then (width, height) else (80, 24)
           | Inl _ \<Rightarrow> (80, 24))
     else (80, 24))"

definition buildStartRequest :: "local_world \<Rightarrow> ConnectArgs \<Rightarrow> (goerr, StartRequest \<times> bool) result" where
  "buildStartRequest w args =
    (let kind = (if ca_Command args = [] then StartShell else StartExec);
         command = (if ca_Command args = [] then [] else Join '' '' (ca_Command args))
     in case requestedEnvironment w [] (ca_Environment args) of
          Inl e \<Rightarrow> Inl e
        | Inr environment \<Rightarrow>
            (let usePTY = (ca_ForcePTY args
                   \<or> (\<not> ca_DisablePTY args \<and> ca_Command args = [] \<and> lw_terminal w));
                 (width, height) = terminal_size w;
                 terminal0 = TrimSpace (env_value w ''TERM'');
                 pty = (if usePTY
                        then Some \<lparr>cpty_Terminal = (if terminal0 = [] then ''xterm-256color'' else terminal0),
                                   cpty_Rows = word_of_int height, cpty_Columns = word_of_int width\<rparr>
                        else None)
             in Inr (\<lparr>sr_Kind = kind, sr_Command = command, sr_PTY = pty, sr_Environment = environment\<rparr>,
                     lw_terminal w)))"

section \<open>The frame connection of a channel\<close>

text \<open>
  The adapter forwards each call to the channel; \<open>None\<close> is a nil connection or channel.  \<open>send\<close>,
  \<open>recv\<close> and the size are the channel's.
\<close>

record 'c frame_channel =
  fc_send :: "bytes \<Rightarrow> 'c \<Rightarrow> goerr option \<times> 'c"
  fc_recv :: "'c \<Rightarrow> (goerr, bytes) result \<times> 'c"
  fc_maxSend :: int
  fc_close :: "'c \<Rightarrow> goerr option \<times> 'c"

definition Conn_SendFrame :: "'c frame_channel option \<Rightarrow> bytes \<Rightarrow> 'c \<Rightarrow> goerr option \<times> 'c" where
  "Conn_SendFrame conn frame s =
    (case conn of None \<Rightarrow> (Some (EErr ''command channel connection is required''), s) | Some ch \<Rightarrow> fc_send ch frame s)"

definition Conn_ReceiveFrame :: "'c frame_channel option \<Rightarrow> 'c \<Rightarrow> (goerr, bytes) result \<times> 'c" where
  "Conn_ReceiveFrame conn s =
    (case conn of None \<Rightarrow> (Inl (EErr ''command channel connection is required''), s) | Some ch \<Rightarrow> fc_recv ch s)"

definition Conn_MaxSendFrameSize :: "'c frame_channel option \<Rightarrow> int" where
  "Conn_MaxSendFrameSize conn = (case conn of None \<Rightarrow> 0 | Some ch \<Rightarrow> fc_maxSend ch)"

definition Conn_Close :: "'c frame_channel option \<Rightarrow> 'c \<Rightarrow> goerr option \<times> 'c" where
  "Conn_Close conn s = (case conn of None \<Rightarrow> (None, s) | Some ch \<Rightarrow> fc_close ch s)"

section \<open>Forwarding standard input\<close>

datatype input_error = InEOF | InEIO | InClosed | InCanceled | InEINTR | InDeadline | InEPIPE | InOther goerr

datatype client_call = CallWrite bytes | CallCloseStdin

datatype forwarded = StillReading | Forwarded "goerr option"

text \<open>
  The loop over what the poll reader returns.  \<open>answer\<close> is what \<open>writeStdin\<close> and \<open>closeStdin\<close> return and
  \<open>quiet\<close> whether an error is a cancellation or a closed file.  The result are the calls made and
  what the loop returns.
\<close>

fun forwardInput ::
    "(client_call \<Rightarrow> goerr option) \<Rightarrow> (goerr \<Rightarrow> bool) \<Rightarrow> (bytes \<times> input_error option) list
      \<Rightarrow> client_call list \<times> forwarded" where
  "forwardInput answer quiet [] = ([], StillReading)"
| "forwardInput answer quiet ((data, err) # reads) =
    (case (if data \<noteq> [] then answer (CallWrite data) else None) of
       Some e \<Rightarrow> ([CallWrite data], Forwarded (Some e))
     | None \<Rightarrow>
    (let written = (if data \<noteq> [] then [CallWrite data] else []);
         continue = (let (calls, r) = forwardInput answer quiet reads in (written @ calls, r));
         close = (written @ [CallCloseStdin],
                  Forwarded (case answer CallCloseStdin of
                               None \<Rightarrow> None | Some e \<Rightarrow> if quiet e then None else Some e))
     in case err of
          None \<Rightarrow> continue
        | Some InEOF \<Rightarrow> close
        | Some InEIO \<Rightarrow> close
        | Some InClosed \<Rightarrow> (written, Forwarded None)
        | Some InCanceled \<Rightarrow> (written, Forwarded None)
        | Some InEINTR \<Rightarrow> continue
        | Some InDeadline \<Rightarrow> (written, Forwarded (Some EDeadline))
        | Some InEPIPE \<Rightarrow> (written, Forwarded None)
        | Some (InOther e) \<Rightarrow> (written, Forwarded (Some e))))"

definition startKindName :: "StartKind \<Rightarrow> string" where
  "startKindName kind = (case kind of StartShell \<Rightarrow> ''shell'' | StartExec \<Rightarrow> ''exec'' | StartOther _ \<Rightarrow> ''unknown'')"

section \<open>Targets survive printing\<close>

lemma splitConnectHostPort_Join:
  assumes "host \<noteq> []" "port \<noteq> []" "no_brackets host" "no_brackets port" "colon \<notin> set port"
  shows "splitConnectHostPort (JoinHostPort host port) = Inr (host, port)"
proof (cases "colon \<in> set host")
  case True
  have "IndexByte rbracket ((lbracket # host) @ rbracket # (colon # port)) = Some (length (lbracket # host))"
    by (rule IndexByte_append) (use assms(3) in \<open>simp add: no_brackets_def\<close>)
  then show ?thesis
    using True assms(1,2)
    by (simp add: splitConnectHostPort_def JoinHostPort_def HasPrefix_def Let_def del: IndexByte.simps)
next
  case False
  have "\<not> HasPrefix (host @ colon # port) [lbracket]"
    using assms(1,3) by (cases host) (auto simp: HasPrefix_def no_brackets_def)
  then show ?thesis
    using False assms SplitHostPort_plain [OF assms(3,4) False assms(5)]
    by (simp add: splitConnectHostPort_def JoinHostPort_def Let_def)
qed

text \<open>
  The address of a target can be given back to the client.  For a host and port without brackets,
  \<open>@\<close> or surrounding space, and any user name, the target \<open>user@address\<close>, where the address is the
  one dialled, parses to the same user, host and port, so the same server is dialled and the same
  name is looked up in the known hosts, also for hosts that contain colons.
\<close>

theorem target_round_trip:
  assumes "ct_host t \<noteq> []" "no_brackets (ct_host t)" "CHR ''@'' \<notin> set (ct_host t)"
    and "ct_port t \<noteq> []" "no_brackets (ct_port t)" "colon \<notin> set (ct_port t)" "CHR ''@'' \<notin> set (ct_port t)"
    and "ct_username t \<noteq> []"
    and "TrimSpace (ct_username t @ ''@'' @ dialAddress defaultPort t)
      = ct_username t @ ''@'' @ dialAddress defaultPort t"
  shows "parseConnectTarget (ct_username t @ ''@'' @ dialAddress defaultPort t) = Inr t"
proof -
  let ?a = "JoinHostPort (ct_host t) (ct_port t)"
  have a: "dialAddress defaultPort t = ?a" using assms(4) by (simp add: dialAddress_def)
  have ne: "?a \<noteq> []" and at: "CHR ''@'' \<notin> set ?a"
    using assms(1,3,7)
    by (auto simp: JoinHostPort_def colon_def lbracket_def rbracket_def)
  have l: "LastIndexByte (CHR ''@'') (ct_username t @ CHR ''@'' # ?a) = Some (length (ct_username t))"
    by (rule LastIndexByte_append [OF at])
  show ?thesis
    using assms(8,9) l ne splitConnectHostPort_Join [OF assms(1,4,2,5,6)]
    by (simp add: parseConnectTarget_def a Let_def)
qed

definition example_target :: connectTarget where
  "example_target = \<lparr>ct_username = ''ann'', ct_host = ''fe80::1'', ct_port = ''2022''\<rparr>"

theorem target_round_trip_witness:
  "dialAddress 42022 example_target = ''[fe80::1]:2022''
   \<and> parseConnectTarget (''ann@'' @ dialAddress 42022 example_target) = Inr example_target"
proof -
  have d: "dialAddress 42022 example_target = ''[fe80::1]:2022''" by code_simp
  have t: "TrimSpace ''ann@[fe80::1]:2022'' = ''ann@[fe80::1]:2022''" by code_simp
  have "parseConnectTarget (ct_username example_target @ ''@'' @ dialAddress 42022 example_target) = Inr example_target"
    by (rule target_round_trip)
      (use t d in \<open>simp_all add: example_target_def no_brackets_def colon_def lbracket_def rbracket_def\<close>)
  then show ?thesis using d by (simp add: example_target_def)
qed

section \<open>The server understands the client's request\<close>

lemma requestedEnvironment_ok:
  "requestedEnvironment w environment options = Inr r
    \<Longrightarrow> distinct (map fst environment)
    \<Longrightarrow> list_all (\<lambda>(k, v). \<not> ContainsAny k [CHR ''='', NUL] \<and> \<not> ContainsNUL v) environment
    \<Longrightarrow> distinct (map fst r) \<and> list_all (\<lambda>(k, v). \<not> ContainsAny k [CHR ''='', NUL] \<and> \<not> ContainsNUL v) r"
proof (induction w environment options rule: requestedEnvironment.induct)
  case (2 w environment option options)
  obtain name0 value0 explicit where c: "Cut (CHR ''='') option = (name0, value0, explicit)"
    by (metis prod_cases3)
  let ?name = "TrimSpace name0"
  let ?v = "if explicit then Some value0 else lw_env w ?name"
  obtain v where v: "?v = Some v" "?name \<noteq> []" "\<not> ContainsAny ?name [CHR ''='', NUL]" "\<not> ContainsNUL v"
      "?name \<notin> fst ` set environment" "requestedEnvironment w (environment @ [(?name, v)]) options = Inr r"
    using 2(2) c by (auto simp: Let_def split: if_splits option.splits)
  show ?case
    by (rule 2(1) [OF c [symmetric] refl refl refl _ v(1) _ v(5) v(6)]) (use v 2(3,4) in auto)
qed simp

lemma buildStartRequest_sendable:
  assumes "buildStartRequest w args = Inr (request, lt)"
  shows "sendable request"
  using assms requestedEnvironment_ok [of w "[]" "ca_Environment args"]
  by (auto simp: buildStartRequest_def sendable_def Let_def split: sum.splits prod.splits)


definition example_args :: ConnectArgs where
  "example_args =
    \<lparr>ca_Target = ''localhost'', ca_Command = [''ls''], ca_ForcePTY = False, ca_DisablePTY = False,
     ca_Environment = ['' TERM'', ''LANG=C'']\<rparr>"

definition example_local :: local_world where
  "example_local =
    \<lparr>lw_env = (\<lambda>n. if n = ''TERM'' then Some ''xterm'' else None), lw_terminal = False, lw_size = Inl EIoEOF\<rparr>"


text \<open>
  A resize to a size with no rows is not a frame of the protocol: \<open>resize\<close> returns an error, and \<open>Run\<close>
  cancels the command for it.
\<close>

lemma empty_resize_fails:
  "c_state c = clientRunning \<Longrightarrow> c_hasPTY c \<Longrightarrow> ws_Rows sz = 0 \<Longrightarrow> \<exists>e. resize_begin enc maximum sz c = Inl (PlainError e)"
  by (auto simp: resize_begin_def EncodeClientWindowChange_def marshalMessage_def valid_dimension_def split: sum.splits)

section \<open>Input is forwarded in order\<close>

lemma forwardInput_prefix:
  assumes "forwardInput answer quiet reads = (calls, r)"
  shows "prefix (concat (map (\<lambda>c. case c of CallWrite d \<Rightarrow> d | CallCloseStdin \<Rightarrow> []) calls)) (concat (map fst reads))
    \<and> CallCloseStdin \<notin> set (butlast calls)"
  using assms
proof (induction answer quiet reads arbitrary: calls r rule: forwardInput.induct)
  case (2 answer quiet data err reads)
  show ?case
  proof (cases "if data \<noteq> [] then answer (CallWrite data) else None")
    case (Some e)
    then show ?thesis using 2(2) by (auto split: if_splits)
  next
    case None
    obtain calls' r' where f: "forwardInput answer quiet reads = (calls', r')" by fastforce
    note ih = 2(1) [OF None refl f]
    show ?thesis using 2(2) None f ih
      by (auto simp: Let_def butlast_append split: option.splits input_error.splits if_splits)
  qed
qed simp

end
