(* ===== verification/Transport.thy ===== *)
theory Transport
  imports Bincoder Go_Strings
begin

text \<open>
  The encrypted transport (\<open>lib/transport\<close>): chunks on the socket, frames under the two cipher states,
  and the handshake.  The Noise library is a parameter: cipher states and handshake states are
  abstract, with the calls the code makes.
\<close>

section \<open>Chunks\<close>

definition MaxPayloadSize :: nat where
  "MaxPayloadSize = 32 * 1024"

primrec io_goerr :: "io_error \<Rightarrow> goerr" where
  "io_goerr EOF = EIoEOF"
| "io_goerr ErrUnexpectedEOF = EErr ''unexpected EOF''"
| "io_goerr ErrShortWrite = EErr ''short write''"
| "io_goerr (InvalidBoolByte b) = EErr ''invalid bool byte''"
| "io_goerr (LengthExceedsMaximum n m) = EErr ''length exceeds maximum''"
| "io_goerr (ChunkTooLarge n) = EErr ''chunk too large''"
| "io_goerr (StreamError n) = EExternal n"

definition sendChunk :: "'w write_method \<Rightarrow> 'w \<Rightarrow> bytes \<Rightarrow> goerr option \<times> 'w" where
  "sendChunk Write conn payload =
    (if length payload > MaxPayloadSize then (Some (EErr ''wire: payload too large''), conn)
     else case WriteBytes Write conn payload of
       (None, conn1) \<Rightarrow> (None, conn1)
     | (Some e, conn1) \<Rightarrow> (Some (EWrap ''send frame'' (io_goerr e)), conn1))"

definition recvChunk :: "reader \<Rightarrow> (goerr, bytes) result \<times> reader" where
  "recvChunk conn =
    (case ReadBytes conn (int MaxPayloadSize) of
       (b, None, conn1) \<Rightarrow> (Inr b, conn1)
     | (_, Some e, conn1) \<Rightarrow> (Inl (io_goerr e), conn1))"

section \<open>Frames\<close>

text \<open>The \<open>Encrypt\<close> and \<open>Decrypt\<close> methods of a cipher state, which advance it.\<close>

record 'k cipher =
  ci_Encrypt :: "'k \<Rightarrow> bytes \<Rightarrow> (goerr, bytes) result \<times> 'k"
  ci_Decrypt :: "'k \<Rightarrow> bytes \<Rightarrow> (goerr, bytes) result \<times> 'k"

record ('k, 'w) transport =
  tr_out :: 'w
  tr_in :: reader
  tr_tx :: 'k
  tr_rx :: 'k
  tr_channelBinding :: bytes

definition SendFrame ::
    "'k cipher \<Rightarrow> 'w write_method \<Rightarrow> bytes \<Rightarrow> ('k, 'w) transport \<Rightarrow> goerr option \<times> ('k, 'w) transport" where
  "SendFrame ci Write p t =
    (case ci_Encrypt ci (tr_tx t) p of
       (Inl e, k) \<Rightarrow> (Some (EWrap ''failed to encrypt frame'' e), t\<lparr>tr_tx := k\<rparr>)
     | (Inr frame, k) \<Rightarrow>
         (case sendChunk Write (tr_out t) frame of
            (None, out) \<Rightarrow> (None, t\<lparr>tr_tx := k, tr_out := out\<rparr>)
          | (Some e, out) \<Rightarrow> (Some (EWrap ''failed to send frame'' e), t\<lparr>tr_tx := k, tr_out := out\<rparr>)))"

definition ReceiveFrame ::
    "'k cipher \<Rightarrow> ('k, 'w) transport \<Rightarrow> (goerr, bytes) result \<times> ('k, 'w) transport" where
  "ReceiveFrame ci t =
    (case recvChunk (tr_in t) of
       (Inl e, r) \<Rightarrow> (Inl (EWrap ''failed to receive frame'' e), t\<lparr>tr_in := r\<rparr>)
     | (Inr frame, r) \<Rightarrow>
         (case ci_Decrypt ci (tr_rx t) frame of (p, k) \<Rightarrow> (p, t\<lparr>tr_in := r, tr_rx := k\<rparr>)))"

definition ChannelBinding :: "('k, 'w) transport \<Rightarrow> bytes" where
  "ChannelBinding t = tr_channelBinding t"

section \<open>Handshake\<close>

definition MYGOSH_NOISE_MAGIC :: string where "MYGOSH_NOISE_MAGIC = ''mygosh''"
definition MYGOSH_NOISE_VERSION :: string where "MYGOSH_NOISE_VERSION = ''v0''"
definition MYGOSH_NOISE_PATTERN :: string where "MYGOSH_NOISE_PATTERN = ''Noise_NN''"

record noise_config =
  nc_Prologue :: bytes
  nc_Initiator :: bool

text \<open>\<open>suite\<close> is the name of the cipher suite; the pattern is always NN.\<close>

definition createConfig :: "bytes \<Rightarrow> bool \<Rightarrow> noise_config" where
  "createConfig suite initiator =
    \<lparr>nc_Prologue = bytes_of MYGOSH_NOISE_MAGIC @ bytes_of '' '' @ bytes_of MYGOSH_NOISE_VERSION @ bytes_of '' ''
        @ bytes_of MYGOSH_NOISE_PATTERN @ bytes_of '' '' @ suite,
     nc_Initiator = initiator\<rparr>"

text \<open>
  A handshake state: writing gives a message and reading takes one; either may also give the two
  cipher states, the first for messages of the initiator.
\<close>

record ('s, 'k) noise =
  ns_New :: "noise_config \<Rightarrow> (goerr, 's) result"
  ns_Write :: "'s \<Rightarrow> (goerr, bytes \<times> 'k option \<times> 'k option) result \<times> 's"
  ns_Read :: "'s \<Rightarrow> bytes \<Rightarrow> (goerr, 'k option \<times> 'k option) result \<times> 's"
  ns_Binding :: "'s \<Rightarrow> bytes"

definition setCipherStates ::
    "'k \<Rightarrow> 'k \<Rightarrow> bool \<Rightarrow> 'w \<Rightarrow> reader \<Rightarrow> bytes \<Rightarrow> ('k, 'w) transport" where
  "setCipherStates first second initiator out inp binding =
    (if initiator
     then \<lparr>tr_out = out, tr_in = inp, tr_tx = first, tr_rx = second, tr_channelBinding = binding\<rparr>
     else \<lparr>tr_out = out, tr_in = inp, tr_tx = second, tr_rx = first, tr_channelBinding = binding\<rparr>)"

text \<open>The loop over the messages, which nothing but the Noise library ends.\<close>

partial_function (option) handshake_loop ::
    "('s, 'k) noise \<Rightarrow> 'w write_method \<Rightarrow> bool \<Rightarrow> bool \<Rightarrow> 's \<Rightarrow> 'w \<Rightarrow> reader \<Rightarrow> (goerr, ('k, 'w) transport) result option" where
  "handshake_loop ns Write initiator writes state out inp =
    (if writes then
       (case ns_Write ns state of
          (Inl e, _) \<Rightarrow> Some (Inl (EWrap ''Handshake error'' e))
        | (Inr (msg, first, second), state1) \<Rightarrow>
       (case sendChunk Write out msg of
          (Some e, _) \<Rightarrow> Some (Inl (EWrap ''failed to send handshake message'' e))
        | (None, out1) \<Rightarrow>
       (case (first, second) of
          (Some k1, Some k2) \<Rightarrow> Some (Inr (setCipherStates k1 k2 initiator out1 inp (ns_Binding ns state1)))
        | _ \<Rightarrow> handshake_loop ns Write initiator False state1 out1 inp)))
     else
       (case recvChunk inp of
          (Inl e, _) \<Rightarrow> Some (Inl (EWrap ''failed to receive handshake message'' e))
        | (Inr wireMsg, inp1) \<Rightarrow>
       (case ns_Read ns state wireMsg of
          (Inl e, _) \<Rightarrow> Some (Inl (EWrap ''Handshake error'' e))
        | (Inr (first, second), state1) \<Rightarrow>
       (case (first, second) of
          (Some k1, Some k2) \<Rightarrow> Some (Inr (setCipherStates k1 k2 initiator out inp1 (ns_Binding ns state1)))
        | _ \<Rightarrow> handshake_loop ns Write initiator True state1 out inp1))))"

definition handshake ::
    "('s, 'k) noise \<Rightarrow> 'w write_method \<Rightarrow> noise_config \<Rightarrow> 'w \<Rightarrow> reader \<Rightarrow> (goerr, ('k, 'w) transport) result option" where
  "handshake ns Write config out inp =
    (case ns_New ns config of
       Inl e \<Rightarrow> Some (Inl (EWrap ''Failed to create noise handshake state'' e))
     | Inr state \<Rightarrow>
    (case handshake_loop ns Write (nc_Initiator config) (nc_Initiator config) state out inp of
       None \<Rightarrow> None
     | Some (Inl e) \<Rightarrow> Some (Inl e)
     | Some (Inr t) \<Rightarrow>
         if tr_channelBinding t = [] then Some (Inl (EErr ''noise handshake did not yield a channel binding''))
         else Some (Inr t)))"

definition HandshakeClient :: "('s, 'k) noise \<Rightarrow> 'w write_method \<Rightarrow> bytes \<Rightarrow> 'w \<Rightarrow> reader \<Rightarrow> (goerr, ('k, 'w) transport) result option" where
  "HandshakeClient ns Write suite = handshake ns Write (createConfig suite True)"

definition HandshakeServer :: "('s, 'k) noise \<Rightarrow> 'w write_method \<Rightarrow> bytes \<Rightarrow> 'w \<Rightarrow> reader \<Rightarrow> (goerr, ('k, 'w) transport) result option" where
  "HandshakeServer ns Write suite = handshake ns Write (createConfig suite False)"

section \<open>Frames are delivered in order\<close>

text \<open>
  What the Noise library promises of a sending and a receiving state that belong together: a frame
  grows by a tag of 16 bytes, the peer decrypts it to the same bytes and both move on; a refused
  encryption leaves the state as it is.
\<close>

definition cipher_pair :: "'k cipher \<Rightarrow> ('k \<Rightarrow> 'k \<Rightarrow> bool) \<Rightarrow> bool" where
  "cipher_pair ci paired \<longleftrightarrow>
    (\<forall>a b p. paired a b \<longrightarrow>
      (case ci_Encrypt ci a p of
         (Inl e, a') \<Rightarrow> a' = a
       | (Inr c, a') \<Rightarrow> length c = length p + 16 \<and> (\<exists>b'. ci_Decrypt ci b c = (Inr p, b') \<and> paired a' b')))"

text \<open>
  Two ends of one direction: what the sender appends to its side of the socket appears at the
  receiver's side.  The actions are the sending of a frame and the receipt of one.
\<close>

datatype link_action = LSend bytes | LReceive

datatype link_event = LSent bytes "goerr option" | LReceived "(goerr, bytes) result"

fun link_step ::
    "'k cipher \<Rightarrow> link_action \<Rightarrow> ('k, bytes) transport \<times> ('k, bytes) transport
      \<Rightarrow> link_event \<times> ('k, bytes) transport \<times> ('k, bytes) transport" where
  "link_step ci (LSend p) (s, r) =
    (case SendFrame ci Buffer_Write p s of
       (e, s1) \<Rightarrow> (LSent p e, s1, r\<lparr>tr_in := (tr_in r)\<lparr>rd_data := rd_data (tr_in r)
           @ drop (length (tr_out s)) (tr_out s1)\<rparr>\<rparr>))"
| "link_step ci LReceive (s, r) = (case ReceiveFrame ci r of (x, r1) \<Rightarrow> (LReceived x, s, r1))"

fun link_run ::
    "'k cipher \<Rightarrow> link_action list \<Rightarrow> ('k, bytes) transport \<times> ('k, bytes) transport \<Rightarrow> link_event list" where
  "link_run ci [] sys = []"
| "link_run ci (a # as) sys = (case link_step ci a sys of (e, sys1) \<Rightarrow> e # link_run ci as sys1)"

text \<open>
  The specification: a queue of frames.  A frame that was sent without error joins it; a receipt
  takes the frame at its head.  A receipt from an empty queue would wait, so it is not an action of
  the specification.
\<close>

fun fifo_accepts :: "bytes list \<Rightarrow> link_event list \<Rightarrow> bool" where
  "fifo_accepts q [] = True"
| "fifo_accepts q (LSent p e # es) = fifo_accepts (if e = None then q @ [p] else q) es"
| "fifo_accepts q (LReceived x # es) = (case q of [] \<Rightarrow> False | p # q1 \<Rightarrow> x = Inr p \<and> fifo_accepts q1 es)"

text \<open>Frames that fit a chunk, and receipts never ahead of the sends that succeeded.\<close>

fun admissible :: "nat \<Rightarrow> link_action list \<Rightarrow> link_event list \<Rightarrow> bool" where
  "admissible n [] es = True"
| "admissible n (LSend p # as) es =
    (length p + 16 \<le> MaxPayloadSize \<and> (case es of LSent _ e # es1 \<Rightarrow> admissible (if e = None then Suc n else n) as es1 | _ \<Rightarrow> False))"
| "admissible n (LReceive # as) es = (n > 0 \<and> (case es of LReceived _ # es1 \<Rightarrow> admissible (n - 1) as es1 | _ \<Rightarrow> False))"

text \<open>The relation of a pair of ends to the queue of frames on their way.\<close>

inductive carries :: "'k cipher \<Rightarrow> ('k \<Rightarrow> 'k \<Rightarrow> bool) \<Rightarrow> 'k \<Rightarrow> bytes \<Rightarrow> bytes list \<Rightarrow> 'k \<Rightarrow> bool" for ci paired where
  carries_none: "paired a b \<Longrightarrow> carries ci paired b [] [] a"
| carries_frame: "ci_Decrypt ci b c = (Inr p, b') \<Longrightarrow> length c \<le> MaxPayloadSize \<Longrightarrow> carries ci paired b' bs q a
    \<Longrightarrow> carries ci paired b (enc_Bytes c @ bs) (p # q) a"

lemma cipher_pair_case:
  assumes "cipher_pair ci paired" "paired a b"
  shows "case ci_Encrypt ci a p of (Inl e, a') \<Rightarrow> a' = a
    | (Inr c, a') \<Rightarrow> length c = length p + 16 \<and> (\<exists>b'. ci_Decrypt ci b c = (Inr p, b') \<and> paired a' b')"
  by (rule assms(1) [unfolded cipher_pair_def, rule_format, OF assms(2)])

lemma carries_send:
  assumes "carries ci paired b bs q a" "cipher_pair ci paired" "ci_Encrypt ci a p = (Inr c, a')"
    and "length p + 16 \<le> MaxPayloadSize"
  shows "carries ci paired b (bs @ enc_Bytes c) (q @ [p]) a'"
  using assms(1,3)
proof (induction rule: carries.induct)
  case (carries_none a b)
  then obtain b' where "ci_Decrypt ci b c = (Inr p, b')" "paired a' b'" "length c = length p + 16"
    using cipher_pair_case [OF assms(2), of a b p] by auto
  then show ?case using carries.carries_frame [of ci b c p b' paired "[]" "[]" a'] assms(4) by (simp add: carries.carries_none)
next
  case (carries_frame b c p b' bs q a)
  then show ?case by (auto intro: carries.carries_frame)
qed

lemma carries_pair:
  assumes "carries ci paired b bs q a"
  shows "\<exists>b'. paired a b'"
  using assms by (induction rule: carries.induct) auto

lemma sendChunk_ok:
  assumes "length c \<le> MaxPayloadSize"
  shows "sendChunk Buffer_Write w c = (None, w @ enc_Bytes c)"
  using assms by (simp add: sendChunk_def WriteBytes_def WriteU32_def enc_Bytes_def MaxPayloadSize_def)

lemma recvChunk_back:
  assumes "rd_data r = enc_Bytes c @ bs" "length c \<le> MaxPayloadSize"
  shows "recvChunk r = (Inr c, r\<lparr>rd_data := bs\<rparr>)"
  using ReadBytes_back [OF assms(1), of "int MaxPayloadSize"] assms(2)
  by (simp add: recvChunk_def MaxPayloadSize_def)

lemma link_receive:
  assumes "carries ci paired (tr_rx r) (rd_data (tr_in r)) (p # q) a"
  shows "\<exists>r1. ReceiveFrame ci r = (Inr p, r1) \<and> carries ci paired (tr_rx r1) (rd_data (tr_in r1)) q a"
  using assms
proof (cases rule: carries.cases)
  case (carries_frame c b' bs)
  then show ?thesis by (simp add: ReceiveFrame_def recvChunk_back [OF carries_frame(1)])
qed

lemma link_send:
  assumes "carries ci paired b bs q (tr_tx s)" "cipher_pair ci paired" "length p + 16 \<le> MaxPayloadSize"
    and "SendFrame ci Buffer_Write p s = (e, s1)"
  shows "carries ci paired b (bs @ drop (length (tr_out s)) (tr_out s1)) (if e = None then q @ [p] else q) (tr_tx s1)"
proof -
  obtain b' where pair: "paired (tr_tx s) b'" using carries_pair [OF assms(1)] by blast
  obtain x k where enc: "ci_Encrypt ci (tr_tx s) p = (x, k)" by (cases "ci_Encrypt ci (tr_tx s) p")
  show ?thesis
  proof (cases x)
    case (Inl err)
    then have "k = tr_tx s" using enc cipher_pair_case [OF assms(2) pair, of p] by simp
    then show ?thesis using assms(1,4) enc Inl by (auto simp: SendFrame_def)
  next
    case (Inr c)
    then have "length c = length p + 16" using enc cipher_pair_case [OF assms(2) pair, of p] by simp
    then have "sendChunk Buffer_Write (tr_out s) c = (None, tr_out s @ enc_Bytes c)"
      using assms(3) by (simp add: sendChunk_ok)
    then have "e = None" "s1 = s\<lparr>tr_tx := k, tr_out := tr_out s @ enc_Bytes c\<rparr>"
      using assms(4) enc Inr by (auto simp: SendFrame_def)
    then show ?thesis using carries_send [OF assms(1,2) enc [unfolded Inr] assms(3)] by simp
  qed
qed

text \<open>
  C12: The transport is a queue of frames.  For two ends whose cipher states belong together, every
  interleaving of sends of frames that fit a chunk with receipts that do not run ahead is a run of
  a first-in-first-out queue: every frame sent without error is received once, unchanged and in order,
  and a send that was refused by the cipher leaves the stream intact.
\<close>

theorem transport_refines_queue:
  assumes "cipher_pair ci paired" and "carries ci paired (tr_rx r) (rd_data (tr_in r)) q (tr_tx s)"
    and "admissible (length q) as (link_run ci as (s, r))"
  shows "fifo_accepts q (link_run ci as (s, r))"
  using assms(2,3)
proof (induction as arbitrary: q s r)
  case Nil
  then show ?case by simp
next
  case (Cons a as)
  show ?case
  proof (cases a)
    case (LSend p)
    obtain e s1 where send: "SendFrame ci Buffer_Write p s = (e, s1)" by (cases "SendFrame ci Buffer_Write p s")
    have "length p + 16 \<le> MaxPayloadSize" using Cons.prems(2) LSend by simp
    from link_send [OF Cons.prems(1) assms(1) this send] Cons.IH Cons.prems(2)
    show ?thesis using send LSend by (auto split: if_splits)
  next
    case LReceive
    then obtain p q1 where q: "q = p # q1" using Cons.prems(2) by (cases q) auto
    from link_receive [OF Cons.prems(1) [unfolded q]] obtain r1 where
      "ReceiveFrame ci r = (Inr p, r1)" "carries ci paired (tr_rx r1) (rd_data (tr_in r1)) q1 (tr_tx s)"
      by blast
    then show ?thesis using Cons.IH Cons.prems(2) LReceive q by simp
  qed
qed

section \<open>A handshake connects\<close>

text \<open>
  What the Noise library promises of an NN handshake between two states of the same prologue: one
  message each way; after the second both sides have cipher states that belong together, crosswise,
  and the same channel binding.
\<close>

definition nn_exchange ::
    "('s, 'k) noise \<Rightarrow> bytes \<Rightarrow> ('k \<Rightarrow> 'k \<Rightarrow> bool) \<Rightarrow> bytes \<Rightarrow> bytes \<Rightarrow> bytes \<Rightarrow> bool" where
  "nn_exchange ns suite paired e1 e2 binding \<longleftrightarrow>
    (\<exists>i0 i1 i2 s0 s1 s2 ka kb kc kd.
      ns_New ns (createConfig suite True) = Inr i0 \<and> ns_New ns (createConfig suite False) = Inr s0
      \<and> ns_Write ns i0 = (Inr (e1, None, None), i1) \<and> ns_Read ns s0 e1 = (Inr (None, None), s1)
      \<and> ns_Write ns s1 = (Inr (e2, Some ka, Some kb), s2) \<and> ns_Read ns i1 e2 = (Inr (Some kc, Some kd), i2)
      \<and> paired kc ka \<and> paired kb kd \<and> ns_Binding ns i2 = binding \<and> ns_Binding ns s2 = binding \<and> binding \<noteq> []
      \<and> length e1 \<le> MaxPayloadSize \<and> length e2 \<le> MaxPayloadSize)"

text \<open>
  C13: A handshake connects the two sides.  When each side receives the other's message, both return,
  with the same channel binding, having written exactly their one message and read exactly the
  other's; and each side's sending state belongs with the other's receiving state, so both
  directions start as empty queues of frames.
\<close>

theorem handshake_connects:
  assumes "nn_exchange ns suite paired e1 e2 binding"
    and "rd_data inC = enc_Bytes e2 @ restC" and "rd_data inS = enc_Bytes e1 @ restS"
  shows "\<exists>c s. HandshakeClient ns Buffer_Write suite outC inC = Some (Inr c)
    \<and> HandshakeServer ns Buffer_Write suite outS inS = Some (Inr s)
    \<and> ChannelBinding c = binding \<and> ChannelBinding s = binding
    \<and> tr_out c = outC @ enc_Bytes e1 \<and> tr_out s = outS @ enc_Bytes e2
    \<and> rd_data (tr_in c) = restC \<and> rd_data (tr_in s) = restS
    \<and> carries ci paired (tr_rx s) [] [] (tr_tx c) \<and> carries ci paired (tr_rx c) [] [] (tr_tx s)"
proof -
  from assms(1) obtain i0 i1 i2 s0 s1 s2 ka kb kc kd where
    new: "ns_New ns (createConfig suite True) = Inr i0" "ns_New ns (createConfig suite False) = Inr s0"
    and msgs: "ns_Write ns i0 = (Inr (e1, None, None), i1)" "ns_Read ns s0 e1 = (Inr (None, None), s1)"
      "ns_Write ns s1 = (Inr (e2, Some ka, Some kb), s2)" "ns_Read ns i1 e2 = (Inr (Some kc, Some kd), i2)"
    and keys: "paired kc ka" "paired kb kd"
    and bind: "ns_Binding ns i2 = binding" "ns_Binding ns s2 = binding" "binding \<noteq> []"
    and len: "length e1 \<le> MaxPayloadSize" "length e2 \<le> MaxPayloadSize"
    unfolding nn_exchange_def by blast
  note io = sendChunk_ok [OF len(1)] sendChunk_ok [OF len(2)] recvChunk_back [OF assms(2) len(2)]
    recvChunk_back [OF assms(3) len(1)]
  have flag: "nc_Initiator (createConfig suite b) = b" for b by (simp add: createConfig_def)
  have "HandshakeClient ns Buffer_Write suite outC inC
      = Some (Inr (setCipherStates kc kd True (outC @ enc_Bytes e1) (inC\<lparr>rd_data := restC\<rparr>) binding))"
    using new msgs bind io
    by (simp add: HandshakeClient_def handshake_def flag handshake_loop.simps [of _ _ _ True]
        handshake_loop.simps [of _ _ _ False] setCipherStates_def)
  moreover have "HandshakeServer ns Buffer_Write suite outS inS
      = Some (Inr (setCipherStates ka kb False (outS @ enc_Bytes e2) (inS\<lparr>rd_data := restS\<rparr>) binding))"
    using new msgs bind io
    by (simp add: HandshakeServer_def handshake_def flag handshake_loop.simps [of _ _ _ True]
        handshake_loop.simps [of _ _ _ False] setCipherStates_def)
  ultimately show ?thesis using keys
    by (simp add: setCipherStates_def ChannelBinding_def carries.carries_none)
qed

section \<open>A concrete cipher and handshake\<close>

text \<open>A counter as cipher state, appended to the frame sixteen times.\<close>

definition example_cipher :: "nat cipher" where
  "example_cipher =
    \<lparr>ci_Encrypt = (\<lambda>k p. (Inr (p @ replicate 16 (of_nat k)), Suc k)),
     ci_Decrypt = (\<lambda>k c. if drop (length c - 16) c = replicate 16 (of_nat k)
        then (Inr (take (length c - 16) c), Suc k) else (Inl (EErr ''chacha20poly1305: message authentication failed''), k))\<rparr>"

definition example_link_end :: "nat \<Rightarrow> (nat, bytes) transport" where
  "example_link_end k = \<lparr>tr_out = [], tr_in = \<lparr>rd_data = [], rd_end = EOF\<rparr>, tr_tx = k, tr_rx = k, tr_channelBinding = [1]\<rparr>"

lemma example_cipher_pair: "cipher_pair example_cipher (=)"
  by (simp add: cipher_pair_def example_cipher_def)

definition example_noise :: "(nat, nat) noise" where
  "example_noise =
    \<lparr>ns_New = (\<lambda>c. Inr (if nc_Initiator c then 0 else 10)),
     ns_Write = (\<lambda>s. if s = 0 then (Inr ([1], None, None), 1) else (Inr ([2], Some 5, Some 6), 12)),
     ns_Read = (\<lambda>s m. if s = 10 \<and> m = [1] then (Inr (None, None), 11)
        else if s = 1 \<and> m = [2] then (Inr (Some 5, Some 6), 2) else (Inl (EErr ''noise''), s)),
     ns_Binding = (\<lambda>s. [7])\<rparr>"

lemma example_send:
  "length p + 16 \<le> MaxPayloadSize \<Longrightarrow> SendFrame example_cipher Buffer_Write p t
    = (None, t\<lparr>tr_tx := Suc (tr_tx t), tr_out := tr_out t @ enc_Bytes (p @ replicate 16 (of_nat (tr_tx t)))\<rparr>)"
  by (simp add: SendFrame_def example_cipher_def sendChunk_ok)

lemma example_receive:
  fixes t :: "(nat, bytes) transport"
  assumes "rd_data (tr_in t) = enc_Bytes (p @ replicate 16 (of_nat k)) @ bs" "length p + 16 \<le> MaxPayloadSize"
  shows "ReceiveFrame example_cipher t
    = (if of_nat k = (of_nat (tr_rx t) :: u8) then (Inr p, t\<lparr>tr_in := (tr_in t)\<lparr>rd_data := bs\<rparr>, tr_rx := Suc (tr_rx t)\<rparr>)
       else (Inl (EErr ''chacha20poly1305: message authentication failed''), t\<lparr>tr_in := (tr_in t)\<lparr>rd_data := bs\<rparr>\<rparr>))"
  using recvChunk_back [OF assms(1)] assms(2) by (simp add: ReceiveFrame_def example_cipher_def replicate_eq_replicate)

theorem transport_refines_queue_witness:
  "fifo_accepts [] (link_run example_cipher [LSend [1, 2], LSend [], LReceive, LReceive]
     (example_link_end 0, example_link_end 0))"
proof -
  let ?as = "[LSend [1, 2], LSend [], LReceive, LReceive]"
  have "carries example_cipher (=) (tr_rx (example_link_end 0)) (rd_data (tr_in (example_link_end 0))) [] (tr_tx (example_link_end 0))"
    by (simp add: example_link_end_def carries.carries_none)
  moreover have "admissible (length ([] :: bytes list)) ?as (link_run example_cipher ?as (example_link_end 0, example_link_end 0))"
    using example_receive [of _ "[1, 2]" 0 "enc_Bytes (replicate 16 1)"] example_receive [of _ "[]" "Suc 0" "[]"]
    by (simp add: example_send example_link_end_def MaxPayloadSize_def)
  ultimately show ?thesis by (rule transport_refines_queue [OF example_cipher_pair])
qed

theorem handshake_connects_witness:
  "\<exists>c s. HandshakeClient example_noise Buffer_Write [] [] \<lparr>rd_data = enc_Bytes [2], rd_end = EOF\<rparr> = Some (Inr c)
    \<and> HandshakeServer example_noise Buffer_Write [] [] \<lparr>rd_data = enc_Bytes [1], rd_end = EOF\<rparr> = Some (Inr s)
    \<and> ChannelBinding c = ChannelBinding s"
proof -
  have "nn_exchange example_noise [] (=) [1] [2] [7]"
    by (simp add: nn_exchange_def example_noise_def createConfig_def MaxPayloadSize_def)
  from handshake_connects [OF this, of "\<lparr>rd_data = enc_Bytes [2], rd_end = EOF\<rparr>" "[]"
      "\<lparr>rd_data = enc_Bytes [1], rd_end = EOF\<rparr>" "[]" "[]" "[]" example_cipher]
  show ?thesis by auto
qed

section \<open>Frames that are too large\<close>

text \<open>
  \<open>SendFrame\<close> encrypts before it checks the size.  A frame that is too large is refused, but the
  sending state has moved on: the next frame is sent without error and cannot be decrypted.
\<close>

lemma oversized_frame_advances:
  assumes "ci_Encrypt ci (tr_tx t) p = (Inr c, k)" "length c > MaxPayloadSize"
  shows "SendFrame ci Write p t
    = (Some (EWrap ''failed to send frame'' (EErr ''wire: payload too large'')), t\<lparr>tr_tx := k\<rparr>)"
  using assms by (simp add: SendFrame_def sendChunk_def)

lemma oversized_frame_breaks_stream:
  "link_run example_cipher [LSend (replicate MaxPayloadSize 0), LSend [1], LReceive] (example_link_end 0, example_link_end 0)
    = [LSent (replicate MaxPayloadSize 0) (Some (EWrap ''failed to send frame'' (EErr ''wire: payload too large''))),
       LSent [1] None, LReceived (Inl (EErr ''chacha20poly1305: message authentication failed''))]"
proof -
  have "ci_Encrypt example_cipher (tr_tx (example_link_end 0)) (replicate MaxPayloadSize 0)
      = (Inr (replicate MaxPayloadSize 0 @ replicate 16 0), 1)"
    by (simp add: example_cipher_def example_link_end_def)
  note first = oversized_frame_advances [OF this, of Buffer_Write]
  have "17 \<le> MaxPayloadSize" by (simp add: MaxPayloadSize_def)
  then show ?thesis using first example_receive [of _ "[1]" 1 "[]"] by (simp add: example_send example_link_end_def)
qed

end
