(* ===== verification/Command_Server.thy ===== *)
theory Command_Server
  imports Command
begin

text \<open>
  The server side of \<open>lib/command\<close>: accepting one start request, the loop that forwards input,
  the loops that copy output, and the supervision of the running process as a transition system.
  The process, the starter and the frame connection are interfaces of the package: their answers
  are arguments, and the calls made on them are recorded.
\<close>

section \<open>Starting\<close>

definition start_rejected :: ServerFrame where
  "start_rejected = SFStartResult False ''start-rejected'' ''command could not be started''"

definition start_accepted :: ServerFrame where
  "start_accepted = SFStartResult True [] []"

text \<open>
  How the first part of \<open>serve\<close> ends: it returns an error after sending at most a rejection, it
  terminates the process because the acceptance could not be sent, or the command runs.
\<close>

datatype 'p start_outcome =
    StartFailed "ServerFrame list" goerr
  | StartAborted 'p goerr
  | StartRunning 'p StartRequest

definition serve_start ::
    "(bytes \<Rightarrow> (goerr, ClientFrame) result) \<Rightarrow> (StartRequest \<Rightarrow> (goerr, 'p option) result)
      \<Rightarrow> (ServerFrame \<Rightarrow> goerr option) \<Rightarrow> (goerr, bytes) result \<Rightarrow> 'p start_outcome" where
  "serve_start dec starter send received =
    (case received of
       Inl e \<Rightarrow> StartFailed [] (EWrap ''receive command start'' e)
     | Inr frame \<Rightarrow>
    (case unmarshalMessage valid_ClientFrame dec frame of
       Inl e \<Rightarrow> StartFailed [start_rejected] (EErr ''invalid initial client frame'')
     | Inr first \<Rightarrow>
    (case first of
       CFStart start \<Rightarrow>
         (case decodeStart start of
            Inl e \<Rightarrow> StartFailed [start_rejected] (EErr ''invalid start request'')
          | Inr request \<Rightarrow>
         (case starter request of
            Inl e \<Rightarrow> StartFailed [start_rejected] (EWrap ''start command'' e)
          | Inr None \<Rightarrow> StartFailed [start_rejected] (EErr ''command starter returned no running process'')
          | Inr (Some process) \<Rightarrow>
         (case send start_accepted of
            Some e \<Rightarrow> StartAborted process (EWrap ''send command start acceptance'' e)
          | None \<Rightarrow> StartRunning process request)))
     | _ \<Rightarrow> StartFailed [start_rejected] (EErr ''first client frame must be start''))))"

section \<open>Input\<close>

text \<open>The calls on the process the input loop makes.\<close>

datatype input_call = WriteStdin bytes | CloseStdin | Resize WindowSize

text \<open>
  One message: the call to make and the new \<open>stdinEOF\<close>, or the error the loop returns.
\<close>

definition input_message :: "bool \<Rightarrow> bool \<Rightarrow> ClientFrame \<Rightarrow> (goerr, input_call \<times> bool) result" where
  "input_message hasPTY stdinEOF message =
    (case message of
       CFUnset \<Rightarrow> Inl (EErr ''unsupported client frame'')
     | CFStart _ \<Rightarrow> Inl (EErr ''duplicate start'')
     | CFStdin d \<Rightarrow> if stdinEOF then Inl (EErr ''stdin after EOF'') else Inr (WriteStdin d, stdinEOF)
     | CFStdinEof \<Rightarrow> if stdinEOF then Inl (EErr ''duplicate stdin EOF'') else Inr (CloseStdin, True)
     | CFWindowChange r c \<Rightarrow>
         if \<not> hasPTY then Inl (EErr ''window change requires PTY'')
         else Inr (Resize \<lparr>ws_Rows = r, ws_Columns = c\<rparr>, stdinEOF))"

definition call_error :: "input_call \<Rightarrow> goerr \<Rightarrow> goerr" where
  "call_error call e =
    (case call of
       WriteStdin _ \<Rightarrow> EWrap ''write process stdin'' e
     | CloseStdin \<Rightarrow> EWrap ''close process stdin'' e
     | Resize _ \<Rightarrow> EWrap ''resize process PTY'' e)"

text \<open>
  The loop over what \<open>ReceiveFrame\<close> returns: the calls made so far and the error it ended with,
  \<open>None\<close> while it still waits for the next frame.
\<close>

fun receiveInput ::
    "(bytes \<Rightarrow> (goerr, ClientFrame) result) \<Rightarrow> (input_call \<Rightarrow> goerr option) \<Rightarrow> bool \<Rightarrow> bool
      \<Rightarrow> (goerr, bytes) result list \<Rightarrow> input_call list \<times> goerr option" where
  "receiveInput dec process hasPTY stdinEOF [] = ([], None)"
| "receiveInput dec process hasPTY stdinEOF (Inl e # rest) = ([], Some e)"
| "receiveInput dec process hasPTY stdinEOF (Inr frame # rest) =
    (case unmarshalMessage valid_ClientFrame dec frame of
       Inl e \<Rightarrow> ([], Some (EErr ''invalid client frame''))
     | Inr message \<Rightarrow>
    (case input_message hasPTY stdinEOF message of
       Inl e \<Rightarrow> ([], Some e)
     | Inr (call, stdinEOF') \<Rightarrow>
    (case process call of
       Some e \<Rightarrow> ([call], Some (call_error call e))
     | None \<Rightarrow>
         (let (calls, err) = receiveInput dec process hasPTY stdinEOF' rest in (call # calls, err)))))"

section \<open>Output\<close>

fun send_frames :: "(bytes \<Rightarrow> goerr option) \<Rightarrow> bytes list \<Rightarrow> bytes list \<times> goerr option" where
  "send_frames send [] = ([], None)"
| "send_frames send (frame # frames) =
    (case send frame of
       Some e \<Rightarrow> ([frame], Some e)
     | None \<Rightarrow> (let (sent, err) = send_frames send frames in (frame # sent, err)))"

definition output_message :: "bool \<Rightarrow> bytes \<Rightarrow> ServerFrame" where
  "output_message stderr chunk = (if stderr then SFStderr chunk else SFStdout chunk)"

text \<open>
  The copy loop over what the reader returns, each read with its data and its error: the frames
  sent, and the error it reports on the channel; \<open>None\<close> outside means it is still reading.
\<close>

fun copyOutput ::
    "(ServerFrame \<Rightarrow> (goerr, bytes) result) \<Rightarrow> (bytes \<Rightarrow> goerr option) \<Rightarrow> int \<Rightarrow> bool
      \<Rightarrow> (bytes \<times> goerr option) list \<Rightarrow> bytes list \<times> goerr option option" where
  "copyOutput enc send maximum stderr [] = ([], None)"
| "copyOutput enc send maximum stderr ((data, err) # reads) =
    (case chunkedFrames (\<lambda>m chunk. marshalMessage valid_ServerFrame enc (output_message stderr chunk) m)
            data maximum of
       Inl e \<Rightarrow> ([], Some (Some e))
     | Inr frames \<Rightarrow>
    (case send_frames send frames of
       (sent, Some e) \<Rightarrow> (sent, Some (Some e))
     | (sent, None) \<Rightarrow>
    (case err of
       Some e \<Rightarrow> (sent, Some (if goerr_Is e EIoEOF then None else Some e))
     | None \<Rightarrow>
         (let (more, r) = copyOutput enc send maximum stderr reads in (sent @ more, r)))))"

section \<open>Supervision\<close>

datatype phase = Serving | Draining | Finished

text \<open>
  The state of \<open>serve\<close> once the command runs.  \<open>sv_terminated\<close> counts the calls of
  \<open>process.Terminate\<close>, \<open>sv_clean\<close> the outputs that ended without error, \<open>sv_sent\<close> is the exit
  result handed to \<open>sendExit\<close>; the rest are the variables of the source.
\<close>

record serving =
  sv_phase :: phase
  sv_failure :: "goerr option"
  sv_terminated :: nat
  sv_pending :: nat
  sv_clean :: nat
  sv_inputOpen :: bool
  sv_inputCanceled :: bool
  sv_outputCanceled :: bool
  sv_connDone :: "goerr option"
  sv_outputClosed :: bool
  sv_result :: ExitResult
  sv_sent :: "ExitResult option"

definition serving_init :: "bool \<Rightarrow> serving" where
  "serving_init hasStderr =
    \<lparr>sv_phase = Serving, sv_failure = None, sv_terminated = 0, sv_pending = (if hasStderr then 2 else 1),
     sv_clean = 0, sv_inputOpen = True, sv_inputCanceled = False, sv_outputCanceled = False,
     sv_connDone = None, sv_outputClosed = False, sv_result = no_exit, sv_sent = None\<rparr>"

definition ErrUnexpectedEOF :: goerr where
  "ErrUnexpectedEOF = EErr ''unexpected EOF''"

definition fail_serving :: "goerr option \<Rightarrow> serving \<Rightarrow> serving" where
  "fail_serving err s =
    (if sv_failure s = None
     then s\<lparr>sv_failure := Some (case err of None \<Rightarrow> ErrUnexpectedEOF | Some e \<Rightarrow> e),
            sv_terminated := sv_terminated s + 1\<rparr>
     else s)"

definition runtime_failure :: ExitResult where
  "runtime_failure = no_exit\<lparr>ex_RuntimeFailure := ''command terminated because of a protocol or runtime failure''\<rparr>"

text \<open>
  One step is one arm of a \<open>select\<close>, the end of the drain loop, or the connection's context
  ending.  A context derived from the connection's is done when the connection is.
\<close>

datatype serve_step =
    ConnectionDone goerr
  | InputEnded "goerr option"
  | OutputEnded "goerr option"
  | ProcessExited ExitResult
  | ConnectionSeen
  | DrainTimeout
  | SendExit

definition output_ended :: "goerr option \<Rightarrow> serving \<Rightarrow> serving" where
  "output_ended outputErr s =
    (let s1 = s\<lparr>sv_pending := sv_pending s - 1,
                sv_clean := sv_clean s + (if outputErr = None then 1 else 0)\<rparr>
     in case outputErr of
          None \<Rightarrow> s1
        | Some e \<Rightarrow>
            if \<not> sv_outputCanceled s \<and> sv_connDone s = None
            then fail_serving (Some (EWrap (if sv_phase s = Serving then ''forward command output''
                                            else ''drain command output'') e)) s1
            else s1)"

definition give_up_output :: "goerr \<Rightarrow> serving \<Rightarrow> serving" where
  "give_up_output e s =
    (fail_serving (Some e) s)\<lparr>sv_outputCanceled := True, sv_outputClosed := True, sv_pending := 0\<rparr>"

fun serve_exec :: "serve_step \<Rightarrow> serving \<Rightarrow> serving option" where
  "serve_exec (ConnectionDone e) s =
    (if sv_connDone s = None then Some (s\<lparr>sv_connDone := Some e\<rparr>) else None)"
| "serve_exec (InputEnded err) s =
    (if sv_phase s = Serving \<and> sv_inputOpen s
     then Some (let s1 = s\<lparr>sv_inputOpen := False\<rparr>
                in if \<not> sv_inputCanceled s \<and> sv_connDone s = None then fail_serving err s1 else s1)
     else None)"
| "serve_exec (OutputEnded outputErr) s =
    (if sv_phase s \<noteq> Finished \<and> sv_pending s > 0 then Some (output_ended outputErr s) else None)"
| "serve_exec (ProcessExited result) s =
    (if sv_phase s = Serving
     then Some (s\<lparr>sv_phase := Draining, sv_result := result, sv_inputCanceled := True\<rparr>)
     else None)"
| "serve_exec ConnectionSeen s =
    (case sv_connDone s of
       None \<Rightarrow> None
     | Some e \<Rightarrow>
         if sv_phase s = Serving then Some (fail_serving (Some e) s)
         else if sv_phase s = Draining \<and> sv_pending s > 0 then Some (give_up_output e s)
         else None)"
| "serve_exec DrainTimeout s =
    (if sv_phase s = Draining \<and> sv_pending s > 0 then Some (give_up_output EDeadline s) else None)"
| "serve_exec SendExit s =
    (if sv_phase s = Draining \<and> sv_pending s = 0
     then Some (s\<lparr>sv_phase := Finished,
                  sv_sent := Some (if sv_failure s \<noteq> None then runtime_failure else sv_result s)\<rparr>)
     else None)"

inductive serve_reachable :: "bool \<Rightarrow> serving \<Rightarrow> bool" for hasStderr where
  serve_init: "serve_reachable hasStderr (serving_init hasStderr)"
| serve_next: "serve_reachable hasStderr s \<Longrightarrow> serve_exec a s = Some s' \<Longrightarrow> serve_reachable hasStderr s'"

section \<open>Starting is all or nothing\<close>


section \<open>Input reaches the process in order\<close>

definition stdin_data :: "(bytes \<Rightarrow> (goerr, ClientFrame) result) \<Rightarrow> (goerr, bytes) result \<Rightarrow> bytes" where
  "stdin_data dec received =
    (case received of
       Inl _ \<Rightarrow> []
     | Inr frame \<Rightarrow>
    (case unmarshalMessage valid_ClientFrame dec frame of
       Inr (CFStdin d) \<Rightarrow> d
     | _ \<Rightarrow> []))"

definition written :: "input_call list \<Rightarrow> bytes" where
  "written calls = concat (map (\<lambda>c. case c of WriteStdin d \<Rightarrow> d | _ \<Rightarrow> []) calls)"

definition is_resize :: "input_call \<Rightarrow> bool" where
  "is_resize c = (case c of Resize _ \<Rightarrow> True | _ \<Rightarrow> False)"

text \<open>Calls in order: writes and resizes, then at most one close, then only resizes.\<close>

fun well_ordered :: "bool \<Rightarrow> input_call list \<Rightarrow> bool" where
  "well_ordered closed [] \<longleftrightarrow> True"
| "well_ordered closed (WriteStdin d # calls) \<longleftrightarrow> \<not> closed \<and> well_ordered closed calls"
| "well_ordered closed (CloseStdin # calls) \<longleftrightarrow> \<not> closed \<and> well_ordered True calls"
| "well_ordered closed (Resize w # calls) \<longleftrightarrow> well_ordered closed calls"

lemma receiveInput_sound:
  "receiveInput dec process hasPTY eof frames = (calls, err)
    \<Longrightarrow> well_ordered eof calls \<and> (hasPTY \<or> \<not> list_ex is_resize calls)
      \<and> prefix (written calls) (concat (map (stdin_data dec) frames))
      \<and> (err = None \<longrightarrow> written calls = concat (map (stdin_data dec) frames))"
proof (induction dec process hasPTY eof frames arbitrary: calls err rule: receiveInput.induct)
  case (3 dec process hasPTY eof frame rest)
  show ?case
  proof (cases "\<exists>m call eof'. unmarshalMessage valid_ClientFrame dec frame = Inr m
      \<and> input_message hasPTY eof m = Inr (call, eof')")
    case False
    then show ?thesis using 3(2) by (auto simp: written_def split: sum.splits)
  next
    case True
    then obtain m call eof' where m: "unmarshalMessage valid_ClientFrame dec frame = Inr m"
      and c: "input_message hasPTY eof m = Inr (call, eof')" by blast
    have now: "written [call] = stdin_data dec (Inr frame)" "hasPTY \<or> \<not> is_resize call"
      "well_ordered eof' cs \<Longrightarrow> well_ordered eof (call # cs)" for cs
      using m c
      by (auto simp: input_message_def written_def stdin_data_def is_resize_def
          split: ClientFrame.splits if_splits)
    show ?thesis
    proof (cases "process call")
      case None
      obtain cs where r: "receiveInput dec process hasPTY eof' rest = (cs, err)" and cs: "calls = call # cs"
        using 3(2) m c None by (auto split: prod.splits)
      note ih = 3(1) [OF m c refl None r]
      have w: "written calls = stdin_data dec (Inr frame) @ written cs"
        using now(1) cs by (simp add: written_def)
      show ?thesis using ih now cs w by auto
    next
      case (Some e)
      then have "calls = [call]" "err \<noteq> None" using 3(2) m c by auto
      then show ?thesis using now now(3) [of "[]"] by auto
    qed
  qed
qed (auto simp: written_def)

text \<open>
  C32: Standard input is delivered in order and nothing after its end.  Whatever frames arrive,
  what has been written to the process is a prefix of the data in the stdin frames, and all of it
  while the loop has not failed; after the close of standard input nothing is written and it is
  not closed again; a resize is only applied to a command with a terminal.
\<close>

theorem stdin_delivered_in_order:
  "let (calls, err) = receiveInput dec process hasPTY False frames
   in well_ordered False calls \<and> (hasPTY \<or> \<not> list_ex is_resize calls)
      \<and> prefix (written calls) (concat (map (stdin_data dec) frames))
      \<and> (err = None \<longrightarrow> written calls = concat (map (stdin_data dec) frames))"
  using receiveInput_sound [of dec process hasPTY False frames] by (auto split: prod.splits)

definition example_input_dec :: "bytes \<Rightarrow> (goerr, ClientFrame) result" where
  "example_input_dec b = Inr (if b = [0] then CFStdinEof else CFStdin b)"

theorem stdin_delivered_in_order_witness:
  "receiveInput example_input_dec (\<lambda>_. None) False False [Inr [5, 6], Inr [7], Inr [0]]
     = ([WriteStdin [5, 6], WriteStdin [7], CloseStdin], None)
   \<and> written [WriteStdin [5, 6], WriteStdin [7], CloseStdin]
     = concat (map (stdin_data example_input_dec) [Inr [5, 6], Inr [7], Inr [0]])"
proof -
  have r: "receiveInput example_input_dec (\<lambda>_. None) False False [Inr [5, 6], Inr [7], Inr [0]]
      = ([WriteStdin [5, 6], WriteStdin [7], CloseStdin], None)"
    by code_simp
  with stdin_delivered_in_order [of example_input_dec "\<lambda>_. None" False "[Inr [5, 6], Inr [7], Inr [0]]"]
  show ?thesis by simp
qed

section \<open>The outcome of a command\<close>

definition serving_inv :: "bool \<Rightarrow> serving \<Rightarrow> bool" where
  "serving_inv hasStderr s \<longleftrightarrow>
    sv_terminated s = of_bool (sv_failure s \<noteq> None)
    \<and> (sv_outputCanceled s \<longrightarrow> sv_failure s \<noteq> None)
    \<and> (sv_failure s = None \<and> sv_connDone s = None
        \<longrightarrow> sv_pending s + sv_clean s = (if hasStderr then 2 else 1))
    \<and> (sv_phase s = Finished \<longrightarrow> sv_pending s = 0)
    \<and> sv_sent s = (if sv_phase s = Finished
                   then Some (if sv_failure s \<noteq> None then runtime_failure else sv_result s) else None)"

lemma fail_serving_sel [simp]:
  "sv_phase (fail_serving e s) = sv_phase s" "sv_pending (fail_serving e s) = sv_pending s"
  "sv_clean (fail_serving e s) = sv_clean s" "sv_connDone (fail_serving e s) = sv_connDone s"
  "sv_result (fail_serving e s) = sv_result s" "sv_sent (fail_serving e s) = sv_sent s"
  "sv_outputCanceled (fail_serving e s) = sv_outputCanceled s"
  "sv_failure (fail_serving e s) \<noteq> None"
  "sv_terminated (fail_serving e s) = sv_terminated s + of_bool (sv_failure s = None)"
  by (auto simp: fail_serving_def)

lemma serving_inv_fail:
  "serving_inv b s \<Longrightarrow> sv_phase s \<noteq> Finished \<Longrightarrow> serving_inv b (fail_serving e s)"
  by (simp add: serving_inv_def)

lemma serving_inv_give_up:
  "serving_inv b s \<Longrightarrow> sv_phase s \<noteq> Finished \<Longrightarrow> serving_inv b (give_up_output e s)"
  by (simp add: serving_inv_def give_up_output_def)

lemma serving_inv_exec:
  assumes "serving_inv b s" and "serve_exec a s = Some s'"
  shows "serving_inv b s'"
proof (cases a)
  case (ConnectionDone e)
  then have "s' = s\<lparr>sv_connDone := Some e\<rparr>" using assms(2) by (simp split: if_splits)
  then show ?thesis using assms(1) by (simp add: serving_inv_def)
next
  case (InputEnded err)
  then have g: "sv_phase s = Serving"
    and s': "s' = s\<lparr>sv_inputOpen := False\<rparr> \<or> s' = fail_serving err (s\<lparr>sv_inputOpen := False\<rparr>)"
    using assms(2) by (auto simp: Let_def split: if_splits)
  have i: "serving_inv b (s\<lparr>sv_inputOpen := False\<rparr>)" using assms(1) by (simp add: serving_inv_def)
  show ?thesis using s' i serving_inv_fail [OF i] g by auto
next
  case (OutputEnded err)
  then have s': "s' = output_ended err s" and g: "sv_phase s \<noteq> Finished" "sv_pending s > 0"
    using assms(2) by (simp_all split: if_splits)
  let ?s1 = "s\<lparr>sv_pending := sv_pending s - 1, sv_clean := sv_clean s + (if err = None then 1 else 0)\<rparr>"
  show ?thesis
  proof (cases "err = None \<or> sv_outputCanceled s \<or> sv_connDone s \<noteq> None")
    case True
    then have "s' = ?s1" by (auto simp: s' output_ended_def Let_def split: option.splits)
    then show ?thesis using assms(1) g True by (auto simp: serving_inv_def)
  next
    case False
    then obtain x where "s' = fail_serving x ?s1" by (auto simp: s' output_ended_def Let_def)
    then show ?thesis using assms(1) g by (simp add: serving_inv_def)
  qed
next
  case (ProcessExited result)
  then have "s' = s\<lparr>sv_phase := Draining, sv_result := result, sv_inputCanceled := True\<rparr>" "sv_phase s = Serving"
    using assms(2) by (simp_all split: if_splits)
  then show ?thesis using assms(1) by (simp add: serving_inv_def)
next
  case ConnectionSeen
  then obtain e where "s' = fail_serving (Some e) s \<or> s' = give_up_output e s" "sv_phase s \<noteq> Finished"
    using assms(2) by (auto split: option.splits if_splits)
  then show ?thesis using assms(1) serving_inv_fail serving_inv_give_up by blast
next
  case DrainTimeout
  then have "s' = give_up_output EDeadline s" "sv_phase s \<noteq> Finished"
    using assms(2) by (simp_all split: if_splits)
  then show ?thesis using assms(1) serving_inv_give_up by blast
next
  case SendExit
  then have "s' = s\<lparr>sv_phase := Finished,
      sv_sent := Some (if sv_failure s \<noteq> None then runtime_failure else sv_result s)\<rparr>" "sv_pending s = 0"
    using assms(2) by (simp_all split: if_splits)
  then show ?thesis using assms(1) by (simp add: serving_inv_def)
qed

lemma reachable_serving_inv: "serve_reachable b s \<Longrightarrow> serving_inv b s"
proof (induction rule: serve_reachable.induct)
  case serve_init
  show ?case by (simp add: serving_inv_def serving_init_def)
next
  case (serve_next s a s')
  then show ?case by (blast intro: serving_inv_exec)
qed


fun serve_run :: "serve_step list \<Rightarrow> serving \<Rightarrow> serving option" where
  "serve_run [] s = Some s"
| "serve_run (a # as) s = (case serve_exec a s of None \<Rightarrow> None | Some s1 \<Rightarrow> serve_run as s1)"

lemma serve_run_reachable:
  "serve_reachable b s \<Longrightarrow> serve_run as s = Some s' \<Longrightarrow> serve_reachable b s'"
  by (induction as arbitrary: s) (auto split: option.splits intro: serve_next)


section \<open>Output reaches the client in order\<close>

lemma send_frames_ok: "send_frames send frames = (sent, None) \<Longrightarrow> sent = frames"
  by (induction frames arbitrary: sent) (auto split: option.splits prod.splits)

lemma output_chunks:
  assumes "codec enc dec" and "0 < maximum"
    and "chunkedFrames (\<lambda>m chunk. marshalMessage valid_ServerFrame enc (output_message stderr chunk) m)
           data maximum = Inr frames"
  shows "\<exists>chunks. map (unmarshalMessage valid_ServerFrame dec) frames
      = map (\<lambda>c. Inr (output_message stderr c)) chunks \<and> concat chunks = data"
proof -
  let ?mk = "\<lambda>chunk. marshalMessage valid_ServerFrame enc (output_message stderr chunk) maximum"
  have "chunk_loop ?mk maximum data = Inr frames"
    using assms(2,3) by (auto simp: chunkedFrames_def chunk_loop.simps split: if_splits)
  from chunk_loop_sound [OF this] obtain chunks where c: "concat chunks = data"
    and l: "list_all2 (\<lambda>c f. ?mk c = Inr f) chunks frames" by blast
  have "map (unmarshalMessage valid_ServerFrame dec) frames = map (\<lambda>c. Inr (output_message stderr c)) chunks"
    using l assms(1) by induction (auto simp: codec_def intro: marshal_unmarshal)
  with c show ?thesis by blast
qed

text \<open>
  Output is forwarded in order and completely.  When the copy loop of a stream ends without
  an error, the frames it sent decode to pieces of that stream only, and their concatenation is
  everything the reader returned up to its end of file.
\<close>

theorem output_forwarded:
  assumes "codec enc dec" and "0 < maximum"
    and "copyOutput enc send maximum stderr reads = (sent, Some None)"
  shows "\<exists>chunks n. map (unmarshalMessage valid_ServerFrame dec) sent
      = map (\<lambda>c. Inr (output_message stderr c)) chunks
    \<and> n < length reads \<and> (case snd (reads ! n) of None \<Rightarrow> False | Some e \<Rightarrow> goerr_Is e EIoEOF)
    \<and> concat chunks = concat (map fst (take (Suc n) reads))"
  using assms(3)
proof (induction reads arbitrary: sent)
  case Nil
  then show ?case by simp
next
  case (Cons rd reads)
  obtain data err where rd: "rd = (data, err)" by fastforce
  obtain frames where f: "chunkedFrames (\<lambda>m chunk. marshalMessage valid_ServerFrame enc (output_message stderr chunk) m)
      data maximum = Inr frames"
    and s: "send_frames send frames = (frames, None)"
    using Cons.prems send_frames_ok [of send] by (auto simp: rd split: sum.splits prod.splits option.splits)
  obtain chunks where c: "map (unmarshalMessage valid_ServerFrame dec) frames
      = map (\<lambda>c. Inr (output_message stderr c)) chunks" "concat chunks = data"
    using output_chunks [OF assms(1,2) f] by blast
  show ?case
  proof (cases err)
    case (Some e)
    then have "sent = frames" "goerr_Is e EIoEOF" using Cons.prems f s by (auto simp: rd split: if_splits)
    then show ?thesis using c Some by (intro exI [of _ chunks] exI [of _ 0]) (simp add: rd)
  next
    case None
    then obtain more where m: "copyOutput enc send maximum stderr reads = (more, Some None)" "sent = frames @ more"
      using Cons.prems f s by (auto simp: rd split: prod.splits)
    from Cons.IH [OF m(1)] obtain chunks' n where
      "map (unmarshalMessage valid_ServerFrame dec) more = map (\<lambda>c. Inr (output_message stderr c)) chunks'"
      "n < length reads" "case snd (reads ! n) of None \<Rightarrow> False | Some e \<Rightarrow> goerr_Is e EIoEOF"
      "concat chunks' = concat (map fst (take (Suc n) reads))" by blast
    then show ?thesis
      using c m(2) by (intro exI [of _ "chunks @ chunks'"] exI [of _ "Suc n"]) (simp add: rd)
  qed
qed

definition example_out_enc :: "ServerFrame \<Rightarrow> (goerr, bytes) result" where
  "example_out_enc m = (case m of SFStdout d \<Rightarrow> Inr (2 # d) | _ \<Rightarrow> Inl EIoEOF)"

definition example_out_dec :: "bytes \<Rightarrow> (goerr, ServerFrame) result" where
  "example_out_dec b = Inr (SFStdout (tl b))"

theorem output_forwarded_witness:
  "\<exists>sent chunks. copyOutput example_out_enc (\<lambda>_. None) 3 False [([1, 2, 3], None), ([4], Some EIoEOF)]
        = (sent, Some None)
     \<and> map (unmarshalMessage valid_ServerFrame example_out_dec) sent
        = map (\<lambda>c. Inr (output_message False c)) chunks"
proof -
  have c: "codec example_out_enc example_out_dec"
    by (auto simp: codec_def example_out_enc_def example_out_dec_def split: ServerFrame.splits)
  have r: "copyOutput example_out_enc (\<lambda>_. None) 3 False [([1, 2, 3], None), ([4], Some EIoEOF)]
      = ([[2, 1, 2], [2, 3], [2, 4]], Some None)"
    by code_simp
  have "0 < (3 :: int)" by simp
  from output_forwarded [OF c this r] r show ?thesis by blast
qed

end
