(* ===== verification/Process_Spec.thy ===== *)
theory Process_Spec
  imports Command "HOL-Library.Multiset"
begin

text \<open>
  The specification of a process to run (\<open>app/server/process/spec.go\<close>), the identity it is given
  and the result its exit status turns into (\<open>credentialFor\<close> and \<open>exitResult\<close> of \<open>runner.go\<close>).
  Environments are Go maps; here they are association lists in iteration order.
\<close>

unbundle bit_operations_syntax

section \<open>Specification\<close>

record PTYSpec =
  ps_Terminal :: string
  ps_Rows :: u32
  ps_Columns :: u32

record Spec =
  sp_Executable :: string
  sp_Argv :: "string list"
  sp_WorkingDirectory :: string
  sp_TrustedEnvironment :: "(string \<times> string) list"
  sp_RequestedEnvironment :: "(string \<times> string) list"
  sp_UID :: u32
  sp_GID :: u32
  sp_SupplementaryGroups :: "u32 list"
  sp_PTY :: "PTYSpec option"
  sp_TerminationGrace :: int

definition defaultTerminationGrace :: int where
  "defaultTerminationGrace = 2000000000"

definition maxEnvironmentEntries :: nat where
  "maxEnvironmentEntries = 256"

definition protectedEnvironment :: "string list" where
  "protectedEnvironment = [''HOME'', ''USER'', ''LOGNAME'', ''SHELL'', ''PATH'']"

definition validateEnvironment :: "string \<Rightarrow> string \<Rightarrow> goerr option" where
  "validateEnvironment name value =
    (if name = [] \<or> ContainsAny name [CHR ''='', NUL]
     then Some (EErr ''invalid environment variable name'')
     else if ContainsNUL value then Some (EErr ''environment variable contains NUL'')
     else None)"

fun validate_trusted :: "(string \<times> string) list \<Rightarrow> goerr option" where
  "validate_trusted [] = None"
| "validate_trusted ((name, value) # rest) =
    (case validateEnvironment name value of Some e \<Rightarrow> Some e | None \<Rightarrow> validate_trusted rest)"

fun validate_requested :: "(string \<times> string) list \<Rightarrow> goerr option" where
  "validate_requested [] = None"
| "validate_requested ((name, value) # rest) =
    (case validateEnvironment name value of
       Some e \<Rightarrow> Some e
     | None \<Rightarrow>
         if name \<in> set protectedEnvironment
         then Some (EErr ''requested environment cannot replace trusted'')
         else validate_requested rest)"

fun validate_groups :: "u32 \<Rightarrow> u32 list \<Rightarrow> u32 list \<Rightarrow> goerr option" where
  "validate_groups gid seen [] = None"
| "validate_groups gid seen (g # gs) =
    (if g = gid then Some (EErr ''supplementary groups must not repeat the primary GID'')
     else if g \<in> set seen then Some (EErr ''duplicate supplementary GID'')
     else validate_groups gid (g # seen) gs)"

definition bad_dimensions :: "u32 \<Rightarrow> u32 \<Rightarrow> bool" where
  "bad_dimensions rows columns \<longleftrightarrow> rows = 0 \<or> rows > 65535 \<or> columns = 0 \<or> columns > 65535"

definition validate_PTY :: "PTYSpec option \<Rightarrow> goerr option" where
  "validate_PTY pty =
    (case pty of
       None \<Rightarrow> None
     | Some p \<Rightarrow>
         if bad_dimensions (ps_Rows p) (ps_Columns p) then Some (EErr ''PTY dimensions are invalid'')
         else if ContainsNUL (ps_Terminal p) then Some (EErr ''PTY terminal contains NUL'')
         else None)"

definition Spec_validate :: "Spec \<Rightarrow> goerr option" where
  "Spec_validate s =
    (if \<not> IsAbs (sp_Executable s) then Some (EErr ''process executable must be absolute'')
     else if sp_Argv s = [] \<or> hd (sp_Argv s) = [] then Some (EErr ''process argv[0] is required'')
     else if \<not> IsAbs (sp_WorkingDirectory s)
     then Some (EErr ''process working directory must be absolute'')
     else if sp_TerminationGrace s < 0
     then Some (EErr ''process termination grace must be non-negative'')
     else if length (sp_TrustedEnvironment s) + length (sp_RequestedEnvironment s) > maxEnvironmentEntries
     then Some (EErr ''process environment has too many entries'')
     else case validate_trusted (sp_TrustedEnvironment s) of
       Some e \<Rightarrow> Some e
     | None \<Rightarrow>
    (case validate_requested (sp_RequestedEnvironment s) of
       Some e \<Rightarrow> Some e
     | None \<Rightarrow>
    (case validate_groups (sp_GID s) [] (sp_SupplementaryGroups s) of
       Some e \<Rightarrow> Some e
     | None \<Rightarrow> validate_PTY (sp_PTY s))))"

text \<open>The combined map, requested entries over trusted ones, printed in the order of its names.\<close>

definition combined_environment :: "Spec \<Rightarrow> string \<Rightarrow> string option" where
  "combined_environment s = map_of (sp_TrustedEnvironment s) ++ map_of (sp_RequestedEnvironment s)"

definition environment_names_sorted :: "Spec \<Rightarrow> string list" where
  "environment_names_sorted s =
    sort (remdups (map fst (sp_TrustedEnvironment s @ sp_RequestedEnvironment s)))"

definition Spec_environment :: "Spec \<Rightarrow> string list" where
  "Spec_environment s =
    map (\<lambda>name. name @ ''='' @ the (combined_environment s name)) (environment_names_sorted s)"

definition Spec_grace :: "Spec \<Rightarrow> int" where
  "Spec_grace s = (if sp_TerminationGrace s = 0 then defaultTerminationGrace else sp_TerminationGrace s)"

section \<open>Identity\<close>

record Credential =
  cred_Uid :: u32
  cred_Gid :: u32
  cred_Groups :: "u32 list"
  cred_NoSetGroups :: bool

text \<open>The ids of the runner's own process, as the kernel returns them; Go's \<open>int\<close>s.\<close>

record identity =
  id_euid :: int
  id_egid :: int
  id_groups :: "(goerr, int list) result"

definition credentialFor :: "identity \<Rightarrow> Spec \<Rightarrow> (goerr, Credential) result" where
  "credentialFor me spec =
    (if id_euid me = 0
     then Inr \<lparr>cred_Uid = sp_UID spec, cred_Gid = sp_GID spec, cred_Groups = sp_SupplementaryGroups spec,
               cred_NoSetGroups = False\<rparr>
     else if word_of_int (id_euid me) \<noteq> sp_UID spec \<or> word_of_int (id_egid me) \<noteq> sp_GID spec
     then Inl (EErr ''unprivileged runner identity mismatch'')
     else case id_groups me of
       Inl e \<Rightarrow> Inl (EWrap ''read current supplementary groups'' e)
     | Inr currentGroups \<Rightarrow>
         if sort (filter (\<lambda>g. g \<noteq> sp_GID spec) (map word_of_int currentGroups))
            \<noteq> sort (sp_SupplementaryGroups spec)
         then Inl (EErr ''unprivileged runner supplementary groups mismatch'')
         else Inr \<lparr>cred_Uid = sp_UID spec, cred_Gid = sp_GID spec, cred_Groups = [],
                   cred_NoSetGroups = True\<rparr>)"

section \<open>Exit status\<close>

text \<open>
  What \<open>exec.Cmd.Wait\<close> returns: nil, an \<open>ExitError\<close> with or without a \<open>WaitStatus\<close>, or another error.
  \<open>syscall.WaitStatus\<close> is the kernel's status word.
\<close>

datatype wait_error = WaitNil | WaitExitError "u32 option" | WaitFailed goerr

definition Signaled :: "u32 \<Rightarrow> bool" where
  "Signaled w \<longleftrightarrow> w AND 0x7F \<noteq> 0x7F \<and> w AND 0x7F \<noteq> 0"

definition WaitStatus_Signal :: "u32 \<Rightarrow> int" where
  "WaitStatus_Signal w = uint (w AND 0x7F)"

definition WaitStatus_ExitStatus :: "u32 \<Rightarrow> int" where
  "WaitStatus_ExitStatus w = (if w AND 0x7F \<noteq> 0 then -1 else uint (drop_bit 8 w AND 0xFF))"

text \<open>\<open>signame\<close> is \<open>unix.SignalName\<close> and \<open>sigstring\<close> the \<open>String\<close> method of \<open>syscall.Signal\<close>.\<close>

definition exitResult :: "(int \<Rightarrow> string) \<Rightarrow> (int \<Rightarrow> string) \<Rightarrow> wait_error \<Rightarrow> ExitResult" where
  "exitResult signame sigstring err =
    (case err of
       WaitNil \<Rightarrow> no_exit
     | WaitFailed _ \<Rightarrow> no_exit\<lparr>ex_RuntimeFailure := ''process wait failed''\<rparr>
     | WaitExitError None \<Rightarrow> no_exit\<lparr>ex_RuntimeFailure := ''process status is unavailable''\<rparr>
     | WaitExitError (Some status) \<Rightarrow>
         if Signaled status
         then let name = signame (WaitStatus_Signal status)
              in no_exit\<lparr>ex_Signal := (if name = [] then sigstring (WaitStatus_Signal status) else name)\<rparr>
         else no_exit\<lparr>ex_Status := WaitStatus_ExitStatus status\<rparr>)"

section \<open>The environment of a valid specification\<close>

lemma validate_trusted_None:
  "validate_trusted env = None \<longleftrightarrow> (\<forall>(n, v) \<in> set env. validateEnvironment n v = None)"
  by (induction env rule: validate_trusted.induct) (auto split: option.splits)

lemma validate_requested_None:
  "validate_requested env = None
    \<longleftrightarrow> (\<forall>(n, v) \<in> set env. validateEnvironment n v = None \<and> n \<notin> set protectedEnvironment)"
  by (induction env rule: validate_requested.induct) (auto split: option.splits)

lemma validate_groups_None:
  "validate_groups gid seen gs = None \<longleftrightarrow> gid \<notin> set gs \<and> distinct gs \<and> set gs \<inter> set seen = {}"
  by (induction gid seen gs rule: validate_groups.induct) auto

lemma Spec_validate_None:
  "Spec_validate s = None \<longleftrightarrow>
    IsAbs (sp_Executable s) \<and> sp_Argv s \<noteq> [] \<and> hd (sp_Argv s) \<noteq> [] \<and> IsAbs (sp_WorkingDirectory s)
    \<and> 0 \<le> sp_TerminationGrace s
    \<and> length (sp_TrustedEnvironment s) + length (sp_RequestedEnvironment s) \<le> 256
    \<and> validate_trusted (sp_TrustedEnvironment s) = None
    \<and> validate_requested (sp_RequestedEnvironment s) = None
    \<and> validate_groups (sp_GID s) [] (sp_SupplementaryGroups s) = None
    \<and> validate_PTY (sp_PTY s) = None"
  by (simp add: Spec_validate_def maxEnvironmentEntries_def not_less split: option.splits)

lemma Cut_name: "sep \<notin> set name \<Longrightarrow> Cut sep (name @ sep # value) = (name, value, True)"
  by (induction name) auto

lemma combined_environment_dom:
  "dom (combined_environment s) = set (environment_names_sorted s)"
  by (auto simp: combined_environment_def environment_names_sorted_def dom_map_of_conv_image_fst)

lemma valid_environment_name:
  assumes "Spec_validate s = None" "n \<in> set (environment_names_sorted s)"
  shows "CHR ''='' \<notin> set n"
proof -
  have "\<exists>v. (n, v) \<in> set (sp_TrustedEnvironment s) \<union> set (sp_RequestedEnvironment s)"
    using assms(2) by (auto simp: environment_names_sorted_def)
  then obtain v where "validateEnvironment n v = None"
    using assms(1) by (auto simp: Spec_validate_None validate_trusted_None validate_requested_None)
  then show ?thesis by (auto simp: validateEnvironment_def ContainsAny_def list_ex_iff split: if_splits)
qed

lemma protected_trusted:
  assumes "Spec_validate s = None" "n \<in> set protectedEnvironment"
  shows "combined_environment s n = map_of (sp_TrustedEnvironment s) n"
proof -
  have "map_of (sp_RequestedEnvironment s) n = None"
    using assms by (force simp: Spec_validate_None validate_requested_None map_of_eq_None_iff)
  then show ?thesis by (simp add: combined_environment_def map_add_def)
qed

text \<open>
  The environment a started process sees is the intended map.  For a valid specification,
  splitting the entries at their first equals sign gives back each name once, in order, with the
  requested value where there is one and the trusted value otherwise; the protected names always
  have their trusted value.
\<close>

theorem environment_exact:
  assumes "Spec_validate s = None"
  shows "map (Cut CHR ''='') (Spec_environment s)
      = map (\<lambda>n. (n, the (combined_environment s n), True)) (environment_names_sorted s)
    \<and> sorted (environment_names_sorted s) \<and> distinct (environment_names_sorted s)
    \<and> set (environment_names_sorted s) = dom (combined_environment s)
    \<and> (\<forall>n \<in> set protectedEnvironment. combined_environment s n = map_of (sp_TrustedEnvironment s) n)"
  using valid_environment_name [OF assms] protected_trusted [OF assms] combined_environment_dom [of s]
  by (auto simp: Spec_environment_def Cut_name environment_names_sorted_def)

section \<open>The identity of the process\<close>

text \<open>The supplementary groups of the child: set from the credential, or those of the runner.\<close>

definition child_groups :: "identity \<Rightarrow> Credential \<Rightarrow> u32 list" where
  "child_groups me c =
    (if cred_NoSetGroups c then (case id_groups me of Inr gs \<Rightarrow> map word_of_int gs | Inl _ \<Rightarrow> [])
     else cred_Groups c)"

text \<open>
  A process runs as exactly the account it was specified for.  When a credential is granted for
  a valid specification, its user and group are the specified ones, the supplementary groups the
  process ends up with are the specified ones, apart from its primary group, and the runner changes
  identity only as root: otherwise it already has the user and group.
\<close>

theorem credential_identity:
  assumes "Spec_validate spec = None" and "credentialFor me spec = Inr c"
  shows "cred_Uid c = sp_UID spec \<and> cred_Gid c = sp_GID spec
    \<and> mset (filter (\<lambda>g. g \<noteq> sp_GID spec) (child_groups me c)) = mset (sp_SupplementaryGroups spec)
    \<and> (id_euid me = 0 \<or> cred_NoSetGroups c \<and> word_of_int (id_euid me) = sp_UID spec
        \<and> word_of_int (id_egid me) = sp_GID spec)"
proof (cases "id_euid me = 0")
  case True
  have "sp_GID spec \<notin> set (sp_SupplementaryGroups spec)"
    using assms(1) by (simp add: Spec_validate_None validate_groups_None)
  then have "filter (\<lambda>g. g \<noteq> sp_GID spec) (sp_SupplementaryGroups spec) = sp_SupplementaryGroups spec"
    by (auto simp: filter_id_conv)
  then show ?thesis using assms(2) True by (auto simp: credentialFor_def child_groups_def simp del: mset_filter)
next
  case False
  then obtain gs where "id_groups me = Inr gs"
    and srt: "sort (filter (\<lambda>g. g \<noteq> sp_GID spec) (map word_of_int gs)) = sort (sp_SupplementaryGroups spec)"
    and "c = \<lparr>cred_Uid = sp_UID spec, cred_Gid = sp_GID spec, cred_Groups = [], cred_NoSetGroups = True\<rparr>"
    and "word_of_int (id_euid me) = sp_UID spec" "word_of_int (id_egid me) = sp_GID spec"
    using assms(2) by (auto simp: credentialFor_def split: if_splits sum.splits)
  moreover have "mset (filter (\<lambda>g. g \<noteq> sp_GID spec) (map word_of_int gs)) = mset (sp_SupplementaryGroups spec)"
    using arg_cong [OF srt, of mset] by simp
  ultimately show ?thesis using False by (simp add: child_groups_def)
qed

section \<open>Exit results\<close>

lemma exit_status_range: "WaitStatus_ExitStatus w \<in> insert (-1) {0..255}"
proof -
  have "drop_bit 8 w AND 0xFF = take_bit 8 (drop_bit 8 w)"
    by (simp add: take_bit_eq_mask mask_eq_exp_minus_1)
  then have "uint (drop_bit 8 w AND 0xFF) = take_bit 8 (uint (drop_bit 8 w))"
    by (simp add: unsigned_take_bit_eq)
  then have "uint (drop_bit 8 w AND 0xFF) < 2 ^ 8" by (metis take_bit_int_less_exp)
  then show ?thesis by (simp add: WaitStatus_ExitStatus_def)
qed

text \<open>The documented behaviour of \<open>Wait\<close>: an \<open>ExitError\<close> is never a normal exit with status zero.\<close>

definition unsuccessful :: "wait_error \<Rightarrow> bool" where
  "unsuccessful err =
    (case err of WaitExitError (Some w) \<Rightarrow> Signaled w \<or> WaitStatus_ExitStatus w \<noteq> 0 | _ \<Rightarrow> True)"

lemma exitResult_success:
  assumes "\<And>n. sigstring n \<noteq> []" "unsuccessful err"
  shows "terminalResult (exitResult signame sigstring err) = None \<longleftrightarrow> err = WaitNil"
  using assms
  by (auto simp: exitResult_def terminalResult_def no_exit_def unsuccessful_def Let_def
      split: wait_error.splits option.splits if_splits)

text \<open>
  C36: The exit of a process reaches the user as it happened.  For whatever \<open>Wait\<close> returned for the
  process, once the exit frame is encoded it decodes at the client to a result that is a success
  exactly when \<open>Wait\<close> returned nil; a process that ended with status 1 to 255 makes the client
  exit with the same code, silently.
\<close>

theorem exit_status_end_to_end:
  assumes "codec enc dec" and "\<And>n. sigstring n \<noteq> []" and "unsuccessful err"
    and "marshalMessage valid_ServerFrame enc (SFExit (exit_message (exitResult signame sigstring err))) maximum
      = Inr frame"
  shows "\<exists>r. DecodeServerEvent dec frame = Inr (ServerEventExit r)
    \<and> (terminalResult r = None \<longleftrightarrow> err = WaitNil)
    \<and> (\<forall>w. err = WaitExitError (Some w) \<and> \<not> Signaled w \<and> w AND 0x7F = 0 \<longrightarrow>
         normalizeRemoteExit signum (terminalResult r)
           = Some \<lparr>re_Code = uint (drop_bit 8 w AND 0xFF),
                   re_Cause = ExitStatusError (uint (drop_bit 8 w AND 0xFF)), re_silent = True\<rparr>)"
proof -
  let ?r = "exitResult signame sigstring err"
  have "ex_Status ?r \<in> insert (-1) {0..255}"
    using exit_status_range by (auto simp: exitResult_def no_exit_def Let_def split: wait_error.splits option.splits)
  then obtain r where r: "DecodeServerEvent dec frame = Inr (ServerEventExit r)"
    "terminalResult r = terminalResult ?r"
    using exit_survives_wire [OF assms(1,4)] by fastforce
  moreover have "normalizeRemoteExit signum (terminalResult ?r)
      = Some \<lparr>re_Code = uint (drop_bit 8 w AND 0xFF),
              re_Cause = ExitStatusError (uint (drop_bit 8 w AND 0xFF)), re_silent = True\<rparr>"
    if "err = WaitExitError (Some w)" "\<not> Signaled w" "w AND 0x7F = 0" for w
  proof -
    have "uint (drop_bit 8 w AND 0xFF) \<noteq> 0"
      using that assms(3) by (simp add: unsuccessful_def WaitStatus_ExitStatus_def)
    moreover have "0 \<le> uint (drop_bit 8 w AND 0xFF)" by (rule uint_nonnegative)
    ultimately have "\<not> uint (drop_bit 8 w AND 0xFF) < 1" by linarith
    moreover have "\<not> uint (drop_bit 8 w AND 0xFF) > 255"
      using exit_status_range [of w] that(3) by (auto simp: WaitStatus_ExitStatus_def)
    ultimately show ?thesis
      using that by (simp add: exitResult_def terminalResult_def normalizeRemoteExit_def no_exit_def
          WaitStatus_ExitStatus_def)
  qed
  moreover have "terminalResult ?r = None \<longleftrightarrow> err = WaitNil"
    using exitResult_success [of sigstring err signame] assms(2,3) by simp
  ultimately show ?thesis by (intro exI [of _ r]) simp
qed

section \<open>Examples\<close>

definition example_process_spec :: Spec where
  "example_process_spec =
    \<lparr>sp_Executable = ''/bin/sh'', sp_Argv = [''-sh''], sp_WorkingDirectory = ''/home/a'',
     sp_TrustedEnvironment = [(''SHELL'', ''/bin/sh''), (''HOME'', ''/home/a''), (''LANG'', ''C'')],
     sp_RequestedEnvironment = [(''LANG'', ''C.UTF-8'')],
     sp_UID = 1000, sp_GID = 100, sp_SupplementaryGroups = [27, 4], sp_PTY = None,
     sp_TerminationGrace = 0\<rparr>"

definition example_identity :: identity where
  "example_identity = \<lparr>id_euid = 1000, id_egid = 100, id_groups = Inr [4, 100, 27]\<rparr>"

theorem environment_exact_witness:
  "Spec_environment example_process_spec = [''HOME=/home/a'', ''LANG=C.UTF-8'', ''SHELL=/bin/sh'']
   \<and> map (Cut CHR ''='') (Spec_environment example_process_spec)
     = [(''HOME'', ''/home/a'', True), (''LANG'', ''C.UTF-8'', True), (''SHELL'', ''/bin/sh'', True)]"
proof -
  have "Spec_validate example_process_spec = None" by code_simp
  from environment_exact [OF this]
  have "map (Cut CHR ''='') (Spec_environment example_process_spec)
      = map (\<lambda>n. (n, the (combined_environment example_process_spec n), True)) (environment_names_sorted example_process_spec)"
    by blast
  also have "\<dots> = [(''HOME'', ''/home/a'', True), (''LANG'', ''C.UTF-8'', True), (''SHELL'', ''/bin/sh'', True)]"
    by code_simp
  finally have 1: "map (Cut CHR ''='') (Spec_environment example_process_spec)
      = [(''HOME'', ''/home/a'', True), (''LANG'', ''C.UTF-8'', True), (''SHELL'', ''/bin/sh'', True)]" .
  have 2: "Spec_environment example_process_spec = [''HOME=/home/a'', ''LANG=C.UTF-8'', ''SHELL=/bin/sh'']" by code_simp
  show ?thesis by (rule conjI [OF 2 1])
qed

theorem credential_identity_witness:
  "\<exists>c. credentialFor example_identity example_process_spec = Inr c \<and> cred_Uid c = 1000 \<and> cred_NoSetGroups c"
proof -
  have v: "Spec_validate example_process_spec = None" by code_simp
  have c: "credentialFor example_identity example_process_spec
      = Inr \<lparr>cred_Uid = 1000, cred_Gid = 100, cred_Groups = [], cred_NoSetGroups = True\<rparr>"
    by (simp add: credentialFor_def example_identity_def example_process_spec_def)
  from credential_identity [OF v c]
  have "cred_Uid \<lparr>cred_Uid = 1000, cred_Gid = 100, cred_Groups = [], cred_NoSetGroups = True\<rparr> = sp_UID example_process_spec"
    by blast
  then show ?thesis using c by (intro exI conjI) (assumption, simp_all add: example_process_spec_def)
qed

definition example_wait :: wait_error where
  "example_wait = WaitExitError (Some 0x300)"

theorem exit_status_end_to_end_witness:
  "\<exists>r. DecodeServerEvent example_exit_dec [4] = Inr (ServerEventExit r)
     \<and> normalizeRemoteExit (\<lambda>_. 0) (terminalResult r)
       = Some \<lparr>re_Code = 3, re_Cause = ExitStatusError 3, re_silent = True\<rparr>"
proof -
  have c: "codec example_exit_enc example_exit_dec"
    by (auto simp: codec_def example_exit_enc_def example_exit_dec_def split: if_splits)
  have w: "\<not> Signaled 0x300" "(0x300 :: u32) AND 0x7F = 0" "uint (drop_bit 8 (0x300 :: u32) AND 0xFF) = 3"
    by (simp_all add: Signaled_def)
  have s: "unsuccessful example_wait"
    using w by (simp add: unsuccessful_def example_wait_def WaitStatus_ExitStatus_def)
  have "exitResult (\<lambda>_. []) (\<lambda>_. ''x'') example_wait = example_exit"
    using w by (simp add: exitResult_def example_wait_def example_exit_def no_exit_def WaitStatus_ExitStatus_def)
  then have m: "marshalMessage valid_ServerFrame example_exit_enc
      (SFExit (exit_message (exitResult (\<lambda>_. []) (\<lambda>_. ''x'') example_wait))) 100 = Inr [4]"
    by (simp only:) code_simp
  obtain r where "DecodeServerEvent example_exit_dec [4] = Inr (ServerEventExit r)"
    and "\<forall>v. example_wait = WaitExitError (Some v) \<and> \<not> Signaled v \<and> v AND 0x7F = 0 \<longrightarrow>
         normalizeRemoteExit (\<lambda>_. 0) (terminalResult r)
           = Some \<lparr>re_Code = uint (drop_bit 8 v AND 0xFF),
                   re_Cause = ExitStatusError (uint (drop_bit 8 v AND 0xFF)), re_silent = True\<rparr>"
    using exit_status_end_to_end [OF c _ s m, of "\<lambda>_. 0"] by blast
  moreover from this(2) [THEN spec, of "0x300"]
  have "normalizeRemoteExit (\<lambda>_. 0) (terminalResult r)
      = Some \<lparr>re_Code = 3, re_Cause = ExitStatusError 3, re_silent = True\<rparr>"
    unfolding w example_wait_def using w(1) by simp
  ultimately show ?thesis by blast
qed

end
