(* ===== verification/Process_Runner.thy ===== *)
theory Process_Runner
  imports Process_Spec
begin

text \<open>
  Running a process (\<open>app/server/process/runner.go\<close>): starting it on pipes or a terminal, its input,
  and its end.  The goroutine that waits for the process and the bodies of \<open>terminate\<close> run
  concurrently with the calls of the command server, so the end of a process is a transition system
  whose steps are the critical sections, channel operations and system calls.
\<close>

section \<open>Descriptors\<close>

datatype fd_event = FdOpen nat | FdClose nat

definition opened :: "fd_event list \<Rightarrow> nat list" where
  "opened l = concat (map (\<lambda>e. case e of FdOpen fd \<Rightarrow> [fd] | FdClose _ \<Rightarrow> []) l)"

definition closed :: "fd_event list \<Rightarrow> nat list" where
  "closed l = concat (map (\<lambda>e. case e of FdOpen _ \<Rightarrow> [] | FdClose fd \<Rightarrow> [fd]) l)"

text \<open>
  What the kernel answers while a process is started: the three \<open>os.Pipe\<close> calls with their read and
  write ends, the start of the command and the start on a terminal with its master.
\<close>

record start_world =
  sw_stdin :: "(goerr, nat \<times> nat) result"
  sw_stdout :: "(goerr, nat \<times> nat) result"
  sw_stderr :: "(goerr, nat \<times> nat) result"
  sw_start :: "Credential \<Rightarrow> (goerr, nat) result"
  sw_startPTY :: "Credential \<Rightarrow> 16 word \<Rightarrow> 16 word \<Rightarrow> (goerr, nat \<times> nat) result"

definition startPipes ::
    "start_world \<Rightarrow> Credential \<Rightarrow> (goerr, nat \<times> nat \<times> nat \<times> nat) result \<times> fd_event list" where
  "startPipes w credential =
    (case sw_stdin w of
       Inl e \<Rightarrow> (Inl (EWrap ''create process stdin pipe'' e), [])
     | Inr (stdinRead, stdinWrite) \<Rightarrow>
    (let l1 = [FdOpen stdinRead, FdOpen stdinWrite]
     in case sw_stdout w of
       Inl e \<Rightarrow> (Inl (EWrap ''create process stdout pipe'' e), l1 @ [FdClose stdinRead, FdClose stdinWrite])
     | Inr (stdoutRead, stdoutWrite) \<Rightarrow>
    (let l2 = l1 @ [FdOpen stdoutRead, FdOpen stdoutWrite]
     in case sw_stderr w of
       Inl e \<Rightarrow> (Inl (EWrap ''create process stderr pipe'' e),
                  l2 @ [FdClose stdinRead, FdClose stdinWrite, FdClose stdoutRead, FdClose stdoutWrite])
     | Inr (stderrRead, stderrWrite) \<Rightarrow>
    (let l3 = l2 @ [FdOpen stderrRead, FdOpen stderrWrite]
     in case sw_start w credential of
       Inl e \<Rightarrow> (Inl (EWrap ''start process'' e),
                  l3 @ [FdClose stdinRead, FdClose stdinWrite, FdClose stdoutRead, FdClose stdoutWrite,
                        FdClose stderrRead, FdClose stderrWrite])
     | Inr pid \<Rightarrow> (Inr (pid, stdinWrite, stdoutRead, stderrRead),
                    l3 @ [FdClose stdinRead, FdClose stdoutWrite, FdClose stderrWrite])))))"

definition startPTY :: "start_world \<Rightarrow> PTYSpec \<Rightarrow> Credential \<Rightarrow> (goerr, nat \<times> nat) result" where
  "startPTY w pty credential =
    (case sw_startPTY w credential (ucast (ps_Rows pty)) (ucast (ps_Columns pty)) of
       Inl e \<Rightarrow> Inl (EWrap ''start process with PTY'' e)
     | Inr (pid, master) \<Rightarrow> Inr (pid, master))"

section \<open>The running process\<close>

datatype signal = SIGTERM | SIGKILL

text \<open>
  Where the waiting goroutine stands, and where a body of \<open>terminate\<close> stands: before closing standard
  input, before SIGTERM, before it probes the group, in its \<open>select\<close>, and waiting for the exit.
\<close>

datatype waiter = WaitsForProcess | ClosesWaitDone | ChecksTerminating | WaiterDone

datatype terminator = ClosesStdin | SendsTerm | Probes | Selects | AwaitsExit | TerminatorDone

text \<open>
  \<open>p_signals\<close> are the signals sent to the process group, \<open>p_waited\<close> what \<open>cmd.Wait\<close> returned and
  \<open>p_gone\<close> whether a probe found the group gone.
\<close>

record running =
  p_spec :: Spec
  p_pid :: nat
  p_stdin :: nat
  p_stdout :: nat
  p_stderr :: "nat option"
  p_pty :: "nat option"
  p_stdinClosed :: bool
  p_outputClosed :: bool
  p_waitDone :: bool
  p_done :: bool
  p_result :: ExitResult
  p_terminating :: bool
  p_completed :: bool
  p_terminateOnce :: bool
  p_waiter :: waiter
  p_terminators :: "terminator list"
  p_signals :: "signal list"
  p_waited :: "wait_error option"
  p_gone :: bool
  p_fds :: "fd_event list"

definition new_running :: "Spec \<Rightarrow> nat \<Rightarrow> nat \<Rightarrow> nat \<Rightarrow> nat option \<Rightarrow> nat option \<Rightarrow> fd_event list \<Rightarrow> running" where
  "new_running spec pid stdin stdout stderr pty fds =
    \<lparr>p_spec = spec, p_pid = pid, p_stdin = stdin, p_stdout = stdout, p_stderr = stderr, p_pty = pty,
     p_stdinClosed = False, p_outputClosed = False, p_waitDone = False, p_done = False, p_result = no_exit,
     p_terminating = False, p_completed = False, p_terminateOnce = False,
     p_waiter = WaitsForProcess, p_terminators = [], p_signals = [], p_waited = None, p_gone = False,
     p_fds = fds\<rparr>"

definition Runner_Start ::
    "identity \<Rightarrow> start_world \<Rightarrow> goerr option \<Rightarrow> Spec \<Rightarrow> (goerr, running) result \<times> fd_event list" where
  "Runner_Start me w ctx_err spec =
    (case ctx_err of
       Some e \<Rightarrow> (Inl e, [])
     | None \<Rightarrow>
    (case Spec_validate spec of
       Some e \<Rightarrow> (Inl (EWrap ''validate process specification'' e), [])
     | None \<Rightarrow>
    (case credentialFor me spec of
       Inl e \<Rightarrow> (Inl e, [])
     | Inr credential \<Rightarrow>
    (case sp_PTY spec of
       Some pty \<Rightarrow>
         (case startPTY w pty credential of
            Inl e \<Rightarrow> (Inl e, [])
          | Inr (pid, master) \<Rightarrow>
              (Inr (new_running spec pid master master None (Some master) [FdOpen master]), [FdOpen master]))
     | None \<Rightarrow>
         (case startPipes w credential of
            (Inl e, l) \<Rightarrow> (Inl e, l)
          | (Inr (pid, stdinWrite, stdoutRead, stderrRead), l) \<Rightarrow>
              (Inr (new_running spec pid stdinWrite stdoutRead (Some stderrRead) None l), l))))))"

section \<open>Input and terminal size\<close>

definition WriteStdin_check :: "goerr option \<Rightarrow> running \<Rightarrow> goerr option" where
  "WriteStdin_check ctx_err p =
    (case ctx_err of
       Some e \<Rightarrow> Some e
     | None \<Rightarrow> if p_stdinClosed p then Some (EErr ''io: read/write on closed pipe'') else None)"

text \<open>
  The loop of \<open>WriteStdin\<close> over what the writes return: the bytes the process has been given, and
  what the call returns, \<open>None\<close> while it is still writing.
\<close>

fun write_loop :: "(nat \<times> goerr option) list \<Rightarrow> bytes \<Rightarrow> bytes \<times> goerr option option" where
  "write_loop [] data = ([], if data = [] then Some None else None)"
| "write_loop ((n, err) # writes) data =
    (if data = [] then ([], Some None)
     else case err of
       Some e \<Rightarrow> (take n data, Some (Some e))
     | None \<Rightarrow> (let (given, r) = write_loop writes (drop n data) in (take n data @ given, r)))"

definition runner_CloseStdin :: "running \<Rightarrow> running" where
  "runner_CloseStdin p =
    (if p_stdinClosed p then p
     else if p_pty p \<noteq> None then p\<lparr>p_stdinClosed := True\<rparr>
     else p\<lparr>p_stdinClosed := True, p_fds := p_fds p @ [FdClose (p_stdin p)]\<rparr>)"

text \<open>A second close of the same \<open>os.File\<close> returns an error and does not reach the kernel.\<close>

definition runner_CloseOutput :: "running \<Rightarrow> running" where
  "runner_CloseOutput p =
    (if p_outputClosed p then p
     else p\<lparr>p_outputClosed := True,
            p_fds := p_fds p @ FdClose (p_stdout p)
              # (case p_stderr p of None \<Rightarrow> [] | Some fd \<Rightarrow> [FdClose fd])\<rparr>)"

text \<open>The size handed to \<open>pty.Setsize\<close>, rows and columns.\<close>

definition runner_Resize ::
    "(16 word \<times> 16 word \<Rightarrow> goerr option) \<Rightarrow> goerr option \<Rightarrow> WindowSize \<Rightarrow> running \<Rightarrow> goerr option" where
  "runner_Resize setsize ctx_err sz p =
    (if p_pty p = None then Some (EErr ''process does not have a PTY'')
     else case ctx_err of
       Some e \<Rightarrow> Some e
     | None \<Rightarrow>
         if bad_dimensions (ws_Rows sz) (ws_Columns sz) then Some (EErr ''PTY dimensions are invalid'')
         else (case setsize (ucast (ws_Rows sz), ucast (ws_Columns sz)) of
                 Some e \<Rightarrow> Some (EWrap ''resize process PTY'' e)
               | None \<Rightarrow> None))"

text \<open>Reading from a terminal: the kernel's EIO at the end is an end of file, and any error closes it.\<close>

datatype pty_read_error = PtyEIO | PtyError goerr

definition eofOnPTYClose_Read :: "bool \<Rightarrow> nat \<Rightarrow> pty_read_error option \<Rightarrow> nat \<times> goerr option \<times> bool" where
  "eofOnPTYClose_Read closedBefore n err =
    (case err of
       None \<Rightarrow> (n, None, closedBefore)
     | Some PtyEIO \<Rightarrow> (n, Some EIoEOF, True)
     | Some (PtyError e) \<Rightarrow> (n, Some e, True))"

section \<open>The end of a process\<close>

definition runner_complete :: "running \<Rightarrow> running" where
  "runner_complete p = p\<lparr>p_completed := True, p_done := True\<rparr>"

definition runner_Terminate :: "running \<Rightarrow> running" where
  "runner_Terminate p =
    (if p_terminateOnce p then p
     else if p_completed p then p\<lparr>p_terminateOnce := True\<rparr>
     else p\<lparr>p_terminateOnce := True, p_terminating := True,
            p_terminators := p_terminators p @ [ClosesStdin]\<rparr>)"

definition runner_Wait :: "running \<Rightarrow> ExitResult option" where
  "runner_Wait p = (if p_done p then Some (p_result p) else None)"

text \<open>The body of \<open>terminate\<close>; \<open>gone\<close> is whether the probe returned ESRCH, \<open>timer\<close> which arm is taken.\<close>

definition terminator_step :: "bool \<Rightarrow> bool \<Rightarrow> terminator \<Rightarrow> running \<Rightarrow> (terminator \<times> running) option" where
  "terminator_step gone timer t p =
    (case t of
       ClosesStdin \<Rightarrow> Some (SendsTerm, runner_CloseStdin p)
     | SendsTerm \<Rightarrow> Some (Probes, p\<lparr>p_signals := p_signals p @ [SIGTERM]\<rparr>)
     | Probes \<Rightarrow> Some (if gone then (AwaitsExit, p\<lparr>p_gone := True\<rparr>) else (Selects, p))
     | Selects \<Rightarrow>
         Some (if timer then (AwaitsExit, p\<lparr>p_signals := p_signals p @ [SIGKILL]\<rparr>) else (Probes, p))
     | AwaitsExit \<Rightarrow> if p_waitDone p then Some (TerminatorDone, runner_complete p) else None
     | TerminatorDone \<Rightarrow> None)"

definition waiter_step :: "running \<Rightarrow> running option" where
  "waiter_step p =
    (case p_waiter p of
       WaitsForProcess \<Rightarrow> None
     | ClosesWaitDone \<Rightarrow> Some (p\<lparr>p_waitDone := True, p_waiter := ChecksTerminating\<rparr>)
     | ChecksTerminating \<Rightarrow>
         Some (if p_terminating p then p\<lparr>p_waiter := WaiterDone\<rparr>
               else p\<lparr>p_terminating := True, p_terminators := p_terminators p @ [ClosesStdin],
                      p_waiter := WaiterDone\<rparr>)
     | WaiterDone \<Rightarrow> None)"

datatype runner_step =
    TerminateCall
  | CloseStdinCalled
  | CloseOutputCalled
  | ProcessEnds wait_error
  | WaiterSteps
  | TerminatorSteps nat bool bool

fun runner_exec ::
    "(wait_error \<Rightarrow> ExitResult) \<Rightarrow> runner_step \<Rightarrow> running \<Rightarrow> running option" where
  "runner_exec exit_result TerminateCall p = Some (runner_Terminate p)"
| "runner_exec exit_result CloseStdinCalled p = Some (runner_CloseStdin p)"
| "runner_exec exit_result CloseOutputCalled p = Some (runner_CloseOutput p)"
| "runner_exec exit_result (ProcessEnds err) p =
    (if p_waiter p = WaitsForProcess
     then Some (p\<lparr>p_waited := Some err, p_result := exit_result err, p_waiter := ClosesWaitDone\<rparr>) else None)"
| "runner_exec exit_result WaiterSteps p = waiter_step p"
| "runner_exec exit_result (TerminatorSteps i gone timer) p =
    (if i < length (p_terminators p)
     then (case terminator_step gone timer (p_terminators p ! i) p of
             None \<Rightarrow> None
           | Some (t, p') \<Rightarrow> Some (p'\<lparr>p_terminators := (p_terminators p)[i := t]\<rparr>))
     else None)"

fun runner_run :: "(wait_error \<Rightarrow> ExitResult) \<Rightarrow> runner_step list \<Rightarrow> running \<Rightarrow> running option" where
  "runner_run exit_result [] p = Some p"
| "runner_run exit_result (a # as) p =
    (case runner_exec exit_result a p of None \<Rightarrow> None | Some p' \<Rightarrow> runner_run exit_result as p')"

inductive runner_reachable :: "(wait_error \<Rightarrow> ExitResult) \<Rightarrow> running \<Rightarrow> bool" for exit_result where
  runner_started: "runner_reachable exit_result (new_running spec pid stdin stdout stderr pty fds)"
| runner_next: "runner_reachable exit_result p \<Longrightarrow> runner_exec exit_result a p = Some p'
    \<Longrightarrow> runner_reachable exit_result p'"

section \<open>Starting leaks no descriptor\<close>

definition fresh_pipes :: "start_world \<Rightarrow> bool" where
  "fresh_pipes w = distinct (concat (map (\<lambda>r. case r of Inr (a, b) \<Rightarrow> [a, b] | Inl _ \<Rightarrow> [])
      [sw_stdin w, sw_stdout w, sw_stderr w]))"

lemma startPipes_balanced:
  assumes "startPipes w credential = (r, l)"
  shows "case r of
      Inl _ \<Rightarrow> mset (opened l) = mset (closed l)
    | Inr (pid, i, o1, o2) \<Rightarrow> mset (opened l) = mset (closed l) + {#i, o1, o2#}"
  using assms
  by (cases "sw_stdin w"; cases "sw_stdout w"; cases "sw_stderr w"; cases "sw_start w credential")
    (clarsimp simp: startPipes_def opened_def closed_def)+

lemma startPipes_closes_once:
  assumes "startPipes w credential = (r, l)" and "fresh_pipes w"
  shows "distinct (closed l)"
  using assms
  by (cases "sw_stdin w"; cases "sw_stdout w"; cases "sw_stderr w"; cases "sw_start w credential")
    (clarsimp simp: startPipes_def fresh_pipes_def closed_def; auto)+

lemma write_loop_prefix: "write_loop writes data = (given, r) \<Longrightarrow> prefix given data"
proof (induction writes data arbitrary: given r rule: write_loop.induct)
  case (2 n err writes data)
  show ?case
  proof (cases "data = [] \<or> err \<noteq> None")
    case True
    then show ?thesis using 2(2) by (auto simp: take_is_prefix split: if_splits)
  next
    case False
    then obtain g where "write_loop writes (drop n data) = (g, r)" "given = take n data @ g"
      using 2(2) by (auto split: prod.splits)
    then show ?thesis using 2(1) False
      by (metis append_take_drop_id not_Some_eq same_prefix_prefix)
  qed
qed simp

lemma write_loop_complete: "write_loop writes data = (given, Some None) \<Longrightarrow> given = data"
proof (induction writes data arbitrary: given rule: write_loop.induct)
  case (2 n err writes data)
  show ?case
  proof (cases "data = [] \<or> err \<noteq> None")
    case True
    then show ?thesis using 2(2) by (auto split: if_splits)
  next
    case False
    then obtain g where "write_loop writes (drop n data) = (g, Some None)" "given = take n data @ g"
      using 2(2) by (auto split: prod.splits)
    then show ?thesis using 2(1) False by simp
  qed
qed (simp split: if_splits)

lemma dimensions_fit:
  assumes "\<not> bad_dimensions rows columns"
  shows "unat (ucast rows :: 16 word) = unat rows" "unat (ucast columns :: 16 word) = unat columns"
  using assms
  by (simp_all add: bad_dimensions_def word_less_nat_alt not_less unsigned_ucast_eq take_bit_nat_eq_self)

section \<open>The end of a process is final\<close>

text \<open>What a body of \<open>terminate\<close> has done by the time it stands somewhere.\<close>

definition terminator_ok :: "running \<Rightarrow> terminator \<Rightarrow> bool" where
  "terminator_ok p t =
    (case t of
       ClosesStdin \<Rightarrow> True
     | SendsTerm \<Rightarrow> True
     | Probes \<Rightarrow> p_signals p \<noteq> []
     | Selects \<Rightarrow> p_signals p \<noteq> []
     | AwaitsExit \<Rightarrow> p_signals p \<noteq> [] \<and> (p_gone p \<or> SIGKILL \<in> set (p_signals p))
     | TerminatorDone \<Rightarrow> p_done p)"

definition end_ok :: "(wait_error \<Rightarrow> ExitResult) \<Rightarrow> running \<Rightarrow> bool" where
  "end_ok exit_result p \<longleftrightarrow>
    (p_waiter p = WaitsForProcess \<longleftrightarrow> p_waited p = None)
    \<and> (\<forall>err. p_waited p = Some err \<longrightarrow> p_result p = exit_result err)
    \<and> (p_waitDone p \<longleftrightarrow> p_waiter p = ChecksTerminating \<or> p_waiter p = WaiterDone)
    \<and> (p_terminating p \<longleftrightarrow> p_terminators p \<noteq> [])
    \<and> (p_waiter p = WaiterDone \<longrightarrow> p_terminating p)
    \<and> p_done p = p_completed p
    \<and> (p_done p \<longrightarrow> p_waitDone p \<and> (p_gone p \<or> SIGKILL \<in> set (p_signals p)) \<and> p_signals p \<noteq> [])
    \<and> (p_signals p \<noteq> [] \<longrightarrow> hd (p_signals p) = SIGTERM)"

definition runner_inv :: "(wait_error \<Rightarrow> ExitResult) \<Rightarrow> running \<Rightarrow> bool" where
  "runner_inv exit_result p \<longleftrightarrow> end_ok exit_result p \<and> list_all (terminator_ok p) (p_terminators p)"

lemma runner_CloseStdin_sel [simp]:
  "p_waiter (runner_CloseStdin p) = p_waiter p" "p_waited (runner_CloseStdin p) = p_waited p"
  "p_result (runner_CloseStdin p) = p_result p" "p_waitDone (runner_CloseStdin p) = p_waitDone p"
  "p_terminating (runner_CloseStdin p) = p_terminating p"
  "p_terminators (runner_CloseStdin p) = p_terminators p" "p_done (runner_CloseStdin p) = p_done p"
  "p_completed (runner_CloseStdin p) = p_completed p" "p_gone (runner_CloseStdin p) = p_gone p"
  "p_signals (runner_CloseStdin p) = p_signals p"
  by (simp_all add: runner_CloseStdin_def)

lemma runner_CloseOutput_sel [simp]:
  "p_waiter (runner_CloseOutput p) = p_waiter p" "p_waited (runner_CloseOutput p) = p_waited p"
  "p_result (runner_CloseOutput p) = p_result p" "p_waitDone (runner_CloseOutput p) = p_waitDone p"
  "p_terminating (runner_CloseOutput p) = p_terminating p"
  "p_terminators (runner_CloseOutput p) = p_terminators p" "p_done (runner_CloseOutput p) = p_done p"
  "p_completed (runner_CloseOutput p) = p_completed p" "p_gone (runner_CloseOutput p) = p_gone p"
  "p_signals (runner_CloseOutput p) = p_signals p"
  by (simp_all add: runner_CloseOutput_def)

lemma terminator_ok_mono:
  assumes "terminator_ok p t" "prefix (p_signals p) (p_signals p')" "p_gone p \<longrightarrow> p_gone p'" "p_done p \<longrightarrow> p_done p'"
  shows "terminator_ok p' t"
  using assms by (auto simp: terminator_ok_def prefix_def split: terminator.splits)

lemma terminator_step_grows:
  "terminator_step gone timer t p = Some (t', p') \<Longrightarrow>
    prefix (p_signals p) (p_signals p') \<and> (p_gone p \<longrightarrow> p_gone p') \<and> (p_done p \<longrightarrow> p_done p')"
  by (auto simp: terminator_step_def runner_complete_def split: terminator.splits if_splits)

lemma terminator_step_ok:
  assumes "end_ok exit_result p" "terminator_ok p t" "terminator_step gone timer t p = Some (t', p')"
  shows "end_ok exit_result p' \<and> terminator_ok p' t'"
proof (cases t)
  case ClosesStdin
  then have p': "p' = runner_CloseStdin p" "t' = SendsTerm" using assms(3) by (simp_all add: terminator_step_def)
  show ?thesis using assms(1) unfolding p' end_ok_def terminator_ok_def by (elim conjE) simp
next
  case SendsTerm
  then have p': "p' = p\<lparr>p_signals := p_signals p @ [SIGTERM]\<rparr>" "t' = Probes"
    using assms(3) by (simp_all add: terminator_step_def)
  show ?thesis using assms(1) unfolding p' end_ok_def terminator_ok_def by (elim conjE) (simp add: hd_append)
next
  case Probes
  then have p': "p' = (if gone then p\<lparr>p_gone := True\<rparr> else p)" "t' = (if gone then AwaitsExit else Selects)"
    using assms(3) by (auto simp: terminator_step_def split: if_splits)
  show ?thesis using assms(1,2) Probes unfolding p' end_ok_def terminator_ok_def
    by (elim conjE) (simp split: if_splits)
next
  case Selects
  then have p': "p' = (if timer then p\<lparr>p_signals := p_signals p @ [SIGKILL]\<rparr> else p)"
    "t' = (if timer then AwaitsExit else Probes)"
    using assms(3) by (auto simp: terminator_step_def split: if_splits)
  show ?thesis using assms(1,2) Selects unfolding p' end_ok_def terminator_ok_def
    by (elim conjE) (simp split: if_splits)
next
  case AwaitsExit
  then have p': "p' = runner_complete p" "t' = TerminatorDone" "p_waitDone p"
    using assms(3) by (simp_all add: terminator_step_def split: if_splits)
  show ?thesis using assms(1,2) p'(3) AwaitsExit
    unfolding p'(1,2) end_ok_def terminator_ok_def runner_complete_def by (elim conjE) simp
next
  case TerminatorDone
  then show ?thesis using assms(3) by (simp add: terminator_step_def)
qed

lemma terminator_step_keeps:
  "terminator_step gone timer t p = Some (t', p') \<Longrightarrow> p_terminators p' = p_terminators p"
  by (auto simp: terminator_step_def runner_complete_def split: terminator.splits if_splits)

lemma end_ok_terminators:
  "end_ok exit_result p \<Longrightarrow> (ts = [] \<longleftrightarrow> p_terminators p = []) \<Longrightarrow> end_ok exit_result (p\<lparr>p_terminators := ts\<rparr>)"
  unfolding end_ok_def by (elim conjE) simp

lemma terminator_ok_terminators [simp]: "terminator_ok (p\<lparr>p_terminators := ts\<rparr>) = terminator_ok p"
  by (simp add: terminator_ok_def fun_eq_iff cong: terminator.case_cong)

lemma runner_inv_terminator:
  assumes i: "runner_inv exit_result p" and l: "i < length (p_terminators p)"
    and s: "terminator_step gone timer (p_terminators p ! i) p = Some (t, p')"
  shows "runner_inv exit_result (p'\<lparr>p_terminators := (p_terminators p)[i := t]\<rparr>)"
proof -
  have ok: "end_ok exit_result p" "terminator_ok p (p_terminators p ! i)"
    using i l by (simp_all add: runner_inv_def list_all_length)
  note step = terminator_step_ok [OF ok s]
  have "list_all (terminator_ok p') (p_terminators p)"
    using i terminator_ok_mono terminator_step_grows [OF s] by (auto simp: runner_inv_def list_all_iff)
  then have "list_all (terminator_ok p') ((p_terminators p)[i := t])"
    using step l by (simp add: list_all_length nth_list_update)
  then show ?thesis
    using step end_ok_terminators [of exit_result p'] terminator_step_keeps [OF s]
    by (simp add: runner_inv_def)
qed

lemma runner_inv_quiet:
  assumes "runner_inv exit_result p" "end_ok exit_result p'" "p_terminators p' = p_terminators p"
    "p_signals p' = p_signals p" "p_gone p' = p_gone p" "p_done p' = p_done p"
  shows "runner_inv exit_result p'"
  using assms terminator_ok_mono [of p _ p'] by (auto simp: runner_inv_def list_all_iff)

lemma runner_inv_spawn:
  assumes "runner_inv exit_result p" "end_ok exit_result p'"
    "p_terminators p' = p_terminators p @ [ClosesStdin]"
    "p_signals p' = p_signals p" "p_gone p' = p_gone p" "p_done p' = p_done p"
  shows "runner_inv exit_result p'"
  using assms terminator_ok_mono [of p _ p'] by (auto simp: runner_inv_def list_all_iff terminator_ok_def)

lemma runner_inv_step:
  assumes i: "runner_inv exit_result p" and s: "runner_exec exit_result a p = Some p'"
  shows "runner_inv exit_result p'"
proof (cases a)
  case TerminateCall
  then have p': "p' = runner_Terminate p" using s by simp
  have e: "end_ok exit_result p'" using i unfolding p' runner_inv_def end_ok_def runner_Terminate_def by (elim conjE) simp
  show ?thesis
  proof (cases "p_terminateOnce p \<or> p_completed p")
    case True
    then show ?thesis using runner_inv_quiet [OF i e] by (auto simp: p' runner_Terminate_def)
  next
    case False
    then show ?thesis using runner_inv_spawn [OF i e] by (simp add: p' runner_Terminate_def)
  qed
next
  case CloseStdinCalled
  then have p': "p' = runner_CloseStdin p" using s by simp
  have "end_ok exit_result p'" using i unfolding p' runner_inv_def end_ok_def by (elim conjE) simp
  then show ?thesis by (rule runner_inv_quiet [OF i]) (simp_all add: p')
next
  case CloseOutputCalled
  then have p': "p' = runner_CloseOutput p" using s by simp
  have "end_ok exit_result p'" using i unfolding p' runner_inv_def end_ok_def by (elim conjE) simp
  then show ?thesis by (rule runner_inv_quiet [OF i]) (simp_all add: p')
next
  case (ProcessEnds err)
  then have p': "p' = p\<lparr>p_waited := Some err, p_result := exit_result err, p_waiter := ClosesWaitDone\<rparr>"
    and w: "p_waiter p = WaitsForProcess"
    using s by (simp_all split: if_splits)
  have "end_ok exit_result p'" using i w unfolding p' runner_inv_def end_ok_def by (elim conjE) simp
  then show ?thesis by (rule runner_inv_quiet [OF i]) (simp_all add: p')
next
  case WaiterSteps
  then have w: "waiter_step p = Some p'" using s by simp
  have e: "end_ok exit_result p'"
  proof (cases "p_waiter p")
    case ClosesWaitDone
    then have p': "p' = p\<lparr>p_waitDone := True, p_waiter := ChecksTerminating\<rparr>" using w by (simp add: waiter_step_def)
    show ?thesis using i ClosesWaitDone unfolding p' runner_inv_def end_ok_def by (elim conjE) simp
  next
    case ChecksTerminating
    then show ?thesis
      using i w unfolding runner_inv_def end_ok_def waiter_step_def
      by (elim conjE, cases "p_terminating p") (simp_all, (clarsimp)+)
  qed (use w in \<open>simp_all add: waiter_step_def\<close>)
  show ?thesis
  proof (cases "p_waiter p = ChecksTerminating \<and> \<not> p_terminating p")
    case True
    then show ?thesis using w runner_inv_spawn [OF i e] by (auto simp: waiter_step_def)
  next
    case False
    then show ?thesis using w runner_inv_quiet [OF i e]
      by (auto simp: waiter_step_def split: waiter.splits if_splits)
  qed
next
  case (TerminatorSteps j gone timer)
  then show ?thesis using i s
    by (auto intro: runner_inv_terminator split: if_splits option.splits)
qed

lemma runner_reachable_inv: "runner_reachable exit_result p \<Longrightarrow> runner_inv exit_result p"
  by (induction rule: runner_reachable.induct)
    (simp add: runner_inv_def end_ok_def new_running_def, blast intro: runner_inv_step)

lemma runner_reachable_run:
  "runner_reachable exit_result p \<Longrightarrow> runner_run exit_result as p = Some p'
    \<Longrightarrow> runner_reachable exit_result p'"
  by (induction as arbitrary: p) (auto split: option.splits intro: runner_next)

lemma runner_done_step:
  assumes "runner_inv exit_result p" "p_done p" "runner_exec exit_result a p = Some p'"
  shows "p_done p' \<and> p_result p' = p_result p"
proof -
  have "p_waiter p \<noteq> WaitsForProcess" using assms(1,2) by (auto simp: runner_inv_def end_ok_def)
  then show ?thesis using assms(2,3)
    by (cases a) (auto simp: runner_Terminate_def waiter_step_def terminator_step_def runner_complete_def
        split: if_splits option.splits waiter.splits terminator.splits)
qed

lemma runner_done_run:
  "runner_reachable exit_result p \<Longrightarrow> p_done p \<Longrightarrow> runner_run exit_result as p = Some p'
    \<Longrightarrow> p_done p' \<and> p_result p' = p_result p"
proof (induction as arbitrary: p)
  case (Cons a as)
  then obtain q where q: "runner_exec exit_result a p = Some q" "runner_run exit_result as q = Some p'"
    by (auto split: option.splits)
  then have "p_done q \<and> p_result q = p_result p"
    using runner_done_step runner_reachable_inv Cons.prems by blast
  then show ?case using Cons.IH [of q] q Cons.prems(1) runner_next by metis
qed simp

text \<open>
  C37: The end of a process is reported once and for good.  Under every interleaving, when \<open>Wait\<close>
  returns, the process has been collected and the result is that of its exit; the process group has
  been found gone or has been sent SIGKILL, and the first signal it was sent was SIGTERM; and
  every later \<open>Wait\<close> returns the same result.
\<close>

theorem wait_result_final:
  assumes "runner_reachable exit_result p" and "runner_Wait p = Some r"
  shows "(\<exists>err. p_waited p = Some err \<and> r = exit_result err)
    \<and> (p_gone p \<or> SIGKILL \<in> set (p_signals p)) \<and> hd (p_signals p) = SIGTERM
    \<and> (\<forall>as p'. runner_run exit_result as p = Some p' \<longrightarrow> runner_Wait p' = Some r)"
proof -
  have d: "p_done p" "p_result p = r" using assms(2) by (auto simp: runner_Wait_def split: if_splits)
  have i: "runner_inv exit_result p" by (rule runner_reachable_inv [OF assms(1)])
  then have "\<exists>err. p_waited p = Some err \<and> r = exit_result err"
    and "p_gone p \<or> SIGKILL \<in> set (p_signals p)" "hd (p_signals p) = SIGTERM"
    using d by (auto simp: runner_inv_def end_ok_def)
  moreover have "runner_Wait p' = Some r" if "runner_run exit_result as p = Some p'" for as p'
    using runner_done_run [OF assms(1) d(1) that] d(2) by (simp add: runner_Wait_def)
  ultimately show ?thesis by blast
qed

section \<open>Once the process has ended, waiting ends\<close>

text \<open>
  The steps the runner takes on its own: those of the waiting goroutine, and those of a body of
  \<open>terminate\<close> whose probe is answered with \<open>gone\<close> and whose timer has fired.
\<close>

fun own_step :: "bool \<Rightarrow> runner_step \<Rightarrow> bool" where
  "own_step gone WaiterSteps = True"
| "own_step gone (TerminatorSteps i g timer) = (g = gone \<and> timer)"
| "own_step gone _ = False"

definition finishes :: "(wait_error \<Rightarrow> ExitResult) \<Rightarrow> bool \<Rightarrow> nat \<Rightarrow> running \<Rightarrow> bool" where
  "finishes exit_result gone n p \<longleftrightarrow>
    (\<exists>as p'. list_all (own_step gone) as \<and> length as \<le> n \<and> runner_run exit_result as p = Some p' \<and> p_done p')"

lemma finishes_now: "p_done p \<Longrightarrow> finishes exit_result gone n p"
  unfolding finishes_def by (intro exI [of _ "[]"] exI [of _ p]) simp

lemma finishes_step:
  assumes "own_step gone a" "runner_exec exit_result a p = Some q" "finishes exit_result gone n q"
  shows "finishes exit_result gone (Suc n) p"
proof -
  obtain as p' where "list_all (own_step gone) as" "length as \<le> n" "runner_run exit_result as q = Some p'" "p_done p'"
    using assms(3) by (auto simp: finishes_def)
  then show ?thesis
    unfolding finishes_def using assms(1,2) by (intro exI [of _ "a # as"] exI [of _ p']) simp
qed

lemma terminator_step_simps:
  "terminator_step gone timer ClosesStdin p = Some (SendsTerm, runner_CloseStdin p)"
  "terminator_step gone timer SendsTerm p = Some (Probes, p\<lparr>p_signals := p_signals p @ [SIGTERM]\<rparr>)"
  "terminator_step gone timer Probes p = Some (if gone then (AwaitsExit, p\<lparr>p_gone := True\<rparr>) else (Selects, p))"
  "terminator_step gone True Selects p = Some (AwaitsExit, p\<lparr>p_signals := p_signals p @ [SIGKILL]\<rparr>)"
  "p_waitDone p \<Longrightarrow> terminator_step gone timer AwaitsExit p = Some (TerminatorDone, runner_complete p)"
  by (simp_all add: terminator_step_def)

text \<open>The remaining steps of a body that stands at the head of the list.\<close>

fun steps_left :: "terminator \<Rightarrow> nat" where
  "steps_left ClosesStdin = 5"
| "steps_left SendsTerm = 4"
| "steps_left Probes = 3"
| "steps_left Selects = 2"
| "steps_left AwaitsExit = 1"
| "steps_left TerminatorDone = 0"

lemma terminator_moves:
  assumes "p_waitDone p" "t \<noteq> TerminatorDone"
  shows "\<exists>t' p'. terminator_step gone True t p = Some (t', p') \<and> steps_left t' < steps_left t
    \<and> p_waitDone p' \<and> (t' = TerminatorDone \<longrightarrow> p_done p')"
  using assms by (cases t; cases gone) (simp_all add: terminator_step_simps runner_complete_def)

lemma finishes_terminator:
  "p_waitDone p \<Longrightarrow> p_terminators p = t # ts \<Longrightarrow> (t = TerminatorDone \<longrightarrow> p_done p) \<Longrightarrow> steps_left t \<le> n
    \<Longrightarrow> finishes exit_result gone n p"
proof (induction n arbitrary: p t)
  case 0
  then show ?case by (cases t) (auto intro: finishes_now)
next
  case (Suc n)
  show ?case
  proof (cases "t = TerminatorDone")
    case True
    then show ?thesis using Suc.prems by (blast intro: finishes_now)
  next
    case False
    then obtain t' p' where s: "terminator_step gone True t p = Some (t', p')"
      and "steps_left t' < steps_left t" "p_waitDone p'" "t' = TerminatorDone \<longrightarrow> p_done p'"
      using terminator_moves [OF Suc.prems(1), of t gone] by blast
    then have "finishes exit_result gone n (p'\<lparr>p_terminators := t' # ts\<rparr>)"
      using Suc.IH [of "p'\<lparr>p_terminators := t' # ts\<rparr>" t'] Suc.prems by simp
    then show ?thesis
      by (rule finishes_step [of _ "TerminatorSteps 0 gone True", rotated 2]) (use s Suc.prems in simp_all)
  qed
qed

lemma finishes_terminating:
  assumes "runner_inv exit_result p" "p_waitDone p" "p_terminators p \<noteq> []"
  shows "finishes exit_result gone 5 p"
proof -
  obtain t ts where t: "p_terminators p = t # ts" using assms(3) by (cases "p_terminators p") auto
  moreover have "steps_left t \<le> 5" by (cases t) simp_all
  moreover have "t = TerminatorDone \<longrightarrow> p_done p"
    using assms(1) t by (auto simp: runner_inv_def terminator_ok_def)
  ultimately show ?thesis using finishes_terminator [OF assms(2)] by blast
qed

lemma finishes_waited:
  assumes "runner_inv exit_result p" "p_waitDone p"
  shows "finishes exit_result gone 6 p"
proof (cases "p_terminators p = []")
  case True
  then have w: "p_waiter p = ChecksTerminating" "\<not> p_terminating p"
    using assms unfolding runner_inv_def end_ok_def by (elim conjE, simp)+
  let ?q = "p\<lparr>p_terminating := True, p_terminators := p_terminators p @ [ClosesStdin], p_waiter := WaiterDone\<rparr>"
  have s: "runner_exec exit_result WaiterSteps p = Some ?q" using w by (simp add: waiter_step_def)
  have "finishes exit_result gone 5 ?q"
    using finishes_terminating [OF runner_inv_step [OF assms(1) s]] assms(2) by simp
  then show ?thesis using finishes_step [OF _ s, of gone 5] by (simp add: eval_nat_numeral)
next
  case False
  then have "finishes exit_result gone 5 p" by (rule finishes_terminating [OF assms])
  then show ?thesis unfolding finishes_def by force
qed

text \<open>
  C38: A process that has ended is reported.  From every reachable state in which the process has
  been collected, however far its termination has come and whatever a probe of its group answers,
  the runner's own steps bring \<open>Wait\<close> to return within seven steps: no goroutine waits for another
  forever.
\<close>

theorem process_completes:
  assumes "runner_reachable exit_result p" and "p_waited p \<noteq> None"
  shows "\<exists>as p'. list_all (own_step gone) as \<and> length as \<le> 7
    \<and> runner_run exit_result as p = Some p' \<and> runner_Wait p' \<noteq> None"
proof -
  have i: "runner_inv exit_result p" by (rule runner_reachable_inv [OF assms(1)])
  have "finishes exit_result gone 7 p"
  proof (cases "p_waitDone p")
    case True
    then have "finishes exit_result gone 6 p" by (rule finishes_waited [OF i])
    then show ?thesis unfolding finishes_def by force
  next
    case False
    then have w: "p_waiter p = ClosesWaitDone"
      using i assms(2) unfolding runner_inv_def end_ok_def by (cases "p_waiter p") auto
    then have s: "runner_exec exit_result WaiterSteps p
        = Some (p\<lparr>p_waitDone := True, p_waiter := ChecksTerminating\<rparr>)"
      by (simp add: waiter_step_def)
    from finishes_waited [OF runner_inv_step [OF i s], of gone] show ?thesis
      using finishes_step [OF _ s, of gone 6] by (simp add: eval_nat_numeral)
  qed
  then show ?thesis by (auto simp: finishes_def runner_Wait_def)
qed

section \<open>Examples\<close>

definition example_running :: running where
  "example_running = new_running example_process_spec 42 5 6 (Some 8) None []"

definition example_exit_of :: "wait_error \<Rightarrow> ExitResult" where
  "example_exit_of = exitResult (\<lambda>_. ''TERM'') (\<lambda>_. ''x'')"

definition example_end :: "runner_step list" where
  "example_end =
    [TerminateCall, TerminatorSteps 0 False False, TerminatorSteps 0 False False,
     TerminatorSteps 0 False False, ProcessEnds (WaitFailed EIoEOF), WaiterSteps,
     TerminatorSteps 0 False True, TerminatorSteps 0 False True, WaiterSteps]"

theorem wait_result_final_witness:
  "\<exists>p r. runner_run example_exit_of example_end example_running = Some p \<and> runner_Wait p = Some r
     \<and> r = example_exit_of (WaitFailed EIoEOF) \<and> SIGKILL \<in> set (p_signals p) \<and> hd (p_signals p) = SIGTERM"
proof -
  have "case runner_run example_exit_of example_end example_running of
      None \<Rightarrow> False
    | Some p \<Rightarrow> runner_Wait p = Some (example_exit_of (WaitFailed EIoEOF)) \<and> \<not> p_gone p"
    by code_simp
  then obtain p where p: "runner_run example_exit_of example_end example_running = Some p"
    "runner_Wait p = Some (example_exit_of (WaitFailed EIoEOF))" "\<not> p_gone p"
    by (auto split: option.splits)
  have "runner_reachable example_exit_of p"
    using runner_reachable_run [OF _ p(1)] runner_started unfolding example_running_def by blast
  from wait_result_final [OF this p(2)] p show ?thesis by blast
qed

theorem process_completes_witness:
  "\<exists>p as p'. runner_run example_exit_of [ProcessEnds WaitNil] example_running = Some p
     \<and> list_all (own_step False) as \<and> runner_run example_exit_of as p = Some p' \<and> runner_Wait p' \<noteq> None"
proof -
  have "case runner_run example_exit_of [ProcessEnds WaitNil] example_running of
      None \<Rightarrow> False | Some p \<Rightarrow> p_waited p \<noteq> None"
    by code_simp
  then obtain p where p: "runner_run example_exit_of [ProcessEnds WaitNil] example_running = Some p"
    "p_waited p \<noteq> None"
    by (auto split: option.splits)
  have "runner_reachable example_exit_of p"
    using runner_reachable_run [OF _ p(1)] runner_started unfolding example_running_def by blast
  from process_completes [OF this p(2), of False] p(1) show ?thesis by blast
qed

text \<open>
  \<open>Terminate\<close> does not look at \<open>terminating\<close>: after the waiting goroutine has started to clean up,
  a call starts a second body, which signals the group again.
\<close>

lemma terminate_runs_twice:
  "\<exists>p. runner_reachable example_exit_of p \<and> length (p_terminators p) = 2 \<and> p_waitDone p"
proof -
  let ?r = "runner_run example_exit_of [ProcessEnds WaitNil, WaiterSteps, WaiterSteps, TerminateCall] example_running"
  have "case ?r of None \<Rightarrow> False | Some p \<Rightarrow> length (p_terminators p) = 2 \<and> p_waitDone p" by code_simp
  then obtain p where "?r = Some p" "length (p_terminators p) = 2" "p_waitDone p"
    by (auto split: option.splits)
  moreover have "runner_reachable example_exit_of example_running"
    unfolding example_running_def by (rule runner_started)
  ultimately show ?thesis using runner_reachable_run by blast
qed

end
