(* ===== verification/Server_Command.thy ===== *)
theory Server_Command
  imports Authz Command_Server Process_Runner
begin

text \<open>
  The command service of the server: the registry that opens channels for an authenticated
  connection (\<open>app/server/services/registry.go\<close>) and the service that turns a start request into an
  authorized launch and a process (\<open>app/server/command/service.go\<close>).  It joins authorization, the
  command protocol and the process runner.
\<close>

section \<open>Requests and specifications\<close>

definition trustedPath :: string where
  "trustedPath = ''/usr/local/bin:/usr/bin:/bin''"

text \<open>Assigning to a Go map: the entry is replaced, or a new one is added.\<close>

definition map_assign :: "'k \<Rightarrow> 'v \<Rightarrow> ('k \<times> 'v) list \<Rightarrow> ('k \<times> 'v) list" where
  "map_assign k v m =
    (if k \<in> fst ` set m then map (\<lambda>(a, b). (a, if a = k then v else b)) m else m @ [(k, v)])"

definition launch_PTY :: "CommandPTY \<Rightarrow> PTYRequest" where
  "launch_PTY p = \<lparr>pty_Terminal = cpty_Terminal p, pty_Rows = cpty_Rows p, pty_Columns = cpty_Columns p\<rparr>"

definition toLaunchRequest :: "StartRequest \<Rightarrow> (goerr, LaunchRequest) result" where
  "toLaunchRequest request =
    (let launch = (\<lambda>kind.
       let base = \<lparr>lr_Kind = kind, lr_Command = sr_Command request,
                   lr_PTY = map_option launch_PTY (sr_PTY request),
                   lr_Environment = sr_Environment request\<rparr>
       in case sr_PTY request of
            None \<Rightarrow> Inr base
          | Some p \<Rightarrow>
              if cpty_Terminal p \<noteq> [] then
                (case map_of (sr_Environment request) ''TERM'' of
                   Some existing \<Rightarrow>
                     if existing \<noteq> cpty_Terminal p
                     then Inl (EErr ''PTY terminal conflicts with requested TERM'')
                     else Inr (base\<lparr>lr_Environment := map_assign ''TERM'' (cpty_Terminal p) (lr_Environment base)\<rparr>)
                 | None \<Rightarrow> Inr (base\<lparr>lr_Environment := map_assign ''TERM'' (cpty_Terminal p) (lr_Environment base)\<rparr>))
              else Inr base)
     in case sr_Kind request of
          StartShell \<Rightarrow> launch LaunchShell
        | StartExec \<Rightarrow> launch LaunchExec
        | StartOther _ \<Rightarrow> Inl (EErr ''unsupported command start kind''))"

definition process_PTY :: "PTYRequest \<Rightarrow> PTYSpec" where
  "process_PTY p = \<lparr>ps_Terminal = pty_Terminal p, ps_Rows = pty_Rows p, ps_Columns = pty_Columns p\<rparr>"

definition toProcessSpec :: "AuthorizedLaunchSpec \<Rightarrow> (goerr, Spec) result" where
  "toProcessSpec launch =
    (let account = als_account launch; shell = als_executable launch; argv0 = filepath_Base shell;
         spec = (\<lambda>argv.
           \<lparr>sp_Executable = shell, sp_Argv = argv, sp_WorkingDirectory = als_workingDirectory launch,
            sp_TrustedEnvironment =
              [(''HOME'', acc_HomeDir account), (''USER'', acc_Username account),
               (''LOGNAME'', acc_Username account), (''SHELL'', shell), (''PATH'', trustedPath)],
            sp_RequestedEnvironment = als_environment launch,
            sp_UID = acc_Id account, sp_GID = grp_Id (acc_PrimaryGroup account),
            sp_SupplementaryGroups = map grp_Id (acc_SupplementaryGroups account),
            sp_PTY = map_option process_PTY (als_pty launch), sp_TerminationGrace = 0\<rparr>)
     in case als_kind launch of
          LaunchShell \<Rightarrow> Inr (spec [''-'' @ argv0])
        | LaunchExec \<Rightarrow> Inr (spec [argv0, ''-c'', als_command launch])
        | LaunchOther _ \<Rightarrow> Inl (EErr ''unsupported authorized launch kind''))"

section \<open>The starter of a channel\<close>

text \<open>The handler of an open command channel holds the credentials and the authorized channel.\<close>

record channelHandler =
  h_credentials :: ConnectionCredentials
  h_authorized :: AuthorizedChannel

text \<open>
  \<open>runner\<close> is the \<open>Start\<close> method of the process runner; \<open>ctx\<close> gives the context's error at the two
  places that look at it.
\<close>

definition authorizedStarter_Start ::
    "AuthzServer option \<Rightarrow> (goerr option \<Rightarrow> Spec \<Rightarrow> 'r) \<Rightarrow> (goerr \<Rightarrow> 'r) \<Rightarrow> goerr option \<Rightarrow> goerr option
      \<Rightarrow> channelHandler \<Rightarrow> StartRequest \<Rightarrow> 'r" where
  "authorizedStarter_Start server runner failed ctx1 ctx2 h request =
    (case toLaunchRequest request of
       Inl e \<Rightarrow> failed e
     | Inr launchRequest \<Rightarrow>
    (case AuthorizeLaunch server ctx1 (h_credentials h) (h_authorized h) launchRequest of
       Inl e \<Rightarrow> failed (EWrap ''authorize command launch'' e)
     | Inr authorized \<Rightarrow>
    (case toProcessSpec authorized of
       Inl e \<Rightarrow> failed e
     | Inr spec \<Rightarrow> runner ctx2 spec)))"

text \<open>With the runner of the server: a running process or an error, and the descriptors touched.\<close>

definition start_command ::
    "AuthzServer option \<Rightarrow> identity \<Rightarrow> start_world \<Rightarrow> goerr option \<Rightarrow> goerr option
      \<Rightarrow> channelHandler \<Rightarrow> StartRequest \<Rightarrow> (goerr, running) result \<times> fd_event list" where
  "start_command server me w = authorizedStarter_Start server (Runner_Start me w) (\<lambda>e. (Inl e, []))"

section \<open>Opening channels\<close>

record open_request =
  or_Type :: string
  or_Payload :: bytes

record open_decision =
  od_OK :: bool
  od_Code :: string
  od_Message :: string
  od_Handler :: "channelHandler option"

definition service_rejected :: "string \<Rightarrow> string \<Rightarrow> open_decision" where
  "service_rejected code msg = \<lparr>od_OK = False, od_Code = code, od_Message = msg, od_Handler = None\<rparr>"

definition Service_Open ::
    "ConnectionCredentials \<Rightarrow> AuthorizedChannel \<Rightarrow> open_request \<Rightarrow> (goerr, open_decision) result" where
  "Service_Open credentials authorized request =
    (if or_Type request \<noteq> CommandChannelType then Inl (EErr ''unsupported channel type'')
     else if or_Payload request \<noteq> [] then Inl (EErr ''command channel open payload must be empty'')
     else Inr \<lparr>od_OK = True, od_Code = [], od_Message = [],
               od_Handler = Some \<lparr>h_credentials = credentials, h_authorized = authorized\<rparr>\<rparr>)"

type_synonym service =
  "string \<times> (ConnectionCredentials \<Rightarrow> AuthorizedChannel \<Rightarrow> open_request \<Rightarrow> (goerr, open_decision) result)"

text \<open>\<open>None\<close> in the argument list is a nil service.\<close>

fun register_services :: "service list \<Rightarrow> service option list \<Rightarrow> (goerr, service list) result" where
  "register_services services [] = Inr services"
| "register_services services (None # rest) = Inl (EErr ''registered service is required'')"
| "register_services services (Some (channelType, open_fn) # rest) =
    (if channelType = [] then Inl (EErr ''registered service channel type is required'')
     else if channelType \<in> fst ` set services then Inl (EErr ''duplicate service for channel type'')
     else register_services (services @ [(channelType, open_fn)]) rest)"

record Registry =
  rg_credentials :: ConnectionCredentials
  rg_authorizer :: "AuthzServer option"
  rg_services :: "service list"

definition NewRegistry ::
    "ConnectionCredentials \<Rightarrow> AuthzServer option \<Rightarrow> service option list \<Rightarrow> (goerr, Registry) result" where
  "NewRegistry credentials authorizer registered =
    (if authorizer = None then Inl (EErr ''channel authorizer is required'')
     else case register_services [] registered of
       Inl e \<Rightarrow> Inl e
     | Inr services \<Rightarrow> Inr \<lparr>rg_credentials = credentials, rg_authorizer = authorizer, rg_services = services\<rparr>)"

definition Registry_OnChannelOpen :: "Registry option \<Rightarrow> goerr option \<Rightarrow> open_request \<Rightarrow> open_decision" where
  "Registry_OnChannelOpen r ctx_err request =
    (case r of
       None \<Rightarrow> service_rejected ''unsupported-channel-open'' ''incoming channel opens are not supported''
     | Some registry \<Rightarrow>
    (case map_of (rg_services registry) (or_Type request) of
       None \<Rightarrow> service_rejected ''unsupported-channel-type'' ''channel type is not supported''
     | Some open_fn \<Rightarrow>
    (case AuthorizeChannel (rg_authorizer registry) ctx_err (rg_credentials registry)
            \<lparr>car_Type = or_Type request, car_Payload = or_Payload request\<rparr> of
       Inl _ \<Rightarrow> service_rejected ''channel-not-authorized'' ''channel is not authorized''
     | Inr authorized \<Rightarrow>
    (case open_fn (rg_credentials registry) authorized request of
       Inl _ \<Rightarrow> service_rejected ''channel-open-failed'' ''channel could not be opened''
     | Inr decision \<Rightarrow> decision))))"

definition command_registry :: "ConnectionCredentials \<Rightarrow> AuthzServer \<Rightarrow> (goerr, Registry) result" where
  "command_registry credentials authz =
    NewRegistry credentials (Some authz) [Some (CommandChannelType, Service_Open)]"

section \<open>Channels\<close>

lemma register_services_types:
  "register_services services registered = Inr r \<Longrightarrow> distinct (map fst services) \<Longrightarrow> [] \<notin> fst ` set services
    \<Longrightarrow> distinct (map fst r) \<and> [] \<notin> fst ` set r"
  by (induction services registered rule: register_services.induct) (auto split: if_splits)

lemma command_registry_eq:
  "command_registry cred authz
    = Inr \<lparr>rg_credentials = cred, rg_authorizer = Some authz, rg_services = [(CommandChannelType, Service_Open)]\<rparr>"
  by (simp add: command_registry_def NewRegistry_def CommandChannelType_def)

lemma AuthorizeChannel_ok:
  assumes "AuthorizeChannel server ctx_err cred request = Inr c"
  shows "car_Type request = CommandChannelType" "cp_allowCommand (cc_permissions cred)"
    "ConnectionCredentials_validate cred = None"
    "c = \<lparr>ac_channelType = CommandChannelType, ac_credentialIdentity = cc_identityToken cred\<rparr>"
  using assms by (auto simp: AuthorizeChannel_def split: if_splits option.splits)

lemma command_channel_opened:
  assumes "command_registry cred authz = Inr registry"
    and "Registry_OnChannelOpen (Some registry) ctx_err request = d" and "od_OK d"
  shows "or_Type request = CommandChannelType \<and> or_Payload request = []
    \<and> cp_allowCommand (cc_permissions cred)
    \<and> od_Handler d = Some \<lparr>h_credentials = cred,
        h_authorized = \<lparr>ac_channelType = CommandChannelType, ac_credentialIdentity = cc_identityToken cred\<rparr>\<rparr>"
proof -
  from assms obtain c where c: "AuthorizeChannel (Some authz) ctx_err cred
        \<lparr>car_Type = or_Type request, car_Payload = or_Payload request\<rparr> = Inr c"
    and "Service_Open cred c request = Inr d"
    by (auto simp: command_registry_eq Registry_OnChannelOpen_def service_rejected_def
        split: option.splits sum.splits if_splits)
  then show ?thesis using AuthorizeChannel_ok [OF c] by (auto simp: Service_Open_def split: if_splits)
qed

section \<open>An authorized launch is a valid specification\<close>

text \<open>What the account resolver promises: C strings and the primary group not repeated.\<close>

definition resolved_account :: "Account \<Rightarrow> bool" where
  "resolved_account a \<longleftrightarrow> \<not> ContainsNUL (acc_Username a) \<and> \<not> ContainsNUL (acc_HomeDir a)
    \<and> \<not> ContainsNUL (acc_LoginShell a)
    \<and> distinct (map grp_Id (acc_SupplementaryGroups a))
    \<and> grp_Id (acc_PrimaryGroup a) \<notin> set (map grp_Id (acc_SupplementaryGroups a))"

lemma filepath_Base_nonempty: "filepath_Base path \<noteq> []"
proof -
  let ?s = "dropWhile (\<lambda>c. c = slash) (rev path)"
  have "takeWhile (\<lambda>c. c \<noteq> slash) ?s \<noteq> []" if ne: "?s \<noteq> []"
  proof -
    obtain c cs where "?s = c # cs" using ne by (meson neq_Nil_conv)
    moreover from this have "c \<noteq> slash" using hd_dropWhile [of "\<lambda>c. c = slash" "rev path"] by auto
    ultimately show ?thesis by simp
  qed
  then show ?thesis by (simp add: filepath_Base_def Let_def)
qed

lemma toLaunchRequest_sound:
  assumes "toLaunchRequest request = Inr launch"
  shows "lr_PTY launch = map_option launch_PTY (sr_PTY request)" "lr_Command launch = sr_Command request"
    "lr_Kind launch = (case sr_Kind request of StartShell \<Rightarrow> LaunchShell | _ \<Rightarrow> LaunchExec)"
  using assms
  by (auto simp: toLaunchRequest_def Let_def split: StartKind.splits option.splits if_splits)

lemma decodeStart_PTY: "decodeStart s = Inr request \<Longrightarrow> sr_PTY request = pbs_pty s"
  by (auto simp: decodeStart_def Let_def split: pb_target.splits sum.splits)

lemma authorized_environment_valid:
  assumes "environment_ok requested allowed env" "set allowed \<inter> set protectedEnvironment = {}"
  shows "validate_requested env = None"
  unfolding validate_requested_None
proof (clarify, intro conjI)
  fix n v assume nv: "(n, v) \<in> set env"
  then have "validateEnvironmentName n = None" "\<not> ContainsNUL v" "n \<in> set allowed"
    using assms(1) by (force simp: environment_ok_def list_all_iff)+
  then show "validateEnvironment n v = None" "n \<notin> set protectedEnvironment"
    using assms(2) by (auto simp: validateEnvironmentName_def validateEnvironment_def split: if_splits)
qed

lemma trusted_environment_valid:
  assumes "resolved_account a" "\<not> ContainsNUL shell"
  shows "validate_trusted [(''HOME'', acc_HomeDir a), (''USER'', acc_Username a),
    (''LOGNAME'', acc_Username a), (''SHELL'', shell), (''PATH'', trustedPath)] = None"
  using assms
  by (simp add: validateEnvironment_def resolved_account_def ContainsAny_def NUL_def)
    (simp add: ContainsNUL_def NUL_def trustedPath_def)

lemma launch_kind_known:
  assumes "AuthorizeLaunch server ctx_err cred channel launch = Inr als"
  shows "als_kind als = LaunchShell \<or> als_kind als = LaunchExec"
  by (rule AuthorizeLaunch_spec [OF assms]) (auto simp: check_kind_def split: LaunchKind.splits)

lemma toProcessSpec_fields:
  assumes "toProcessSpec als = Inr spec"
  shows "sp_Executable spec = als_executable als" "sp_WorkingDirectory spec = als_workingDirectory als"
    "sp_TrustedEnvironment spec =
      [(''HOME'', acc_HomeDir (als_account als)), (''USER'', acc_Username (als_account als)),
       (''LOGNAME'', acc_Username (als_account als)), (''SHELL'', als_executable als), (''PATH'', trustedPath)]"
    "sp_RequestedEnvironment spec = als_environment als"
    "sp_UID spec = acc_Id (als_account als)" "sp_GID spec = grp_Id (acc_PrimaryGroup (als_account als))"
    "sp_SupplementaryGroups spec = map grp_Id (acc_SupplementaryGroups (als_account als))"
    "sp_PTY spec = map_option process_PTY (als_pty als)" "sp_TerminationGrace spec = 0"
    "sp_Argv spec = (if als_kind als = LaunchShell then [''-'' @ filepath_Base (als_executable als)]
       else [filepath_Base (als_executable als), ''-c'', als_command als])"
  using assms by (auto simp: toProcessSpec_def Let_def split: LaunchKind.splits)

text \<open>
  C35: What the server authorizes, the runner accepts.  For a start message that passes the protocol's
  validation and a launch that is authorized for a resolved account, the process specification
  exists and is valid, provided the configured environment names none of the protected variables:
  no authorized command fails in the runner's own checks.
\<close>

theorem authorized_spec_valid:
  assumes "valid_start s" and "decodeStart s = Inr request" and "toLaunchRequest request = Inr launch"
    and "AuthorizeLaunch server ctx_err cred channel launch = Inr als"
    and "set (cp_allowedEnvironment (cc_permissions cred)) \<inter> set protectedEnvironment = {}"
    and "resolved_account (cc_account cred)"
  shows "\<exists>spec. toProcessSpec als = Inr spec \<and> Spec_validate spec = None"
proof -
  obtain spec where spec: "toProcessSpec als = Inr spec"
    using launch_kind_known [OF assms(4)] by (auto simp: toProcessSpec_def Let_def)
  note f = toProcessSpec_fields [OF spec]
  obtain env where
    abs: "IsAbs (acc_HomeDir (cc_account cred))" "IsAbs (acc_LoginShell (cc_account cred))"
    and pty: "check_pty (cc_permissions cred) launch = None"
    and env: "authorizeEnvironment (lr_Environment launch) (cp_allowedEnvironment (cc_permissions cred)) = Inr env"
    and als: "als_executable als = acc_LoginShell (cc_account cred)"
      "als_workingDirectory als = acc_HomeDir (cc_account cred)" "als_pty als = lr_PTY launch"
      "als_environment als = env" "als_account als = cc_account cred"
    by (rule AuthorizeLaunch_spec [OF assms(4)]) simp
  note eok = authorizeEnvironment_sound [OF env]
  have "validate_PTY (sp_PTY spec) = None"
  proof (cases "sr_PTY request")
    case None
    then show ?thesis using f als toLaunchRequest_sound(1) [OF assms(3)] by (simp add: validate_PTY_def)
  next
    case (Some p)
    then have "valid_pty p" using assms(1) decodeStart_PTY [OF assms(2)] by (simp add: valid_start_def)
    moreover have "\<not> ContainsNUL (cpty_Terminal p)"
      using pty toLaunchRequest_sound(1) [OF assms(3)] Some
      by (auto simp: check_pty_def launch_PTY_def split: if_splits)
    moreover have "sp_PTY spec = Some (process_PTY (launch_PTY p))"
      using f als toLaunchRequest_sound(1) [OF assms(3)] Some by simp
    ultimately show ?thesis
      by (auto simp: validate_PTY_def valid_pty_def valid_dimension_def bad_dimensions_def process_PTY_def
          launch_PTY_def)
  qed
  moreover have "length env \<le> 128" using eok by (simp add: environment_ok_def)
  moreover have "validate_trusted (sp_TrustedEnvironment spec) = None"
    using trusted_environment_valid [OF assms(6)] assms(6) f als by (simp add: resolved_account_def)
  moreover have "validate_requested (sp_RequestedEnvironment spec) = None"
    using authorized_environment_valid [OF eok assms(5)] f als by simp
  moreover have "validate_groups (sp_GID spec) [] (sp_SupplementaryGroups spec) = None"
    using assms(6) f als by (simp add: validate_groups_None resolved_account_def)
  ultimately have "Spec_validate spec = None"
    using abs f als filepath_Base_nonempty [of "acc_LoginShell (cc_account cred)"]
    by (simp add: Spec_validate_None)
  then show ?thesis using spec by blast
qed

lemma resolved_groups:
  assumes "OSResolver_Resolve c ctx_err username = Some (Inr a)"
  shows "distinct (map grp_Id (acc_SupplementaryGroups a))
    \<and> grp_Id (acc_PrimaryGroup a) \<notin> set (map grp_Id (acc_SupplementaryGroups a))"
proof -
  obtain pwd where "lookupSupplementaryGroups c pwd (grp_Id (acc_PrimaryGroup a))
      = Some (Inr (acc_SupplementaryGroups a))"
    using assms by (auto simp: OSResolver_Resolve_def split: option.splits sum.splits prod.splits)
  then obtain ids where "supplementary_loop c [grp_Id (acc_PrimaryGroup a)] [] ids
      = Some (Inr (acc_SupplementaryGroups a))"
    by (auto simp: lookupSupplementaryGroups_def split: option.splits sum.splits)
  from supplementary_loop_ids [OF this] show ?thesis
    by (auto simp: distinct_first_occurrences set_first_occurrences simp flip: set_map)
qed

section \<open>A command runs as the authenticated account\<close>

lemma Runner_Start_spec:
  "Runner_Start me w ctx_err spec = (Inr p, l)
    \<Longrightarrow> p_spec p = spec \<and> Spec_validate spec = None \<and> (\<exists>c. credentialFor me spec = Inr c)"
  by (auto simp: Runner_Start_def new_running_def split: option.splits sum.splits prod.splits)

lemma started_process_account:
  assumes "command_registry cred authz = Inr registry"
    and "od_OK (Registry_OnChannelOpen (Some registry) ctx0 open_req)"
    and "od_Handler (Registry_OnChannelOpen (Some registry) ctx0 open_req) = Some h"
    and "start_command (Some authz) me w ctx1 ctx2 h request = (Inr p, l)"
  shows "sp_UID (p_spec p) = acc_Id (cc_account cred)
    \<and> sp_GID (p_spec p) = grp_Id (acc_PrimaryGroup (cc_account cred))
    \<and> sp_SupplementaryGroups (p_spec p) = map grp_Id (acc_SupplementaryGroups (cc_account cred))
    \<and> (\<exists>c. credentialFor me (p_spec p) = Inr c)
    \<and> sp_Executable (p_spec p) = acc_LoginShell (cc_account cred)
    \<and> sp_WorkingDirectory (p_spec p) = acc_HomeDir (cc_account cred)
    \<and> (cp_forcedCommand (cc_permissions cred) \<noteq> [] \<longrightarrow>
        sp_Argv (p_spec p) = [filepath_Base (acc_LoginShell (cc_account cred)), ''-c'',
          cp_forcedCommand (cc_permissions cred)])
    \<and> (sp_PTY (p_spec p) \<noteq> None \<longrightarrow> cp_allowPTY (cc_permissions cred))
    \<and> (\<forall>n \<in> set protectedEnvironment. combined_environment (p_spec p) n
        = map_of [(''HOME'', acc_HomeDir (cc_account cred)), (''USER'', acc_Username (cc_account cred)),
            (''LOGNAME'', acc_Username (cc_account cred)), (''SHELL'', acc_LoginShell (cc_account cred)),
            (''PATH'', trustedPath)] n)"
proof -
  have h: "h_credentials h = cred" using command_channel_opened [OF assms(1) refl assms(2)] assms(3) by simp
  from assms(4) obtain launch als spec where
    launch: "toLaunchRequest request = Inr launch"
    and auth: "AuthorizeLaunch (Some authz) ctx1 cred (h_authorized h) launch = Inr als"
    and spec: "toProcessSpec als = Inr spec" and run: "Runner_Start me w ctx2 spec = (Inr p, l)"
    by (auto simp: start_command_def authorizedStarter_Start_def h split: sum.splits)
  note f = toProcessSpec_fields [OF spec]
  obtain env where
    pty: "check_pty (cc_permissions cred) launch = None"
    and als: "als_executable als = acc_LoginShell (cc_account cred)"
      "als_workingDirectory als = acc_HomeDir (cc_account cred)" "als_pty als = lr_PTY launch"
      "als_account als = cc_account cred"
    and forced: "cp_forcedCommand (cc_permissions cred) \<noteq> [] \<Longrightarrow>
      als_kind als = LaunchExec \<and> als_command als = cp_forcedCommand (cc_permissions cred)"
    by (rule AuthorizeLaunch_spec [OF auth]) simp
  have p: "p_spec p = spec" "Spec_validate spec = None" "\<exists>c. credentialFor me spec = Inr c"
    using Runner_Start_spec [OF run] by simp_all
  have "sp_PTY spec \<noteq> None \<longrightarrow> cp_allowPTY (cc_permissions cred)"
    using pty f als by (auto simp: check_pty_def split: option.splits if_splits)
  then show ?thesis using p f als forced protected_trusted [OF p(2)] by simp
qed


section \<open>Examples\<close>

definition example_start_message :: pb_start where
  "example_start_message =
    \<lparr>pbs_version = 1, pbs_target = TargetExec ''rm -rf /'', pbs_pty = None, pbs_environment = []\<rparr>"

definition example_start_request :: StartRequest where
  "example_start_request = \<lparr>sr_Kind = StartExec, sr_Command = ''rm -rf /'', sr_PTY = None, sr_Environment = []\<rparr>"

definition example_start_world :: start_world where
  "example_start_world =
    \<lparr>sw_stdin = Inr (3, 4), sw_stdout = Inr (5, 6), sw_stderr = Inr (7, 8), sw_start = (\<lambda>_. Inr 42),
     sw_startPTY = (\<lambda>_ _ _. Inl EIoEOF)\<rparr>"

definition example_runner_identity :: identity where
  "example_runner_identity = \<lparr>id_euid = 1000, id_egid = 100, id_groups = Inr [100]\<rparr>"

definition example_handler :: channelHandler where
  "example_handler = \<lparr>h_credentials = example_credentials, h_authorized = example_channel\<rparr>"

lemma example_start_launch:
  "decodeStart example_start_message = Inr example_start_request"
  "toLaunchRequest example_start_request = Inr example_launch"
  by code_simp+

theorem authorized_spec_valid_witness:
  "\<exists>spec. toProcessSpec example_spec = Inr spec \<and> Spec_validate spec = None
     \<and> sp_Argv spec = [''sh'', ''-c'', ''/bin/backup'']"
proof -
  have v: "valid_start example_start_message"
    by (simp add: valid_start_def example_start_message_def runes_in_def rune_count_def)
  have e: "set (cp_allowedEnvironment (cc_permissions example_credentials)) \<inter> set protectedEnvironment = {}"
    by (simp add: example_credentials_def)
  have a: "resolved_account (cc_account example_credentials)"
    by (simp add: resolved_account_def example_credentials_def example_account_def ContainsNUL_def NUL_def)
  have "case toProcessSpec example_spec of Inl _ \<Rightarrow> False | Inr spec \<Rightarrow> sp_Argv spec = [''sh'', ''-c'', ''/bin/backup'']"
    by code_simp
  then show ?thesis
    using authorized_spec_valid [OF v example_start_launch example_launched e a] by (auto split: sum.splits)
qed


end
