(* ===== verification/Wire.thy ===== *)
theory Wire
  imports Go_Strings
begin

text \<open>
  Messages over a framed byte stream (\<open>lib/wire/proto.go\<close>).  The protobuf codec and the validation
  rules of a message type are arguments; the frame is what the framer's \<open>SendFrame\<close> is given or
  its \<open>ReceiveFrame\<close> returned.
\<close>

definition SendProto ::
    "('m \<Rightarrow> bool) \<Rightarrow> ('m \<Rightarrow> (goerr, bytes) result) \<Rightarrow> (bytes \<Rightarrow> goerr option) \<Rightarrow> 'm \<Rightarrow> goerr option" where
  "SendProto valid enc send message =
    (if \<not> valid message then Some (EWrap ''validate message'' (EErr ''invalid''))
     else case enc message of
       Inl e \<Rightarrow> Some (EWrap ''encode message'' e)
     | Inr packet \<Rightarrow>
         (case send packet of Some e \<Rightarrow> Some (EWrap ''send message'' e) | None \<Rightarrow> None))"

definition ReceiveProto ::
    "('m \<Rightarrow> bool) \<Rightarrow> (bytes \<Rightarrow> (goerr, 'm) result) \<Rightarrow> (goerr, bytes) result \<Rightarrow> (goerr, 'm) result" where
  "ReceiveProto valid dec received =
    (case received of
       Inl e \<Rightarrow> Inl e
     | Inr packet \<Rightarrow>
         if packet = [] then Inl (EErr ''wire: empty message'')
         else (case dec packet of
                 Inl e \<Rightarrow> Inl (EWrap ''decode message'' e)
               | Inr message \<Rightarrow>
                   if valid message then Inr message else Inl (EWrap ''validate message'' (EErr ''invalid''))))"

text \<open>What a valid message is encoded to is not empty and is decoded to the message.\<close>

definition wire_codec ::
    "('m \<Rightarrow> bool) \<Rightarrow> ('m \<Rightarrow> (goerr, bytes) result) \<Rightarrow> (bytes \<Rightarrow> (goerr, 'm) result) \<Rightarrow> bool" where
  "wire_codec valid enc dec \<longleftrightarrow> (\<forall>m b. valid m \<and> enc m = Inr b \<longrightarrow> b \<noteq> [] \<and> dec b = Inr m)"

lemma Send_ok:
  "SendProto valid enc send m = None \<longleftrightarrow> valid m \<and> (\<exists>b. enc m = Inr b \<and> send b = None)"
  by (auto simp: SendProto_def split: sum.splits option.splits)

lemma Receive_encoded:
  "wire_codec valid enc dec \<Longrightarrow> valid m \<Longrightarrow> enc m = Inr b \<Longrightarrow> ReceiveProto valid dec (Inr b) = Inr m"
  by (simp add: ReceiveProto_def wire_codec_def)

lemma Receive_valid: "ReceiveProto valid dec r = Inr m \<Longrightarrow> valid m"
  by (auto simp: ReceiveProto_def split: if_splits sum.splits)

end
