(* ===== verification/Auth.thy ===== *)
theory Auth
  imports Keys Wire
begin

text \<open>
  Mutual authentication over a secure channel (\<open>lib/auth\<close>): the messages, the signed payloads, the
  client and the server side, and the server's final decision.  Ed25519, SHA-256, the SSH key
  format and the protobuf codecs are parameters.
\<close>

section \<open>Messages\<close>

record HostAuthInit =
  hai_version :: string
  hai_nonce :: bytes
  hai_identity :: string

record ServerAuth =
  sa_key :: bytes
  sa_nonce :: bytes
  sa_sig :: bytes

record ClientAuthRequest =
  cq_username :: string
  cq_key :: bytes
  cq_alg :: string
  cq_sig :: bytes

datatype ClientAuthResponse = RespUnset | RespOk | RespReject string string

datatype AuthFrame =
    AFUnset
  | AFInit HostAuthInit
  | AFServer ServerAuth
  | AFRequest ClientAuthRequest
  | AFResponse ClientAuthResponse
  | AFError string string

primrec valid_AuthFrame :: "AuthFrame \<Rightarrow> bool" where
  "valid_AuthFrame AFUnset \<longleftrightarrow> False"
| "valid_AuthFrame (AFInit m) \<longleftrightarrow> hai_version m \<noteq> [] \<and> length (hai_nonce m) = 32 \<and> hai_identity m \<noteq> []"
| "valid_AuthFrame (AFServer m) \<longleftrightarrow> sa_key m \<noteq> [] \<and> length (sa_nonce m) = 32 \<and> sa_sig m \<noteq> []"
| "valid_AuthFrame (AFRequest m) \<longleftrightarrow> cq_username m \<noteq> [] \<and> cq_key m \<noteq> [] \<and> cq_alg m \<noteq> [] \<and> cq_sig m \<noteq> []"
| "valid_AuthFrame (AFResponse r) \<longleftrightarrow> (case r of RespUnset \<Rightarrow> False | RespOk \<Rightarrow> True | RespReject code msg \<Rightarrow> msg \<noteq> [])"
| "valid_AuthFrame (AFError code msg) \<longleftrightarrow> msg \<noteq> []"

section \<open>Signed payloads\<close>

definition ProtocolVersion :: string where "ProtocolVersion = ''mygosh-auth-v1''"
definition ServerAuthContext :: string where "ServerAuthContext = ''mygosh-server-auth-to-sign-v1''"
definition ClientAuthContext :: string where "ClientAuthContext = ''mygosh-client-auth-to-sign-v1''"
definition DigestSize :: nat where "DigestSize = 32"
definition NonceSize :: nat where "NonceSize = 32"

record ServerAuthToSign =
  st_binding :: bytes
  st_initHash :: bytes
  st_key :: bytes
  st_nonce :: bytes

record ClientAuthToSign =
  cs_binding :: bytes
  cs_initHash :: bytes
  cs_serverHash :: bytes
  cs_username :: string
  cs_key :: bytes
  cs_alg :: string

definition validateBytesLen :: "string \<Rightarrow> bytes \<Rightarrow> nat \<Rightarrow> goerr option" where
  "validateBytesLen lbl b want =
    (if length b \<noteq> want then Some (EErr (lbl @ '' length does not match expected length'')) else None)"

definition validateDigest :: "string \<Rightarrow> bytes \<Rightarrow> goerr option" where
  "validateDigest lbl b = validateBytesLen lbl b DigestSize"

definition ServerAuthToSign_Validate :: "ServerAuthToSign \<Rightarrow> goerr option" where
  "ServerAuthToSign_Validate p =
    (case validateDigest ''channel binding'' (st_binding p) of
       Some e \<Rightarrow> Some e
     | None \<Rightarrow>
    (case validateDigest ''host auth init hash'' (st_initHash p) of
       Some e \<Rightarrow> Some e
     | None \<Rightarrow>
         if st_key p = [] then Some (EErr ''server host key is required'')
         else validateBytesLen ''server nonce'' (st_nonce p) NonceSize))"

definition ClientAuthToSign_Validate :: "ClientAuthToSign \<Rightarrow> goerr option" where
  "ClientAuthToSign_Validate p =
    (case validateDigest ''channel binding'' (cs_binding p) of
       Some e \<Rightarrow> Some e
     | None \<Rightarrow>
    (case validateDigest ''host auth init hash'' (cs_initHash p) of
       Some e \<Rightarrow> Some e
     | None \<Rightarrow>
    (case validateDigest ''server auth hash'' (cs_serverHash p) of
       Some e \<Rightarrow> Some e
     | None \<Rightarrow>
         if cs_username p = [] then Some (EErr ''username is required'')
         else if cs_key p = [] then Some (EErr ''client public key or cert is required'')
         else if cs_alg p = [] then Some (EErr ''client signature algorithm is required'')
         else None)))"

text \<open>
  What the code takes from libraries.  \<open>ae_marshal_*\<close> are the deterministic protobuf encodings that
  are hashed and signed; the signed ones start with their context string.
\<close>

record auth_env =
  ae_derive :: "bytes \<Rightarrow> bytes"
  ae_sign :: "bytes \<Rightarrow> bytes \<Rightarrow> bytes"
  ae_verify :: "bytes \<Rightarrow> bytes \<Rightarrow> bytes \<Rightarrow> bool"
  ae_sha256 :: "bytes \<Rightarrow> bytes"
  ae_ssh_marshal :: "bytes \<Rightarrow> (goerr, bytes) result"
  ae_ssh_parse :: "bytes \<Rightarrow> (goerr, ssh_key) result"
  ae_enc :: "AuthFrame \<Rightarrow> (goerr, bytes) result"
  ae_dec :: "bytes \<Rightarrow> (goerr, AuthFrame) result"
  ae_marshal_init :: "HostAuthInit \<Rightarrow> (goerr, bytes) result"
  ae_marshal_server :: "bytes \<Rightarrow> bytes \<Rightarrow> (goerr, bytes) result"
  ae_marshal_ssign :: "string \<Rightarrow> ServerAuthToSign \<Rightarrow> (goerr, bytes) result"
  ae_marshal_csign :: "string \<Rightarrow> ClientAuthToSign \<Rightarrow> (goerr, bytes) result"

definition hashProtoMessage :: "auth_env \<Rightarrow> (goerr, bytes) result \<Rightarrow> (goerr, bytes) result" where
  "hashProtoMessage env packet =
    (case packet of
       Inl e \<Rightarrow> Inl (EWrap ''marshal auth transcript'' e)
     | Inr b \<Rightarrow> Inr (ae_sha256 env b))"

definition HashHostAuthInit :: "auth_env \<Rightarrow> HostAuthInit \<Rightarrow> (goerr, bytes) result" where
  "HashHostAuthInit env msg = hashProtoMessage env (ae_marshal_init env msg)"

definition HashServerAuthFields :: "auth_env \<Rightarrow> bytes \<Rightarrow> bytes \<Rightarrow> (goerr, bytes) result" where
  "HashServerAuthFields env serverHostKey serverNonce =
    hashProtoMessage env (ae_marshal_server env serverHostKey serverNonce)"

definition HashServerAuthMessage :: "auth_env \<Rightarrow> ServerAuth \<Rightarrow> (goerr, bytes) result" where
  "HashServerAuthMessage env msg = HashServerAuthFields env (sa_key msg) (sa_nonce msg)"

definition ServerAuthToSign_MarshalBinary :: "auth_env \<Rightarrow> ServerAuthToSign \<Rightarrow> (goerr, bytes) result" where
  "ServerAuthToSign_MarshalBinary env p =
    (case ServerAuthToSign_Validate p of
       Some e \<Rightarrow> Inl e
     | None \<Rightarrow>
         (case ae_marshal_ssign env ServerAuthContext p of
            Inl e \<Rightarrow> Inl (EWrap ''marshal server auth payload'' e)
          | Inr b \<Rightarrow> Inr b))"

definition ClientAuthToSign_MarshalBinary :: "auth_env \<Rightarrow> ClientAuthToSign \<Rightarrow> (goerr, bytes) result" where
  "ClientAuthToSign_MarshalBinary env p =
    (case ClientAuthToSign_Validate p of
       Some e \<Rightarrow> Inl e
     | None \<Rightarrow>
         (case ae_marshal_csign env ClientAuthContext p of
            Inl e \<Rightarrow> Inl (EWrap ''marshal client auth payload'' e)
          | Inr b \<Rightarrow> Inr b))"

section \<open>State and connection\<close>

datatype authState =
    NoiseEstablished | HostAuthInitSent | HostAuthInitRecv | ServerAuthSent | ServerAuthRecv
  | ClientAuthSent | ClientAuthRecv | Authenticated

definition auth_advance :: "authState \<Rightarrow> authState \<Rightarrow> authState \<Rightarrow> (goerr, authState) result" where
  "auth_advance state expected nxt =
    (if state \<noteq> expected then Inl (EErr ''auth state cannot transition'') else Inr nxt)"

text \<open>
  The bound framer: its channel binding, what sending a packet returns, and what the first and the
  second \<open>ReceiveFrame\<close> return.
\<close>

record auth_conn =
  an_binding :: bytes
  an_send :: "bytes \<Rightarrow> goerr option"
  an_recv1 :: "(goerr, bytes) result"
  an_recv2 :: "(goerr, bytes) result"

definition sendAuthFrame :: "auth_env \<Rightarrow> auth_conn \<Rightarrow> AuthFrame \<Rightarrow> goerr option" where
  "sendAuthFrame env conn frame = SendProto valid_AuthFrame (ae_enc env) (an_send conn) frame"

definition receiveAuthFrame :: "auth_env \<Rightarrow> (goerr, bytes) result \<Rightarrow> (goerr, AuthFrame) result" where
  "receiveAuthFrame env received =
    (case ReceiveProto valid_AuthFrame (ae_dec env) received of
       Inl e \<Rightarrow> Inl (EWrap ''receive auth frame'' e)
     | Inr f \<Rightarrow> Inr f)"

definition receiveHostAuthInit :: "auth_env \<Rightarrow> (goerr, bytes) result \<Rightarrow> (goerr, HostAuthInit) result" where
  "receiveHostAuthInit env received =
    (case receiveAuthFrame env received of
       Inl e \<Rightarrow> Inl (EWrap ''receive host auth init'' e)
     | Inr (AFInit m) \<Rightarrow> Inr m
     | Inr (AFError code msg) \<Rightarrow> Inl (EErr ''peer rejected auth'')
     | Inr _ \<Rightarrow> Inl (EErr ''expected host auth init''))"

definition receiveServerAuth :: "auth_env \<Rightarrow> (goerr, bytes) result \<Rightarrow> (goerr, ServerAuth) result" where
  "receiveServerAuth env received =
    (case receiveAuthFrame env received of
       Inl e \<Rightarrow> Inl (EWrap ''receive server auth'' e)
     | Inr (AFServer m) \<Rightarrow> Inr m
     | Inr (AFError code msg) \<Rightarrow> Inl (EErr ''server rejected auth'')
     | Inr _ \<Rightarrow> Inl (EErr ''expected server auth''))"

definition receiveClientAuthRequest :: "auth_env \<Rightarrow> (goerr, bytes) result \<Rightarrow> (goerr, ClientAuthRequest) result" where
  "receiveClientAuthRequest env received =
    (case receiveAuthFrame env received of
       Inl e \<Rightarrow> Inl (EWrap ''receive client auth request'' e)
     | Inr (AFRequest m) \<Rightarrow> Inr m
     | Inr (AFError code msg) \<Rightarrow> Inl (EErr ''peer rejected auth'')
     | Inr _ \<Rightarrow> Inl (EErr ''expected client auth request''))"

definition receiveClientAuthResponse :: "auth_env \<Rightarrow> (goerr, bytes) result \<Rightarrow> (goerr, ClientAuthResponse) result" where
  "receiveClientAuthResponse env received =
    (case receiveAuthFrame env received of
       Inl e \<Rightarrow> Inl (EWrap ''receive client auth response'' e)
     | Inr (AFResponse m) \<Rightarrow> Inr m
     | Inr (AFError code msg) \<Rightarrow> Inl (EErr ''server rejected auth'')
     | Inr _ \<Rightarrow> Inl (EErr ''expected client auth response''))"

section \<open>Client\<close>

text \<open>\<open>None\<close> in a provider or verifier field is a nil interface.\<close>

record ClientConfig =
  ccf_ReferenceIdentity :: string
  ccf_Username :: string
  ccf_ClientIdentityProvider :: "(string \<Rightarrow> string \<Rightarrow> PublicKey \<Rightarrow> (goerr, Keypair) result) option"
  ccf_VerifyServerHostKey :: "(string \<Rightarrow> PublicKey \<Rightarrow> goerr option) option"

definition ClientConfig_Validate :: "ClientConfig \<Rightarrow> goerr option" where
  "ClientConfig_Validate c =
    (if ccf_ReferenceIdentity c = [] then Some (EErr ''reference identity is required'')
     else if ccf_Username c = [] then Some (EErr ''username is required'')
     else if ccf_ClientIdentityProvider c = None then Some (EErr ''client identity provider is required'')
     else if ccf_VerifyServerHostKey c = None then Some (EErr ''server host key verifier is required'')
     else None)"

definition StaticClientIdentityProvider ::
    "(bytes \<Rightarrow> bytes) \<Rightarrow> Keypair \<Rightarrow> string \<Rightarrow> string \<Rightarrow> PublicKey \<Rightarrow> (goerr, Keypair) result" where
  "StaticClientIdentityProvider derive keypair _ _ _ =
    (case Keypair_Validate derive keypair of
       Some e \<Rightarrow> Inl (EWrap ''client identity key'' e)
     | None \<Rightarrow> Inr keypair)"

definition ExactHostKeyVerifier :: "string \<Rightarrow> PublicKey \<Rightarrow> string \<Rightarrow> PublicKey \<Rightarrow> goerr option" where
  "ExactHostKeyVerifier referenceIdentity expected reqIdentity reqKey =
    (if reqIdentity \<noteq> referenceIdentity then Some (EErr ''reference identity does not match expected'')
     else if \<not> PublicKey_Equal reqKey expected then Some (EErr ''unexpected host key fingerprint'')
     else None)"

record ClientResult =
  cres_ReferenceIdentity :: string
  cres_ServerHostKey :: PublicKey
  cres_Username :: string
  cres_PublicKey :: PublicKey

text \<open>
  What an authentication does, in order: frames handed to \<open>SendProto\<close>, whether or not sending them
  succeeded, and payloads signed, with the private key.  A result of \<open>None\<close> is a panic.
\<close>

datatype auth_event = Sent AuthFrame | Signed bytes bytes

type_synonym 'a authenticated = "(goerr, 'a) result option \<times> auth_event list"

definition host_auth_init :: "ClientConfig \<Rightarrow> bytes \<Rightarrow> HostAuthInit" where
  "host_auth_init cfg clientNonce =
    \<lparr>hai_version = ProtocolVersion, hai_nonce = clientNonce, hai_identity = ccf_ReferenceIdentity cfg\<rparr>"

text \<open>From the received \<open>ServerAuth\<close> to the request to send: the server's proof comes first.\<close>

definition client_proof ::
    "auth_env \<Rightarrow> bytes \<Rightarrow> ClientConfig \<Rightarrow> bytes \<Rightarrow> ServerAuth \<Rightarrow> (string \<Rightarrow> string \<Rightarrow> PublicKey \<Rightarrow> (goerr, Keypair) result)
      \<Rightarrow> PublicKey \<Rightarrow> (PublicKey \<times> ClientAuthRequest) authenticated" where
  "client_proof env binding cfg hostAuthInitHash serverAuth identity serverHostKey =
    (case HashServerAuthMessage env serverAuth of
       Inl e \<Rightarrow> (Some (Inl (EWrap ''hash server auth'' e)), [])
     | Inr serverAuthHash \<Rightarrow>
    (case identity (ccf_ReferenceIdentity cfg) (ccf_Username cfg) serverHostKey of
       Inl e \<Rightarrow> (Some (Inl (EWrap ''select client identity'' e)), [])
     | Inr clientKey \<Rightarrow>
    (case Keypair_Validate (ae_derive env) clientKey of
       Some e \<Rightarrow> (Some (Inl (EWrap ''validate client identity'' e)), [])
     | None \<Rightarrow>
    (let clientPublicKey = Keypair_PublicKey clientKey
     in case MarshalBinary (ae_ssh_marshal env) clientPublicKey of
       Inl e \<Rightarrow> (Some (Inl (EWrap ''encode client public key'' e)), [])
     | Inr blob \<Rightarrow>
    (case ClientAuthToSign_MarshalBinary env
            \<lparr>cs_binding = binding, cs_initHash = hostAuthInitHash, cs_serverHash = serverAuthHash,
             cs_username = ccf_Username cfg, cs_key = blob, cs_alg = pk_Algorithm clientPublicKey\<rparr> of
       Inl e \<Rightarrow> (Some (Inl (EWrap ''encode client auth payload'' e)), [])
     | Inr payload \<Rightarrow>
    (case Keypair_Sign (ae_derive env) (ae_sign env) clientKey payload of
       None \<Rightarrow> (None, [])
     | Some signature \<Rightarrow>
         (Some (Inr (clientPublicKey, \<lparr>cq_username = ccf_Username cfg, cq_key = blob,
            cq_alg = pk_Algorithm clientPublicKey, cq_sig = signature\<rparr>)),
          [Signed (kp_private clientKey) payload])))))))"

definition check_server ::
    "auth_env \<Rightarrow> bytes \<Rightarrow> ClientConfig \<Rightarrow> bytes \<Rightarrow> ServerAuth \<Rightarrow> (string \<Rightarrow> PublicKey \<Rightarrow> goerr option)
      \<Rightarrow> (goerr, PublicKey) result option" where
  "check_server env binding cfg hostAuthInitHash serverAuth verifier =
    (case ParsePublicKey (ae_ssh_parse env) (sa_key serverAuth) of
       Inl e \<Rightarrow> Some (Inl (EWrap ''parse server host key'' e))
     | Inr serverHostKey \<Rightarrow>
    (case PublicKey_Validate serverHostKey of
       Some e \<Rightarrow> Some (Inl (EWrap ''validate server host key'' e))
     | None \<Rightarrow>
    (case ServerAuthToSign_MarshalBinary env
            \<lparr>st_binding = binding, st_initHash = hostAuthInitHash,
             st_key = sa_key serverAuth, st_nonce = sa_nonce serverAuth\<rparr> of
       Inl e \<Rightarrow> Some (Inl (EWrap ''encode server auth payload'' e))
     | Inr payload \<Rightarrow>
    (case PublicKey_Verify (ae_verify env) serverHostKey payload (sa_sig serverAuth) of
       None \<Rightarrow> None
     | Some ok \<Rightarrow>
         if \<not> ok then Some (Inl (EErr ''server auth signature verification failed''))
         else (case verifier (ccf_ReferenceIdentity cfg) serverHostKey of
                 Some e \<Rightarrow> Some (Inl (EWrap ''verify server host key'' e))
               | None \<Rightarrow> Some (Inr serverHostKey))))))"

text \<open>
  \<open>nonce\<close> is what reading random bytes returned.  The configuration has been validated, so provider
  and verifier exist; a nil one would be called and fail.
\<close>

definition authenticateClient ::
    "auth_env \<Rightarrow> auth_conn \<Rightarrow> ClientConfig \<Rightarrow> (goerr, bytes) result
      \<Rightarrow> (string \<Rightarrow> string \<Rightarrow> PublicKey \<Rightarrow> (goerr, Keypair) result) \<Rightarrow> (string \<Rightarrow> PublicKey \<Rightarrow> goerr option)
      \<Rightarrow> ClientResult authenticated" where
  "authenticateClient env conn cfg nonce identity verifier =
    (case nonce of
       Inl e \<Rightarrow> (Some (Inl (EWrap ''generate client nonce'' e)), [])
     | Inr clientNonce \<Rightarrow>
    (let init = host_auth_init cfg clientNonce
     in case HashHostAuthInit env init of
       Inl e \<Rightarrow> (Some (Inl (EWrap ''hash host auth init'' e)), [])
     | Inr initHash \<Rightarrow>
    (let log1 = [Sent (AFInit init)]
     in case sendAuthFrame env conn (AFInit init) of
       Some e \<Rightarrow> (Some (Inl (EWrap ''send host auth init'' e)), log1)
     | None \<Rightarrow>
    (case auth_advance NoiseEstablished NoiseEstablished HostAuthInitSent of
       Inl e \<Rightarrow> (Some (Inl e), log1)
     | Inr state1 \<Rightarrow>
    (case receiveServerAuth env (an_recv1 conn) of
       Inl e \<Rightarrow> (Some (Inl e), log1)
     | Inr serverAuth \<Rightarrow>
    (case auth_advance state1 HostAuthInitSent ServerAuthRecv of
       Inl e \<Rightarrow> (Some (Inl e), log1)
     | Inr state2 \<Rightarrow>
    (case check_server env (an_binding conn) cfg initHash serverAuth verifier of
       None \<Rightarrow> (None, log1)
     | Some (Inl e) \<Rightarrow> (Some (Inl e), log1)
     | Some (Inr serverHostKey) \<Rightarrow>
    (case client_proof env (an_binding conn) cfg initHash serverAuth identity serverHostKey of
       (None, l) \<Rightarrow> (None, log1 @ l)
     | (Some (Inl e), l) \<Rightarrow> (Some (Inl e), log1 @ l)
     | (Some (Inr (clientPublicKey, request)), l) \<Rightarrow>
    (let log2 = log1 @ l @ [Sent (AFRequest request)]
     in case sendAuthFrame env conn (AFRequest request) of
       Some e \<Rightarrow> (Some (Inl (EWrap ''send client auth request'' e)), log2)
     | None \<Rightarrow>
    (case auth_advance state2 ServerAuthRecv ClientAuthSent of
       Inl e \<Rightarrow> (Some (Inl e), log2)
     | Inr state3 \<Rightarrow>
    (case receiveClientAuthResponse env (an_recv2 conn) of
       Inl e \<Rightarrow> (Some (Inl e), log2)
     | Inr (RespReject code msg) \<Rightarrow> (Some (Inl (EErr (''server rejected client auth: '' @ msg))), log2)
     | Inr _ \<Rightarrow>
    (case auth_advance state3 ClientAuthSent Authenticated of
       Inl e \<Rightarrow> (Some (Inl e), log2)
     | Inr _ \<Rightarrow>
         (Some (Inr \<lparr>cres_ReferenceIdentity = ccf_ReferenceIdentity cfg, cres_ServerHostKey = serverHostKey,
            cres_Username = ccf_Username cfg, cres_PublicKey = clientPublicKey\<rparr>), log2)))))))))))))"

text \<open>\<open>RunClient\<close>; \<open>None\<close> is a nil connection.\<close>

definition RunClient ::
    "auth_env \<Rightarrow> auth_conn option \<Rightarrow> ClientConfig \<Rightarrow> (goerr, bytes) result \<Rightarrow> ClientResult authenticated" where
  "RunClient env conn cfg nonce =
    (case conn of
       None \<Rightarrow> (Some (Inl (EErr ''auth connection is required'')), [])
     | Some c \<Rightarrow>
    (case ClientConfig_Validate cfg of
       Some e \<Rightarrow> (Some (Inl (EWrap ''validate client auth config'' e)), [])
     | None \<Rightarrow>
         authenticateClient env c cfg nonce (the (ccf_ClientIdentityProvider cfg))
           (the (ccf_VerifyServerHostKey cfg))))"

section \<open>Server\<close>

record AuthVerifiedClient =
  avc_hostIdentity :: string
  avc_requestedUsername :: string
  avc_provenKey :: PublicKey
  avc_serverKey :: PublicKey

definition NewVerifiedClient ::
    "string \<Rightarrow> string \<Rightarrow> PublicKey \<Rightarrow> PublicKey \<Rightarrow> (goerr, AuthVerifiedClient) result" where
  "NewVerifiedClient hostIdentity requestedUsername provenKey serverKey =
    (if hostIdentity = [] then Inl (EErr ''host identity is required'')
     else if requestedUsername = [] then Inl (EErr ''requested username is required'')
     else case PublicKey_Validate provenKey of
       Some e \<Rightarrow> Inl (EWrap ''proved client key'' e)
     | None \<Rightarrow>
    (case PublicKey_Validate serverKey of
       Some e \<Rightarrow> Inl (EWrap ''server key'' e)
     | None \<Rightarrow> Inr \<lparr>avc_hostIdentity = hostIdentity, avc_requestedUsername = requestedUsername,
                   avc_provenKey = provenKey, avc_serverKey = serverKey\<rparr>))"

definition authenticationFailed :: string where
  "authenticationFailed = ''authentication-failed''"

definition ClientAuthReject :: "string \<Rightarrow> string \<Rightarrow> AuthFrame" where
  "ClientAuthReject code msg = AFResponse (RespReject code msg)"

definition rejectInvalidClient :: "auth_event list" where
  "rejectInvalidClient = [Sent (ClientAuthReject authenticationFailed ''authentication failed'')]"

definition sendAuthError :: "string \<Rightarrow> string \<Rightarrow> auth_event list" where
  "sendAuthError code msg = [Sent (AFError code msg)]"

text \<open>The server's proof: the message to send, made from the received \<open>HostAuthInit\<close>.\<close>

definition server_proof ::
    "auth_env \<Rightarrow> bytes \<Rightarrow> Keypair \<Rightarrow> (goerr, bytes) result \<Rightarrow> bytes \<Rightarrow> ServerAuth authenticated" where
  "server_proof env binding hostKey nonce hostAuthInitHash =
    (case MarshalBinary (ae_ssh_marshal env) (Keypair_PublicKey hostKey) of
       Inl e \<Rightarrow> (Some (Inl (EWrap ''encode server host key'' e)), [])
     | Inr blob \<Rightarrow>
    (case nonce of
       Inl e \<Rightarrow> (Some (Inl (EWrap ''generate server nonce'' e)), [])
     | Inr serverNonce \<Rightarrow>
    (case ServerAuthToSign_MarshalBinary env
            \<lparr>st_binding = binding, st_initHash = hostAuthInitHash, st_key = blob, st_nonce = serverNonce\<rparr> of
       Inl e \<Rightarrow> (Some (Inl (EWrap ''encode server auth payload'' e)), [])
     | Inr payload \<Rightarrow>
    (case Keypair_Sign (ae_derive env) (ae_sign env) hostKey payload of
       None \<Rightarrow> (None, [])
     | Some signature \<Rightarrow>
         (Some (Inr \<lparr>sa_key = blob, sa_nonce = serverNonce, sa_sig = signature\<rparr>),
          [Signed (kp_private hostKey) payload])))))"

text \<open>The check of the client's request; every failure answers with the same rejection.\<close>

definition check_client ::
    "auth_env \<Rightarrow> bytes \<Rightarrow> Keypair \<Rightarrow> HostAuthInit \<Rightarrow> bytes \<Rightarrow> bytes \<Rightarrow> ClientAuthRequest
      \<Rightarrow> AuthVerifiedClient authenticated" where
  "check_client env binding hostKey init hostAuthInitHash serverAuthHash request =
    (case ParsePublicKey (ae_ssh_parse env) (cq_key request) of
       Inl e \<Rightarrow> (Some (Inl (EWrap ''parse client public key'' e)), rejectInvalidClient)
     | Inr clientPublicKey \<Rightarrow>
    (case PublicKey_Validate clientPublicKey of
       Some e \<Rightarrow> (Some (Inl (EWrap ''validate client public key'' e)), rejectInvalidClient)
     | None \<Rightarrow>
    (if cq_alg request \<noteq> pk_Algorithm clientPublicKey
     then (Some (Inl (EErr ''client signature algorithm does not match key algorithm'')), rejectInvalidClient)
     else
    (case ClientAuthToSign_MarshalBinary env
            \<lparr>cs_binding = binding, cs_initHash = hostAuthInitHash, cs_serverHash = serverAuthHash,
             cs_username = cq_username request, cs_key = cq_key request, cs_alg = cq_alg request\<rparr> of
       Inl e \<Rightarrow> (Some (Inl (EWrap ''encode client auth payload'' e)), rejectInvalidClient)
     | Inr payload \<Rightarrow>
    (case PublicKey_Verify (ae_verify env) clientPublicKey payload (cq_sig request) of
       None \<Rightarrow> (None, [])
     | Some ok \<Rightarrow>
         if \<not> ok
         then (Some (Inl (EErr ''client auth signature verification failed'')), rejectInvalidClient)
         else (case NewVerifiedClient (hai_identity init) (cq_username request) clientPublicKey
                      (Keypair_PublicKey hostKey) of
                 Inl e \<Rightarrow> (Some (Inl (EWrap ''construct verified client'' e)), rejectInvalidClient)
               | Inr verified \<Rightarrow> (Some (Inr verified), [])))))))"

definition verifyClient ::
    "auth_env \<Rightarrow> auth_conn \<Rightarrow> goerr option \<Rightarrow> Keypair \<Rightarrow> (goerr, bytes) result
      \<Rightarrow> AuthVerifiedClient authenticated \<times> authState" where
  "verifyClient env conn ctx_err hostKey nonce =
    (case ctx_err of
       Some e \<Rightarrow> ((Some (Inl e), []), NoiseEstablished)
     | None \<Rightarrow>
    (case receiveHostAuthInit env (an_recv1 conn) of
       Inl e \<Rightarrow> ((Some (Inl e), []), NoiseEstablished)
     | Inr init \<Rightarrow>
    (case auth_advance NoiseEstablished NoiseEstablished HostAuthInitRecv of
       Inl e \<Rightarrow> ((Some (Inl e), []), NoiseEstablished)
     | Inr state1 \<Rightarrow>
    (if hai_version init \<noteq> ProtocolVersion
     then ((Some (Inl (EErr ''unsupported auth version'')),
            sendAuthError ''unsupported-auth-version'' ''unsupported auth version''), state1)
     else
    (case HashHostAuthInit env init of
       Inl e \<Rightarrow> ((Some (Inl (EWrap ''hash host auth init'' e)), []), state1)
     | Inr initHash \<Rightarrow>
    (case server_proof env (an_binding conn) hostKey nonce initHash of
       (None, l) \<Rightarrow> ((None, l), state1)
     | (Some (Inl e), l) \<Rightarrow> ((Some (Inl e), l), state1)
     | (Some (Inr serverAuth), l) \<Rightarrow>
    (let log1 = l @ [Sent (AFServer serverAuth)]
     in case sendAuthFrame env conn (AFServer serverAuth) of
       Some e \<Rightarrow> ((Some (Inl (EWrap ''send server auth'' e)), log1), state1)
     | None \<Rightarrow>
    (case auth_advance state1 HostAuthInitRecv ServerAuthSent of
       Inl e \<Rightarrow> ((Some (Inl e), log1), state1)
     | Inr state2 \<Rightarrow>
    (case HashServerAuthMessage env serverAuth of
       Inl e \<Rightarrow> ((Some (Inl (EWrap ''hash server auth'' e)), log1), state2)
     | Inr serverAuthHash \<Rightarrow>
    (case receiveClientAuthRequest env (an_recv2 conn) of
       Inl e \<Rightarrow> ((Some (Inl e), log1), state2)
     | Inr request \<Rightarrow>
    (case auth_advance state2 ServerAuthSent ClientAuthRecv of
       Inl e \<Rightarrow> ((Some (Inl e), log1), state2)
     | Inr state3 \<Rightarrow>
         (case check_client env (an_binding conn) hostKey init initHash serverAuthHash request of
            (r, l2) \<Rightarrow> ((r, log1 @ l2), state3)))))))))))))"

section \<open>The final decision\<close>

record PendingServerAuth =
  psa_state :: authState
  psa_verified :: AuthVerifiedClient
  psa_decided :: bool

definition ErrDecisionMade :: goerr where
  "ErrDecisionMade = EErr ''server auth decision already made''"

definition BeginServer ::
    "auth_env \<Rightarrow> auth_conn option \<Rightarrow> goerr option \<Rightarrow> Keypair \<Rightarrow> (goerr, bytes) result
      \<Rightarrow> PendingServerAuth authenticated" where
  "BeginServer env conn ctx_err hostKey nonce =
    (case conn of
       None \<Rightarrow> (Some (Inl (EErr ''auth connection is required'')), [])
     | Some c \<Rightarrow>
    (case Keypair_Validate (ae_derive env) hostKey of
       Some e \<Rightarrow> (Some (Inl (EWrap ''validate server auth config'' (EWrap ''server host key'' e))), [])
     | None \<Rightarrow>
    (case verifyClient env c ctx_err hostKey nonce of
       ((None, l), _) \<Rightarrow> (None, l)
     | ((Some (Inl e), l), _) \<Rightarrow> (Some (Inl e), l)
     | ((Some (Inr verified), l), state) \<Rightarrow>
         (Some (Inr \<lparr>psa_state = state, psa_verified = verified, psa_decided = False\<rparr>), l))))"

definition beginDecision :: "PendingServerAuth option \<Rightarrow> (goerr, PendingServerAuth) result" where
  "beginDecision pending =
    (case pending of
       None \<Rightarrow> Inl (EErr ''pending server auth is required'')
     | Some p \<Rightarrow> if psa_decided p then Inl ErrDecisionMade else Inr (p\<lparr>psa_decided := True\<rparr>))"

text \<open>The two decisions: the error, the frames handed to the connection and the new state.\<close>

definition PendingServerAuth_Accept ::
    "auth_env \<Rightarrow> auth_conn \<Rightarrow> PendingServerAuth \<Rightarrow> goerr option \<times> auth_event list \<times> PendingServerAuth" where
  "PendingServerAuth_Accept env conn p =
    (case beginDecision (Some p) of
       Inl e \<Rightarrow> (Some e, [], p)
     | Inr p1 \<Rightarrow>
    (let l = [Sent (AFResponse RespOk)]
     in case sendAuthFrame env conn (AFResponse RespOk) of
       Some e \<Rightarrow> (Some (EWrap ''send client auth response'' e), l, p1)
     | None \<Rightarrow>
    (case auth_advance (psa_state p1) ClientAuthRecv Authenticated of
       Inl e \<Rightarrow> (Some e, l, p1)
     | Inr s \<Rightarrow> (None, l, p1\<lparr>psa_state := s\<rparr>))))"

definition PendingServerAuth_Reject ::
    "auth_env \<Rightarrow> auth_conn \<Rightarrow> PendingServerAuth \<Rightarrow> goerr option \<times> auth_event list \<times> PendingServerAuth" where
  "PendingServerAuth_Reject env conn p =
    (case beginDecision (Some p) of
       Inl e \<Rightarrow> (Some e, [], p)
     | Inr p1 \<Rightarrow>
    (let frame = ClientAuthReject authenticationFailed ''authentication failed''
     in case sendAuthFrame env conn frame of
       Some e \<Rightarrow> (Some (EWrap ''send client auth rejection'' e), [Sent frame], p1)
     | None \<Rightarrow> (None, [Sent frame], p1)))"

end
