(* ===== verification/Auth_Properties.thy ===== *)
theory Auth_Properties
  imports Auth
begin

text \<open>
  Properties of mutual authentication: what each side has checked when it acts, agreement of the two
  sides when keys are used honestly, and success of honest parties.
\<close>

section \<open>Lemmas\<close>

lemma auth_advance_ok [simp]: "auth_advance s s n = Inr n"
  by (simp add: auth_advance_def)

lemma PublicKey_Verify_valid [simp]:
  "PublicKey_Validate k = None \<Longrightarrow> PublicKey_Verify verify k m s = Some (verify (pk_bytes k) m s)"
  by (simp add: PublicKey_Verify_def)

lemma Keypair_Sign_valid [simp]:
  "Keypair_Validate derive k = None \<Longrightarrow> Keypair_Sign derive sign k m = Some (sign (kp_private k) m)"
  by (simp add: Keypair_Sign_def)

lemma MarshalBinary_valid: "MarshalBinary f k = Inr b \<Longrightarrow> PublicKey_Validate k = None \<and> f (pk_bytes k) = Inr b"
  by (auto simp: MarshalBinary_def split: option.splits sum.splits)

lemma Keypair_valid_parts:
  "Keypair_Validate derive k = None \<Longrightarrow> derive (kp_private k) = kp_public k"
  by (auto simp: Keypair_Validate_def deriveEd25519Public_def split: option.splits if_splits sum.splits)

text \<open>When the client takes the server's proof: its signature verifies and its key is trusted.\<close>

definition server_proved ::
    "auth_env \<Rightarrow> bytes \<Rightarrow> bytes \<Rightarrow> ServerAuth \<Rightarrow> PublicKey \<Rightarrow> bool" where
  "server_proved env binding initHash sa key \<longleftrightarrow>
    ParsePublicKey (ae_ssh_parse env) (sa_key sa) = Inr key \<and> PublicKey_Validate key = None
    \<and> (\<exists>payload. ServerAuthToSign_MarshalBinary env
            \<lparr>st_binding = binding, st_initHash = initHash, st_key = sa_key sa, st_nonce = sa_nonce sa\<rparr> = Inr payload
          \<and> ae_verify env (pk_bytes key) payload (sa_sig sa))"

lemma check_server_ok:
  "check_server env binding cfg initHash sa verifier = Some (Inr key)
    \<longleftrightarrow> server_proved env binding initHash sa key \<and> verifier (ccf_ReferenceIdentity cfg) key = None"
  by (auto simp: check_server_def server_proved_def split: sum.splits option.splits)

lemma check_server_no_panic [simp]: "check_server env binding cfg initHash sa verifier \<noteq> None"
  by (auto simp: check_server_def split: sum.splits option.splits)

text \<open>When the server takes the client's proof.\<close>

definition client_proved ::
    "auth_env \<Rightarrow> bytes \<Rightarrow> bytes \<Rightarrow> bytes \<Rightarrow> ClientAuthRequest \<Rightarrow> PublicKey \<Rightarrow> bool" where
  "client_proved env binding initHash saHash request key \<longleftrightarrow>
    ParsePublicKey (ae_ssh_parse env) (cq_key request) = Inr key \<and> PublicKey_Validate key = None
    \<and> cq_alg request = pk_Algorithm key
    \<and> (\<exists>payload. ClientAuthToSign_MarshalBinary env
            \<lparr>cs_binding = binding, cs_initHash = initHash, cs_serverHash = saHash,
             cs_username = cq_username request, cs_key = cq_key request, cs_alg = cq_alg request\<rparr> = Inr payload
          \<and> ae_verify env (pk_bytes key) payload (cq_sig request))"

lemma check_client_ok:
  "fst (check_client env binding hostKey init initHash saHash request) = Some (Inr v)
    \<longleftrightarrow> (\<exists>key. client_proved env binding initHash saHash request key
          \<and> NewVerifiedClient (hai_identity init) (cq_username request) key (Keypair_PublicKey hostKey) = Inr v)"
  by (auto simp: check_client_def client_proved_def split: sum.splits option.splits)

lemma check_client_cases:
  "(\<exists>v. check_client env binding hostKey init initHash saHash request = (Some (Inr v), []))
    \<or> (\<exists>e. check_client env binding hostKey init initHash saHash request = (Some (Inl e), rejectInvalidClient))"
  by (auto simp: check_client_def split: sum.splits option.splits)

lemma NewVerifiedClient_ok:
  "NewVerifiedClient ident user key server = Inr v
    \<longleftrightarrow> ident \<noteq> [] \<and> user \<noteq> [] \<and> PublicKey_Validate key = None \<and> PublicKey_Validate server = None
      \<and> v = \<lparr>avc_hostIdentity = ident, avc_requestedUsername = user, avc_provenKey = key, avc_serverKey = server\<rparr>"
  by (auto simp: NewVerifiedClient_def split: option.splits)

text \<open>What the client signs and sends.\<close>

definition client_signed ::
    "auth_env \<Rightarrow> bytes \<Rightarrow> ClientConfig \<Rightarrow> bytes \<Rightarrow> ServerAuth \<Rightarrow> Keypair \<Rightarrow> bytes \<Rightarrow> ClientAuthRequest \<Rightarrow> bool" where
  "client_signed env binding cfg initHash sa key payload request \<longleftrightarrow>
    Keypair_Validate (ae_derive env) key = None
    \<and> (\<exists>saHash blob. HashServerAuthMessage env sa = Inr saHash
        \<and> MarshalBinary (ae_ssh_marshal env) (Keypair_PublicKey key) = Inr blob
        \<and> ClientAuthToSign_MarshalBinary env
            \<lparr>cs_binding = binding, cs_initHash = initHash, cs_serverHash = saHash,
             cs_username = ccf_Username cfg, cs_key = blob, cs_alg = AlgorithmEd25519\<rparr> = Inr payload
        \<and> request = \<lparr>cq_username = ccf_Username cfg, cq_key = blob, cq_alg = AlgorithmEd25519,
            cq_sig = ae_sign env (kp_private key) payload\<rparr>)"

lemma client_proof_cases:
  "(\<exists>e. client_proof env binding cfg initHash sa identity hostKey = (Some (Inl e), []))
    \<or> (\<exists>key payload request.
         identity (ccf_ReferenceIdentity cfg) (ccf_Username cfg) hostKey = Inr key
         \<and> client_signed env binding cfg initHash sa key payload request
         \<and> client_proof env binding cfg initHash sa identity hostKey
           = (Some (Inr (Keypair_PublicKey key, request)), [Signed (kp_private key) payload]))"
  by (auto simp: client_proof_def client_signed_def Let_def Keypair_PublicKey_def split: sum.splits option.splits)

text \<open>A client that came to answer the server, with what it learned and did on the way.\<close>

definition client_answered ::
    "auth_env \<Rightarrow> auth_conn \<Rightarrow> ClientConfig \<Rightarrow> (goerr, bytes) result
      \<Rightarrow> (string \<Rightarrow> string \<Rightarrow> PublicKey \<Rightarrow> (goerr, Keypair) result) \<Rightarrow> (string \<Rightarrow> PublicKey \<Rightarrow> goerr option)
      \<Rightarrow> bytes \<Rightarrow> bytes \<Rightarrow> ServerAuth \<Rightarrow> PublicKey \<Rightarrow> Keypair \<Rightarrow> bytes \<Rightarrow> ClientAuthRequest \<Rightarrow> bool" where
  "client_answered env conn cfg nonce identity verifier n initHash sa hostKey key payload request \<longleftrightarrow>
    nonce = Inr n \<and> HashHostAuthInit env (host_auth_init cfg n) = Inr initHash
    \<and> receiveServerAuth env (an_recv1 conn) = Inr sa
    \<and> server_proved env (an_binding conn) initHash sa hostKey
    \<and> verifier (ccf_ReferenceIdentity cfg) hostKey = None
    \<and> identity (ccf_ReferenceIdentity cfg) (ccf_Username cfg) hostKey = Inr key
    \<and> client_signed env (an_binding conn) cfg initHash sa key payload request"

lemma response_ok: "receiveClientAuthResponse env r = Inr resp \<Longrightarrow> resp \<noteq> RespUnset"
  by (auto simp: receiveClientAuthResponse_def receiveAuthFrame_def dest!: Receive_valid
      split: sum.splits AuthFrame.splits)

lemma authenticateClient_cases:
  obtains (quiet) e l where
    "authenticateClient env conn cfg nonce identity verifier = (Some (Inl e), l)"
    "\<And>k p. Signed k p \<notin> set l" "\<And>r. Sent (AFRequest r) \<notin> set l"
  | (answered) r n initHash sa hostKey key payload request where
    "client_answered env conn cfg nonce identity verifier n initHash sa hostKey key payload request"
    "authenticateClient env conn cfg nonce identity verifier
      = (Some r, [Sent (AFInit (host_auth_init cfg n)), Signed (kp_private key) payload, Sent (AFRequest request)])"
    "\<And>res. r = Inr res \<Longrightarrow> receiveClientAuthResponse env (an_recv2 conn) = Inr RespOk
      \<and> res = \<lparr>cres_ReferenceIdentity = ccf_ReferenceIdentity cfg, cres_ServerHostKey = hostKey,
          cres_Username = ccf_Username cfg, cres_PublicKey = Keypair_PublicKey key\<rparr>"
proof -
  let ?run = "authenticateClient env conn cfg nonce identity verifier"
  show thesis
  proof (cases "\<exists>n initHash sa hostKey. nonce = Inr n
        \<and> HashHostAuthInit env (host_auth_init cfg n) = Inr initHash
        \<and> sendAuthFrame env conn (AFInit (host_auth_init cfg n)) = None
        \<and> receiveServerAuth env (an_recv1 conn) = Inr sa
        \<and> check_server env (an_binding conn) cfg initHash sa verifier = Some (Inr hostKey)")
    case False
    have "\<exists>e l. ?run = (Some (Inl e), l) \<and> (l = [] \<or> (\<exists>i. l = [Sent (AFInit i)]))"
      using False by (auto simp: authenticateClient_def Let_def simp del: not_None_eq split: sum.splits option.splits)
    then show thesis by (auto intro!: quiet)
  next
    case True
    then obtain n initHash sa hostKey where start: "nonce = Inr n"
        "HashHostAuthInit env (host_auth_init cfg n) = Inr initHash"
        "sendAuthFrame env conn (AFInit (host_auth_init cfg n)) = None"
        "receiveServerAuth env (an_recv1 conn) = Inr sa"
      and check: "check_server env (an_binding conn) cfg initHash sa verifier = Some (Inr hostKey)"
      by blast
    note proved = check [unfolded check_server_ok]
    from client_proof_cases [of env "an_binding conn" cfg initHash sa identity hostKey]
    show thesis
    proof (elim disjE exE conjE)
      fix e assume "client_proof env (an_binding conn) cfg initHash sa identity hostKey = (Some (Inl e), [])"
      then have "?run = (Some (Inl e), [Sent (AFInit (host_auth_init cfg n))])"
        using start check by (simp add: authenticateClient_def)
      then show thesis by (rule quiet) simp_all
    next
      fix key payload request
      assume id: "identity (ccf_ReferenceIdentity cfg) (ccf_Username cfg) hostKey = Inr key"
        and signed: "client_signed env (an_binding conn) cfg initHash sa key payload request"
        and pf: "client_proof env (an_binding conn) cfg initHash sa identity hostKey
           = (Some (Inr (Keypair_PublicKey key, request)), [Signed (kp_private key) payload])"
      have ans: "client_answered env conn cfg nonce identity verifier n initHash sa hostKey key payload request"
        using start proved id signed by (simp add: client_answered_def)
      have "\<exists>r. ?run = (Some r, [Sent (AFInit (host_auth_init cfg n)), Signed (kp_private key) payload,
            Sent (AFRequest request)])
        \<and> (\<forall>res. r = Inr res \<longrightarrow> receiveClientAuthResponse env (an_recv2 conn) = Inr RespOk
          \<and> res = \<lparr>cres_ReferenceIdentity = ccf_ReferenceIdentity cfg, cres_ServerHostKey = hostKey,
              cres_Username = ccf_Username cfg, cres_PublicKey = Keypair_PublicKey key\<rparr>)"
        using start check pf response_ok [of env "an_recv2 conn"]
        by (auto simp: authenticateClient_def Let_def split: sum.splits option.splits ClientAuthResponse.splits)
      then show thesis using answered [OF ans] by auto
    qed
  qed
qed

text \<open>What the server signs and sends.\<close>

definition server_signed ::
    "auth_env \<Rightarrow> bytes \<Rightarrow> Keypair \<Rightarrow> (goerr, bytes) result \<Rightarrow> bytes \<Rightarrow> ServerAuth \<Rightarrow> bytes \<Rightarrow> bool" where
  "server_signed env binding hostKey nonce initHash sa payload \<longleftrightarrow>
    (\<exists>blob n. MarshalBinary (ae_ssh_marshal env) (Keypair_PublicKey hostKey) = Inr blob \<and> nonce = Inr n
      \<and> ServerAuthToSign_MarshalBinary env
          \<lparr>st_binding = binding, st_initHash = initHash, st_key = blob, st_nonce = n\<rparr> = Inr payload
      \<and> sa = \<lparr>sa_key = blob, sa_nonce = n, sa_sig = ae_sign env (kp_private hostKey) payload\<rparr>)"

lemma server_proof_cases:
  assumes "Keypair_Validate (ae_derive env) hostKey = None"
  shows "(\<exists>e. server_proof env binding hostKey nonce initHash = (Some (Inl e), []))
    \<or> (\<exists>sa payload. server_signed env binding hostKey nonce initHash sa payload
         \<and> server_proof env binding hostKey nonce initHash
           = (Some (Inr sa), [Signed (kp_private hostKey) payload]))"
  using assms by (auto simp: server_proof_def server_signed_def split: sum.splits)

text \<open>A server that has sent its proof.\<close>

definition server_challenged ::
    "auth_env \<Rightarrow> auth_conn \<Rightarrow> Keypair \<Rightarrow> (goerr, bytes) result \<Rightarrow> HostAuthInit \<Rightarrow> bytes \<Rightarrow> ServerAuth \<Rightarrow> bytes \<Rightarrow> bool" where
  "server_challenged env conn hostKey nonce init initHash sa payload \<longleftrightarrow>
    receiveHostAuthInit env (an_recv1 conn) = Inr init \<and> hai_version init = ProtocolVersion
    \<and> HashHostAuthInit env init = Inr initHash
    \<and> server_signed env (an_binding conn) hostKey nonce initHash sa payload"

lemma verifyClient_cases:
  assumes valid: "Keypair_Validate (ae_derive env) hostKey = None"
  obtains (quiet) e l st where
    "verifyClient env conn ctx_err hostKey nonce = ((Some (Inl e), l), st)" "l = [] \<or> (\<exists>c m. l = sendAuthError c m)"
  | (unanswered) e init initHash sa payload st where
    "server_challenged env conn hostKey nonce init initHash sa payload"
    "verifyClient env conn ctx_err hostKey nonce
      = ((Some (Inl e), [Signed (kp_private hostKey) payload, Sent (AFServer sa)]), st)"
    "st \<noteq> ClientAuthRecv"
  | (answered) init initHash sa payload saHash request where
    "server_challenged env conn hostKey nonce init initHash sa payload"
    "HashServerAuthMessage env sa = Inr saHash" "receiveClientAuthRequest env (an_recv2 conn) = Inr request"
    "verifyClient env conn ctx_err hostKey nonce
      = (case check_client env (an_binding conn) hostKey init initHash saHash request of
           (r, l) \<Rightarrow> ((r, [Signed (kp_private hostKey) payload, Sent (AFServer sa)] @ l), ClientAuthRecv))"
proof -
  let ?run = "verifyClient env conn ctx_err hostKey nonce"
  show thesis
  proof (cases "\<exists>init initHash. ctx_err = None \<and> receiveHostAuthInit env (an_recv1 conn) = Inr init
        \<and> hai_version init = ProtocolVersion \<and> HashHostAuthInit env init = Inr initHash")
    case False
    then have "\<exists>e l st. ?run = ((Some (Inl e), l), st) \<and> (l = [] \<or> (\<exists>c m. l = sendAuthError c m))"
      by (auto simp: verifyClient_def Let_def split: sum.splits option.splits)
    then show thesis by (elim exE conjE) (rule quiet)
  next
    case True
    then obtain init initHash where start: "ctx_err = None" "receiveHostAuthInit env (an_recv1 conn) = Inr init"
        "hai_version init = ProtocolVersion" "HashHostAuthInit env init = Inr initHash"
      by blast
    from server_proof_cases [OF valid, of "an_binding conn" nonce initHash] show thesis
    proof (elim disjE exE conjE)
      fix e assume "server_proof env (an_binding conn) hostKey nonce initHash = (Some (Inl e), [])"
      then have "?run = ((Some (Inl e), []), HostAuthInitRecv)" using start by (simp add: verifyClient_def)
      then show thesis by (rule quiet) simp
    next
      fix sa payload
      assume signed: "server_signed env (an_binding conn) hostKey nonce initHash sa payload"
        and pf: "server_proof env (an_binding conn) hostKey nonce initHash
          = (Some (Inr sa), [Signed (kp_private hostKey) payload])"
      have ch: "server_challenged env conn hostKey nonce init initHash sa payload"
        using start signed by (simp add: server_challenged_def)
      show thesis
      proof (cases "\<exists>saHash request. sendAuthFrame env conn (AFServer sa) = None
          \<and> HashServerAuthMessage env sa = Inr saHash \<and> receiveClientAuthRequest env (an_recv2 conn) = Inr request")
        case False
        then have "\<exists>e st. ?run = ((Some (Inl e), [Signed (kp_private hostKey) payload, Sent (AFServer sa)]), st)
            \<and> st \<noteq> ClientAuthRecv"
          using start pf by (auto simp: verifyClient_def Let_def split: sum.splits option.splits)
        then show thesis using unanswered [OF ch] by blast
      next
        case True
        then obtain saHash request where "sendAuthFrame env conn (AFServer sa) = None"
            "HashServerAuthMessage env sa = Inr saHash" "receiveClientAuthRequest env (an_recv2 conn) = Inr request"
          by blast
        then show thesis using start pf by (intro answered [OF ch]) (simp_all add: verifyClient_def Let_def)
      qed
    qed
  qed
qed

lemma RunClient_answered:
  assumes "Signed k p \<in> set (snd (RunClient env (Some conn) cfg nonce))
      \<or> Sent (AFRequest r) \<in> set (snd (RunClient env (Some conn) cfg nonce))
      \<or> fst (RunClient env (Some conn) cfg nonce) = Some (Inr res)"
  obtains verifier identity n initHash sa hostKey key payload request where
    "ccf_VerifyServerHostKey cfg = Some verifier" "ccf_ClientIdentityProvider cfg = Some identity"
    "client_answered env conn cfg nonce identity verifier n initHash sa hostKey key payload request"
    "snd (RunClient env (Some conn) cfg nonce)
      = [Sent (AFInit (host_auth_init cfg n)), Signed (kp_private key) payload, Sent (AFRequest request)]"
    "fst (RunClient env (Some conn) cfg nonce) = Some (Inr res)
      \<longrightarrow> receiveClientAuthResponse env (an_recv2 conn) = Inr RespOk
        \<and> res = \<lparr>cres_ReferenceIdentity = ccf_ReferenceIdentity cfg, cres_ServerHostKey = hostKey,
            cres_Username = ccf_Username cfg, cres_PublicKey = Keypair_PublicKey key\<rparr>"
proof -
  have valid: "ClientConfig_Validate cfg = None"
    using assms by (auto simp: RunClient_def split: option.splits)
  then obtain identity verifier where iv: "ccf_ClientIdentityProvider cfg = Some identity"
      "ccf_VerifyServerHostKey cfg = Some verifier"
    by (auto simp: ClientConfig_Validate_def split: if_splits)
  then have run: "RunClient env (Some conn) cfg nonce = authenticateClient env conn cfg nonce identity verifier"
    using valid by (simp add: RunClient_def)
  show thesis
  proof (rule authenticateClient_cases [of env conn cfg nonce identity verifier])
    fix e l
    assume "authenticateClient env conn cfg nonce identity verifier = (Some (Inl e), l)"
      "\<And>k p. Signed k p \<notin> set l" "\<And>r. Sent (AFRequest r) \<notin> set l"
    then show thesis using assms by (simp add: run)
  next
    fix x n initHash sa hostKey key payload request
    assume "client_answered env conn cfg nonce identity verifier n initHash sa hostKey key payload request"
      "authenticateClient env conn cfg nonce identity verifier
        = (Some x, [Sent (AFInit (host_auth_init cfg n)), Signed (kp_private key) payload, Sent (AFRequest request)])"
      "\<And>res. x = Inr res \<Longrightarrow> receiveClientAuthResponse env (an_recv2 conn) = Inr RespOk
        \<and> res = \<lparr>cres_ReferenceIdentity = ccf_ReferenceIdentity cfg, cres_ServerHostKey = hostKey,
            cres_Username = ccf_Username cfg, cres_PublicKey = Keypair_PublicKey key\<rparr>"
    then show thesis using iv by (intro that) (auto simp: run)
  qed
qed

lemma RunClient_no_panic: "fst (RunClient env conn cfg nonce) \<noteq> None"
proof -
  have "fst (authenticateClient env c cfg nonce identity verifier) \<noteq> None" for c identity verifier
    by (rule authenticateClient_cases [of env c cfg nonce identity verifier]) auto
  then show ?thesis by (auto simp: RunClient_def split: option.splits)
qed

section \<open>The client proves itself only to a trusted server\<close>

text \<open>
  C9: The client answers only a server that has proved itself.  Whatever arrives, if the client signs
  anything, sends an authentication request or reports success, then the server's message carried a
  valid signature, by a key the host-key verifier accepts for the name the user asked for, over this
  channel's binding, the hash of this client's first message and the server's nonce.  The client then
  signs once, before its request, over the same channel, both messages and the requested user name,
  and it reports success only if the server answered with success.
\<close>

theorem client_answers_trusted_server:
  assumes "Signed k p \<in> set (snd (RunClient env (Some conn) cfg nonce))
      \<or> Sent (AFRequest r) \<in> set (snd (RunClient env (Some conn) cfg nonce))
      \<or> fst (RunClient env (Some conn) cfg nonce) = Some (Inr res)"
  shows "\<exists>verifier n initHash sa hostKey key payload request.
      ccf_VerifyServerHostKey cfg = Some verifier \<and> nonce = Inr n
      \<and> HashHostAuthInit env (host_auth_init cfg n) = Inr initHash
      \<and> receiveServerAuth env (an_recv1 conn) = Inr sa
      \<and> server_proved env (an_binding conn) initHash sa hostKey
      \<and> verifier (ccf_ReferenceIdentity cfg) hostKey = None
      \<and> client_signed env (an_binding conn) cfg initHash sa key payload request
      \<and> snd (RunClient env (Some conn) cfg nonce)
          = [Sent (AFInit (host_auth_init cfg n)), Signed (kp_private key) payload, Sent (AFRequest request)]
      \<and> (fst (RunClient env (Some conn) cfg nonce) = Some (Inr res)
          \<longrightarrow> receiveClientAuthResponse env (an_recv2 conn) = Inr RespOk \<and> cres_ServerHostKey res = hostKey)"
proof -
  from assms obtain verifier identity n initHash sa hostKey key payload request where
    "ccf_VerifyServerHostKey cfg = Some verifier" "ccf_ClientIdentityProvider cfg = Some identity"
    "client_answered env conn cfg nonce identity verifier n initHash sa hostKey key payload request"
    "snd (RunClient env (Some conn) cfg nonce)
      = [Sent (AFInit (host_auth_init cfg n)), Signed (kp_private key) payload, Sent (AFRequest request)]"
    "fst (RunClient env (Some conn) cfg nonce) = Some (Inr res)
      \<longrightarrow> receiveClientAuthResponse env (an_recv2 conn) = Inr RespOk
        \<and> res = \<lparr>cres_ReferenceIdentity = ccf_ReferenceIdentity cfg, cres_ServerHostKey = hostKey,
            cres_Username = ccf_Username cfg, cres_PublicKey = Keypair_PublicKey key\<rparr>"
    by (rule RunClient_answered)
  then show ?thesis
    by - (rule exI [of _ verifier], rule exI [of _ n], rule exI [of _ initHash], rule exI [of _ sa],
        rule exI [of _ hostKey], rule exI [of _ key], rule exI [of _ payload], rule exI [of _ request],
        auto simp: client_answered_def)
qed

section \<open>Agreement\<close>

text \<open>
  The runs of the protocol in which honest keys take part, and what they sign.  The hypotheses are
  the usual ones: what verifies under a key was signed by its holder in one of the runs; the
  encodings of signed payloads are unambiguous, which their context string ensures across the two
  kinds; and the hashes of the messages of these runs do not collide.
\<close>

datatype auth_run =
    ClientRun auth_conn ClientConfig "(goerr, bytes) result"
  | ServerRun auth_conn "goerr option" Keypair "(goerr, bytes) result"

fun run_log :: "auth_env \<Rightarrow> auth_run \<Rightarrow> auth_event list" where
  "run_log env (ClientRun c cfg nonce) = snd (RunClient env (Some c) cfg nonce)"
| "run_log env (ServerRun c ctx_err hostKey nonce) = snd (BeginServer env (Some c) ctx_err hostKey nonce)"

definition unforgeable :: "auth_env \<Rightarrow> auth_run set \<Rightarrow> bytes \<Rightarrow> bool" where
  "unforgeable env runs key \<longleftrightarrow>
    (\<forall>msg sig. ae_verify env key msg sig
      \<longrightarrow> (\<exists>r \<in> runs. \<exists>k. ae_derive env k = key \<and> Signed k msg \<in> set (run_log env r)))"

definition payloads_distinct :: "auth_env \<Rightarrow> bool" where
  "payloads_distinct env \<longleftrightarrow>
    (\<forall>p q b. ae_marshal_ssign env ServerAuthContext p = Inr b \<and> ae_marshal_ssign env ServerAuthContext q = Inr b
      \<longrightarrow> p = q)
    \<and> (\<forall>p q b. ae_marshal_csign env ClientAuthContext p = Inr b \<and> ae_marshal_csign env ClientAuthContext q = Inr b
      \<longrightarrow> p = q)
    \<and> (\<forall>p q b. \<not> (ae_marshal_ssign env ServerAuthContext p = Inr b \<and> ae_marshal_csign env ClientAuthContext q = Inr b))"

definition run_inits :: "auth_env \<Rightarrow> auth_run set \<Rightarrow> HostAuthInit set" where
  "run_inits env runs =
    {m. \<exists>c cfg n. ClientRun c cfg (Inr n) \<in> runs \<and> m = host_auth_init cfg n}
    \<union> {m. \<exists>c e k n. ServerRun c e k n \<in> runs \<and> receiveHostAuthInit env (an_recv1 c) = Inr m}"

definition run_challenges :: "auth_env \<Rightarrow> auth_run set \<Rightarrow> (bytes \<times> bytes) set" where
  "run_challenges env runs =
    {(sa_key sa, sa_nonce sa) | sa. (\<exists>c cfg n. ClientRun c cfg n \<in> runs \<and> receiveServerAuth env (an_recv1 c) = Inr sa)
      \<or> (\<exists>r \<in> runs. Sent (AFServer sa) \<in> set (run_log env r))}"

definition collision_free :: "auth_env \<Rightarrow> auth_run set \<Rightarrow> bool" where
  "collision_free env runs \<longleftrightarrow>
    inj_on (HashHostAuthInit env) (run_inits env runs)
    \<and> inj_on (\<lambda>(key, nonce). HashServerAuthFields env key nonce) (run_challenges env runs)"

lemma collision_free_init:
  "collision_free env runs \<Longrightarrow> m \<in> run_inits env runs \<Longrightarrow> m' \<in> run_inits env runs
    \<Longrightarrow> HashHostAuthInit env m = HashHostAuthInit env m' \<Longrightarrow> m = m'"
  by (simp add: collision_free_def inj_on_def)

lemma collision_free_challenge:
  "collision_free env runs \<Longrightarrow> (sa_key s, sa_nonce s) \<in> run_challenges env runs
    \<Longrightarrow> (sa_key s', sa_nonce s') \<in> run_challenges env runs
    \<Longrightarrow> HashServerAuthMessage env s = HashServerAuthMessage env s' \<Longrightarrow> sa_key s = sa_key s' \<and> sa_nonce s = sa_nonce s'"
  using inj_onD [of "\<lambda>(key, nonce). HashServerAuthFields env key nonce" "run_challenges env runs"
      "(sa_key s, sa_nonce s)" "(sa_key s', sa_nonce s')"]
  by (simp add: collision_free_def HashServerAuthMessage_def)

lemma run_init_client: "ClientRun c cfg (Inr n) \<in> runs \<Longrightarrow> host_auth_init cfg n \<in> run_inits env runs"
  unfolding run_inits_def by blast

lemma run_init_server:
  "ServerRun c e k n \<in> runs \<Longrightarrow> receiveHostAuthInit env (an_recv1 c) = Inr m \<Longrightarrow> m \<in> run_inits env runs"
  unfolding run_inits_def by blast

lemma run_challenge_client:
  "ClientRun c cfg n \<in> runs \<Longrightarrow> receiveServerAuth env (an_recv1 c) = Inr s
    \<Longrightarrow> (sa_key s, sa_nonce s) \<in> run_challenges env runs"
  unfolding run_challenges_def by blast

lemma run_challenge_server:
  "r \<in> runs \<Longrightarrow> Sent (AFServer s) \<in> set (run_log env r) \<Longrightarrow> (sa_key s, sa_nonce s) \<in> run_challenges env runs"
  unfolding run_challenges_def by blast

lemma ServerAuthToSign_exact:
  "ServerAuthToSign_MarshalBinary env p = Inr b \<Longrightarrow> ae_marshal_ssign env ServerAuthContext p = Inr b"
  by (auto simp: ServerAuthToSign_MarshalBinary_def split: option.splits sum.splits)

lemma ClientAuthToSign_exact:
  "ClientAuthToSign_MarshalBinary env p = Inr b \<Longrightarrow> ae_marshal_csign env ClientAuthContext p = Inr b"
  by (auto simp: ClientAuthToSign_MarshalBinary_def split: option.splits sum.splits)

lemma payloads_distinct_server:
  assumes "payloads_distinct env" "ServerAuthToSign_MarshalBinary env p = Inr b" "ServerAuthToSign_MarshalBinary env q = Inr b"
  shows "p = q"
  using assms(1) assms(2,3) [THEN ServerAuthToSign_exact] unfolding payloads_distinct_def by blast

lemma payloads_distinct_client:
  assumes "payloads_distinct env" "ClientAuthToSign_MarshalBinary env p = Inr b" "ClientAuthToSign_MarshalBinary env q = Inr b"
  shows "p = q"
  using assms(1) assms(2,3) [THEN ClientAuthToSign_exact] unfolding payloads_distinct_def by blast

lemma payloads_distinct_kinds:
  assumes "payloads_distinct env" "ServerAuthToSign_MarshalBinary env p = Inr b"
  shows "ClientAuthToSign_MarshalBinary env q \<noteq> Inr b"
  using assms(1) assms(2) [THEN ServerAuthToSign_exact] ClientAuthToSign_exact [of env q b]
  unfolding payloads_distinct_def by blast

lemma server_run_signed:
  assumes "Signed k msg \<in> set (run_log env (ServerRun c ctx_err hostKey nonce))"
  obtains init initHash sa where "server_challenged env c hostKey nonce init initHash sa msg"
    "k = kp_private hostKey" "Sent (AFServer sa) \<in> set (run_log env (ServerRun c ctx_err hostKey nonce))"
    "Keypair_Validate (ae_derive env) hostKey = None"
proof -
  have valid: "Keypair_Validate (ae_derive env) hostKey = None"
    using assms by (auto simp: BeginServer_def split: option.splits)
  have log: "snd (BeginServer env (Some c) ctx_err hostKey nonce) = snd (fst (verifyClient env c ctx_err hostKey nonce))"
    using valid by (auto simp: BeginServer_def split: option.splits prod.splits sum.splits)
  have assms': "Signed k msg \<in> set (snd (fst (verifyClient env c ctx_err hostKey nonce)))"
    using assms by (simp add: log)
  from valid show thesis
  proof (rule verifyClient_cases [of env hostKey c ctx_err nonce])
    fix e l st
    assume "verifyClient env c ctx_err hostKey nonce = ((Some (Inl e), l), st)" "l = [] \<or> (\<exists>c m. l = sendAuthError c m)"
    then show thesis using assms' by (auto simp: sendAuthError_def)
  next
    fix e init initHash sa payload st
    assume "server_challenged env c hostKey nonce init initHash sa payload"
      "verifyClient env c ctx_err hostKey nonce
        = ((Some (Inl e), [Signed (kp_private hostKey) payload, Sent (AFServer sa)]), st)"
    then show thesis using assms' valid by (intro that) (auto simp: log)
  next
    fix init initHash sa payload saHash request
    assume *: "server_challenged env c hostKey nonce init initHash sa payload"
      "verifyClient env c ctx_err hostKey nonce
      = (case check_client env (an_binding c) hostKey init initHash saHash request of
           (r, l) \<Rightarrow> ((r, [Signed (kp_private hostKey) payload, Sent (AFServer sa)] @ l), ClientAuthRecv))"
    from check_client_cases [of env "an_binding c" hostKey init initHash saHash request]
    have "k = kp_private hostKey \<and> msg = payload" "Sent (AFServer sa) \<in> set (snd (fst (verifyClient env c ctx_err hostKey nonce)))"
      using assms' * by (auto simp: rejectInvalidClient_def)
    then show thesis using * valid by (intro that) (auto simp: log)
  qed
qed

lemma client_run_signed:
  assumes "Signed k msg \<in> set (run_log env (ClientRun c cfg nonce))"
  obtains verifier identity n initHash sa hostKey key request where
    "ccf_VerifyServerHostKey cfg = Some verifier" "k = kp_private key"
    "client_answered env c cfg nonce identity verifier n initHash sa hostKey key msg request"
proof -
  from assms have "Signed k msg \<in> set (snd (RunClient env (Some c) cfg nonce))
      \<or> Sent (AFRequest undefined) \<in> set (snd (RunClient env (Some c) cfg nonce))
      \<or> fst (RunClient env (Some c) cfg nonce) = Some (Inr undefined)"
    by simp
  then show thesis
  proof (rule RunClient_answered)
    fix verifier identity n initHash sa hostKey key payload request
    assume "ccf_VerifyServerHostKey cfg = Some verifier"
      "client_answered env c cfg nonce identity verifier n initHash sa hostKey key payload request"
      "snd (RunClient env (Some c) cfg nonce)
        = [Sent (AFInit (host_auth_init cfg n)), Signed (kp_private key) payload, Sent (AFRequest request)]"
    then show thesis using assms by (intro that) auto
  qed
qed

lemma server_run_verified:
  assumes "fst (BeginServer env (Some c) ctx_err hostKey nonce) = Some (Inr pending)"
  obtains init initHash sa payload saHash request key where
    "server_challenged env c hostKey nonce init initHash sa payload"
    "HashServerAuthMessage env sa = Inr saHash" "client_proved env (an_binding c) initHash saHash request key"
    "psa_verified pending = \<lparr>avc_hostIdentity = hai_identity init, avc_requestedUsername = cq_username request,
       avc_provenKey = key, avc_serverKey = Keypair_PublicKey hostKey\<rparr>"
    "snd (BeginServer env (Some c) ctx_err hostKey nonce) = [Signed (kp_private hostKey) payload, Sent (AFServer sa)]"
    "psa_state pending = ClientAuthRecv" "\<not> psa_decided pending" "receiveClientAuthRequest env (an_recv2 c) = Inr request"
proof -
  have valid: "Keypair_Validate (ae_derive env) hostKey = None"
    using assms by (auto simp: BeginServer_def split: option.splits)
  obtain v l st where run: "verifyClient env c ctx_err hostKey nonce = ((Some (Inr v), l), st)"
    and p: "pending = \<lparr>psa_state = st, psa_verified = v, psa_decided = False\<rparr>"
    and log: "snd (BeginServer env (Some c) ctx_err hostKey nonce) = l"
    using assms valid by (auto simp: BeginServer_def split: option.splits prod.splits sum.splits)
  from valid show thesis
  proof (rule verifyClient_cases [of env hostKey c ctx_err nonce])
    fix init initHash sa payload saHash request
    assume ch: "server_challenged env c hostKey nonce init initHash sa payload"
      and h: "HashServerAuthMessage env sa = Inr saHash" "receiveClientAuthRequest env (an_recv2 c) = Inr request"
      and r: "verifyClient env c ctx_err hostKey nonce
        = (case check_client env (an_binding c) hostKey init initHash saHash request of
           (r, l) \<Rightarrow> ((r, [Signed (kp_private hostKey) payload, Sent (AFServer sa)] @ l), ClientAuthRecv))"
    from check_client_cases [of env "an_binding c" hostKey init initHash saHash request]
    have c: "check_client env (an_binding c) hostKey init initHash saHash request = (Some (Inr v), [])"
      using r run by auto
    then obtain key where "client_proved env (an_binding c) initHash saHash request key"
        "NewVerifiedClient (hai_identity init) (cq_username request) key (Keypair_PublicKey hostKey) = Inr v"
      using check_client_ok [of env "an_binding c" hostKey init initHash saHash request v] by auto
    then show thesis using ch h r run c p log by (intro that) (auto simp: NewVerifiedClient_ok)
  qed (use run in auto)
qed

lemma verified_client_took_part:
  assumes "ServerRun conn ctx_err hostKey nonce \<in> runs"
    and "fst (BeginServer env (Some conn) ctx_err hostKey nonce) = Some (Inr pending)"
    and "unforgeable env runs (pk_bytes (avc_provenKey (psa_verified pending)))"
    and "payloads_distinct env" and "collision_free env runs"
  shows "\<exists>c cfg n verifier sa hk. ClientRun c cfg (Inr n) \<in> runs \<and> an_binding c = an_binding conn
    \<and> ccf_Username cfg = avc_requestedUsername (psa_verified pending)
    \<and> ccf_ReferenceIdentity cfg = avc_hostIdentity (psa_verified pending)
    \<and> receiveHostAuthInit env (an_recv1 conn) = Inr (host_auth_init cfg n)
    \<and> Sent (AFServer sa) \<in> set (run_log env (ServerRun conn ctx_err hostKey nonce))
    \<and> ParsePublicKey (ae_ssh_parse env) (sa_key sa) = Inr hk
    \<and> ccf_VerifyServerHostKey cfg = Some verifier \<and> verifier (ccf_ReferenceIdentity cfg) hk = None"
proof -
  from assms(2) obtain init initHash sa payload saHash request key where
    ch: "server_challenged env conn hostKey nonce init initHash sa payload"
    and h: "HashServerAuthMessage env sa = Inr saHash"
    and cp: "client_proved env (an_binding conn) initHash saHash request key"
    and v: "psa_verified pending = \<lparr>avc_hostIdentity = hai_identity init, avc_requestedUsername = cq_username request,
       avc_provenKey = key, avc_serverKey = Keypair_PublicKey hostKey\<rparr>"
    and log: "snd (BeginServer env (Some conn) ctx_err hostKey nonce)
       = [Signed (kp_private hostKey) payload, Sent (AFServer sa)]"
    by (rule server_run_verified)
  let ?msg = "\<lparr>cs_binding = an_binding conn, cs_initHash = initHash, cs_serverHash = saHash,
     cs_username = cq_username request, cs_key = cq_key request, cs_alg = cq_alg request\<rparr>"
  obtain msg where m: "ClientAuthToSign_MarshalBinary env ?msg = Inr msg"
    and "ae_verify env (pk_bytes key) msg (cq_sig request)"
    using cp by (auto simp: client_proved_def)
  then obtain r k where r: "r \<in> runs" and signed: "Signed k msg \<in> set (run_log env r)"
    using assms(3) v unfolding unforgeable_def by auto
  show ?thesis
  proof (cases r)
    case (ServerRun c e hk n)
    from signed [unfolded ServerRun] obtain i ih s where "server_challenged env c hk n i ih s msg"
      by (rule server_run_signed)
    then obtain p where "ServerAuthToSign_MarshalBinary env p = Inr msg"
      by (auto simp: server_challenged_def server_signed_def)
    then show ?thesis using payloads_distinct_kinds [OF assms(4)] m by blast
  next
    case (ClientRun c cfg non)
    from signed [unfolded ClientRun] obtain verifier identity n ih s hk ck req where
      ver: "ccf_VerifyServerHostKey cfg = Some verifier"
      and ans: "client_answered env c cfg non identity verifier n ih s hk ck msg req"
      by (rule client_run_signed)
    from ans obtain sh blob where cm: "ClientAuthToSign_MarshalBinary env \<lparr>cs_binding = an_binding c, cs_initHash = ih,
        cs_serverHash = sh, cs_username = ccf_Username cfg, cs_key = blob, cs_alg = AlgorithmEd25519\<rparr> = Inr msg"
      and sh: "HashServerAuthMessage env s = Inr sh"
      by (auto simp: client_answered_def client_signed_def)
    have eq: "an_binding c = an_binding conn" "ih = initHash" "sh = saHash" "ccf_Username cfg = cq_username request"
      using payloads_distinct_client [OF assms(4) cm m] by simp_all
    have parts: "non = Inr n" "HashHostAuthInit env (host_auth_init cfg n) = Inr ih"
        "receiveServerAuth env (an_recv1 c) = Inr s" "verifier (ccf_ReferenceIdentity cfg) hk = None"
        "ParsePublicKey (ae_ssh_parse env) (sa_key s) = Inr hk"
      using ans by (auto simp: client_answered_def server_proved_def)
    have "init = host_auth_init cfg n"
      using ch eq(2) parts r ClientRun assms(1)
      by (intro collision_free_init [OF assms(5)] run_init_server run_init_client) (auto simp: server_challenged_def)
    moreover have "sa_key s = sa_key sa \<and> sa_nonce s = sa_nonce sa"
      using run_challenge_client [OF r [unfolded ClientRun] parts(3)] run_challenge_server [OF assms(1), of sa env]
        h sh eq(3) log
      by (intro collision_free_challenge [OF assms(5)]) simp_all
    ultimately show ?thesis using r ClientRun ver parts eq v log ch
      by - (rule exI [of _ c], rule exI [of _ cfg], rule exI [of _ n], rule exI [of _ verifier], rule exI [of _ sa],
        rule exI [of _ hk], auto simp: server_challenged_def host_auth_init_def)
  qed
qed


text \<open>
  C8: The same holds for the client.  If a client run succeeds and the server's key is used honestly,
  then the holder of that key took part in a server run over the same channel that received this
  client's first message and sent exactly the key and nonce the client saw.
\<close>

theorem client_agrees_with_server:
  assumes "ClientRun conn cfg (Inr n) \<in> runs"
    and "fst (RunClient env (Some conn) cfg (Inr n)) = Some (Inr res)"
    and "unforgeable env runs (pk_bytes (cres_ServerHostKey res))"
    and "payloads_distinct env" and "collision_free env runs"
  shows "\<exists>c e hostKey m sa. ServerRun c e hostKey (Inr m) \<in> runs \<and> an_binding c = an_binding conn
    \<and> receiveHostAuthInit env (an_recv1 c) = Inr (host_auth_init cfg n)
    \<and> kp_public hostKey = pk_bytes (cres_ServerHostKey res)
    \<and> receiveServerAuth env (an_recv1 conn) = Inr sa \<and> sa_nonce sa = m
    \<and> MarshalBinary (ae_ssh_marshal env) (Keypair_PublicKey hostKey) = Inr (sa_key sa)"
proof -
  from assms(2) have "Signed [] [] \<in> set (snd (RunClient env (Some conn) cfg (Inr n)))
      \<or> Sent (AFRequest undefined) \<in> set (snd (RunClient env (Some conn) cfg (Inr n)))
      \<or> fst (RunClient env (Some conn) cfg (Inr n)) = Some (Inr res)"
    by simp
  then obtain verifier identity n' initHash sa hk key payload request where
    "client_answered env conn cfg (Inr n) identity verifier n' initHash sa hk key payload request"
    and res: "cres_ServerHostKey res = hk"
    by (rule RunClient_answered) (use assms(2) in auto)
  then have ans: "HashHostAuthInit env (host_auth_init cfg n) = Inr initHash"
      "receiveServerAuth env (an_recv1 conn) = Inr sa" "server_proved env (an_binding conn) initHash sa hk"
    by (simp_all add: client_answered_def)
  let ?msg = "\<lparr>st_binding = an_binding conn, st_initHash = initHash, st_key = sa_key sa, st_nonce = sa_nonce sa\<rparr>"
  from ans(3) obtain msg where m: "ServerAuthToSign_MarshalBinary env ?msg = Inr msg"
    and "ae_verify env (pk_bytes hk) msg (sa_sig sa)"
    by (auto simp: server_proved_def)
  then obtain r k where r: "r \<in> runs" and k: "ae_derive env k = pk_bytes hk"
    and signed: "Signed k msg \<in> set (run_log env r)"
    using assms(3) res unfolding unforgeable_def by auto
  show ?thesis
  proof (cases r)
    case (ClientRun c' cfg' non)
    from signed [unfolded ClientRun] obtain verifier' identity' n1 ih s hk' ck req where
      "client_answered env c' cfg' non identity' verifier' n1 ih s hk' ck msg req"
      by (rule client_run_signed)
    then obtain q where "ClientAuthToSign_MarshalBinary env q = Inr msg"
      by (auto simp: client_answered_def client_signed_def)
    then show ?thesis using payloads_distinct_kinds [OF assms(4) m] by blast
  next
    case (ServerRun c e hostKey non)
    from signed [unfolded ServerRun] obtain init ih s where
      ch: "server_challenged env c hostKey non init ih s msg" and kk: "k = kp_private hostKey"
      and valid: "Keypair_Validate (ae_derive env) hostKey = None"
      by (rule server_run_signed)
    from ch obtain blob n2 where sm: "ServerAuthToSign_MarshalBinary env
          \<lparr>st_binding = an_binding c, st_initHash = ih, st_key = blob, st_nonce = n2\<rparr> = Inr msg"
      and b: "MarshalBinary (ae_ssh_marshal env) (Keypair_PublicKey hostKey) = Inr blob" "non = Inr n2"
      by (auto simp: server_challenged_def server_signed_def)
    have eq: "an_binding c = an_binding conn" "ih = initHash" "blob = sa_key sa" "n2 = sa_nonce sa"
      using payloads_distinct_server [OF assms(4) sm m] by simp_all
    have "init = host_auth_init cfg n"
      using ch eq(2) ans(1) r ServerRun assms(1)
      by (intro collision_free_init [OF assms(5)] run_init_server run_init_client) (auto simp: server_challenged_def)
    then show ?thesis using r ServerRun ch b eq ans(2) res k kk Keypair_valid_parts [OF valid]
      by - (rule exI [of _ c], rule exI [of _ e], rule exI [of _ hostKey], rule exI [of _ n2], rule exI [of _ sa],
        auto simp: server_challenged_def)
  qed
qed

section \<open>Honest parties succeed\<close>

text \<open>One exchange between a client and a server, given what each step of it produces.\<close>

lemma honest_run:
  assumes cfg: "ClientConfig_Validate cfg = None" "ccf_ClientIdentityProvider cfg = Some identity"
      "ccf_VerifyServerHostKey cfg = Some verifier"
    and keys: "Keypair_Validate (ae_derive env) hostKey = None" "Keypair_Validate (ae_derive env) key = None"
      "MarshalBinary (ae_ssh_marshal env) (Keypair_PublicKey hostKey) = Inr hblob"
      "MarshalBinary (ae_ssh_marshal env) (Keypair_PublicKey key) = Inr cblob"
      "ParsePublicKey (ae_ssh_parse env) hblob = Inr hk" "pk_bytes hk = kp_public hostKey" "PublicKey_Validate hk = None"
      "ParsePublicKey (ae_ssh_parse env) cblob = Inr ck" "pk_bytes ck = kp_public key" "PublicKey_Validate ck = None"
      "pk_Algorithm ck = AlgorithmEd25519"
    and trust: "verifier (ccf_ReferenceIdentity cfg) hk = None"
      "identity (ccf_ReferenceIdentity cfg) (ccf_Username cfg) hk = Inr key"
    and binding: "an_binding S = an_binding C"
    and hashes: "HashHostAuthInit env (host_auth_init cfg n) = Inr initHash" "HashServerAuthFields env hblob m = Inr saHash"
    and sp: "ServerAuthToSign_MarshalBinary env
        \<lparr>st_binding = an_binding C, st_initHash = initHash, st_key = hblob, st_nonce = m\<rparr> = Inr sp"
      "ae_verify env (kp_public hostKey) sp (ae_sign env (kp_private hostKey) sp)"
      "sa = \<lparr>sa_key = hblob, sa_nonce = m, sa_sig = ae_sign env (kp_private hostKey) sp\<rparr>"
    and cp: "ClientAuthToSign_MarshalBinary env
        \<lparr>cs_binding = an_binding C, cs_initHash = initHash, cs_serverHash = saHash,
         cs_username = ccf_Username cfg, cs_key = cblob, cs_alg = AlgorithmEd25519\<rparr> = Inr cp"
      "ae_verify env (kp_public key) cp (ae_sign env (kp_private key) cp)"
      "req = \<lparr>cq_username = ccf_Username cfg, cq_key = cblob, cq_alg = AlgorithmEd25519,
         cq_sig = ae_sign env (kp_private key) cp\<rparr>"
    and sends: "sendAuthFrame env C (AFInit (host_auth_init cfg n)) = None" "sendAuthFrame env C (AFRequest req) = None"
      "sendAuthFrame env S (AFServer sa) = None"
    and recvs: "receiveHostAuthInit env (an_recv1 S) = Inr (host_auth_init cfg n)"
      "receiveServerAuth env (an_recv1 C) = Inr sa" "receiveClientAuthRequest env (an_recv2 S) = Inr req"
      "receiveClientAuthResponse env (an_recv2 C) = Inr RespOk"
  shows "BeginServer env (Some S) None hostKey (Inr m)
      = (Some (Inr \<lparr>psa_state = ClientAuthRecv, psa_verified = \<lparr>avc_hostIdentity = ccf_ReferenceIdentity cfg,
           avc_requestedUsername = ccf_Username cfg, avc_provenKey = ck, avc_serverKey = Keypair_PublicKey hostKey\<rparr>,
           psa_decided = False\<rparr>), [Signed (kp_private hostKey) sp, Sent (AFServer sa)])"
    and "RunClient env (Some C) cfg (Inr n)
      = (Some (Inr \<lparr>cres_ReferenceIdentity = ccf_ReferenceIdentity cfg, cres_ServerHostKey = hk,
           cres_Username = ccf_Username cfg, cres_PublicKey = Keypair_PublicKey key\<rparr>),
         [Sent (AFInit (host_auth_init cfg n)), Signed (kp_private key) cp, Sent (AFRequest req)])"
proof -
  have names: "ccf_ReferenceIdentity cfg \<noteq> []" "ccf_Username cfg \<noteq> []"
    using cfg(1) by (auto simp: ClientConfig_Validate_def split: if_splits)
  have alg: "pk_Algorithm (Keypair_PublicKey key) = AlgorithmEd25519" by (simp add: Keypair_PublicKey_def)
  have init: "hai_version (host_auth_init cfg n) = ProtocolVersion" "hai_identity (host_auth_init cfg n) = ccf_ReferenceIdentity cfg"
    by (simp_all add: host_auth_init_def)
  have sa: "HashServerAuthMessage env sa = Inr saHash" using hashes sp by (simp add: HashServerAuthMessage_def)
  have "server_proof env (an_binding S) hostKey (Inr m) initHash = (Some (Inr sa), [Signed (kp_private hostKey) sp])"
    using keys sp binding by (simp add: server_proof_def)
  moreover have "check_client env (an_binding S) hostKey (host_auth_init cfg n) initHash saHash req
      = (Some (Inr \<lparr>avc_hostIdentity = ccf_ReferenceIdentity cfg, avc_requestedUsername = ccf_Username cfg,
          avc_provenKey = ck, avc_serverKey = Keypair_PublicKey hostKey\<rparr>), [])"
    using keys cp binding names init MarshalBinary_valid [OF keys(3)]
    by (simp add: check_client_def NewVerifiedClient_def)
  ultimately show "BeginServer env (Some S) None hostKey (Inr m)
      = (Some (Inr \<lparr>psa_state = ClientAuthRecv, psa_verified = \<lparr>avc_hostIdentity = ccf_ReferenceIdentity cfg,
           avc_requestedUsername = ccf_Username cfg, avc_provenKey = ck, avc_serverKey = Keypair_PublicKey hostKey\<rparr>,
           psa_decided = False\<rparr>), [Signed (kp_private hostKey) sp, Sent (AFServer sa)])"
    using keys(1) recvs sends hashes sa init by (simp add: BeginServer_def verifyClient_def)
  have "server_proved env (an_binding C) initHash sa hk" using keys sp by (auto simp: server_proved_def)
  then have "check_server env (an_binding C) cfg initHash sa verifier = Some (Inr hk)"
    using trust by (simp add: check_server_ok)
  moreover have "client_proof env (an_binding C) cfg initHash sa identity hk
      = (Some (Inr (Keypair_PublicKey key, req)), [Signed (kp_private key) cp])"
    using sa trust keys cp alg by (simp add: client_proof_def Let_def)
  ultimately show "RunClient env (Some C) cfg (Inr n)
      = (Some (Inr \<lparr>cres_ReferenceIdentity = ccf_ReferenceIdentity cfg, cres_ServerHostKey = hk,
           cres_Username = ccf_Username cfg, cres_PublicKey = Keypair_PublicKey key\<rparr>),
         [Sent (AFInit (host_auth_init cfg n)), Signed (kp_private key) cp, Sent (AFRequest req)])"
    using cfg recvs sends hashes by (simp add: RunClient_def authenticateClient_def Let_def)
qed

text \<open>What the libraries promise: correct signatures, 32-byte hashes, and codecs for text that is UTF-8.\<close>

definition text_ok :: "string \<Rightarrow> bool" where
  "text_ok s = utf8_Valid (bytes_of s)"

primrec frame_texts :: "AuthFrame \<Rightarrow> string list" where
  "frame_texts AFUnset = []"
| "frame_texts (AFInit m) = [hai_version m, hai_identity m]"
| "frame_texts (AFServer m) = []"
| "frame_texts (AFRequest m) = [cq_username m, cq_alg m]"
| "frame_texts (AFResponse r) = (case r of RespReject code msg \<Rightarrow> [code, msg] | _ \<Rightarrow> [])"
| "frame_texts (AFError code msg) = [code, msg]"

definition crypto_correct :: "auth_env \<Rightarrow> bool" where
  "crypto_correct env \<longleftrightarrow>
    (\<forall>k msg. ae_verify env (ae_derive env k) msg (ae_sign env k msg) \<and> ae_sign env k msg \<noteq> [])
    \<and> (\<forall>b. length (ae_sha256 env b) = DigestSize)
    \<and> (\<forall>k. length k = 32 \<longrightarrow> (\<exists>b. ae_ssh_marshal env k = Inr b \<and> b \<noteq> []
          \<and> ae_ssh_parse env b = Inr \<lparr>sk_Type = KeyAlgoED25519, sk_crypto = CryptoEd25519 k\<rparr>))"

definition codecs_correct :: "auth_env \<Rightarrow> bool" where
  "codecs_correct env \<longleftrightarrow>
    wire_codec valid_AuthFrame (ae_enc env) (ae_dec env)
    \<and> (\<forall>f. list_all text_ok (frame_texts f) \<longrightarrow> (\<exists>b. ae_enc env f = Inr b))
    \<and> (\<forall>i. text_ok (hai_version i) \<and> text_ok (hai_identity i) \<longrightarrow> (\<exists>b. ae_marshal_init env i = Inr b))
    \<and> (\<forall>k n. \<exists>b. ae_marshal_server env k n = Inr b)
    \<and> (\<forall>p. \<exists>b. ae_marshal_ssign env ServerAuthContext p = Inr b)
    \<and> (\<forall>p. text_ok (cs_username p) \<and> text_ok (cs_alg p) \<longrightarrow> (\<exists>b. ae_marshal_csign env ClientAuthContext p = Inr b))"

lemma parsed_key:
  assumes "crypto_correct env" "length (pk_bytes k) = 32" "pk_Algorithm k = AlgorithmEd25519"
  shows "\<exists>b. MarshalBinary (ae_ssh_marshal env) k = Inr b \<and> b \<noteq> []
    \<and> ParsePublicKey (ae_ssh_parse env) b
      = Inr \<lparr>pk_Algorithm = AlgorithmEd25519, pk_bytes = pk_bytes k, pk_Comment = []\<rparr>"
  using assms
  by (fastforce simp: crypto_correct_def MarshalBinary_def PublicKey_Validate_def validateAlgorithm_def
      validateKeyLength_def ParsePublicKey_def ParseSSHPublicKey_def)

lemma Keypair_valid_length:
  "Keypair_Validate derive k = None \<Longrightarrow> length (kp_public k) = 32"
  by (auto simp: Keypair_Validate_def validateKeyLength_def split: option.splits if_splits)

lemma receive_sent:
  assumes "codecs_correct env" "valid_AuthFrame f" "ae_enc env f = Inr b"
  shows "receiveAuthFrame env (Inr b) = Inr f"
proof -
  have "wire_codec valid_AuthFrame (ae_enc env) (ae_dec env)" using assms(1) by (simp add: codecs_correct_def)
  then show ?thesis using Receive_encoded assms(2,3) by (fastforce simp: receiveAuthFrame_def)
qed

lemma enc_total: "codecs_correct env \<Longrightarrow> list_all text_ok (frame_texts f) \<Longrightarrow> \<exists>b. ae_enc env f = Inr b"
  by (simp add: codecs_correct_def)

lemma text_constants: "text_ok ProtocolVersion" "text_ok AlgorithmEd25519"
  by (simp_all add: text_ok_def ProtocolVersion_def AlgorithmEd25519_def bytes_of_def)

text \<open>The parts of the exchange exist when the libraries keep their promises.\<close>

lemma honest_hashes:
  assumes "crypto_correct env" "codecs_correct env" "text_ok (ccf_ReferenceIdentity cfg)"
  shows "\<exists>h. HashHostAuthInit env (host_auth_init cfg n) = Inr h \<and> length h = 32"
    and "\<exists>h. HashServerAuthFields env blob m = Inr h \<and> length h = 32"
proof -
  obtain b where "ae_marshal_init env (host_auth_init cfg n) = Inr b"
    using assms text_constants by (fastforce simp: codecs_correct_def host_auth_init_def)
  then show "\<exists>h. HashHostAuthInit env (host_auth_init cfg n) = Inr h \<and> length h = 32"
    using assms(1) by (simp add: HashHostAuthInit_def hashProtoMessage_def crypto_correct_def DigestSize_def)
  obtain b where "ae_marshal_server env blob m = Inr b" using assms(2) unfolding codecs_correct_def by blast
  then show "\<exists>h. HashServerAuthFields env blob m = Inr h \<and> length h = 32"
    using assms(1) by (simp add: HashServerAuthFields_def hashProtoMessage_def crypto_correct_def DigestSize_def)
qed

lemma honest_server_payload:
  assumes "codecs_correct env" "length (st_binding p) = 32" "length (st_initHash p) = 32" "st_key p \<noteq> []"
    "length (st_nonce p) = 32"
  shows "\<exists>b. ServerAuthToSign_MarshalBinary env p = Inr b"
proof -
  obtain b where "ae_marshal_ssign env ServerAuthContext p = Inr b"
    using assms(1) unfolding codecs_correct_def by blast
  then show ?thesis using assms(2-)
    by (simp add: ServerAuthToSign_MarshalBinary_def ServerAuthToSign_Validate_def validateDigest_def
        validateBytesLen_def DigestSize_def NonceSize_def)
qed

lemma honest_client_payload:
  assumes "codecs_correct env" "length (cs_binding p) = 32" "length (cs_initHash p) = 32"
    "length (cs_serverHash p) = 32" "cs_username p \<noteq> []" "cs_key p \<noteq> []" "cs_alg p = AlgorithmEd25519"
    "text_ok (cs_username p)"
  shows "\<exists>b. ClientAuthToSign_MarshalBinary env p = Inr b"
proof -
  obtain b where "ae_marshal_csign env ClientAuthContext p = Inr b"
    using assms text_constants unfolding codecs_correct_def by metis
  then show ?thesis using assms(2-)
    by (simp add: ClientAuthToSign_MarshalBinary_def ClientAuthToSign_Validate_def validateDigest_def
        validateBytesLen_def DigestSize_def AlgorithmEd25519_def)
qed

definition honest_config :: "auth_env \<Rightarrow> string \<Rightarrow> string \<Rightarrow> Keypair \<Rightarrow> (string \<Rightarrow> PublicKey \<Rightarrow> goerr option) \<Rightarrow> ClientConfig" where
  "honest_config env ident user key verifier =
    \<lparr>ccf_ReferenceIdentity = ident, ccf_Username = user,
     ccf_ClientIdentityProvider = Some (StaticClientIdentityProvider (ae_derive env) key),
     ccf_VerifyServerHostKey = Some verifier\<rparr>"

text \<open>The two keys as the parties send and parse them, the hashes and the signed payloads.\<close>

definition honest_parts ::
    "auth_env \<Rightarrow> ClientConfig \<Rightarrow> Keypair \<Rightarrow> Keypair \<Rightarrow> bytes \<Rightarrow> bytes \<Rightarrow> bytes
      \<Rightarrow> bytes \<Rightarrow> bytes \<Rightarrow> bytes \<Rightarrow> bytes \<Rightarrow> bytes \<Rightarrow> bytes \<Rightarrow> bool" where
  "honest_parts env cfg hostKey key binding n m hblob cblob ih sh sp cp \<longleftrightarrow>
    MarshalBinary (ae_ssh_marshal env) (Keypair_PublicKey hostKey) = Inr hblob \<and> hblob \<noteq> []
    \<and> ParsePublicKey (ae_ssh_parse env) hblob
      = Inr \<lparr>pk_Algorithm = AlgorithmEd25519, pk_bytes = kp_public hostKey, pk_Comment = []\<rparr>
    \<and> MarshalBinary (ae_ssh_marshal env) (Keypair_PublicKey key) = Inr cblob \<and> cblob \<noteq> []
    \<and> ParsePublicKey (ae_ssh_parse env) cblob
      = Inr \<lparr>pk_Algorithm = AlgorithmEd25519, pk_bytes = kp_public key, pk_Comment = []\<rparr>
    \<and> HashHostAuthInit env (host_auth_init cfg n) = Inr ih \<and> HashServerAuthFields env hblob m = Inr sh
    \<and> ServerAuthToSign_MarshalBinary env
        \<lparr>st_binding = binding, st_initHash = ih, st_key = hblob, st_nonce = m\<rparr> = Inr sp
    \<and> ClientAuthToSign_MarshalBinary env
        \<lparr>cs_binding = binding, cs_initHash = ih, cs_serverHash = sh, cs_username = ccf_Username cfg,
         cs_key = cblob, cs_alg = AlgorithmEd25519\<rparr> = Inr cp"

lemma honest_parts_exist:
  assumes "crypto_correct env" "codecs_correct env"
    and "Keypair_Validate (ae_derive env) hostKey = None" "Keypair_Validate (ae_derive env) key = None"
    and "length binding = 32" "length m = 32" "ccf_Username cfg \<noteq> []"
    and "text_ok (ccf_ReferenceIdentity cfg)" "text_ok (ccf_Username cfg)"
  shows "\<exists>hblob cblob ih sh sp cp. honest_parts env cfg hostKey key binding n m hblob cblob ih sh sp cp"
proof -
  have len: "length (kp_public hostKey) = 32" "length (kp_public key) = 32"
    using assms(3,4) by (auto dest: Keypair_valid_length)
  obtain hblob where hb: "MarshalBinary (ae_ssh_marshal env) (Keypair_PublicKey hostKey) = Inr hblob" "hblob \<noteq> []"
      "ParsePublicKey (ae_ssh_parse env) hblob
        = Inr \<lparr>pk_Algorithm = AlgorithmEd25519, pk_bytes = kp_public hostKey, pk_Comment = []\<rparr>"
    using parsed_key [OF assms(1), of "Keypair_PublicKey hostKey"] len by (auto simp: Keypair_PublicKey_def)
  obtain cblob where cb: "MarshalBinary (ae_ssh_marshal env) (Keypair_PublicKey key) = Inr cblob" "cblob \<noteq> []"
      "ParsePublicKey (ae_ssh_parse env) cblob
        = Inr \<lparr>pk_Algorithm = AlgorithmEd25519, pk_bytes = kp_public key, pk_Comment = []\<rparr>"
    using parsed_key [OF assms(1), of "Keypair_PublicKey key"] len by (auto simp: Keypair_PublicKey_def)
  obtain ih where ih: "HashHostAuthInit env (host_auth_init cfg n) = Inr ih" "length ih = 32"
    using honest_hashes(1) [OF assms(1,2,8)] by auto
  obtain sh where sh: "HashServerAuthFields env hblob m = Inr sh" "length sh = 32"
    using honest_hashes(2) [OF assms(1,2,8)] by auto
  obtain sp where sp: "ServerAuthToSign_MarshalBinary env
      \<lparr>st_binding = binding, st_initHash = ih, st_key = hblob, st_nonce = m\<rparr> = Inr sp"
    using honest_server_payload [OF assms(2), of "\<lparr>st_binding = binding, st_initHash = ih, st_key = hblob, st_nonce = m\<rparr>"]
      assms(5,6) ih hb by auto
  obtain cp where cp: "ClientAuthToSign_MarshalBinary env \<lparr>cs_binding = binding, cs_initHash = ih, cs_serverHash = sh,
      cs_username = ccf_Username cfg, cs_key = cblob, cs_alg = AlgorithmEd25519\<rparr> = Inr cp"
    using honest_client_payload [OF assms(2), of "\<lparr>cs_binding = binding, cs_initHash = ih, cs_serverHash = sh,
      cs_username = ccf_Username cfg, cs_key = cblob, cs_alg = AlgorithmEd25519\<rparr>"] assms(5,7,9) ih sh cb by auto
  show ?thesis using hb cb ih(1) sh(1) sp cp
    by - (rule exI [of _ hblob], rule exI [of _ cblob], rule exI [of _ ih], rule exI [of _ sh], rule exI [of _ sp],
      rule exI [of _ cp], simp add: honest_parts_def)
qed

text \<open>The exchange over one channel, each side receiving what the other sent.\<close>

definition exchange_end :: "bytes \<Rightarrow> bytes \<Rightarrow> bytes \<Rightarrow> auth_conn" where
  "exchange_end binding first second =
    \<lparr>an_binding = binding, an_send = (\<lambda>_. None), an_recv1 = Inr first, an_recv2 = Inr second\<rparr>"

lemma honest_exchange:
  assumes "codecs_correct env" and parts: "honest_parts env cfg hostKey key binding n m hblob cblob ih sh sp cp"
    and cfg: "cfg = honest_config env ident user key verifier" "ident \<noteq> []" "user \<noteq> []"
    and keys: "Keypair_Validate (ae_derive env) hostKey = None" "Keypair_Validate (ae_derive env) key = None"
    and trust: "verifier ident \<lparr>pk_Algorithm = AlgorithmEd25519, pk_bytes = kp_public hostKey, pk_Comment = []\<rparr> = None"
    and sigs: "ae_verify env (kp_public hostKey) sp (ae_sign env (kp_private hostKey) sp)"
      "ae_verify env (kp_public key) cp (ae_sign env (kp_private key) cp)"
    and sa: "sa = \<lparr>sa_key = hblob, sa_nonce = m, sa_sig = ae_sign env (kp_private hostKey) sp\<rparr>"
    and req: "req = \<lparr>cq_username = user, cq_key = cblob, cq_alg = AlgorithmEd25519,
      cq_sig = ae_sign env (kp_private key) cp\<rparr>"
    and valid: "valid_AuthFrame (AFInit (host_auth_init cfg n))" "valid_AuthFrame (AFServer sa)"
      "valid_AuthFrame (AFRequest req)"
    and enc: "ae_enc env (AFInit (host_auth_init cfg n)) = Inr binit" "ae_enc env (AFServer sa) = Inr bsa"
      "ae_enc env (AFRequest req) = Inr breq" "ae_enc env (AFResponse RespOk) = Inr bok"
  shows "BeginServer env (Some (exchange_end binding binit breq)) None hostKey (Inr m)
      = (Some (Inr \<lparr>psa_state = ClientAuthRecv, psa_verified = \<lparr>avc_hostIdentity = ident, avc_requestedUsername = user,
           avc_provenKey = \<lparr>pk_Algorithm = AlgorithmEd25519, pk_bytes = kp_public key, pk_Comment = []\<rparr>,
           avc_serverKey = Keypair_PublicKey hostKey\<rparr>, psa_decided = False\<rparr>),
         [Signed (kp_private hostKey) sp, Sent (AFServer sa)])"
    and "RunClient env (Some (exchange_end binding bsa bok)) cfg (Inr n)
      = (Some (Inr \<lparr>cres_ReferenceIdentity = ident,
           cres_ServerHostKey = \<lparr>pk_Algorithm = AlgorithmEd25519, pk_bytes = kp_public hostKey, pk_Comment = []\<rparr>,
           cres_Username = user, cres_PublicKey = Keypair_PublicKey key\<rparr>),
         [Sent (AFInit (host_auth_init cfg n)), Signed (kp_private key) cp, Sent (AFRequest req)])"
proof -
  let ?hk = "\<lparr>pk_Algorithm = AlgorithmEd25519, pk_bytes = kp_public hostKey, pk_Comment = []\<rparr>"
  let ?ck = "\<lparr>pk_Algorithm = AlgorithmEd25519, pk_bytes = kp_public key, pk_Comment = []\<rparr>"
  let ?S = "exchange_end binding binit breq" and ?C = "exchange_end binding bsa bok"
  have names: "ccf_ReferenceIdentity cfg = ident" "ccf_Username cfg = user"
      "ccf_ClientIdentityProvider cfg = Some (StaticClientIdentityProvider (ae_derive env) key)"
      "ccf_VerifyServerHostKey cfg = Some verifier"
    by (simp_all add: cfg honest_config_def)
  have "valid_AuthFrame (AFResponse RespOk)" by simp
  note got = receive_sent [OF assms(1) valid(1) enc(1)] receive_sent [OF assms(1) valid(2) enc(2)]
    receive_sent [OF assms(1) valid(3) enc(3)] receive_sent [OF assms(1) this enc(4)]
  have recvs: "receiveHostAuthInit env (an_recv1 ?S) = Inr (host_auth_init cfg n)"
      "receiveServerAuth env (an_recv1 ?C) = Inr sa" "receiveClientAuthRequest env (an_recv2 ?S) = Inr req"
      "receiveClientAuthResponse env (an_recv2 ?C) = Inr RespOk"
    using got by (simp_all add: exchange_end_def receiveHostAuthInit_def receiveServerAuth_def
        receiveClientAuthRequest_def receiveClientAuthResponse_def)
  have sends: "sendAuthFrame env ?C (AFInit (host_auth_init cfg n)) = None" "sendAuthFrame env ?C (AFRequest req) = None"
      "sendAuthFrame env ?S (AFServer sa) = None"
    using valid enc by (simp_all add: sendAuthFrame_def Send_ok exchange_end_def)
  have pub: "PublicKey_Validate ?hk = None" "PublicKey_Validate ?ck = None"
    using keys by (auto dest!: Keypair_valid_length
        simp: PublicKey_Validate_def validateAlgorithm_def validateKeyLength_def)
  have ok: "ClientConfig_Validate cfg = None" using cfg names by (simp add: ClientConfig_Validate_def)
  have id: "StaticClientIdentityProvider (ae_derive env) key (ccf_ReferenceIdentity cfg) (ccf_Username cfg) ?hk = Inr key"
    using keys by (simp add: StaticClientIdentityProvider_def)
  have same: "an_binding ?S = binding" "an_binding ?C = binding" by (simp_all add: exchange_end_def)
  note run = honest_run [OF ok names(3,4) keys, where S = ?S and C = ?C and hk = ?hk and ck = ?ck and hblob = hblob
      and cblob = cblob and n = n and m = m and initHash = ih and saHash = sh and sp = sp and cp = cp and sa = sa
      and req = req]
  show "BeginServer env (Some ?S) None hostKey (Inr m)
      = (Some (Inr \<lparr>psa_state = ClientAuthRecv, psa_verified = \<lparr>avc_hostIdentity = ident, avc_requestedUsername = user,
           avc_provenKey = ?ck, avc_serverKey = Keypair_PublicKey hostKey\<rparr>, psa_decided = False\<rparr>),
         [Signed (kp_private hostKey) sp, Sent (AFServer sa)])"
    using run(1) parts [unfolded honest_parts_def] pub trust id same sigs sa req sends recvs by (simp add: names)
  show "RunClient env (Some ?C) cfg (Inr n)
      = (Some (Inr \<lparr>cres_ReferenceIdentity = ident, cres_ServerHostKey = ?hk, cres_Username = user,
           cres_PublicKey = Keypair_PublicKey key\<rparr>),
         [Sent (AFInit (host_auth_init cfg n)), Signed (kp_private key) cp, Sent (AFRequest req)])"
    using run(2) parts [unfolded honest_parts_def] pub trust id same sigs sa req sends recvs by (simp add: names)
qed

text \<open>
  C11: Honest parties authenticate each other.  When the client and the server of one channel receive
  each other's messages, the client's verifier trusts the server's key and the libraries keep their
  promises, the server verifies the client's user name and key, its acceptance can be sent, and the
  client succeeds with the server's key: no check of either side stands in the way.
\<close>

theorem honest_authentication:
  assumes "crypto_correct env" "codecs_correct env"
    and "Keypair_Validate (ae_derive env) hostKey = None" "Keypair_Validate (ae_derive env) key = None"
    and "length binding = 32" "length n = 32" "length m = 32"
    and "ident \<noteq> []" "user \<noteq> []" "text_ok ident" "text_ok user"
    and "verifier ident \<lparr>pk_Algorithm = AlgorithmEd25519, pk_bytes = kp_public hostKey, pk_Comment = []\<rparr> = None"
  shows "\<exists>binit bsa breq bok sa req pending res.
      ae_enc env (AFInit (host_auth_init (honest_config env ident user key verifier) n)) = Inr binit
      \<and> ae_enc env (AFServer sa) = Inr bsa \<and> ae_enc env (AFRequest req) = Inr breq
      \<and> ae_enc env (AFResponse RespOk) = Inr bok
      \<and> (let S = exchange_end binding binit breq; C = exchange_end binding bsa bok
         in fst (BeginServer env (Some S) None hostKey (Inr m)) = Some (Inr pending)
          \<and> Sent (AFServer sa) \<in> set (snd (BeginServer env (Some S) None hostKey (Inr m)))
          \<and> fst (RunClient env (Some C) (honest_config env ident user key verifier) (Inr n)) = Some (Inr res)
          \<and> Sent (AFRequest req) \<in> set (snd (RunClient env (Some C) (honest_config env ident user key verifier) (Inr n)))
          \<and> fst (PendingServerAuth_Accept env S pending) = None)
      \<and> avc_requestedUsername (psa_verified pending) = user \<and> avc_hostIdentity (psa_verified pending) = ident
      \<and> pk_bytes (avc_provenKey (psa_verified pending)) = kp_public key
      \<and> pk_bytes (cres_ServerHostKey res) = kp_public hostKey"
proof -
  let ?cfg = "honest_config env ident user key verifier"
  have cfg: "ccf_ReferenceIdentity ?cfg = ident" "ccf_Username ?cfg = user" by (simp_all add: honest_config_def)
  obtain hblob cblob ih sh sp cp where parts: "honest_parts env ?cfg hostKey key binding n m hblob cblob ih sh sp cp"
    using honest_parts_exist [OF assms(1-5,7), of ?cfg n] assms(9-11) cfg by auto
  let ?sa = "\<lparr>sa_key = hblob, sa_nonce = m, sa_sig = ae_sign env (kp_private hostKey) sp\<rparr>"
  let ?req = "\<lparr>cq_username = user, cq_key = cblob, cq_alg = AlgorithmEd25519, cq_sig = ae_sign env (kp_private key) cp\<rparr>"
  have valid: "valid_AuthFrame (AFInit (host_auth_init ?cfg n))" "valid_AuthFrame (AFServer ?sa)"
      "valid_AuthFrame (AFRequest ?req)"
    using assms(1,6-9) parts cfg
    by (simp_all add: host_auth_init_def ProtocolVersion_def AlgorithmEd25519_def crypto_correct_def honest_parts_def)
  obtain binit where e1: "ae_enc env (AFInit (host_auth_init ?cfg n)) = Inr binit"
    using enc_total [OF assms(2), of "AFInit (host_auth_init ?cfg n)"] assms(10) text_constants cfg
    by (auto simp: host_auth_init_def)
  obtain bsa where e2: "ae_enc env (AFServer ?sa) = Inr bsa" using enc_total [OF assms(2), of "AFServer ?sa"] by auto
  obtain breq where e3: "ae_enc env (AFRequest ?req) = Inr breq"
    using enc_total [OF assms(2), of "AFRequest ?req"] assms(11) text_constants by auto
  obtain bok where e4: "ae_enc env (AFResponse RespOk) = Inr bok"
    using enc_total [OF assms(2), of "AFResponse RespOk"] by auto
  have verify: "ae_verify env (kp_public k) x (ae_sign env (kp_private k) x)"
    if "Keypair_Validate (ae_derive env) k = None" for k x
    using assms(1) Keypair_valid_parts [OF that] unfolding crypto_correct_def by metis
  note run = honest_exchange [OF assms(2) parts refl assms(8,9,3,4,12) verify [OF assms(3)] verify [OF assms(4)]
      refl refl valid e1 e2 e3 e4]
  have "sendAuthFrame env (exchange_end binding binit breq) (AFResponse RespOk) = None"
    using e4 by (simp add: sendAuthFrame_def Send_ok exchange_end_def)
  then show ?thesis using e1 e2 e3 e4
    by - (rule exI [of _ binit], rule exI [of _ bsa], rule exI [of _ breq], rule exI [of _ bok],
      rule exI [of _ ?sa], rule exI [of _ ?req],
      simp add: Let_def run PendingServerAuth_Accept_def beginDecision_def)
qed

section \<open>The server answers once\<close>

text \<open>Any sequence of decisions by the callers of a pending authentication; \<open>True\<close> accepts.\<close>

fun decisions :: "auth_env \<Rightarrow> auth_conn \<Rightarrow> PendingServerAuth \<Rightarrow> bool list \<Rightarrow> auth_event list" where
  "decisions env conn p [] = []"
| "decisions env conn p (d # ds) =
    (case (if d then PendingServerAuth_Accept env conn p else PendingServerAuth_Reject env conn p) of
       (_, l, p1) \<Rightarrow> l @ decisions env conn p1 ds)"

definition server_log :: "auth_env \<Rightarrow> auth_conn \<Rightarrow> goerr option \<Rightarrow> Keypair \<Rightarrow> (goerr, bytes) result \<Rightarrow> bool list \<Rightarrow> auth_event list" where
  "server_log env conn ctx_err hostKey nonce ds =
    (case BeginServer env (Some conn) ctx_err hostKey nonce of
       (Some (Inr p), l) \<Rightarrow> l @ decisions env conn p ds
     | (_, l) \<Rightarrow> l)"

definition is_response :: "auth_event \<Rightarrow> bool" where
  "is_response e \<longleftrightarrow> (\<exists>r. e = Sent (AFResponse r))"

lemma decided_silent: "psa_decided p \<Longrightarrow> decisions env conn p ds = []"
  by (induction ds) (simp_all add: PendingServerAuth_Accept_def PendingServerAuth_Reject_def beginDecision_def)

lemma Accept_decides:
  "\<not> psa_decided p \<Longrightarrow> \<exists>e p1. PendingServerAuth_Accept env conn p = (e, [Sent (AFResponse RespOk)], p1) \<and> psa_decided p1"
  by (auto simp: PendingServerAuth_Accept_def beginDecision_def Let_def split: option.splits sum.splits)

lemma Reject_decides:
  "\<not> psa_decided p \<Longrightarrow> \<exists>e p1. PendingServerAuth_Reject env conn p = (e, rejectInvalidClient, p1) \<and> psa_decided p1"
  by (auto simp: PendingServerAuth_Reject_def beginDecision_def Let_def rejectInvalidClient_def split: option.splits)

lemma decisions_once:
  assumes "\<not> psa_decided p"
  shows "decisions env conn p ds
    = (case ds of [] \<Rightarrow> [] | d # _ \<Rightarrow> if d then [Sent (AFResponse RespOk)] else rejectInvalidClient)"
  using Accept_decides [OF assms, of env conn] Reject_decides [OF assms, of env conn]
  by (cases ds) (auto simp: decided_silent)

lemma BeginServer_responses:
  "(\<exists>p. fst (BeginServer env (Some conn) ctx_err hostKey nonce) = Some (Inr p) \<and> \<not> psa_decided p
      \<and> filter is_response (snd (BeginServer env (Some conn) ctx_err hostKey nonce)) = [])
    \<or> (\<exists>e. fst (BeginServer env (Some conn) ctx_err hostKey nonce) = Some (Inl e)
      \<and> filter is_response (snd (BeginServer env (Some conn) ctx_err hostKey nonce)) \<in> {[], rejectInvalidClient})"
proof (cases "Keypair_Validate (ae_derive env) hostKey")
  case (Some e)
  then show ?thesis by (simp add: BeginServer_def)
next
  case None
  then show ?thesis
  proof (rule verifyClient_cases [of env hostKey conn ctx_err nonce])
    fix e l st
    assume "verifyClient env conn ctx_err hostKey nonce = ((Some (Inl e), l), st)" "l = [] \<or> (\<exists>c m. l = sendAuthError c m)"
    then show ?thesis using None by (auto simp: BeginServer_def sendAuthError_def is_response_def)
  next
    fix e init initHash sa payload st
    assume "verifyClient env conn ctx_err hostKey nonce
      = ((Some (Inl e), [Signed (kp_private hostKey) payload, Sent (AFServer sa)]), st)"
    then show ?thesis using None by (simp add: BeginServer_def is_response_def)
  next
    fix init initHash sa payload saHash request
    assume "verifyClient env conn ctx_err hostKey nonce
      = (case check_client env (an_binding conn) hostKey init initHash saHash request of
           (r, l) \<Rightarrow> ((r, [Signed (kp_private hostKey) payload, Sent (AFServer sa)] @ l), ClientAuthRecv))"
    then show ?thesis using None check_client_cases [of env "an_binding conn" hostKey init initHash saHash request]
      by (auto simp: BeginServer_def is_response_def rejectInvalidClient_def ClientAuthReject_def)
  qed
qed

text \<open>
  C10: The server answers a client at most once and tells a rejected client nothing.  Whatever the
  client sends and however often the decision is asked for, at most one response leaves the server;
  it is an acceptance only if the client's proof was verified and the first decision was to accept,
  and otherwise the one generic rejection, whichever check failed.  Authentication never panics.
\<close>

theorem server_answers_once:
  "(\<exists>r. fst (BeginServer env (Some conn) ctx_err hostKey nonce) = Some r
      \<and> filter is_response (server_log env conn ctx_err hostKey nonce ds)
        \<in> {[], [Sent (AFResponse RespOk)], [Sent (ClientAuthReject authenticationFailed ''authentication failed'')]}
      \<and> (Sent (AFResponse RespOk) \<in> set (server_log env conn ctx_err hostKey nonce ds)
        \<longleftrightarrow> (\<exists>p. r = Inr p) \<and> (\<exists>ds'. ds = True # ds')))"
proof -
  let ?run = "BeginServer env (Some conn) ctx_err hostKey nonce"
  have mem: "e \<in> set l \<longleftrightarrow> e \<in> set (filter is_response l)" if "e = Sent (AFResponse RespOk)" for e l
    using that by (auto simp: is_response_def)
  from BeginServer_responses [of env conn ctx_err hostKey nonce] show ?thesis
  proof (elim disjE exE conjE)
    fix p assume p: "fst ?run = Some (Inr p)" "\<not> psa_decided p" "filter is_response (snd ?run) = []"
    have "server_log env conn ctx_err hostKey nonce ds = snd ?run @ decisions env conn p ds"
      using p(1) by (cases ?run) (simp add: server_log_def)
    then have "filter is_response (server_log env conn ctx_err hostKey nonce ds)
        = (case ds of [] \<Rightarrow> [] | d # _ \<Rightarrow> if d then [Sent (AFResponse RespOk)] else rejectInvalidClient)"
      using p(2,3) by (simp add: decisions_once is_response_def rejectInvalidClient_def ClientAuthReject_def split: list.splits)
    then show ?thesis using p(1)
      by (subst mem) (auto simp: rejectInvalidClient_def ClientAuthReject_def split: list.splits)
  next
    fix e assume e: "fst ?run = Some (Inl e)" "filter is_response (snd ?run) \<in> {[], rejectInvalidClient}"
    have "server_log env conn ctx_err hostKey nonce ds = snd ?run"
      using e(1) by (cases ?run) (simp add: server_log_def)
    then show ?thesis using e mem [OF refl, of "snd ?run"]
      by (auto simp: rejectInvalidClient_def ClientAuthReject_def simp del: set_filter)
  qed
qed

section \<open>A concrete exchange\<close>

text \<open>A self-delimiting encoding of lists of byte strings, and libraries built on it.\<close>

definition pack :: "bytes list \<Rightarrow> bytes" where
  "pack xss = concat (map (\<lambda>xs. concat (map (\<lambda>b. [1, b]) xs) @ [0]) xss)"

fun unpack :: "bytes \<Rightarrow> bytes \<Rightarrow> bytes list option" where
  "unpack acc [] = (if acc = [] then Some [] else None)"
| "unpack acc [x] = (if x = 0 then Some [rev acc] else None)"
| "unpack acc (x # b # r) =
    (if x = 0 then map_option ((#) (rev acc)) (unpack [] (b # r)) else unpack (b # acc) r)"

lemma unpack_zero: "unpack acc (0 # r) = map_option ((#) (rev acc)) (unpack [] r)"
  by (cases r) auto

lemma unpack_field: "unpack acc (concat (map (\<lambda>b. [1, b]) xs) @ 0 # r) = map_option ((#) (rev acc @ xs)) (unpack [] r)"
  by (induction xs arbitrary: acc) (auto simp: unpack_zero)

lemma unpack_pack: "unpack [] (pack xss) = Some xss"
  by (induction xss) (auto simp: pack_def unpack_field)

lemma pack_inj: "pack a = pack b \<longleftrightarrow> a = b"
  using unpack_pack by (metis option.inject)

fun example_fields :: "AuthFrame \<Rightarrow> bytes list" where
  "example_fields AFUnset = [[0]]"
| "example_fields (AFInit m) = [[1], bytes_of (hai_version m), hai_nonce m, bytes_of (hai_identity m)]"
| "example_fields (AFServer m) = [[2], sa_key m, sa_nonce m, sa_sig m]"
| "example_fields (AFRequest m) = [[3], bytes_of (cq_username m), cq_key m, bytes_of (cq_alg m), cq_sig m]"
| "example_fields (AFResponse RespUnset) = [[4]]"
| "example_fields (AFResponse RespOk) = [[5]]"
| "example_fields (AFResponse (RespReject code msg)) = [[6], bytes_of code, bytes_of msg]"
| "example_fields (AFError code msg) = [[7], bytes_of code, bytes_of msg]"

definition example_frame :: "bytes list \<Rightarrow> (goerr, AuthFrame) result" where
  "example_frame fs =
    (case fs of
       [[k]] \<Rightarrow> if k = 0 then Inr AFUnset else if k = 4 then Inr (AFResponse RespUnset)
               else if k = 5 then Inr (AFResponse RespOk) else Inl (EErr ''malformed'')
     | [[k], a, b] \<Rightarrow> if k = 6 then Inr (AFResponse (RespReject (string_of a) (string_of b)))
                     else if k = 7 then Inr (AFError (string_of a) (string_of b)) else Inl (EErr ''malformed'')
     | [[k], a, b, c] \<Rightarrow>
         if k = 1 then Inr (AFInit \<lparr>hai_version = string_of a, hai_nonce = b, hai_identity = string_of c\<rparr>)
         else if k = 2 then Inr (AFServer \<lparr>sa_key = a, sa_nonce = b, sa_sig = c\<rparr>) else Inl (EErr ''malformed'')
     | [[k], a, b, c, d] \<Rightarrow>
         if k = 3 then Inr (AFRequest \<lparr>cq_username = string_of a, cq_key = b, cq_alg = string_of c, cq_sig = d\<rparr>)
         else Inl (EErr ''malformed'')
     | _ \<Rightarrow> Inl (EErr ''malformed''))"

lemma example_frame_fields: "example_frame (example_fields f) = Inr f"
  by (induction f rule: example_fields.induct) (simp_all add: example_frame_def)

definition example_env :: "(bytes \<Rightarrow> bytes \<Rightarrow> bytes \<Rightarrow> bool) \<Rightarrow> auth_env" where
  "example_env verify =
    \<lparr>ae_derive = (\<lambda>k. k), ae_sign = (\<lambda>k msg. 9 # k @ msg), ae_verify = verify,
     ae_sha256 = (\<lambda>b. take 32 (b @ replicate 32 0)),
     ae_ssh_marshal = (\<lambda>k. Inr (7 # k)),
     ae_ssh_parse = (\<lambda>b. if b = [] then Inl (EErr ''malformed'')
        else Inr \<lparr>sk_Type = KeyAlgoED25519, sk_crypto = CryptoEd25519 (tl b)\<rparr>),
     ae_enc = (\<lambda>f. Inr (pack (example_fields f))),
     ae_dec = (\<lambda>b. case unpack [] b of None \<Rightarrow> Inl (EErr ''malformed'') | Some fs \<Rightarrow> example_frame fs),
     ae_marshal_init = (\<lambda>i. Inr (pack [bytes_of (hai_version i), hai_nonce i, bytes_of (hai_identity i)])),
     ae_marshal_server = (\<lambda>k n. Inr (pack [k, n])),
     ae_marshal_ssign = (\<lambda>c p. Inr (pack [bytes_of c, st_binding p, st_initHash p, st_key p, st_nonce p])),
     ae_marshal_csign = (\<lambda>c p. Inr (pack [bytes_of c, cs_binding p, cs_initHash p, cs_serverHash p,
        bytes_of (cs_username p), cs_key p, bytes_of (cs_alg p)]))\<rparr>"

definition example_verify :: "bytes \<Rightarrow> bytes \<Rightarrow> bytes \<Rightarrow> bool" where
  "example_verify key msg sig \<longleftrightarrow> sig = 9 # key @ msg"

lemma bytes_of_inj: "bytes_of a = bytes_of b \<longleftrightarrow> a = b"
  by (metis string_of_bytes_of)

lemma example_crypto: "crypto_correct (example_env example_verify)"
  by (auto simp: crypto_correct_def example_env_def example_verify_def DigestSize_def min_def)

lemma example_codecs: "codecs_correct (example_env verify)"
proof -
  have "pack (example_fields f) \<noteq> []" for f
    by (cases f rule: example_fields.cases) (simp_all add: pack_def)
  then show ?thesis
    by (auto simp: codecs_correct_def example_env_def wire_codec_def unpack_pack example_frame_fields)
qed

lemma example_payloads_distinct: "payloads_distinct (example_env verify)"
  by (auto simp: payloads_distinct_def example_env_def pack_inj bytes_of_inj)

definition example_host :: Keypair where
  "example_host = \<lparr>kp_public = replicate 32 1, kp_private = replicate 32 1, kp_Comment = []\<rparr>"

definition example_user :: Keypair where
  "example_user = \<lparr>kp_public = replicate 32 7, kp_private = replicate 32 7, kp_Comment = []\<rparr>"

definition example_trust :: "string \<Rightarrow> PublicKey \<Rightarrow> goerr option" where
  "example_trust = ExactHostKeyVerifier ''host'' (Keypair_PublicKey example_host)"

lemma example_keys:
  "Keypair_Validate (ae_derive (example_env verify)) example_host = None"
  "Keypair_Validate (ae_derive (example_env verify)) example_user = None"
  by (simp_all add: Keypair_Validate_def validateKeyLength_def deriveEd25519Public_def example_env_def
      example_host_def example_user_def)

lemma example_trusts:
  "example_trust ''host'' \<lparr>pk_Algorithm = AlgorithmEd25519, pk_bytes = kp_public example_host, pk_Comment = []\<rparr> = None"
  by (simp add: example_trust_def ExactHostKeyVerifier_def PublicKey_Equal_def Compare_exact Keypair_PublicKey_def Let_def)

lemma example_texts: "text_ok ''host''" "text_ok ''ann''"
  by (simp_all add: text_ok_def bytes_of_def)

text \<open>One exchange, every part of it computed.\<close>

definition example_cfg :: ClientConfig where
  "example_cfg = honest_config (example_env example_verify) ''host'' ''ann'' example_user example_trust"

definition example_binding :: bytes where "example_binding = replicate 32 3"
definition example_n :: bytes where "example_n = replicate 32 4"
definition example_m :: bytes where "example_m = replicate 32 5"

definition example_ih :: bytes where
  "example_ih = take 32 (pack [bytes_of ProtocolVersion, example_n, bytes_of ''host''] @ replicate 32 0)"

definition example_sh :: bytes where
  "example_sh = take 32 (pack [7 # kp_public example_host, example_m] @ replicate 32 0)"

definition example_sp :: bytes where
  "example_sp = pack [bytes_of ServerAuthContext, example_binding, example_ih, 7 # kp_public example_host, example_m]"

definition example_cp :: bytes where
  "example_cp = pack [bytes_of ClientAuthContext, example_binding, example_ih, example_sh, bytes_of ''ann'',
     7 # kp_public example_user, bytes_of AlgorithmEd25519]"

definition example_sa :: ServerAuth where
  "example_sa = \<lparr>sa_key = 7 # kp_public example_host, sa_nonce = example_m,
     sa_sig = 9 # kp_private example_host @ example_sp\<rparr>"

definition example_req :: ClientAuthRequest where
  "example_req = \<lparr>cq_username = ''ann'', cq_key = 7 # kp_public example_user, cq_alg = AlgorithmEd25519,
     cq_sig = 9 # kp_private example_user @ example_cp\<rparr>"

definition example_S :: auth_conn where
  "example_S = exchange_end example_binding (pack (example_fields (AFInit (host_auth_init example_cfg example_n))))
     (pack (example_fields (AFRequest example_req)))"

definition example_C :: auth_conn where
  "example_C = exchange_end example_binding (pack (example_fields (AFServer example_sa)))
     (pack (example_fields (AFResponse RespOk)))"

text \<open>Signatures that verify only if they were made in this exchange.\<close>

definition honest_verify :: "bytes \<Rightarrow> bytes \<Rightarrow> bytes \<Rightarrow> bool" where
  "honest_verify key msg sig \<longleftrightarrow> sig = 9 # key @ msg
    \<and> (key = kp_public example_host \<and> msg = example_sp \<or> key = kp_public example_user \<and> msg = example_cp)"

definition honest_runs :: "auth_run set" where
  "honest_runs = {ServerRun example_S None example_host (Inr example_m), ClientRun example_C example_cfg (Inr example_n)}"

lemma example_parts:
  "honest_parts (example_env verify) example_cfg example_host example_user example_binding example_n example_m
     (7 # kp_public example_host) (7 # kp_public example_user) example_ih example_sh example_sp example_cp"
proof -
  have len: "length example_binding = 32" "length example_m = 32" "length example_ih = 32" "length example_sh = 32"
    by (simp_all add: example_binding_def example_m_def example_ih_def example_sh_def)
  have keys: "PublicKey_Validate (Keypair_PublicKey example_host) = None"
      "PublicKey_Validate (Keypair_PublicKey example_user) = None"
    by (simp_all add: PublicKey_Validate_def validateAlgorithm_def validateKeyLength_def Keypair_PublicKey_def
        example_host_def example_user_def)
  have "HashHostAuthInit (example_env verify) (host_auth_init example_cfg example_n) = Inr example_ih"
      "HashServerAuthFields (example_env verify) (7 # kp_public example_host) example_m = Inr example_sh"
    by (simp_all add: HashHostAuthInit_def HashServerAuthFields_def hashProtoMessage_def example_env_def
        host_auth_init_def example_cfg_def honest_config_def example_ih_def example_sh_def)
  moreover have "ServerAuthToSign_MarshalBinary (example_env verify) \<lparr>st_binding = example_binding,
      st_initHash = example_ih, st_key = 7 # kp_public example_host, st_nonce = example_m\<rparr> = Inr example_sp"
    using len by (simp add: ServerAuthToSign_MarshalBinary_def ServerAuthToSign_Validate_def validateDigest_def
        validateBytesLen_def DigestSize_def NonceSize_def example_env_def example_sp_def)
  moreover have "ClientAuthToSign_MarshalBinary (example_env verify) \<lparr>cs_binding = example_binding,
      cs_initHash = example_ih, cs_serverHash = example_sh, cs_username = ''ann'', cs_key = 7 # kp_public example_user,
      cs_alg = AlgorithmEd25519\<rparr> = Inr example_cp"
    using len by (simp add: ClientAuthToSign_MarshalBinary_def ClientAuthToSign_Validate_def validateDigest_def
        validateBytesLen_def DigestSize_def example_env_def example_cp_def AlgorithmEd25519_def)
  moreover have "MarshalBinary (ae_ssh_marshal (example_env verify)) (Keypair_PublicKey k) = Inr (7 # kp_public k)
      \<and> ParsePublicKey (ae_ssh_parse (example_env verify)) (7 # kp_public k)
        = Inr \<lparr>pk_Algorithm = AlgorithmEd25519, pk_bytes = kp_public k, pk_Comment = []\<rparr>"
    if "PublicKey_Validate (Keypair_PublicKey k) = None" for k
    using that by (simp add: MarshalBinary_def ParsePublicKey_def ParseSSHPublicKey_def example_env_def Keypair_PublicKey_def)
  moreover have "ccf_Username example_cfg = ''ann''" by (simp add: example_cfg_def honest_config_def)
  ultimately show ?thesis using keys by (simp add: honest_parts_def)
qed

lemma example_exchange:
  assumes "verify (kp_public example_host) example_sp (9 # kp_private example_host @ example_sp)"
    "verify (kp_public example_user) example_cp (9 # kp_private example_user @ example_cp)"
  shows "BeginServer (example_env verify) (Some example_S) None example_host (Inr example_m)
      = (Some (Inr \<lparr>psa_state = ClientAuthRecv, psa_verified = \<lparr>avc_hostIdentity = ''host'', avc_requestedUsername = ''ann'',
           avc_provenKey = \<lparr>pk_Algorithm = AlgorithmEd25519, pk_bytes = kp_public example_user, pk_Comment = []\<rparr>,
           avc_serverKey = Keypair_PublicKey example_host\<rparr>, psa_decided = False\<rparr>),
         [Signed (kp_private example_host) example_sp, Sent (AFServer example_sa)])"
    and "RunClient (example_env verify) (Some example_C) example_cfg (Inr example_n)
      = (Some (Inr \<lparr>cres_ReferenceIdentity = ''host'',
           cres_ServerHostKey = \<lparr>pk_Algorithm = AlgorithmEd25519, pk_bytes = kp_public example_host, pk_Comment = []\<rparr>,
           cres_Username = ''ann'', cres_PublicKey = Keypair_PublicKey example_user\<rparr>),
         [Sent (AFInit (host_auth_init example_cfg example_n)), Signed (kp_private example_user) example_cp,
          Sent (AFRequest example_req)])"
proof -
  have cfg: "example_cfg = honest_config (example_env verify) ''host'' ''ann'' example_user example_trust"
    by (simp add: example_cfg_def honest_config_def example_env_def)
  have sign: "ae_sign (example_env verify) k msg = 9 # k @ msg" "ae_verify (example_env verify) = verify"
      "ae_enc (example_env verify) f = Inr (pack (example_fields f))" for k msg f
    by (simp_all add: example_env_def)
  have valid: "valid_AuthFrame (AFInit (host_auth_init example_cfg example_n))" "valid_AuthFrame (AFServer example_sa)"
      "valid_AuthFrame (AFRequest example_req)"
    by (simp_all add: host_auth_init_def example_cfg_def honest_config_def ProtocolVersion_def example_sa_def
        example_req_def AlgorithmEd25519_def example_n_def example_m_def)
  note run = honest_exchange [OF example_codecs example_parts cfg _ _ example_keys example_trusts, where sa = example_sa
      and req = example_req, unfolded sign, OF _ _ assms _ _ valid refl refl refl refl, folded example_S_def example_C_def]
  show "BeginServer (example_env verify) (Some example_S) None example_host (Inr example_m)
      = (Some (Inr \<lparr>psa_state = ClientAuthRecv, psa_verified = \<lparr>avc_hostIdentity = ''host'', avc_requestedUsername = ''ann'',
           avc_provenKey = \<lparr>pk_Algorithm = AlgorithmEd25519, pk_bytes = kp_public example_user, pk_Comment = []\<rparr>,
           avc_serverKey = Keypair_PublicKey example_host\<rparr>, psa_decided = False\<rparr>),
         [Signed (kp_private example_host) example_sp, Sent (AFServer example_sa)])"
    by (rule run(1)) (simp_all add: example_sa_def example_req_def)
  show "RunClient (example_env verify) (Some example_C) example_cfg (Inr example_n)
      = (Some (Inr \<lparr>cres_ReferenceIdentity = ''host'',
           cres_ServerHostKey = \<lparr>pk_Algorithm = AlgorithmEd25519, pk_bytes = kp_public example_host, pk_Comment = []\<rparr>,
           cres_Username = ''ann'', cres_PublicKey = Keypair_PublicKey example_user\<rparr>),
         [Sent (AFInit (host_auth_init example_cfg example_n)), Signed (kp_private example_user) example_cp,
          Sent (AFRequest example_req)])"
    by (rule run(2)) (simp_all add: example_sa_def example_req_def)
qed

lemma honest_verify_exchange:
  "honest_verify (kp_public example_host) example_sp (9 # kp_private example_host @ example_sp)"
  "honest_verify (kp_public example_user) example_cp (9 # kp_private example_user @ example_cp)"
  by (simp_all add: honest_verify_def example_host_def example_user_def)

lemma honest_logs:
  "run_log (example_env honest_verify) (ServerRun example_S None example_host (Inr example_m))
    = [Signed (kp_private example_host) example_sp, Sent (AFServer example_sa)]"
  "run_log (example_env honest_verify) (ClientRun example_C example_cfg (Inr example_n))
    = [Sent (AFInit (host_auth_init example_cfg example_n)), Signed (kp_private example_user) example_cp,
       Sent (AFRequest example_req)]"
  by (simp_all add: example_exchange [OF honest_verify_exchange])

lemma honest_unforgeable:
  "unforgeable (example_env honest_verify) honest_runs (kp_public example_host)"
  "unforgeable (example_env honest_verify) honest_runs (kp_public example_user)"
proof -
  have derive: "ae_derive (example_env honest_verify) k = k" "ae_verify (example_env honest_verify) = honest_verify" for k
    by (simp_all add: example_env_def)
  have keys: "kp_private example_host = kp_public example_host" "kp_private example_user = kp_public example_user"
      "kp_public example_host \<noteq> kp_public example_user"
    by (simp_all add: example_host_def example_user_def)
  show "unforgeable (example_env honest_verify) honest_runs (kp_public example_host)"
    "unforgeable (example_env honest_verify) honest_runs (kp_public example_user)"
    using keys by (auto simp: unforgeable_def honest_runs_def derive honest_verify_def
        simp del: run_log.simps simp: honest_logs)
qed

lemma honest_received:
  "receiveHostAuthInit (example_env verify) (an_recv1 example_S) = Inr (host_auth_init example_cfg example_n)"
  "receiveServerAuth (example_env verify) (an_recv1 example_C) = Inr example_sa"
proof -
  have valid: "valid_AuthFrame (AFInit (host_auth_init example_cfg example_n))" "valid_AuthFrame (AFServer example_sa)"
    by (simp_all add: host_auth_init_def example_cfg_def honest_config_def ProtocolVersion_def example_sa_def
        example_n_def example_m_def)
  have "ae_enc (example_env verify) f = Inr (pack (example_fields f))" for f by (simp add: example_env_def)
  note got = receive_sent [OF example_codecs valid(1) this] receive_sent [OF example_codecs valid(2) this]
  show "receiveHostAuthInit (example_env verify) (an_recv1 example_S) = Inr (host_auth_init example_cfg example_n)"
    "receiveServerAuth (example_env verify) (an_recv1 example_C) = Inr example_sa"
    using got by (simp_all add: receiveHostAuthInit_def receiveServerAuth_def example_S_def example_C_def
        exchange_end_def del: example_fields.simps)
qed

lemma honest_collision_free: "collision_free (example_env honest_verify) honest_runs"
proof -
  have "run_inits (example_env honest_verify) honest_runs = {host_auth_init example_cfg example_n}"
    by (auto simp: run_inits_def honest_runs_def honest_received)
  moreover have "run_challenges (example_env honest_verify) honest_runs = {(sa_key example_sa, sa_nonce example_sa)}"
    by (auto simp: run_challenges_def honest_runs_def honest_received honest_logs simp del: run_log.simps)
  ultimately show ?thesis by (simp add: collision_free_def)
qed

theorem client_answers_trusted_server_witness:
  "\<exists>n initHash hostKey. HashHostAuthInit (example_env example_verify) (host_auth_init example_cfg n) = Inr initHash
    \<and> server_proved (example_env example_verify) (an_binding example_C) initHash example_sa hostKey
    \<and> example_trust ''host'' hostKey = None"
proof -
  have "example_verify (kp_public example_host) example_sp (9 # kp_private example_host @ example_sp)"
    "example_verify (kp_public example_user) example_cp (9 # kp_private example_user @ example_cp)"
    by (simp_all add: example_verify_def example_host_def example_user_def)
  note run = example_exchange(2) [OF this]
  have cfg: "ccf_VerifyServerHostKey example_cfg = Some example_trust" "ccf_ReferenceIdentity example_cfg = ''host''"
    by (simp_all add: example_cfg_def honest_config_def)
  show ?thesis
    using client_answers_trusted_server [of "kp_private example_user" example_cp "example_env example_verify" example_C
        example_cfg "Inr example_n" example_req undefined]
    by (simp add: run cfg honest_received) blast
qed


theorem client_agrees_with_server_witness:
  "\<exists>c e hostKey m. ServerRun c e hostKey (Inr m) \<in> honest_runs \<and> an_binding c = an_binding example_C
    \<and> kp_public hostKey = kp_public example_host"
proof -
  note run = example_exchange(2) [OF honest_verify_exchange]
  let ?r = "\<lparr>cres_ReferenceIdentity = ''host'',
     cres_ServerHostKey = \<lparr>pk_Algorithm = AlgorithmEd25519, pk_bytes = kp_public example_host, pk_Comment = []\<rparr>,
     cres_Username = ''ann'', cres_PublicKey = Keypair_PublicKey example_user\<rparr>"
  have "ClientRun example_C example_cfg (Inr example_n) \<in> honest_runs" by (simp add: honest_runs_def)
  then show ?thesis
    using client_agrees_with_server [of example_C example_cfg example_n honest_runs "example_env honest_verify" ?r]
      run honest_unforgeable(1) example_payloads_distinct honest_collision_free
    by auto
qed

theorem honest_authentication_witness:
  "\<exists>binit breq pending. fst (BeginServer (example_env example_verify)
      (Some (exchange_end example_binding binit breq)) None example_host (Inr example_m)) = Some (Inr pending)
    \<and> avc_requestedUsername (psa_verified pending) = ''ann''"
proof -
  have len: "length example_binding = 32" "length example_n = 32" "length example_m = 32"
    by (simp_all add: example_binding_def example_n_def example_m_def)
  show ?thesis
    using honest_authentication [where verifier = example_trust and ident = "''host''" and user = "''ann''",
        OF example_crypto example_codecs example_keys len _ _ example_texts example_trusts]
    by (auto simp: Let_def)
qed

end
