(* ===== verification/Establish.thy ===== *)
theory Establish
  imports Session_Config Go_Strings
begin

text \<open>
  Establishing a connection (\<open>lib/establish\<close>): the runtime that owns the socket while it is set up, and
  the client's path from the socket to the active session.  A run is a sequence of steps of the
  establishing goroutine, cut at its calls into the runtime, and of the goroutines around it: the
  parent context, the phase timer, the watcher of the context and pending calls of \<open>Fail\<close>.
\<close>

section \<open>Timeouts\<close>

definition defaultHandshakeTimeout :: int where "defaultHandshakeTimeout = 5 * 1000000000"
definition defaultAuthTimeout :: int where "defaultAuthTimeout = 10 * 1000000000"

definition validateTimeouts :: "int \<Rightarrow> int \<Rightarrow> goerr option" where
  "validateTimeouts handshakeTimeout authTimeout =
    (if handshakeTimeout < 0 then Some (EErr ''handshake timeout must be non-negative'')
     else if authTimeout < 0 then Some (EErr ''auth timeout must be non-negative'')
     else None)"

definition resolveTimeout :: "int \<Rightarrow> int \<Rightarrow> int" where
  "resolveTimeout actual fallback = (if actual = 0 then fallback else actual)"

section \<open>Runtime\<close>

text \<open>
  The owner is what \<open>Close\<close> is called on: the socket, the encrypted connection over it or the session
  over that.  Closing any of them closes the socket.
\<close>

datatype resource = SocketConn | SecureConn | BoundSession

datatype lifecyclePhase =
  LAccepted | LHandshaking | LAuthPending | LPostAuthStarting | LActive | LClosing | LClosed

text \<open>A timer that has fired stays in its field until it is stopped.\<close>

datatype phase_timer = TimerNil | TimerArmed | TimerFired

text \<open>
  \<open>rt_cause\<close> is the cause of the runtime's context.  \<open>rt_watching\<close>, \<open>rt_fails\<close> and \<open>rt_taken\<close> are
  goroutines: the watcher, calls of \<open>Fail\<close> that were started, and owners that were taken and are
  about to be closed.  \<open>rt_closed\<close> records the owners closed.
\<close>

record runtime =
  rt_cause :: "goerr option"
  rt_owner :: "resource option"
  rt_phase :: lifecyclePhase
  rt_timer :: phase_timer
  rt_terminal :: "goerr option"
  rt_watching :: bool
  rt_fails :: "goerr list"
  rt_taken :: "resource list"
  rt_closed :: "resource list"

definition newRuntime :: "resource \<Rightarrow> runtime" where
  "newRuntime owner =
    \<lparr>rt_cause = None, rt_owner = Some owner, rt_phase = LAccepted, rt_timer = TimerNil, rt_terminal = None,
     rt_watching = True, rt_fails = [], rt_taken = [], rt_closed = []\<rparr>"

definition SetOwner :: "resource \<Rightarrow> runtime \<Rightarrow> runtime" where
  "SetOwner owner r = r\<lparr>rt_owner := Some owner\<rparr>"

definition SetPhase :: "lifecyclePhase \<Rightarrow> runtime \<Rightarrow> runtime" where
  "SetPhase phase r = r\<lparr>rt_phase := phase\<rparr>"

definition stopTimer :: "runtime \<Rightarrow> runtime" where
  "stopTimer r = r\<lparr>rt_timer := TimerNil\<rparr>"

definition Release :: "runtime \<Rightarrow> runtime" where
  "Release r =
    (let r1 = stopTimer r
     in r1\<lparr>rt_owner := None,
           rt_phase := (if rt_phase r1 \<noteq> LClosing \<and> rt_phase r1 \<noteq> LClosed then LActive else rt_phase r1)\<rparr>)"

definition startTimer :: "int \<Rightarrow> runtime \<Rightarrow> goerr option \<times> runtime" where
  "startTimer timeout r =
    (if rt_owner r = None then (Some (EErr ''runtime has no active owner''), r)
     else (None, r\<lparr>rt_timer := (if timeout \<le> 0 then TimerNil else TimerArmed)\<rparr>))"

text \<open>The first half of \<open>closeCurrentOwner\<close> takes the owner under the lock, the second closes it.\<close>

definition takeOwner :: "runtime \<Rightarrow> resource option \<times> runtime" where
  "takeOwner r =
    (let r1 = stopTimer r
     in (rt_owner r1, r1\<lparr>rt_owner := None,
          rt_phase := (if rt_phase r1 = LClosing then LClosed else rt_phase r1)\<rparr>))"

definition closeOwner :: "resource \<Rightarrow> runtime \<Rightarrow> runtime" where
  "closeOwner owner r = r\<lparr>rt_closed := owner # rt_closed r\<rparr>"

definition closeCurrentOwner :: "runtime \<Rightarrow> runtime" where
  "closeCurrentOwner r = (case takeOwner r of (None, r1) \<Rightarrow> r1 | (Some owner, r1) \<Rightarrow> closeOwner owner r1)"

text \<open>The same call by another goroutine, which closes the owner in a later step.\<close>

definition startClose :: "runtime \<Rightarrow> runtime" where
  "startClose r =
    (case takeOwner r of (None, r1) \<Rightarrow> r1 | (Some owner, r1) \<Rightarrow> r1\<lparr>rt_taken := owner # rt_taken r1\<rparr>)"

definition cancelContext :: "goerr \<Rightarrow> runtime \<Rightarrow> runtime" where
  "cancelContext cause r = r\<lparr>rt_cause := (case rt_cause r of None \<Rightarrow> Some cause | Some c \<Rightarrow> Some c)\<rparr>"

definition markFailed :: "goerr \<Rightarrow> runtime \<Rightarrow> runtime" where
  "markFailed cause r =
    cancelContext cause
      (r\<lparr>rt_terminal := (case rt_terminal r of None \<Rightarrow> Some cause | Some c \<Rightarrow> Some c), rt_phase := LClosing\<rparr>)"

definition runtime_Fail :: "goerr \<Rightarrow> runtime \<Rightarrow> runtime" where
  "runtime_Fail cause r = closeCurrentOwner (markFailed cause r)"

definition runtime_Close :: "runtime \<Rightarrow> runtime" where
  "runtime_Close r = runtime_Fail ECanceled r"

definition WrapError :: "goerr \<Rightarrow> string \<Rightarrow> runtime \<Rightarrow> goerr" where
  "WrapError err msg r = (case rt_cause r of Some cause \<Rightarrow> EWrap msg cause | None \<Rightarrow> EWrap msg err)"

text \<open>The other goroutines.\<close>

datatype runtime_event = ParentCanceled goerr | TimerFires | FailRuns | WatcherWakes | TakenCloses

fun runtime_exec :: "runtime_event \<Rightarrow> runtime \<Rightarrow> runtime option" where
  "runtime_exec (ParentCanceled cause) r = Some (cancelContext cause r)"
| "runtime_exec TimerFires r =
    (if rt_timer r = TimerArmed then Some (r\<lparr>rt_timer := TimerFired, rt_fails := EDeadline # rt_fails r\<rparr>) else None)"
| "runtime_exec FailRuns r =
    (case rt_fails r of [] \<Rightarrow> None | cause # rest \<Rightarrow> Some (startClose (markFailed cause (r\<lparr>rt_fails := rest\<rparr>))))"
| "runtime_exec WatcherWakes r =
    (if rt_watching r \<and> rt_cause r \<noteq> None then Some (startClose (r\<lparr>rt_watching := False\<rparr>)) else None)"
| "runtime_exec TakenCloses r =
    (case rt_taken r of [] \<Rightarrow> None | owner # rest \<Rightarrow> Some (closeOwner owner (r\<lparr>rt_taken := rest\<rparr>)))"

section \<open>A phase under a timeout\<close>

text \<open>
  \<open>RunWithTimeout\<close>: the first look at the cause and the phase, the timer, the function, the second look
  at the cause, and the deferred stop of the timer.
\<close>

datatype timed = TCheck | TArm | TRun | TCause "goerr option" | TStop "goerr option" | TDone "goerr option"

fun RunWithTimeout :: "lifecyclePhase \<Rightarrow> int \<Rightarrow> goerr option \<Rightarrow> timed \<Rightarrow> runtime \<Rightarrow> timed \<times> runtime" where
  "RunWithTimeout phase timeout fn TCheck r =
    (case rt_cause r of Some e \<Rightarrow> (TDone (Some e), r) | None \<Rightarrow> (TArm, SetPhase phase r))"
| "RunWithTimeout phase timeout fn TArm r =
    (case startTimer timeout r of (Some e, r1) \<Rightarrow> (TDone (Some e), r1) | (None, r1) \<Rightarrow> (TRun, r1))"
| "RunWithTimeout phase timeout fn TRun r = (TCause fn, r)"
| "RunWithTimeout phase timeout fn (TCause err) r =
    (case rt_cause r of Some cause \<Rightarrow> (TStop (Some cause), r) | None \<Rightarrow> (TStop err, r))"
| "RunWithTimeout phase timeout fn (TStop err) r = (TDone err, stopTimer r)"
| "RunWithTimeout phase timeout fn (TDone err) r = (TDone err, r)"

section \<open>Client\<close>

record EstablishConfig =
  ec_HandshakeTimeout :: int
  ec_AuthTimeout :: int
  ec_SessionConfig :: Config

text \<open>The checks before the runtime takes the socket; \<open>ctx_err\<close> is the error of the caller's context.\<close>

definition Connect_check :: "goerr option \<Rightarrow> EstablishConfig \<Rightarrow> goerr option" where
  "Connect_check ctx_err cfg =
    (case ctx_err of
       Some e \<Rightarrow> Some e
     | None \<Rightarrow>
    (case validateTimeouts (ec_HandshakeTimeout cfg) (ec_AuthTimeout cfg) of
       Some e \<Rightarrow> Some (EWrap ''validate client connection config'' e)
     | None \<Rightarrow>
    (case Config_Validate (ec_SessionConfig cfg) of
       Some _ \<Rightarrow> Some (EWrap ''validate client session mux config'' (EErr ''invalid configuration''))
     | None \<Rightarrow> None)))"

text \<open>Where the goroutine of \<open>Connect\<close> stands.\<close>

datatype connect_pc =
    CHandshake timed
  | CSecured
  | CAuth timed
  | CBind
  | CBound
  | CActivate
  | CVerify
  | CRelease
  | CAbort string goerr
  | CFail goerr
  | CReturned "(goerr, unit) result"

record 'r connecting =
  co_rt :: runtime
  co_pc :: connect_pc
  co_auth :: "'r option"
  co_activated :: bool

definition connect_start :: "'r connecting" where
  "connect_start = \<lparr>co_rt = newRuntime SocketConn, co_pc = CHandshake TCheck, co_auth = None, co_activated = False\<rparr>"

definition result_error :: "(goerr, 'r) result \<Rightarrow> goerr option" where
  "result_error x = (case x of Inl e \<Rightarrow> Some e | Inr _ \<Rightarrow> None)"

text \<open>
  One step of \<open>Connect\<close>; \<open>fn\<close> is what the handshake or the authentication returned, if it returns in
  this step.
\<close>

definition connect_step :: "EstablishConfig \<Rightarrow> (goerr, 'r) result \<Rightarrow> 'r connecting \<Rightarrow> 'r connecting" where
  "connect_step cfg fn c =
    (let r = co_rt c in
     case co_pc c of
       CHandshake (TDone (Some e)) \<Rightarrow> c\<lparr>co_pc := CAbort ''establish noise transport'' e\<rparr>
     | CHandshake (TDone None) \<Rightarrow> c\<lparr>co_pc := CSecured\<rparr>
     | CHandshake t \<Rightarrow>
         (case RunWithTimeout LHandshaking (resolveTimeout (ec_HandshakeTimeout cfg) defaultHandshakeTimeout)
                 (result_error fn) t r of
            (t1, r1) \<Rightarrow> c\<lparr>co_pc := CHandshake t1, co_rt := r1\<rparr>)
     | CSecured \<Rightarrow> c\<lparr>co_rt := SetPhase LAuthPending (SetOwner SecureConn r), co_pc := CAuth TCheck\<rparr>
     | CAuth (TDone (Some e)) \<Rightarrow> c\<lparr>co_pc := CAbort ''authenticate client'' e\<rparr>
     | CAuth (TDone None) \<Rightarrow> c\<lparr>co_pc := CBind\<rparr>
     | CAuth t \<Rightarrow>
         (case RunWithTimeout LAuthPending (resolveTimeout (ec_AuthTimeout cfg) defaultAuthTimeout)
                 (result_error fn) t r of
            (t1, r1) \<Rightarrow> c\<lparr>co_pc := CAuth t1, co_rt := r1,
              co_auth := (if t = TRun then (case fn of Inl _ \<Rightarrow> None | Inr x \<Rightarrow> Some x) else co_auth c)\<rparr>)
     | CBind \<Rightarrow>
         (let r1 = SetPhase LPostAuthStarting r
          in case rt_cause r1 of
               Some e \<Rightarrow> c\<lparr>co_rt := r1, co_pc := CFail e\<rparr>
             | None \<Rightarrow> c\<lparr>co_rt := r1, co_pc := CBound\<rparr>)
     | CBound \<Rightarrow> c\<lparr>co_rt := SetOwner BoundSession r, co_pc := CActivate\<rparr>
     | CActivate \<Rightarrow> c\<lparr>co_activated := True, co_pc := CVerify\<rparr>
     | CVerify \<Rightarrow>
         (case rt_cause r of Some e \<Rightarrow> c\<lparr>co_pc := CFail e\<rparr> | None \<Rightarrow> c\<lparr>co_pc := CRelease\<rparr>)
     | CRelease \<Rightarrow> c\<lparr>co_rt := Release r, co_pc := CReturned (Inr ())\<rparr>
     | CAbort msg e \<Rightarrow> c\<lparr>co_rt := runtime_Close r, co_pc := CReturned (Inl (WrapError e msg r))\<rparr>
     | CFail e \<Rightarrow> c\<lparr>co_rt := runtime_Fail e r, co_pc := CReturned (Inl e)\<rparr>
     | CReturned x \<Rightarrow> c)"

datatype 'r connect_action = Connects "(goerr, 'r) result" | ClientRuntime runtime_event

fun connect_exec :: "EstablishConfig \<Rightarrow> 'r connect_action \<Rightarrow> 'r connecting \<Rightarrow> 'r connecting option" where
  "connect_exec cfg (Connects fn) c = Some (connect_step cfg fn c)"
| "connect_exec cfg (ClientRuntime ev) c = map_option (\<lambda>r. c\<lparr>co_rt := r\<rparr>) (runtime_exec ev (co_rt c))"

inductive connect_reachable :: "EstablishConfig \<Rightarrow> 'r connecting \<Rightarrow> bool" for cfg where
  connect_begins: "connect_reachable cfg connect_start"
| connect_continues: "connect_reachable cfg c \<Longrightarrow> connect_exec cfg a c = Some c' \<Longrightarrow> connect_reachable cfg c'"

fun connect_run :: "EstablishConfig \<Rightarrow> 'r connect_action list \<Rightarrow> 'r connecting \<Rightarrow> 'r connecting option" where
  "connect_run cfg [] c = Some c"
| "connect_run cfg (a # as) c = (case connect_exec cfg a c of None \<Rightarrow> None | Some c1 \<Rightarrow> connect_run cfg as c1)"

section \<open>The socket is owned or closed\<close>

text \<open>
  \<open>held\<close>: something owns the socket or it has been closed, or is about to be.  \<open>gone\<close>: nothing owns
  it any more and it has been closed or is about to be.
\<close>

definition ended :: "runtime \<Rightarrow> bool" where
  "ended r \<longleftrightarrow> rt_taken r \<noteq> [] \<or> rt_closed r \<noteq> []"

definition held :: "runtime \<Rightarrow> bool" where
  "held r \<longleftrightarrow> rt_owner r \<noteq> None \<or> ended r"

definition gone :: "runtime \<Rightarrow> bool" where
  "gone r \<longleftrightarrow> rt_owner r = None \<and> ended r"

text \<open>Everything that was closed, is about to be closed or is owned.\<close>

definition in_use :: "runtime \<Rightarrow> resource list" where
  "in_use r = rt_closed r @ rt_taken r @ (case rt_owner r of None \<Rightarrow> [] | Some owner \<Rightarrow> [owner])"

definition caused :: "runtime \<Rightarrow> bool" where
  "caused r \<longleftrightarrow> (ended r \<longrightarrow> rt_cause r \<noteq> None)"

named_theorems runtime_defs

lemmas [runtime_defs] = newRuntime_def SetOwner_def SetPhase_def stopTimer_def Release_def startTimer_def takeOwner_def
  closeOwner_def closeCurrentOwner_def startClose_def cancelContext_def markFailed_def runtime_Fail_def
  runtime_Close_def ended_def held_def gone_def in_use_def caused_def Let_def

lemma in_use_distinct: "distinct (in_use r) \<Longrightarrow> distinct (rt_closed r @ rt_taken r)"
  by (auto simp: in_use_def)

lemma Fail_gone: "held r \<Longrightarrow> gone (runtime_Fail e r)"
  by (auto simp: runtime_defs split: option.splits)

lemma Fail_once: "distinct (in_use r) \<Longrightarrow> distinct (in_use (runtime_Fail e r))"
  "set (in_use (runtime_Fail e r)) = set (in_use r)"
  by (auto simp: runtime_defs split: option.splits)

lemma Fail_cause: "rt_cause (runtime_Fail e r) \<noteq> None"
  by (auto simp: runtime_defs split: option.splits)

lemma startClose_effect:
  "rt_owner (startClose r) = None" "ended (startClose r) \<longleftrightarrow> held r" "set (in_use (startClose r)) = set (in_use r)"
  "distinct (in_use r) \<Longrightarrow> distinct (in_use (startClose r))" "rt_cause (startClose r) = rt_cause r"
  by (auto simp: runtime_defs split: option.splits)

lemma markFailed_effect:
  "rt_owner (markFailed e r) = rt_owner r" "ended (markFailed e r) = ended r" "in_use (markFailed e r) = in_use r"
  "rt_cause (markFailed e r) \<noteq> None" "held (markFailed e r) = held r"
  by (auto simp: runtime_defs split: option.splits)

lemma closeOwner_effect:
  assumes "rt_taken r = owner # rest"
  shows "ended (closeOwner owner (r\<lparr>rt_taken := rest\<rparr>))" "ended r"
    "set (in_use (closeOwner owner (r\<lparr>rt_taken := rest\<rparr>))) = set (in_use r)"
    "distinct (in_use r) \<Longrightarrow> distinct (in_use (closeOwner owner (r\<lparr>rt_taken := rest\<rparr>)))"
  using assms by (auto simp: runtime_defs split: option.splits)

text \<open>No goroutine of the runtime brings an owner back or loses one.\<close>

lemma runtime_exec_keeps:
  assumes "runtime_exec ev r = Some r'"
  shows "(held r \<longrightarrow> held r') \<and> (gone r \<longrightarrow> gone r') \<and> (rt_owner r = None \<longrightarrow> rt_owner r' = None)
    \<and> (distinct (in_use r) \<longrightarrow> distinct (in_use r')) \<and> set (in_use r') = set (in_use r) \<and> (caused r \<longrightarrow> caused r')
    \<and> (rt_cause r \<noteq> None \<longrightarrow> rt_cause r' = rt_cause r)"
proof (cases ev)
  case (ParentCanceled e)
  then show ?thesis using assms by (auto simp: runtime_defs split: option.splits)
next
  case TimerFires
  then show ?thesis using assms by (auto simp: runtime_defs split: option.splits if_splits)
next
  case FailRuns
  then obtain e rest where "rt_fails r = e # rest" and r': "r' = startClose (markFailed e (r\<lparr>rt_fails := rest\<rparr>))"
    using assms by (auto split: list.splits)
  then show ?thesis
    by (auto simp: held_def gone_def caused_def startClose_effect markFailed_effect)
      (auto simp: runtime_defs split: option.splits)
next
  case WatcherWakes
  then have "r' = startClose (r\<lparr>rt_watching := False\<rparr>)" "rt_cause r \<noteq> None"
    using assms by (auto split: if_splits)
  then show ?thesis
    by (auto simp: held_def gone_def caused_def startClose_effect) (auto simp: runtime_defs split: option.splits)
next
  case TakenCloses
  then obtain owner rest where "rt_taken r = owner # rest" "r' = closeOwner owner (r\<lparr>rt_taken := rest\<rparr>)"
    using assms by (auto split: list.splits)
  then show ?thesis using closeOwner_effect [of r owner rest]
    by (auto simp: held_def gone_def caused_def) (auto simp: closeOwner_def)
qed

lemma RunWithTimeout_keeps:
  assumes "RunWithTimeout phase timeout fn t r = (t', r')"
  shows "rt_owner r' = rt_owner r \<and> rt_taken r' = rt_taken r \<and> rt_closed r' = rt_closed r \<and> rt_cause r' = rt_cause r"
  using assms by (cases t) (auto simp: runtime_defs split: option.splits prod.splits if_splits)

section \<open>Invariants of connecting\<close>

fun before_secure :: "connect_pc \<Rightarrow> bool" where
  "before_secure (CHandshake t) = True"
| "before_secure CSecured = True"
| "before_secure _ = False"

fun before_session :: "connect_pc \<Rightarrow> bool" where
  "before_session (CHandshake t) = True"
| "before_session CSecured = True"
| "before_session (CAuth t) = True"
| "before_session CBind = True"
| "before_session CBound = True"
| "before_session _ = False"

definition co_owned :: "'r connecting \<Rightarrow> bool" where
  "co_owned c \<longleftrightarrow>
    (case co_pc c of
       CReturned (Inr _) \<Rightarrow> rt_owner (co_rt c) = None
     | CReturned (Inl _) \<Rightarrow> gone (co_rt c)
     | _ \<Rightarrow> held (co_rt c))"

definition co_once :: "'r connecting \<Rightarrow> bool" where
  "co_once c \<longleftrightarrow> distinct (in_use (co_rt c)) \<and> caused (co_rt c)
    \<and> (before_secure (co_pc c) \<longrightarrow> SecureConn \<notin> set (in_use (co_rt c)))
    \<and> (before_session (co_pc c) \<longrightarrow> BoundSession \<notin> set (in_use (co_rt c)))"

text \<open>Positions that are reached only with the result of a successful authentication.\<close>

fun after_auth :: "connect_pc \<Rightarrow> bool" where
  "after_auth (CAuth (TCause None)) = True"
| "after_auth (CAuth (TStop None)) = True"
| "after_auth (CAuth (TDone None)) = True"
| "after_auth CBind = True"
| "after_auth CBound = True"
| "after_auth CActivate = True"
| "after_auth CVerify = True"
| "after_auth CRelease = True"
| "after_auth (CReturned (Inr _)) = True"
| "after_auth _ = False"

fun may_be_active :: "connect_pc \<Rightarrow> bool" where
  "may_be_active CVerify = True"
| "may_be_active CRelease = True"
| "may_be_active (CFail e) = True"
| "may_be_active (CReturned x) = True"
| "may_be_active _ = False"

definition co_order :: "'r connecting \<Rightarrow> bool" where
  "co_order c \<longleftrightarrow> (after_auth (co_pc c) \<longrightarrow> co_auth c \<noteq> None)
    \<and> (co_activated c \<longrightarrow> co_auth c \<noteq> None \<and> may_be_active (co_pc c))
    \<and> (co_pc c \<in> {CVerify, CRelease, CReturned (Inr ())} \<longrightarrow> co_activated c)"

lemma SetOwner_effect:
  "held (SetOwner owner r)" "caused (SetOwner owner r) = caused r"
  "distinct (in_use r) \<Longrightarrow> owner \<notin> set (in_use r) \<Longrightarrow> distinct (in_use (SetOwner owner r))"
  "set (in_use (SetOwner owner r)) \<subseteq> insert owner (set (in_use r))"
  by (auto simp: runtime_defs split: option.splits)

lemma SetPhase_effect:
  "held (SetPhase p r) = held r" "caused (SetPhase p r) = caused r" "in_use (SetPhase p r) = in_use r"
  "rt_cause (SetPhase p r) = rt_cause r" "gone (SetPhase p r) = gone r"
  by (auto simp: runtime_defs split: option.splits)

lemma Release_effect:
  "rt_owner (Release r) = None" "caused (Release r) = caused r" "distinct (in_use r) \<Longrightarrow> distinct (in_use (Release r))"
  "set (in_use (Release r)) \<subseteq> set (in_use r)"
  by (auto simp: runtime_defs split: option.splits)

lemma RunWithTimeout_effect:
  assumes "RunWithTimeout phase timeout fn t r = (t', r')"
  shows "held r' = held r" "caused r' = caused r" "in_use r' = in_use r"
  using RunWithTimeout_keeps [OF assms] by (auto simp: held_def caused_def ended_def in_use_def)

lemma Fail_caused: "caused (runtime_Fail e r)"
  using Fail_cause [of e r] by (simp add: caused_def)

lemmas runtime_effects = SetOwner_effect SetPhase_effect Release_effect Fail_gone Fail_once Fail_caused runtime_Close_def

lemma connect_step_owned:
  assumes "co_owned c"
  shows "co_owned (connect_step cfg fn c)"
proof (cases "co_pc c")
  case (CHandshake t)
  then show ?thesis using assms
    by (cases t) (auto simp: connect_step_def co_owned_def Let_def runtime_effects
        dest: RunWithTimeout_effect split: prod.splits option.splits simp del: RunWithTimeout.simps)
next
  case (CAuth t)
  then show ?thesis using assms
    by (cases t) (auto simp: connect_step_def co_owned_def Let_def runtime_effects
        dest: RunWithTimeout_effect split: prod.splits option.splits simp del: RunWithTimeout.simps)
qed (use assms in \<open>auto simp: connect_step_def co_owned_def Let_def runtime_effects
      split: option.splits sum.splits\<close>)

lemma connect_step_once:
  assumes "co_once c"
  shows "co_once (connect_step cfg fn c)"
proof (cases "co_pc c")
  case (CHandshake t)
  then show ?thesis using assms
    by (cases t) (auto simp: connect_step_def co_once_def Let_def runtime_effects
        dest: RunWithTimeout_effect split: prod.splits option.splits simp del: RunWithTimeout.simps)
next
  case (CAuth t)
  then show ?thesis using assms
    by (cases t) (auto simp: connect_step_def co_once_def Let_def runtime_effects
        dest: RunWithTimeout_effect split: prod.splits option.splits simp del: RunWithTimeout.simps)
next
  case CSecured
  then show ?thesis using assms
    by (auto simp: connect_step_def co_once_def Let_def runtime_effects dest: subsetD [OF SetOwner_effect(4)])
next
  case CBound
  then show ?thesis using assms by (auto simp: connect_step_def co_once_def Let_def runtime_effects)
qed (use assms in \<open>auto simp: connect_step_def co_once_def Let_def runtime_effects
      split: option.splits sum.splits\<close>)

lemma after_auth_timed:
  "after_auth (CAuth (TCause e)) = (e = None)" "after_auth (CAuth (TStop e)) = (e = None)"
  "after_auth (CAuth (TDone e)) = (e = None)"
  by (cases e; simp)+

lemma connect_step_order:
  assumes "co_order c"
  shows "co_order (connect_step cfg fn c)"
proof (cases "co_pc c")
  case (CHandshake t)
  then show ?thesis using assms
    by (cases t) (auto simp: connect_step_def co_order_def Let_def split: prod.splits option.splits)
next
  case (CAuth t)
  then show ?thesis using assms
    by (cases t) (auto simp: connect_step_def co_order_def Let_def result_error_def after_auth_timed
        split: prod.splits option.splits sum.splits)
qed (use assms in \<open>auto simp: connect_step_def co_order_def Let_def split: option.splits sum.splits\<close>)

lemma connect_exec_keeps:
  assumes "connect_exec cfg a c = Some c'" "co_owned c" "co_once c" "co_order c"
  shows "co_owned c' \<and> co_once c' \<and> co_order c'"
proof (cases a)
  case (Connects fn)
  then show ?thesis using assms by (auto simp: connect_step_owned connect_step_once connect_step_order)
next
  case (ClientRuntime ev)
  then obtain r where r: "runtime_exec ev (co_rt c) = Some r" and c': "c' = c\<lparr>co_rt := r\<rparr>" using assms(1) by auto
  note keeps = runtime_exec_keeps [OF r]
  have "co_owned c'" using keeps assms(2) c' by (auto simp: co_owned_def split: connect_pc.splits sum.splits)
  moreover have "co_once c'" using keeps assms(3) c' by (auto simp: co_once_def)
  moreover have "co_order c'" using assms(4) c' by (simp add: co_order_def)
  ultimately show ?thesis by blast
qed

lemma connect_invariant:
  assumes "connect_reachable cfg c"
  shows "co_owned c \<and> co_once c \<and> co_order c"
  using assms
proof (induction rule: connect_reachable.induct)
  case connect_begins
  show ?case by (simp add: connect_start_def co_owned_def co_once_def co_order_def runtime_defs)
next
  case (connect_continues c a c')
  then show ?case using connect_exec_keeps by blast
qed


definition example_establish :: EstablishConfig where
  "example_establish = \<lparr>ec_HandshakeTimeout = 0, ec_AuthTimeout = 0, ec_SessionConfig = \<lparr>InitialWindow = 0, MaxPacketSize = 0,
     WindowAdjustThreshold = 0, DisconnectTimeout = 0, ChannelCloseTimeout = 0, cfg_Limits = defaultLimits\<rparr>\<rparr>"

text \<open>The timer of the authentication fires while it waits: its goroutine takes the connection.\<close>

definition example_timeout :: "unit connect_action list" where
  "example_timeout = replicate 9 (Connects (Inr ()))
    @ [ClientRuntime TimerFires, ClientRuntime FailRuns] @ replicate 5 (Connects (Inl EDeadline))"

lemma connect_run_reachable:
  "connect_run cfg as c = Some c' \<Longrightarrow> connect_reachable cfg c \<Longrightarrow> connect_reachable cfg c'"
  by (induction as arbitrary: c) (auto split: option.splits intro: connect_continues)


section \<open>What a successful connection leaves behind\<close>

text \<open>
  \<open>Release\<close> does not cancel the runtime's context, so the goroutine that watches it keeps waiting
  for as long as the parent context lives, and no other step ends it.
\<close>

lemma released_watcher_stays:
  assumes "rt_watching r" "rt_cause r = None"
  shows "rt_watching (Release r) \<and> rt_cause (Release r) = None \<and> runtime_exec WatcherWakes (Release r) = None"
  using assms by (simp add: runtime_defs)

end
