(* ===== verification/Establish_Server.thy ===== *)
theory Establish_Server
  imports Establish
begin

text \<open>
  Accepting a connection (\<open>lib/establish/server.go\<close>): \<open>BeginAccept\<close> up to the pending server, and the
  decision on it by \<open>Accept\<close>, \<open>Reject\<close> and \<open>Close\<close>, which may be called by several goroutines.
\<close>

section \<open>State\<close>

datatype pendingState = PendingUndecided | PendingAccepted | PendingRejected | PendingClosed

text \<open>Where \<open>BeginAccept\<close> stands.\<close>

datatype begin_pc =
    BHandshake timed
  | BSecured
  | BAuthContext
  | BVerify
  | BAbort string goerr
  | BReturned goerr
  | BPending

text \<open>
  Where the call that claimed the decision stands.  A call that finds the decision made returns at
  once with an error and changes nothing.
\<close>

datatype decision_pc =
    APrepare "goerr option"
  | ACause
  | ABind
  | ABound
  | ADeadline
  | AAnswer
  | AActivate
  | AVerify
  | ARelease
  | ATransfer
  | AFail goerr
  | AReturned "(goerr, unit) result"
  | RAnswer
  | RDeadline "goerr option"
  | RClose "goerr option"
  | RReturned "goerr option"

text \<open>What is done with the session and the answer to the client, in order.\<close>

datatype accept_event = Bound | AnsweredOk "goerr option" | AnsweredReject "goerr option" | Activated

text \<open>
  \<open>ps_authOwn\<close> is the cause the authentication context got by itself, from its deadline or from
  \<open>cancelAuth\<close>; otherwise it has the cause of its parent.  \<open>ps_hook\<close> is its registered \<open>AfterFunc\<close>.
  \<open>ps_closers1\<close> and \<open>ps_closers2\<close> count the calls of \<open>Close\<close> before their second and third part.
\<close>

record pending_server =
  ps_rt :: runtime
  ps_pc :: begin_pc
  ps_authOwn :: "goerr option"
  ps_hook :: bool
  ps_decided :: bool
  ps_state :: pendingState
  ps_decision :: "decision_pc option"
  ps_transferred :: bool
  ps_closers1 :: nat
  ps_closers2 :: nat
  ps_log :: "accept_event list"

definition accept_start :: pending_server where
  "accept_start =
    \<lparr>ps_rt = newRuntime SocketConn, ps_pc = BHandshake TCheck, ps_authOwn = None, ps_hook = False,
     ps_decided = False, ps_state = PendingUndecided, ps_decision = None, ps_transferred = False,
     ps_closers1 = 0, ps_closers2 = 0, ps_log = []\<rparr>"

definition auth_cause :: "pending_server \<Rightarrow> goerr option" where
  "auth_cause p = (case ps_authOwn p of Some e \<Rightarrow> Some e | None \<Rightarrow> rt_cause (ps_rt p))"

definition cancelAuth :: "goerr \<Rightarrow> pending_server \<Rightarrow> pending_server" where
  "cancelAuth e p = (if auth_cause p = None then p\<lparr>ps_authOwn := Some e\<rparr> else p)"

definition completeAuthDeadline :: "pending_server \<Rightarrow> goerr option \<times> pending_server" where
  "completeAuthDeadline p =
    (let p1 = p\<lparr>ps_hook := False\<rparr> in (auth_cause p1, cancelAuth ECanceled p1))"

section \<open>BeginAccept\<close>

definition BeginAccept_check :: "goerr option \<Rightarrow> EstablishConfig \<Rightarrow> goerr option" where
  "BeginAccept_check ctx_err cfg =
    (case ctx_err of
       Some e \<Rightarrow> Some e
     | None \<Rightarrow>
    (case validateTimeouts (ec_HandshakeTimeout cfg) (ec_AuthTimeout cfg) of
       Some e \<Rightarrow> Some (EWrap ''validate server connection config'' e)
     | None \<Rightarrow> None))"

text \<open>\<open>fn\<close> is what the handshake or the authentication returned, if it returns in this step.\<close>

definition begin_step :: "EstablishConfig \<Rightarrow> goerr option \<Rightarrow> pending_server \<Rightarrow> pending_server" where
  "begin_step cfg fn p =
    (let r = ps_rt p in
     case ps_pc p of
       BHandshake (TDone (Some e)) \<Rightarrow> p\<lparr>ps_pc := BAbort ''establish noise transport'' e\<rparr>
     | BHandshake (TDone None) \<Rightarrow> p\<lparr>ps_pc := BSecured\<rparr>
     | BHandshake t \<Rightarrow>
         (case RunWithTimeout LHandshaking (resolveTimeout (ec_HandshakeTimeout cfg) defaultHandshakeTimeout) fn t r of
            (t1, r1) \<Rightarrow> p\<lparr>ps_pc := BHandshake t1, ps_rt := r1\<rparr>)
     | BSecured \<Rightarrow> p\<lparr>ps_rt := SetPhase LAuthPending (SetOwner SecureConn r), ps_pc := BAuthContext\<rparr>
     | BAuthContext \<Rightarrow> p\<lparr>ps_hook := True, ps_pc := BVerify\<rparr>
     | BVerify \<Rightarrow>
         (case fn of
            None \<Rightarrow> p\<lparr>ps_pc := BPending\<rparr>
          | Some e \<Rightarrow> (cancelAuth ECanceled (p\<lparr>ps_hook := False\<rparr>))\<lparr>ps_pc := BAbort ''verify client authentication'' e\<rparr>)
     | BAbort msg e \<Rightarrow> p\<lparr>ps_rt := runtime_Close r, ps_pc := BReturned (WrapError e msg r)\<rparr>
     | BReturned e \<Rightarrow> p
     | BPending \<Rightarrow> p)"

section \<open>The decision\<close>

text \<open>\<open>errors.Join\<close> drops nil errors.  Errors of closing the socket are not part of the model.\<close>

fun join_errors :: "goerr option \<Rightarrow> goerr option \<Rightarrow> goerr option" where
  "join_errors (Some a) (Some b) = Some (EJoin a b)"
| "join_errors (Some a) None = Some a"
| "join_errors None b = b"

definition claim :: "pendingState \<Rightarrow> pending_server \<Rightarrow> (goerr, pending_server) result" where
  "claim nxt p =
    (if ps_state p \<noteq> PendingUndecided then Inl (EErr ''server auth decision already made'')
     else Inr (p\<lparr>ps_state := nxt\<rparr>))"

text \<open>The start of \<open>Accept\<close>; \<open>prepared\<close> is the error of \<open>Prepare\<close> if no prepared session is given.\<close>

definition Accept_call :: "goerr option \<Rightarrow> pending_server \<Rightarrow> pending_server" where
  "Accept_call prepared p =
    (case claim PendingAccepted p of Inl _ \<Rightarrow> p | Inr p1 \<Rightarrow> p1\<lparr>ps_decision := Some (APrepare prepared)\<rparr>)"

definition Reject_call :: "pending_server \<Rightarrow> pending_server" where
  "Reject_call p =
    (case claim PendingRejected p of Inl _ \<Rightarrow> p | Inr p1 \<Rightarrow> p1\<lparr>ps_decision := Some RAnswer\<rparr>)"

text \<open>
  The decision of the pending authentication: \<open>beginDecision\<close> and the answer, which is handed to the
  connection unless a decision was begun before.  \<open>send\<close> is the error of sending it.
\<close>

definition pending_answer ::
    "string \<Rightarrow> (goerr option \<Rightarrow> accept_event) \<Rightarrow> goerr option \<Rightarrow> pending_server \<Rightarrow> goerr option \<times> pending_server" where
  "pending_answer msg ev send p =
    (if ps_decided p then (Some (EErr ''server auth decision already made''), p)
     else (map_option (EWrap msg) send, p\<lparr>ps_decided := True, ps_log := ps_log p @ [ev send]\<rparr>))"

definition decision_step :: "goerr option \<Rightarrow> decision_pc \<Rightarrow> pending_server \<Rightarrow> decision_pc \<times> pending_server" where
  "decision_step send pc p =
    (let r = ps_rt p in
     case pc of
       APrepare (Some e) \<Rightarrow> (AFail e, p)
     | APrepare None \<Rightarrow> (ACause, p)
     | ACause \<Rightarrow> (case auth_cause p of Some e \<Rightarrow> (AFail e, p) | None \<Rightarrow> (ABind, p))
     | ABind \<Rightarrow>
         (let p1 = p\<lparr>ps_rt := SetPhase LPostAuthStarting r\<rparr>
          in case rt_cause r of
               Some e \<Rightarrow> (AFail e, p1)
             | None \<Rightarrow> (ABound, p1\<lparr>ps_log := ps_log p @ [Bound]\<rparr>))
     | ABound \<Rightarrow> (ADeadline, p\<lparr>ps_rt := SetOwner BoundSession r\<rparr>)
     | ADeadline \<Rightarrow>
         (case completeAuthDeadline p of (Some e, p1) \<Rightarrow> (AFail e, p1) | (None, p1) \<Rightarrow> (AAnswer, p1))
     | AAnswer \<Rightarrow>
         (case pending_answer ''send client auth response'' AnsweredOk send p of
            (Some e, p1) \<Rightarrow> (AFail e, p1)
          | (None, p1) \<Rightarrow> (AActivate, p1))
     | AActivate \<Rightarrow> (AVerify, p\<lparr>ps_log := ps_log p @ [Activated]\<rparr>)
     | AVerify \<Rightarrow> (case rt_cause r of Some e \<Rightarrow> (AFail e, p) | None \<Rightarrow> (ARelease, p))
     | ARelease \<Rightarrow> (ATransfer, p\<lparr>ps_rt := Release r\<rparr>)
     | ATransfer \<Rightarrow> (AReturned (Inr ()), p\<lparr>ps_transferred := True\<rparr>)
     | AFail e \<Rightarrow> (AReturned (Inl e), p\<lparr>ps_rt := runtime_Fail e r\<rparr>)
     | AReturned x \<Rightarrow> (AReturned x, p)
     | RAnswer \<Rightarrow>
         (case pending_answer ''send client auth rejection'' AnsweredReject send p of (err, p1) \<Rightarrow> (RDeadline err, p1))
     | RDeadline err \<Rightarrow>
         (case completeAuthDeadline p of (cause, p1) \<Rightarrow> (RClose (join_errors err cause), p1))
     | RClose err \<Rightarrow> (RReturned err, p\<lparr>ps_rt := runtime_Close r\<rparr>)
     | RReturned err \<Rightarrow> (RReturned err, p))"

text \<open>
  \<open>Close\<close>: the critical section, the end of the deadline, and the close of the runtime.  The server is
  stored together with the transfer, so a call that goes on never finds one to close.
\<close>

definition Close_call :: "pending_server \<Rightarrow> pending_server" where
  "Close_call p =
    (if ps_state p = PendingClosed \<or> ps_transferred p then p
     else p\<lparr>ps_state := (if ps_state p = PendingUndecided then PendingClosed else ps_state p),
            ps_closers1 := Suc (ps_closers1 p)\<rparr>)"

datatype accept_action =
    Begins "goerr option"
  | CallAccept "goerr option"
  | CallReject
  | Decides "goerr option"
  | CallClose
  | CloserDeadline
  | CloserRuntime
  | AuthDeadline
  | HookRuns
  | ServerRuntime runtime_event

fun accept_exec :: "EstablishConfig \<Rightarrow> accept_action \<Rightarrow> pending_server \<Rightarrow> pending_server option" where
  "accept_exec cfg (Begins fn) p = Some (begin_step cfg fn p)"
| "accept_exec cfg (CallAccept prepared) p = (if ps_pc p = BPending then Some (Accept_call prepared p) else None)"
| "accept_exec cfg CallReject p = (if ps_pc p = BPending then Some (Reject_call p) else None)"
| "accept_exec cfg (Decides send) p =
    (case ps_decision p of
       None \<Rightarrow> None
     | Some pc \<Rightarrow> (case decision_step send pc p of (pc1, p1) \<Rightarrow> Some (p1\<lparr>ps_decision := Some pc1\<rparr>)))"
| "accept_exec cfg CallClose p = (if ps_pc p = BPending then Some (Close_call p) else None)"
| "accept_exec cfg CloserDeadline p =
    (if ps_closers1 p > 0
     then Some ((snd (completeAuthDeadline p))\<lparr>ps_closers1 := ps_closers1 p - 1, ps_closers2 := Suc (ps_closers2 p)\<rparr>)
     else None)"
| "accept_exec cfg CloserRuntime p =
    (if ps_closers2 p > 0 then Some (p\<lparr>ps_rt := runtime_Close (ps_rt p), ps_closers2 := ps_closers2 p - 1\<rparr>) else None)"
| "accept_exec cfg AuthDeadline p =
    (if ps_pc p = BVerify \<or> ps_pc p = BPending then Some (cancelAuth EDeadline p) else None)"
| "accept_exec cfg HookRuns p =
    (case auth_cause p of
       Some e \<Rightarrow> if ps_hook p then Some (p\<lparr>ps_hook := False, ps_rt := (ps_rt p)\<lparr>rt_fails := e # rt_fails (ps_rt p)\<rparr>\<rparr>) else None
     | None \<Rightarrow> None)"
| "accept_exec cfg (ServerRuntime ev) p = map_option (\<lambda>r. p\<lparr>ps_rt := r\<rparr>) (runtime_exec ev (ps_rt p))"

inductive accept_reachable :: "EstablishConfig \<Rightarrow> pending_server \<Rightarrow> bool" for cfg where
  accept_begins: "accept_reachable cfg accept_start"
| accept_continues: "accept_reachable cfg p \<Longrightarrow> accept_exec cfg a p = Some p' \<Longrightarrow> accept_reachable cfg p'"

fun accept_run :: "EstablishConfig \<Rightarrow> accept_action list \<Rightarrow> pending_server \<Rightarrow> pending_server option" where
  "accept_run cfg [] p = Some p"
| "accept_run cfg (a # as) p = (case accept_exec cfg a p of None \<Rightarrow> None | Some p1 \<Rightarrow> accept_run cfg as p1)"

section \<open>Invariants\<close>

fun decision_log :: "decision_pc \<Rightarrow> accept_event list \<Rightarrow> bool \<Rightarrow> bool" where
  "decision_log (APrepare x) log d \<longleftrightarrow> log = [] \<and> \<not> d"
| "decision_log ACause log d \<longleftrightarrow> log = [] \<and> \<not> d"
| "decision_log ABind log d \<longleftrightarrow> log = [] \<and> \<not> d"
| "decision_log ABound log d \<longleftrightarrow> log = [Bound] \<and> \<not> d"
| "decision_log ADeadline log d \<longleftrightarrow> log = [Bound] \<and> \<not> d"
| "decision_log AAnswer log d \<longleftrightarrow> log = [Bound] \<and> \<not> d"
| "decision_log AActivate log d \<longleftrightarrow> log = [Bound, AnsweredOk None] \<and> d"
| "decision_log (AFail e) log d \<longleftrightarrow> log = [] \<or> log = [Bound] \<or> (\<exists>x. log = [Bound, AnsweredOk (Some x)])
    \<or> log = [Bound, AnsweredOk None, Activated]"
| "decision_log (AReturned (Inl e)) log d \<longleftrightarrow> log = [] \<or> log = [Bound] \<or> (\<exists>x. log = [Bound, AnsweredOk (Some x)])
    \<or> log = [Bound, AnsweredOk None, Activated]"
| "decision_log RAnswer log d \<longleftrightarrow> log = [] \<and> \<not> d"
| "decision_log (RDeadline x) log d \<longleftrightarrow> (\<exists>e. log = [AnsweredReject e])"
| "decision_log (RClose x) log d \<longleftrightarrow> (\<exists>e. log = [AnsweredReject e])"
| "decision_log (RReturned x) log d \<longleftrightarrow> (\<exists>e. log = [AnsweredReject e])"
| "decision_log _ log d \<longleftrightarrow> log = [Bound, AnsweredOk None, Activated] \<and> d"

fun decision_state :: "decision_pc \<Rightarrow> pendingState" where
  "decision_state RAnswer = PendingRejected"
| "decision_state (RDeadline x) = PendingRejected"
| "decision_state (RClose x) = PendingRejected"
| "decision_state (RReturned x) = PendingRejected"
| "decision_state _ = PendingAccepted"

definition ps_ordered :: "pending_server \<Rightarrow> bool" where
  "ps_ordered p \<longleftrightarrow>
    (case ps_decision p of
       None \<Rightarrow> ps_state p \<in> {PendingUndecided, PendingClosed} \<and> ps_log p = [] \<and> \<not> ps_decided p
     | Some pc \<Rightarrow> ps_state p = decision_state pc \<and> decision_log pc (ps_log p) (ps_decided p))"

lemma completeAuthDeadline_keeps:
  assumes "completeAuthDeadline p = (c, p1)"
  shows "ps_rt p1 = ps_rt p" "ps_pc p1 = ps_pc p" "ps_decided p1 = ps_decided p" "ps_state p1 = ps_state p"
    "ps_decision p1 = ps_decision p" "ps_transferred p1 = ps_transferred p" "ps_closers1 p1 = ps_closers1 p"
    "ps_closers2 p1 = ps_closers2 p" "ps_log p1 = ps_log p"
  using assms by (auto simp: completeAuthDeadline_def cancelAuth_def Let_def split: if_splits)

lemma cancelAuth_keeps [simp]:
  "ps_rt (cancelAuth e p) = ps_rt p" "ps_pc (cancelAuth e p) = ps_pc p" "ps_decided (cancelAuth e p) = ps_decided p"
  "ps_state (cancelAuth e p) = ps_state p" "ps_decision (cancelAuth e p) = ps_decision p"
  "ps_transferred (cancelAuth e p) = ps_transferred p" "ps_closers1 (cancelAuth e p) = ps_closers1 p"
  "ps_closers2 (cancelAuth e p) = ps_closers2 p" "ps_log (cancelAuth e p) = ps_log p"
  by (auto simp: cancelAuth_def)

lemma pending_answer_ok: "\<not> ps_decided p \<Longrightarrow> pending_answer msg ev send p
    = (map_option (EWrap msg) send, p\<lparr>ps_decided := True, ps_log := ps_log p @ [ev send]\<rparr>)"
  by (simp add: pending_answer_def)

lemma decision_step_ordered:
  assumes "decision_step send pc p = (pc1, p1)" "decision_log pc (ps_log p) (ps_decided p)"
  shows "decision_log pc1 (ps_log p1) (ps_decided p1) \<and> decision_state pc1 = decision_state pc \<and> ps_state p1 = ps_state p
    \<and> ps_pc p1 = ps_pc p \<and> ps_closers1 p1 = ps_closers1 p \<and> ps_closers2 p1 = ps_closers2 p"
proof -
  obtain c p0 where c: "completeAuthDeadline p = (c, p0)" by (cases "completeAuthDeadline p")
  note keep = completeAuthDeadline_keeps [OF c]
  show ?thesis
  proof (cases pc)
    case (APrepare x)
    then show ?thesis using assms by (cases x) (auto simp: decision_step_def)
  next
    case (AReturned x)
    then show ?thesis using assms by (cases x) (auto simp: decision_step_def)
  qed (use assms c keep in \<open>auto simp: decision_step_def pending_answer_ok Let_def split: option.splits\<close>)
qed

text \<open>Who owns the socket.\<close>

fun released :: "decision_pc option \<Rightarrow> bool" where
  "released (Some ATransfer) = True"
| "released (Some (AReturned (Inr x))) = True"
| "released _ = False"

fun undone :: "decision_pc option \<Rightarrow> bool" where
  "undone (Some (AReturned (Inl e))) = True"
| "undone (Some (RReturned e)) = True"
| "undone _ = False"

definition returned_error :: "begin_pc \<Rightarrow> bool" where
  "returned_error pc \<longleftrightarrow> (\<exists>e. pc = BReturned e)"

definition ps_owned :: "pending_server \<Rightarrow> bool" where
  "ps_owned p \<longleftrightarrow>
    (released (ps_decision p) \<longrightarrow> rt_owner (ps_rt p) = None)
    \<and> (\<not> released (ps_decision p) \<longrightarrow> held (ps_rt p))
    \<and> (undone (ps_decision p) \<or> returned_error (ps_pc p) \<longrightarrow> gone (ps_rt p))
    \<and> (ps_state p = PendingClosed \<and> ps_closers1 p = 0 \<and> ps_closers2 p = 0 \<longrightarrow> gone (ps_rt p))
    \<and> (ps_pc p \<noteq> BPending \<longrightarrow> ps_decision p = None \<and> ps_state p = PendingUndecided)"

fun before_server_secure :: "begin_pc \<Rightarrow> bool" where
  "before_server_secure (BHandshake t) = True"
| "before_server_secure BSecured = True"
| "before_server_secure _ = False"

fun before_server_session :: "decision_pc option \<Rightarrow> bool" where
  "before_server_session None = True"
| "before_server_session (Some (APrepare x)) = True"
| "before_server_session (Some ACause) = True"
| "before_server_session (Some ABind) = True"
| "before_server_session (Some ABound) = True"
| "before_server_session _ = False"

definition ps_once :: "pending_server \<Rightarrow> bool" where
  "ps_once p \<longleftrightarrow> distinct (in_use (ps_rt p)) \<and> caused (ps_rt p)
    \<and> (before_server_secure (ps_pc p) \<longrightarrow> SecureConn \<notin> set (in_use (ps_rt p)))
    \<and> (before_server_session (ps_decision p) \<longrightarrow> BoundSession \<notin> set (in_use (ps_rt p)))"

lemma Fail_held: "held r \<Longrightarrow> held (runtime_Fail e r)"
  using Fail_gone [of r e] by (simp add: gone_def held_def)

lemma decision_step_owned:
  assumes "decision_step send pc p = (pc1, p1)" "ps_owned p" "ps_decision p = Some pc" "ps_state p \<noteq> PendingClosed"
  shows "ps_owned (p1\<lparr>ps_decision := Some pc1\<rparr>)"
proof -
  obtain c p0 where c: "completeAuthDeadline p = (c, p0)" by (cases "completeAuthDeadline p")
  note keep = completeAuthDeadline_keeps [OF c]
  have pend: "ps_pc p = BPending" using assms(2,3) by (auto simp: ps_owned_def)
  show ?thesis
  proof (cases pc)
    case (APrepare x)
    then show ?thesis using assms pend by (cases x) (auto simp: decision_step_def ps_owned_def returned_error_def)
  next
    case (AReturned x)
    then show ?thesis using assms pend by (cases x) (auto simp: decision_step_def ps_owned_def returned_error_def)
  qed (use assms c keep(1,2,4,7,8) pend in \<open>auto simp: decision_step_def ps_owned_def pending_answer_def Let_def
      returned_error_def runtime_effects Fail_held split: option.splits if_splits\<close>)
qed

lemma decision_step_once:
  assumes "decision_step send pc p = (pc1, p1)" "ps_once p" "ps_decision p = Some pc"
  shows "ps_once (p1\<lparr>ps_decision := Some pc1\<rparr>)"
proof -
  obtain c p0 where c: "completeAuthDeadline p = (c, p0)" by (cases "completeAuthDeadline p")
  note keep = completeAuthDeadline_keeps [OF c]
  show ?thesis
  proof (cases pc)
    case (APrepare x)
    then show ?thesis using assms by (cases x) (auto simp: decision_step_def ps_once_def)
  next
    case (AReturned x)
    then show ?thesis using assms by (cases x) (auto simp: decision_step_def ps_once_def)
  next
    case ABound
    then show ?thesis using assms by (auto simp: decision_step_def ps_once_def runtime_effects
        dest: subsetD [OF SetOwner_effect(4)])
  next
    case ARelease
    then show ?thesis using assms by (auto simp: decision_step_def ps_once_def runtime_effects
        dest: subsetD [OF Release_effect(4)])
  qed (use assms c keep(1,2) in \<open>auto simp: decision_step_def ps_once_def pending_answer_def Let_def
      runtime_effects split: option.splits if_splits\<close>)
qed

lemma begin_step_keeps:
  "ps_decision (begin_step cfg fn p) = ps_decision p" "ps_state (begin_step cfg fn p) = ps_state p"
  "ps_log (begin_step cfg fn p) = ps_log p" "ps_decided (begin_step cfg fn p) = ps_decided p"
  "ps_closers1 (begin_step cfg fn p) = ps_closers1 p" "ps_closers2 (begin_step cfg fn p) = ps_closers2 p"
  by (auto simp: begin_step_def Let_def split: begin_pc.splits timed.splits option.splits prod.splits)

lemma begin_step_pending: "ps_pc p = BPending \<Longrightarrow> begin_step cfg fn p = p"
  by (simp add: begin_step_def)

lemma begin_step_held:
  assumes "held (ps_rt p)" "returned_error (ps_pc p) \<longrightarrow> gone (ps_rt p)"
  shows "held (ps_rt (begin_step cfg fn p))
    \<and> (returned_error (ps_pc (begin_step cfg fn p)) \<longrightarrow> gone (ps_rt (begin_step cfg fn p)))"
proof (cases "ps_pc p")
  case (BHandshake t)
  then show ?thesis using assms
    by (cases t) (auto simp: begin_step_def Let_def returned_error_def dest: RunWithTimeout_effect
        split: prod.splits option.splits simp del: RunWithTimeout.simps)
qed (use assms in \<open>auto simp: begin_step_def Let_def returned_error_def runtime_effects Fail_held split: option.splits\<close>)

lemma begin_step_owned:
  assumes "ps_owned p"
  shows "ps_owned (begin_step cfg fn p)"
proof (cases "ps_pc p = BPending")
  case True
  then show ?thesis using assms by (simp add: begin_step_pending)
next
  case False
  then have "ps_decision p = None" "ps_state p = PendingUndecided" "held (ps_rt p)"
      "returned_error (ps_pc p) \<longrightarrow> gone (ps_rt p)"
    using assms by (auto simp: ps_owned_def)
  then show ?thesis using begin_step_held [of p cfg fn] by (simp add: ps_owned_def begin_step_keeps)
qed

lemma begin_step_once:
  assumes "ps_once p"
  shows "ps_once (begin_step cfg fn p)"
proof (cases "ps_pc p")
  case (BHandshake t)
  then show ?thesis using assms
    by (cases t) (auto simp: begin_step_def ps_once_def Let_def dest: RunWithTimeout_effect
        split: prod.splits option.splits simp del: RunWithTimeout.simps)
next
  case BSecured
  then show ?thesis using assms
    by (auto simp: begin_step_def ps_once_def Let_def runtime_effects dest: subsetD [OF SetOwner_effect(4)])
qed (use assms in \<open>auto simp: begin_step_def ps_once_def Let_def runtime_effects split: option.splits\<close>)

lemma runtime_update_owned:
  assumes "runtime_exec ev (ps_rt p) = Some r" "ps_owned p" "ps_once p"
  shows "ps_owned (p\<lparr>ps_rt := r\<rparr>) \<and> ps_once (p\<lparr>ps_rt := r\<rparr>)"
proof -
  note keeps = runtime_exec_keeps [OF assms(1)]
  have "ps_owned (p\<lparr>ps_rt := r\<rparr>)" using keeps assms(2) unfolding ps_owned_def by simp
  moreover have "ps_once (p\<lparr>ps_rt := r\<rparr>)" using keeps assms(3) unfolding ps_once_def by simp
  ultimately show ?thesis by blast
qed

lemma undone_not_released: "undone d \<Longrightarrow> \<not> released d"
  by (cases d rule: undone.cases) auto

lemma close_owned:
  assumes "ps_owned p" "ps_once p" "ps_ordered p"
  shows "ps_owned (p\<lparr>ps_rt := runtime_Close (ps_rt p), ps_closers2 := n\<rparr>)
    \<and> ps_once (p\<lparr>ps_rt := runtime_Close (ps_rt p), ps_closers2 := n\<rparr>)"
proof -
  let ?r = "runtime_Close (ps_rt p)"
  have owner: "rt_owner ?r = None" by (simp add: runtime_defs split: option.splits)
  have gone: "gone ?r" if "\<not> released (ps_decision p)"
    using that assms(1) Fail_gone [of "ps_rt p" ECanceled] by (simp add: ps_owned_def runtime_Close_def)
  have "released (ps_decision p) \<Longrightarrow> ps_state p \<noteq> PendingClosed"
    using assms(3) by (cases "ps_decision p" rule: released.cases) (auto simp: ps_ordered_def)
  moreover have "returned_error (ps_pc p) \<Longrightarrow> \<not> released (ps_decision p)"
    using assms(1) by (auto simp: ps_owned_def returned_error_def)
  ultimately have "ps_owned (p\<lparr>ps_rt := ?r, ps_closers2 := n\<rparr>)"
    using gone owner undone_not_released [of "ps_decision p"] assms(1) unfolding ps_owned_def
    by (auto simp: gone_def held_def)
  moreover have "ps_once (p\<lparr>ps_rt := ?r, ps_closers2 := n\<rparr>)"
    using assms(2) by (simp add: ps_once_def runtime_effects)
  ultimately show ?thesis by blast
qed

lemma decision_state_cases: "decision_state pc \<in> {PendingAccepted, PendingRejected}"
  by (cases pc) simp_all

lemma undecided_none: "ps_ordered p \<Longrightarrow> ps_state p \<in> {PendingUndecided, PendingClosed} \<longleftrightarrow> ps_decision p = None"
  using decision_state_cases [of "the (ps_decision p)"] by (cases "ps_decision p") (auto simp: ps_ordered_def)

definition ps_ok :: "pending_server \<Rightarrow> bool" where
  "ps_ok p \<longleftrightarrow> ps_ordered p \<and> ps_owned p \<and> ps_once p"

lemma same_parts:
  assumes "ps_ok p" "ps_rt q = ps_rt p" "ps_pc q = ps_pc p" "ps_decided q = ps_decided p" "ps_state q = ps_state p"
    "ps_decision q = ps_decision p" "ps_log q = ps_log p"
    "ps_closers1 q = 0 \<and> ps_closers2 q = 0 \<longrightarrow> ps_closers1 p = 0 \<and> ps_closers2 p = 0"
  shows "ps_ok q"
  using assms(1,8) unfolding ps_ok_def ps_ordered_def ps_owned_def ps_once_def assms(2-7) by blast

lemma ordered_runtime: "ps_ordered (p\<lparr>ps_rt := r, ps_closers2 := n\<rparr>) = ps_ordered p"
  "ps_ordered (p\<lparr>ps_rt := r\<rparr>) = ps_ordered p" "ps_ordered (p\<lparr>ps_hook := b\<rparr>) = ps_ordered p"
  by (simp_all add: ps_ordered_def split: option.splits)

lemma fails_keeps:
  "held (r\<lparr>rt_fails := es\<rparr>) = held r" "gone (r\<lparr>rt_fails := es\<rparr>) = gone r" "caused (r\<lparr>rt_fails := es\<rparr>) = caused r"
  "in_use (r\<lparr>rt_fails := es\<rparr>) = in_use r"
  by (simp_all add: held_def gone_def ended_def caused_def in_use_def)

lemma Accept_call_ok:
  assumes "ps_ok p" "ps_pc p = BPending"
  shows "ps_ok (Accept_call x p)"
proof (cases "ps_state p = PendingUndecided")
  case True
  then have "ps_decision p = None" using undecided_none [of p] assms by (simp add: ps_ok_def)
  then show ?thesis using True assms
    by (auto simp: Accept_call_def claim_def ps_ok_def ps_ordered_def ps_owned_def ps_once_def returned_error_def)
qed (use assms in \<open>simp add: Accept_call_def claim_def\<close>)

lemma Reject_call_ok:
  assumes "ps_ok p" "ps_pc p = BPending"
  shows "ps_ok (Reject_call p)"
proof (cases "ps_state p = PendingUndecided")
  case True
  then have "ps_decision p = None" using undecided_none [of p] assms by (simp add: ps_ok_def)
  then show ?thesis using True assms
    by (auto simp: Reject_call_def claim_def ps_ok_def ps_ordered_def ps_owned_def ps_once_def returned_error_def)
qed (use assms in \<open>simp add: Reject_call_def claim_def\<close>)

lemma Close_call_ok:
  assumes "ps_ok p" "ps_pc p = BPending"
  shows "ps_ok (Close_call p)"
proof (cases "ps_state p = PendingUndecided")
  case True
  then have "ps_decision p = None" using undecided_none [of p] assms by (simp add: ps_ok_def)
  then show ?thesis using True assms
    by (auto simp: Close_call_def ps_ok_def ps_ordered_def ps_owned_def ps_once_def returned_error_def)
next
  case False
  then show ?thesis using assms(1) by (auto simp: Close_call_def intro: same_parts)
qed

lemma Decides_ok:
  assumes "ps_ok p" "ps_decision p = Some pc" "decision_step send pc p = (pc1, p1)"
  shows "ps_ok (p1\<lparr>ps_decision := Some pc1\<rparr>)"
proof -
  have log: "decision_log pc (ps_log p) (ps_decided p)" "ps_state p = decision_state pc"
    using assms(1,2) by (simp_all add: ps_ok_def ps_ordered_def)
  then have "ps_state p \<noteq> PendingClosed" using decision_state_cases [of pc] by auto
  then show ?thesis
    using assms(1) decision_step_ordered [OF assms(3) log(1)] log(2) decision_step_owned [OF assms(3) _ assms(2)]
      decision_step_once [OF assms(3) _ assms(2)]
    by (simp add: ps_ok_def ps_ordered_def)
qed

lemma accept_exec_ok:
  assumes "accept_exec cfg a p = Some p'" "ps_ok p"
  shows "ps_ok p'"
proof (cases a)
  case (Begins fn)
  then have "p' = begin_step cfg fn p" using assms(1) by simp
  then show ?thesis using assms(2) begin_step_owned [of p cfg fn] begin_step_once [of p cfg fn]
    unfolding ps_ok_def ps_ordered_def by (simp only: begin_step_keeps)
next
  case (Decides send)
  then obtain pc where pc: "ps_decision p = Some pc" using assms(1) by (auto split: option.splits)
  obtain pc1 p1 where "decision_step send pc p = (pc1, p1)" by (cases "decision_step send pc p")
  then show ?thesis using Decides_ok [OF assms(2) pc] assms(1) Decides pc by auto
next
  case CloserDeadline
  obtain c p1 where c: "completeAuthDeadline p = (c, p1)" by (cases "completeAuthDeadline p")
  show ?thesis using completeAuthDeadline_keeps [OF c] assms CloserDeadline c
    by (auto intro: same_parts split: if_splits)
next
  case CloserRuntime
  then show ?thesis using assms close_owned [of p "ps_closers2 p - 1"]
    by (auto simp: ps_ok_def ordered_runtime split: if_splits)
next
  case HookRuns
  then obtain e where "p' = p\<lparr>ps_hook := False, ps_rt := (ps_rt p)\<lparr>rt_fails := e # rt_fails (ps_rt p)\<rparr>\<rparr>"
    using assms(1) by (auto split: option.splits if_splits)
  then show ?thesis using assms(2)
    by (simp add: ps_ok_def ordered_runtime ps_owned_def ps_once_def fails_keeps)
next
  case (ServerRuntime ev)
  then obtain r where "runtime_exec ev (ps_rt p) = Some r" "p' = p\<lparr>ps_rt := r\<rparr>" using assms(1) by auto
  then show ?thesis using runtime_update_owned [of ev p r] assms(2) by (simp add: ps_ok_def ordered_runtime)
qed (use assms in \<open>auto split: if_splits intro: Accept_call_ok Reject_call_ok Close_call_ok same_parts\<close>)

lemma accept_invariant: "accept_reachable cfg p \<Longrightarrow> ps_ok p"
proof (induction rule: accept_reachable.induct)
  case accept_begins
  show ?case
    by (simp add: ps_ok_def ps_ordered_def ps_owned_def ps_once_def accept_start_def returned_error_def runtime_defs)
qed (rule accept_exec_ok)

section \<open>One decision\<close>

text \<open>
  C14: A pending connection gets one answer, and no session is exposed before it.  However calls of
  \<open>Accept\<close>, \<open>Reject\<close> and \<open>Close\<close>, deadlines and cancellations interleave, what happens is a
  beginning of: bind the session, answer with success, activate it; or a single rejection.  Activation
  follows a success that was sent without error, and has happened when \<open>Accept\<close> returns a server.
\<close>

theorem one_answer_before_session:
  assumes "accept_reachable cfg p"
  shows "((\<exists>e. ps_log p = [AnsweredReject e]) \<or> ps_log p \<in> {[], [Bound], [Bound, AnsweredOk None], [Bound, AnsweredOk None, Activated]}
      \<or> (\<exists>x. ps_log p = [Bound, AnsweredOk (Some x)]))
    \<and> (ps_decision p = Some (AReturned (Inr ())) \<longrightarrow> ps_log p = [Bound, AnsweredOk None, Activated])
    \<and> (ps_state p = PendingClosed \<longrightarrow> ps_log p = [])"
proof -
  have ok: "ps_ordered p" using accept_invariant [OF assms] by (simp add: ps_ok_def)
  show ?thesis
  proof (cases "ps_decision p")
    case None
    then show ?thesis using ok by (simp add: ps_ordered_def)
  next
    case (Some pc)
    then have log: "decision_log pc (ps_log p) (ps_decided p)" and "ps_state p \<noteq> PendingClosed"
      using ok decision_state_cases [of pc] by (auto simp: ps_ordered_def)
    then show ?thesis using Some by (cases "(pc, ps_log p, ps_decided p)" rule: decision_log.cases) auto
  qed
qed


text \<open>The deadline of the authentication passes while the decision is pending; a call of \<open>Accept\<close> then fails.\<close>

definition example_late_accept :: "accept_action list" where
  "example_late_accept = replicate 9 (Begins None)
    @ [AuthDeadline, CallAccept None] @ replicate 4 (Decides None)"

text \<open>A connection is accepted; a call of \<open>Reject\<close> comes too late.\<close>

definition example_accept :: "accept_action list" where
  "example_accept = replicate 9 (Begins None) @ [CallAccept None] @ replicate 5 (Decides None) @ [CallReject] @ replicate 7 (Decides None)"

lemma accept_run_reachable:
  "accept_run cfg as p = Some p' \<Longrightarrow> accept_reachable cfg p \<Longrightarrow> accept_reachable cfg p'"
  by (induction as arbitrary: p) (auto split: option.splits intro: accept_continues)

lemmas accept_run_simps = example_late_accept_def example_accept_def example_establish_def accept_start_def begin_step_def
  numeral_eq_Suc resolveTimeout_def defaultHandshakeTimeout_def defaultAuthTimeout_def auth_cause_def cancelAuth_def
  completeAuthDeadline_def Accept_call_def Reject_call_def claim_def decision_step_def pending_answer_def runtime_defs

theorem one_answer_before_session_witness:
  "\<exists>p. accept_reachable example_establish p \<and> ps_decision p = Some (AReturned (Inr ()))
    \<and> ps_log p = [Bound, AnsweredOk None, Activated]"
proof -
  let ?run = "accept_run example_establish example_accept accept_start"
  have "case ?run of None \<Rightarrow> False | Some p \<Rightarrow> ps_decision p = Some (AReturned (Inr ()))"
    by (simp add: accept_run_simps)
  then obtain p where run: "?run = Some p" and pc: "ps_decision p = Some (AReturned (Inr ()))" by (cases ?run) auto
  have reach: "accept_reachable example_establish p" by (rule accept_run_reachable [OF run accept_begins])
  from one_answer_before_session [OF reach] reach pc show ?thesis by blast
qed


end
