(* ===== verification/Server_Connection.thy ===== *)
theory Server_Connection
  imports Server_Command Auth_Properties Establish_Server Session_Types
begin

text \<open>
  One connection of the server (\<open>serveConnection\<close> of \<open>app/server/server.go\<close>), which joins the parts:
  establishment and authentication give a pending connection and a verified client, authorization
  decides on it, and the session that is accepted is given the registry of the credentials.  The
  calls on the pending connection are steps of its own transition system, so timers and
  cancellation may come between any two of them.
\<close>

section \<open>State\<close>

text \<open>
  What one connection is served with: the cryptography, what the authentication receives, the host
  key and the random nonce; the account database, file system and policies of the authorization;
  the address of the fresh credentials; and the system calls made before.
\<close>

record connection_setup =
  cx_env :: auth_env
  cx_conn :: auth_conn
  cx_hostKey :: Keypair
  cx_nonce :: "(goerr, bytes) result"
  cx_world :: world
  cx_authz :: AuthzServer
  cx_token :: nat
  cx_peer :: string
  cx_log :: log

text \<open>Where the handler stands; the flag of a rejection says whether its error is reported.\<close>

datatype serve_pc =
    SStart
  | SBegin
  | SAuthorize
  | SReject goerr bool
  | SRejecting goerr bool
  | SAccept Registry
  | SAccepting
  | SServing
  | SEnd "goerr option"
  | SDefer "goerr option"
  | SDeferDeadline "goerr option"
  | SDeferRuntime "goerr option"
  | SReturned "goerr option"

text \<open>
  \<open>cn_client\<close> is the client the authentication verified, \<open>cn_registry\<close> the handler of the session
  that \<open>Accept\<close> was called with, \<open>cn_closed\<close> that the established session has been closed.
\<close>

record served_connection =
  cn_ps :: pending_server
  cn_pc :: serve_pc
  cn_client :: "AuthVerifiedClient option"
  cn_registry :: "Registry option"
  cn_closed :: bool

definition connection_start :: served_connection where
  "connection_start = \<lparr>cn_ps = accept_start, cn_pc = SStart, cn_client = None, cn_registry = None, cn_closed = False\<rparr>"

definition empty_config :: Config where
  "empty_config = \<lparr>InitialWindow = 0, MaxPacketSize = 0, WindowAdjustThreshold = 0, DisconnectTimeout = 0,
     ChannelCloseTimeout = 0, cfg_Limits = \<lparr>MaxChannels = 0, MaxPendingOpens = 0, MaxPendingChannelRequests = 0,
     MaxPendingChannelRequestsPerChannel = 0, MaxPendingGlobalRequests = 0, MaxQueuedFramesPerChannel = 0,
     MaxQueuedFramesTotal = 0, MaxQueuedBytesPerChannel = 0, MaxQueuedBytesTotal = 0, MaxControlPayload = 0,
     MaxTypeLength = 0, MaxCodeLength = 0, MaxMessageLength = 0\<rparr>\<rparr>"

definition serve_config :: EstablishConfig where
  "serve_config = \<lparr>ec_HandshakeTimeout = 0, ec_AuthTimeout = 0, ec_SessionConfig = empty_config\<rparr>"

section \<open>The handler\<close>

definition performs :: "accept_action \<Rightarrow> pending_server \<Rightarrow> pending_server" where
  "performs a p = (case accept_exec serve_config a p of None \<Rightarrow> p | Some p1 \<Rightarrow> p1)"

definition connection_request :: "connection_setup \<Rightarrow> AuthVerifiedClient \<Rightarrow> ConnectionRequest" where
  "connection_request S v =
    \<lparr>cr_VerifiedClient = \<lparr>vc_username = avc_requestedUsername v, vc_key = avc_provenKey v\<rparr>, cr_PeerAddress = cx_peer S\<rparr>"

text \<open>From the verified client to the decision; \<open>None\<close> if authorization does not return.\<close>

definition decide_connection :: "connection_setup \<Rightarrow> AuthVerifiedClient \<Rightarrow> serve_pc option" where
  "decide_connection S v =
    (case AuthorizeConnection (cx_world S) (Some (cx_authz S)) (cx_token S) (connection_request S v) (cx_log S) of
       None \<Rightarrow> None
     | Some (Inl e, _) \<Rightarrow> Some (SReject (EWrap ''authorize connection'' e) True)
     | Some (Inr credentials, _) \<Rightarrow>
    (case command_registry credentials (cx_authz S) of
       Inl e \<Rightarrow> Some (SReject (EWrap ''configure connection services'' e) False)
     | Inr registry \<Rightarrow>
    (case Prepare empty_config of
       Inl _ \<Rightarrow> Some (SReject (EWrap ''prepare post-auth session'' (EErr ''invalid configuration'')) False)
     | Inr _ \<Rightarrow> Some (SAccept registry))))"

definition reject_result :: "goerr \<Rightarrow> bool \<Rightarrow> goerr option \<Rightarrow> goerr option" where
  "reject_result e joined rejectErr = (if joined then join_errors (Some e) rejectErr else Some e)"

text \<open>
  One step of the handler.  \<open>x\<close> is what the call returns that this step makes outside the model: the
  error of the context, of the handshake, of sending the answer, or of the session at its end.
\<close>

definition connection_step :: "connection_setup \<Rightarrow> goerr option \<Rightarrow> served_connection \<Rightarrow> served_connection" where
  "connection_step S x c =
    (let p = cn_ps c in
     case cn_pc c of
       SStart \<Rightarrow>
         (case BeginAccept_check x serve_config of
            Some e \<Rightarrow> c\<lparr>cn_pc := SReturned (Some (EWrap ''establish session'' e))\<rparr>
          | None \<Rightarrow> c\<lparr>cn_pc := SBegin\<rparr>)
     | SBegin \<Rightarrow>
         (case ps_pc p of
            BReturned e \<Rightarrow> c\<lparr>cn_pc := SReturned (Some (EWrap ''establish session'' e))\<rparr>
          | BPending \<Rightarrow> c\<lparr>cn_pc := SAuthorize\<rparr>
          | BVerify \<Rightarrow>
              (case fst (BeginServer (cx_env S) (Some (cx_conn S)) x (cx_hostKey S) (cx_nonce S)) of
                 None \<Rightarrow> c
               | Some (Inl e) \<Rightarrow> c\<lparr>cn_ps := performs (Begins (Some e)) p\<rparr>
               | Some (Inr pending) \<Rightarrow> c\<lparr>cn_ps := performs (Begins None) p, cn_client := Some (psa_verified pending)\<rparr>)
          | _ \<Rightarrow> c\<lparr>cn_ps := performs (Begins x) p\<rparr>)
     | SAuthorize \<Rightarrow>
         (case cn_client c of
            None \<Rightarrow> c
          | Some v \<Rightarrow> (case decide_connection S v of None \<Rightarrow> c | Some pc \<Rightarrow> c\<lparr>cn_pc := pc\<rparr>))
     | SReject e joined \<Rightarrow>
         (case claim PendingRejected p of
            Inl d \<Rightarrow> c\<lparr>cn_pc := SDefer (reject_result e joined (Some d))\<rparr>
          | Inr _ \<Rightarrow> c\<lparr>cn_ps := performs CallReject p, cn_pc := SRejecting e joined\<rparr>)
     | SRejecting e joined \<Rightarrow>
         (case ps_decision p of
            Some (RReturned err) \<Rightarrow> c\<lparr>cn_pc := SDefer (reject_result e joined err)\<rparr>
          | _ \<Rightarrow> c\<lparr>cn_ps := performs (Decides x) p\<rparr>)
     | SAccept registry \<Rightarrow>
         (case claim PendingAccepted p of
            Inl d \<Rightarrow> c\<lparr>cn_pc := SDefer (Some (EWrap ''accept authenticated connection'' d))\<rparr>
          | Inr _ \<Rightarrow> c\<lparr>cn_ps := performs (CallAccept None) p, cn_registry := Some registry, cn_pc := SAccepting\<rparr>)
     | SAccepting \<Rightarrow>
         (case ps_decision p of
            Some (AReturned (Inl e)) \<Rightarrow> c\<lparr>cn_pc := SDefer (Some (EWrap ''accept authenticated connection'' e))\<rparr>
          | Some (AReturned (Inr _)) \<Rightarrow> c\<lparr>cn_pc := SServing\<rparr>
          | _ \<Rightarrow> c\<lparr>cn_ps := performs (Decides x) p\<rparr>)
     | SServing \<Rightarrow> c\<lparr>cn_pc := SEnd x\<rparr>
     | SEnd r \<Rightarrow> c\<lparr>cn_closed := True, cn_pc := SDefer r\<rparr>
     | SDefer r \<Rightarrow>
         c\<lparr>cn_ps := performs CallClose p,
           cn_pc := (if ps_state p = PendingClosed \<or> ps_transferred p then SReturned r else SDeferDeadline r)\<rparr>
     | SDeferDeadline r \<Rightarrow> c\<lparr>cn_ps := performs CloserDeadline p, cn_pc := SDeferRuntime r\<rparr>
     | SDeferRuntime r \<Rightarrow> c\<lparr>cn_ps := performs CloserRuntime p, cn_pc := SReturned r\<rparr>
     | SReturned r \<Rightarrow> c)"

text \<open>The handler, the deadline of the authentication, its hook, and the goroutines of the runtime.\<close>

datatype connection_action = Handler "goerr option" | DeadlinePasses | HookFires | RuntimeRuns runtime_event

fun connection_exec :: "connection_setup \<Rightarrow> connection_action \<Rightarrow> served_connection \<Rightarrow> served_connection" where
  "connection_exec S (Handler x) c = connection_step S x c"
| "connection_exec S DeadlinePasses c = c\<lparr>cn_ps := performs AuthDeadline (cn_ps c)\<rparr>"
| "connection_exec S HookFires c = c\<lparr>cn_ps := performs HookRuns (cn_ps c)\<rparr>"
| "connection_exec S (RuntimeRuns ev) c = c\<lparr>cn_ps := performs (ServerRuntime ev) (cn_ps c)\<rparr>"

definition connection_run :: "connection_setup \<Rightarrow> connection_action list \<Rightarrow> served_connection" where
  "connection_run S as = fold (connection_exec S) as connection_start"

section \<open>Invariants\<close>

lemma performs_reachable: "accept_reachable serve_config p \<Longrightarrow> accept_reachable serve_config (performs a p)"
  by (auto simp: performs_def split: option.splits intro: accept_continues)

lemma connection_step_performs: "cn_ps (connection_step S x c) = cn_ps c \<or> (\<exists>a. cn_ps (connection_step S x c) = performs a (cn_ps c))"
proof (cases "cn_pc c")
  case SBegin
  then show ?thesis
    by (cases "ps_pc (cn_ps c)") (auto simp: connection_step_def Let_def split: option.split sum.split)
next
  case (SRejecting e j)
  then show ?thesis by (auto simp: connection_step_def Let_def split: option.split decision_pc.split)
next
  case SAccepting
  then show ?thesis by (auto simp: connection_step_def Let_def split: option.split decision_pc.split sum.split)
qed (auto simp: connection_step_def Let_def split: option.split sum.split)

lemma connection_reachable: "accept_reachable serve_config (cn_ps (connection_run S as))"
proof -
  have "accept_reachable serve_config (cn_ps (connection_exec S a c))" if "accept_reachable serve_config (cn_ps c)" for a c
  proof (cases a)
    case (Handler x)
    then show ?thesis using connection_step_performs [of S x c] performs_reachable that by auto
  qed (simp_all add: performs_reachable that)
  then have "accept_reachable serve_config (cn_ps c) \<Longrightarrow> accept_reachable serve_config (cn_ps (fold (connection_exec S) as c))" for c
    by (induction as arbitrary: c) simp_all
  then show ?thesis by (simp add: connection_run_def connection_start_def accept_begins)
qed

text \<open>What the goroutines around the handler leave alone.\<close>

lemma performs_around:
  assumes "a \<in> {AuthDeadline, HookRuns} \<or> (\<exists>ev. a = ServerRuntime ev)"
  shows "ps_decision (performs a p) = ps_decision p" "ps_state (performs a p) = ps_state p" "ps_pc (performs a p) = ps_pc p"
    "ps_transferred (performs a p) = ps_transferred p"
  using assms by (auto simp: performs_def cancelAuth_def split: option.splits if_splits)

lemma performs_begins:
  "performs (Begins x) p = begin_step serve_config x p"
  by (simp add: performs_def)

lemma performs_decides:
  assumes "ps_ok p" "ps_decision p = Some pc"
  shows "\<exists>pc1. ps_decision (performs (Decides x) p) = Some pc1 \<and> decision_state pc1 = decision_state pc
    \<and> ps_pc (performs (Decides x) p) = ps_pc p"
proof -
  obtain pc1 p1 where step: "decision_step x pc p = (pc1, p1)" by (cases "decision_step x pc p")
  have "decision_log pc (ps_log p) (ps_decided p)" using assms by (simp add: ps_ok_def ps_ordered_def)
  from decision_step_ordered [OF step this] show ?thesis using assms(2) step by (simp add: performs_def)
qed

text \<open>The registry given to a session belongs to the credentials of the verified client.\<close>

definition belongs :: "connection_setup \<Rightarrow> AuthVerifiedClient option \<Rightarrow> Registry \<Rightarrow> bool" where
  "belongs S client registry \<longleftrightarrow>
    (\<exists>v credentials l. client = Some v \<and> command_registry credentials (cx_authz S) = Inr registry
      \<and> AuthorizeConnection (cx_world S) (Some (cx_authz S)) (cx_token S) (connection_request S v) (cx_log S)
          = Some (Inr credentials, l))"

definition verified :: "connection_setup \<Rightarrow> AuthVerifiedClient option \<Rightarrow> bool" where
  "verified S client \<longleftrightarrow>
    (\<forall>v. client = Some v \<longrightarrow> (\<exists>pending. psa_verified pending = v
      \<and> fst (BeginServer (cx_env S) (Some (cx_conn S)) None (cx_hostKey S) (cx_nonce S)) = Some (Inr pending)))"

definition settled :: "served_connection \<Rightarrow> bool" where
  "settled c \<longleftrightarrow> (\<exists>e. ps_decision (cn_ps c) = Some (RReturned e)) \<or> (\<exists>e. ps_decision (cn_ps c) = Some (AReturned (Inl e)))
    \<or> ps_decision (cn_ps c) = Some (AReturned (Inr ())) \<and> cn_closed c"

definition unclaimed :: "pending_server \<Rightarrow> bool" where
  "unclaimed p \<longleftrightarrow> ps_decision p = None \<and> ps_state p = PendingUndecided"

fun at_pc :: "serve_pc \<Rightarrow> served_connection \<Rightarrow> bool" where
  "at_pc SStart c \<longleftrightarrow> unclaimed (cn_ps c) \<and> ps_pc (cn_ps c) = BHandshake TCheck"
| "at_pc SBegin c \<longleftrightarrow> unclaimed (cn_ps c)"
| "at_pc (SRejecting e j) c \<longleftrightarrow> ps_pc (cn_ps c) = BPending
    \<and> (\<exists>pc. ps_decision (cn_ps c) = Some pc \<and> decision_state pc = PendingRejected)"
| "at_pc SAccepting c \<longleftrightarrow> ps_pc (cn_ps c) = BPending
    \<and> (\<exists>pc. ps_decision (cn_ps c) = Some pc \<and> decision_state pc = PendingAccepted)"
| "at_pc SServing c \<longleftrightarrow> ps_decision (cn_ps c) = Some (AReturned (Inr ()))"
| "at_pc (SEnd r) c \<longleftrightarrow> ps_decision (cn_ps c) = Some (AReturned (Inr ()))"
| "at_pc (SDefer r) c \<longleftrightarrow> settled c"
| "at_pc (SDeferDeadline r) c \<longleftrightarrow> settled c"
| "at_pc (SDeferRuntime r) c \<longleftrightarrow> settled c"
| "at_pc (SReturned r) c \<longleftrightarrow> settled c \<or> (\<exists>e. ps_pc (cn_ps c) = BReturned e)
    \<or> ps_pc (cn_ps c) = BHandshake TCheck \<and> unclaimed (cn_ps c) \<and> r \<noteq> None"
| "at_pc _ c \<longleftrightarrow> unclaimed (cn_ps c) \<and> ps_pc (cn_ps c) = BPending"

definition connection_ok :: "connection_setup \<Rightarrow> served_connection \<Rightarrow> bool" where
  "connection_ok S c \<longleftrightarrow> at_pc (cn_pc c) c \<and> verified S (cn_client c)
    \<and> (\<forall>registry. cn_registry c = Some registry \<or> cn_pc c = SAccept registry \<longrightarrow> belongs S (cn_client c) registry)
    \<and> (\<forall>pc. ps_decision (cn_ps c) = Some pc \<and> decision_state pc = PendingAccepted \<longrightarrow> cn_registry c \<noteq> None)
    \<and> (ps_decision (cn_ps c) = None \<longrightarrow> cn_registry c = None)"

lemma around_ok:
  assumes "connection_ok S c" "a \<in> {AuthDeadline, HookRuns} \<or> (\<exists>ev. a = ServerRuntime ev)"
  shows "connection_ok S (c\<lparr>cn_ps := performs a (cn_ps c)\<rparr>)"
  using assms(1) performs_around [OF assms(2), of "cn_ps c"]
  by (cases "cn_pc c") (simp_all add: connection_ok_def settled_def unclaimed_def)

lemma verified_None:
  "fst (BeginServer env (Some conn) x hostKey nonce) = Some (Inr pending) \<Longrightarrow> x = None"
  by (cases x) (auto simp: BeginServer_def verifyClient_def split: option.splits)

lemma decide_connection_cases:
  assumes "decide_connection S v = Some pc"
  shows "(\<exists>e j. pc = SReject e j) \<or> (\<exists>registry. pc = SAccept registry \<and> belongs S (Some v) registry)"
  using assms by (force simp: decide_connection_def belongs_def split: option.splits sum.splits prod.splits)

lemma claim_unclaimed: "unclaimed p \<Longrightarrow> claim nxt p = Inr (p\<lparr>ps_state := nxt\<rparr>)"
  by (simp add: claim_def unclaimed_def)

lemma begin_unclaimed: "unclaimed p \<Longrightarrow> unclaimed (begin_step serve_config x p)"
  by (simp add: unclaimed_def begin_step_keeps)

lemma verifying_steps: "ps_pc p = BVerify \<Longrightarrow> begin_step serve_config None p = p\<lparr>ps_pc := BPending\<rparr>"
  by (simp add: begin_step_def)

lemma step_begin_ok:
  assumes "connection_ok S c" "cn_pc c = SBegin"
  shows "connection_ok S (connection_step S x c)"
proof -
  have und: "unclaimed (cn_ps c)" using assms by (simp add: connection_ok_def)
  have *: "connection_ok S (c\<lparr>cn_ps := performs (Begins y) (cn_ps c)\<rparr>)" for y
    using assms begin_unclaimed [OF und] by (simp add: connection_ok_def performs_begins) (simp add: unclaimed_def)
  show ?thesis
  proof (cases "ps_pc (cn_ps c)")
    case BVerify
    show ?thesis
    proof (cases "fst (BeginServer (cx_env S) (Some (cx_conn S)) x (cx_hostKey S) (cx_nonce S))")
      case None
      then show ?thesis using assms BVerify by (simp add: connection_step_def Let_def)
    next
      case (Some r)
      show ?thesis
      proof (cases r)
        case (Inl e)
        then show ?thesis using Some assms BVerify * by (simp add: connection_step_def Let_def)
      next
        case (Inr pending)
        have "verified S (Some (psa_verified pending))"
          using Some Inr verified_None [of "cx_env S" "cx_conn S" x "cx_hostKey S" "cx_nonce S" pending]
          by (auto simp: verified_def)
        moreover have "cn_registry c = None" using assms und by (auto simp: connection_ok_def unclaimed_def)
        ultimately show ?thesis using Some Inr assms BVerify begin_unclaimed [OF und]
          by (simp add: connection_step_def Let_def connection_ok_def performs_begins) (simp add: unclaimed_def)
      qed
    qed
  qed (use assms * und in \<open>auto simp: connection_step_def Let_def connection_ok_def unclaimed_def\<close>)
qed

lemma step_reject_ok:
  assumes "connection_ok S c" "cn_pc c = SReject e j"
  shows "connection_ok S (connection_step S x c)"
proof -
  have p: "unclaimed (cn_ps c)" "ps_pc (cn_ps c) = BPending" using assms by (simp_all add: connection_ok_def)
  then have "performs CallReject (cn_ps c) = (cn_ps c)\<lparr>ps_state := PendingRejected, ps_decision := Some RAnswer\<rparr>"
    by (simp add: performs_def Reject_call_def claim_unclaimed)
  then show ?thesis using assms p by (simp add: connection_step_def Let_def claim_unclaimed connection_ok_def unclaimed_def)
qed

lemma step_accept_ok:
  assumes "connection_ok S c" "cn_pc c = SAccept registry"
  shows "connection_ok S (connection_step S x c)"
proof -
  have p: "unclaimed (cn_ps c)" "ps_pc (cn_ps c) = BPending" using assms by (simp_all add: connection_ok_def)
  then have "performs (CallAccept None) (cn_ps c)
      = (cn_ps c)\<lparr>ps_state := PendingAccepted, ps_decision := Some (APrepare None)\<rparr>"
    by (simp add: performs_def Accept_call_def claim_unclaimed)
  then show ?thesis using assms p by (simp add: connection_step_def Let_def claim_unclaimed connection_ok_def unclaimed_def)
qed

lemma decides_ok:
  assumes "connection_ok S c" "ps_ok (cn_ps c)" "cn_pc c \<in> {SAccepting} \<or> (\<exists>e j. cn_pc c = SRejecting e j)"
  shows "connection_ok S (c\<lparr>cn_ps := performs (Decides x) (cn_ps c)\<rparr>)"
proof -
  obtain pc where pc: "ps_decision (cn_ps c) = Some pc" using assms(1,3) by (auto simp: connection_ok_def)
  show ?thesis using performs_decides [OF assms(2) pc, of x] assms(1,3) pc by (auto simp: connection_ok_def)
qed

lemma final_states:
  "decision_state (RReturned e) = PendingRejected" "decision_state (AReturned r) = PendingAccepted"
  by simp_all

lemma step_rejecting_ok:
  assumes "connection_ok S c" "ps_ok (cn_ps c)" "cn_pc c = SRejecting e j"
  shows "connection_ok S (connection_step S x c)"
proof (cases "\<exists>err. ps_decision (cn_ps c) = Some (RReturned err)")
  case True
  then show ?thesis using assms by (auto simp: connection_step_def connection_ok_def settled_def)
next
  case False
  then have "connection_step S x c = c\<lparr>cn_ps := performs (Decides x) (cn_ps c)\<rparr>"
    using assms(3) by (auto simp: connection_step_def Let_def split: option.split decision_pc.split)
  then show ?thesis using decides_ok [OF assms(1,2)] assms(3) by auto
qed

lemma step_accepting_ok:
  assumes "connection_ok S c" "ps_ok (cn_ps c)" "cn_pc c = SAccepting"
  shows "connection_ok S (connection_step S x c)"
proof (cases "\<exists>r. ps_decision (cn_ps c) = Some (AReturned r)")
  case True
  then obtain r where r: "ps_decision (cn_ps c) = Some (AReturned r)" by blast
  then show ?thesis using assms by (cases r) (auto simp: connection_step_def connection_ok_def settled_def)
next
  case False
  then have "connection_step S x c = c\<lparr>cn_ps := performs (Decides x) (cn_ps c)\<rparr>"
    using assms(3) by (auto simp: connection_step_def Let_def split: option.split decision_pc.split)
  then show ?thesis using decides_ok [OF assms(1,2)] assms(3) by auto
qed

text \<open>The deferred close of the pending connection does not touch the decision.\<close>

lemma performs_closes:
  assumes "a \<in> {CallClose, CloserDeadline, CloserRuntime}"
  shows "ps_decision (performs a p) = ps_decision p"
proof -
  have "ps_decision (snd (completeAuthDeadline p)) = ps_decision p"
    by (simp add: completeAuthDeadline_def cancelAuth_def Let_def)
  then show ?thesis using assms by (auto simp: performs_def Close_call_def split: option.splits if_splits)
qed

lemma closes_ok:
  assumes "connection_ok S c" "settled c" "a \<in> {CallClose, CloserDeadline, CloserRuntime}"
    "q \<in> {SDeferDeadline r, SDeferRuntime r, SReturned r}"
  shows "connection_ok S (c\<lparr>cn_ps := performs a (cn_ps c), cn_pc := q\<rparr>)"
proof -
  have d: "ps_decision (performs a (cn_ps c)) = ps_decision (cn_ps c)" by (rule performs_closes [OF assms(3)])
  then have "settled (c\<lparr>cn_ps := performs a (cn_ps c), cn_pc := q\<rparr>)" using assms(2) by (simp add: settled_def)
  then have "at_pc q (c\<lparr>cn_ps := performs a (cn_ps c), cn_pc := q\<rparr>)" using assms(4) by (elim insertE) simp_all
  moreover have "q \<noteq> SAccept registry" for registry using assms(4) by auto
  ultimately show ?thesis using assms(1) d by (simp add: connection_ok_def)
qed

lemma step_close_ok:
  assumes "connection_ok S c" "cn_pc c \<in> {SDefer r, SDeferDeadline r, SDeferRuntime r}"
  shows "connection_ok S (connection_step S x c)"
proof -
  have s: "settled c" using assms by (elim insertE) (simp_all add: connection_ok_def)
  show ?thesis using assms(2)
  proof (elim insertE)
    assume "cn_pc c = SDefer r"
    then show ?thesis using closes_ok [OF assms(1) s, of CallClose "SReturned r" r]
        closes_ok [OF assms(1) s, of CallClose "SDeferDeadline r" r] by (simp add: connection_step_def Let_def)
  next
    assume "cn_pc c = SDeferDeadline r"
    then show ?thesis using closes_ok [OF assms(1) s, of CloserDeadline "SDeferRuntime r" r]
      by (simp add: connection_step_def Let_def)
  next
    assume "cn_pc c = SDeferRuntime r"
    then show ?thesis using closes_ok [OF assms(1) s, of CloserRuntime "SReturned r" r]
      by (simp add: connection_step_def Let_def)
  qed simp
qed

lemma connection_exec_ok:
  assumes "connection_ok S c" "ps_ok (cn_ps c)"
  shows "connection_ok S (connection_exec S a c)"
proof (cases a)
  case (Handler x)
  have "connection_ok S (connection_step S x c)"
  proof (cases "cn_pc c")
    case SStart
    then show ?thesis using assms(1) by (auto simp: connection_step_def connection_ok_def split: option.split)
  next
    case SAuthorize
    show ?thesis
    proof (cases "cn_client c")
      case (Some v)
      then show ?thesis using SAuthorize assms(1) decide_connection_cases [of S v]
        by (cases "decide_connection S v") (force simp: connection_step_def connection_ok_def)+
    qed (use SAuthorize assms(1) in \<open>simp add: connection_step_def\<close>)
  next
    case SServing
    then show ?thesis using assms(1) by (simp add: connection_step_def connection_ok_def)
  next
    case (SEnd r)
    then show ?thesis using assms(1) by (simp add: connection_step_def connection_ok_def settled_def)
  next
    case (SReturned r)
    then show ?thesis using assms(1) by (simp add: connection_step_def)
  next
    case (SDefer r)
    then show ?thesis using step_close_ok [OF assms(1), of r] by simp
  next
    case (SDeferDeadline r)
    then show ?thesis using step_close_ok [OF assms(1), of r] by simp
  next
    case (SDeferRuntime r)
    then show ?thesis using step_close_ok [OF assms(1), of r] by simp
  qed (use assms in \<open>blast intro: step_begin_ok step_reject_ok step_accept_ok step_rejecting_ok step_accepting_ok\<close>)+
  then show ?thesis using Handler by simp
qed (use around_ok [OF assms(1)] in auto)

lemma connection_invariant: "connection_ok S (connection_run S as)"
proof (induction as rule: rev_induct)
  case Nil
  show ?case by (simp add: connection_run_def connection_start_def connection_ok_def accept_start_def unclaimed_def verified_def)
next
  case (snoc a as)
  have "ps_ok (cn_ps (connection_run S as))" by (rule accept_invariant [OF connection_reachable])
  from connection_exec_ok [OF snoc this] show ?case by (simp add: connection_run_def)
qed

section \<open>Properties\<close>

lemma answered_ok_accepted:
  assumes "ps_ordered p" "AnsweredOk y \<in> set (ps_log p)"
  obtains pc where "ps_decision p = Some pc" "decision_state pc = PendingAccepted"
proof (cases "ps_decision p")
  case None
  then show ?thesis using assms by (simp add: ps_ordered_def)
next
  case (Some pc)
  then have "decision_log pc (ps_log p) (ps_decided p)" using assms(1) by (simp add: ps_ordered_def)
  then have "decision_state pc = PendingAccepted"
    using assms(2) by (cases "(pc, ps_log p, ps_decided p)" rule: decision_log.cases) auto
  then show ?thesis using that Some by blast
qed

lemma matched_path:
  assumes "matchAuthorizedKey w a account key l = Some (Inr m, l')"
  obtains path l0 where "path \<in> set (az_paths a)" "matched_entry w account key path l0 l' m"
proof -
  obtain pre path post outs l0 where "az_paths a = pre @ path # post" "matched_entry w account key path l0 l' m"
    using match_loop_sound assms unfolding matchAuthorizedKey_def by blast
  then show ?thesis by (intro that [of path l0]) simp_all
qed

lemma forced_kept:
  assumes "narrowed d (mak_constraints m) permissions" "matchAuthorizedKey w a account key l = Some (Inr m, l')"
    "mk_forcedCommand (mak_constraints m) \<noteq> []"
  shows "cp_forcedCommand permissions = TrimSpace (mk_forcedCommand (mak_constraints m))" "cp_forcedCommand permissions \<noteq> []"
  using assms(1,3) matched_forced_command [OF assms(2,3)] by (simp_all add: narrowed_def)


lemma unregistered_rejected:
  assumes "connection_ok S c" "ps_ordered (cn_ps c)" "cn_registry c = None" "ev \<in> set (ps_log (cn_ps c))"
  shows "\<exists>e. ev = AnsweredReject e"
proof (cases "ps_decision (cn_ps c)")
  case None
  then show ?thesis using assms by (simp add: ps_ordered_def)
next
  case (Some pc)
  then have "decision_state pc = PendingRejected" "decision_log pc (ps_log (cn_ps c)) (ps_decided (cn_ps c))"
    using assms decision_state_cases [of pc] by (auto simp: connection_ok_def ps_ordered_def)
  then show ?thesis
    using assms(4) by (cases "(pc, ps_log (cn_ps c), ps_decided (cn_ps c))" rule: decision_log.cases) auto
qed


section \<open>Examples\<close>

text \<open>The exchange of the authentication example, by the user of the authorization example.\<close>

definition example_setup :: connection_setup where
  "example_setup = \<lparr>cx_env = example_env honest_verify, cx_conn = example_S, cx_hostKey = example_host, cx_nonce = Inr example_m,
     cx_world = example_world, cx_authz = Authz.example_server, cx_token = 1, cx_peer = [], cx_log = []\<rparr>"

definition example_client :: AuthVerifiedClient where
  "example_client = \<lparr>avc_hostIdentity = ''host'', avc_requestedUsername = ''ann'', avc_provenKey = example_key 7,
     avc_serverKey = Keypair_PublicKey example_host\<rparr>"

definition example_registry :: Registry where
  "example_registry = \<lparr>rg_credentials = example_credentials, rg_authorizer = Some Authz.example_server,
     rg_services = [(CommandChannelType, Service_Open)]\<rparr>"

lemma example_verified:
  "fst (BeginServer (cx_env example_setup) (Some (cx_conn example_setup)) None (cx_hostKey example_setup) (cx_nonce example_setup))
    = Some (Inr \<lparr>psa_state = ClientAuthRecv, psa_verified = example_client, psa_decided = False\<rparr>)"
  using example_exchange(1) [OF honest_verify_exchange]
  by (simp add: example_setup_def example_client_def example_key_def example_user_def)

lemma empty_config_prepared: "\<exists>cfg. Prepare empty_config = Inr cfg"
proof -
  have "case Prepare empty_config of Inl _ \<Rightarrow> False | Inr _ \<Rightarrow> True" by code_simp
  then show ?thesis by (auto split: sum.splits)
qed

lemma example_decided: "decide_connection example_setup example_client = Some (SAccept example_registry)"
proof -
  have r: "connection_request example_setup example_client = example_request"
    by (simp add: connection_request_def example_setup_def example_client_def example_request_def)
  obtain l where l: "AuthorizeConnection example_world (Some Authz.example_server) 1 example_request []
      = Some (Inr example_credentials, l)"
    using example_authorized by blast
  obtain cfg where "Prepare empty_config = Inr cfg" using empty_config_prepared by blast
  then show ?thesis
    using r l by (simp add: decide_connection_def example_setup_def command_registry_eq example_registry_def)
qed

definition example_served :: "connection_action list" where
  "example_served = replicate 45 (Handler None)"

lemma example_connection:
  "AnsweredOk None \<in> set (ps_log (cn_ps (connection_run example_setup example_served)))"
  "cn_client (connection_run example_setup example_served) = Some example_client"
  "cn_pc (connection_run example_setup example_served) = SReturned None"
  by (simp_all add: connection_run_def connection_start_def example_served_def connection_step_def Let_def performs_def
      BeginAccept_check_def validateTimeouts_def serve_config_def Close_call_def
      example_verified example_decided accept_run_simps)



end
