(* ===== verification/Spec2Isabelle.thy ===== *)
theory Spec2Isabelle
  imports
    Prelude
    Bincoder
    Session_Properties
    Daemon
    Client_App
    Transport
    Server_Connection
begin

text \<open>
  Verification of mygosh, a remote shell written in Go: a server that runs commands for the accounts
  of its machine and a client for it.

  \<^bold>\<open>The program.\<close>  A TCP connection carries a Noise handshake and encrypted frames
  (\<open>lib/transport\<close>).  Over the frames the two sides authenticate each other by signatures on the
  channel binding and on both messages (\<open>lib/auth\<close>, messages by \<open>lib/wire\<close>).  \<open>lib/establish\<close> drives both
  phases under timeouts and owns the socket until a session takes it.  A session (\<open>lib/session\<close>)
  multiplexes channels with flow control.  On the server \<open>app/server\<close> accepts connections, authorizes
  the verified client against \<open>authorized_keys\<close> files (\<open>app/server/authz\<close>, \<open>lib/trust\<close>, \<open>lib/strictfiles\<close>,
  \<open>lib/account\<close>), opens command channels and runs processes (\<open>app/server/command\<close>,
  \<open>app/server/process\<close>).  On the client \<open>app/client\<close> checks the server against \<open>known_hosts\<close> and runs the
  command protocol (\<open>lib/command\<close>, \<open>app/client/command\<close>).

  \<^bold>\<open>Theories and sources.\<close>

  \<^item> \<open>Prelude\<close>: machine types, results, generic lemmas.  \<open>Go_Strings\<close>, \<open>Go_Net\<close>, \<open>Go_Unquote\<close>: what the
    sources use of Go's \<open>strings\<close>, \<open>filepath\<close>, \<open>net\<close> and \<open>strconv\<close>, and the type of errors.
  \<^item> \<open>Bincoder\<close> (\<open>lib/bincoder\<close>): cursor decoder, encoder, stream helpers.
  \<^item> \<open>Session_Config\<close>, \<open>Session_Types\<close>, \<open>Session_Ops\<close>, \<open>Session_Handlers\<close>, \<open>Session_Calls\<close>, \<open>Session_World\<close>
    (\<open>lib/session\<close>, \<open>proto/session\<close>): one endpoint of a session as a transition system.  The record
    \<open>Session\<close> is the struct of that name, channels live in a heap keyed by their id, and every function of
    \<open>session.go\<close> and \<open>channel.go\<close> that changes state is a definition of the same name, cut at the points where
    it blocks.  \<open>Session_Facts\<close>, \<open>Session_Contract\<close> and \<open>Session_Layers\<close> hold the locales below;
    \<open>Session_Budget\<close>, \<open>Session_Admission\<close>, \<open>Session_Tables\<close>, \<open>Session_Evolution\<close>, \<open>Session_Requests\<close> and
    \<open>Session_Channels\<close> one invariant each, \<open>Session_Example\<close> a concrete run, \<open>Session_Properties\<close> the results.
  \<^item> \<open>Wire\<close> (\<open>lib/wire\<close>), \<open>Auth\<close> and \<open>Auth_Properties\<close> (\<open>lib/auth\<close>, \<open>proto/auth\<close>): a run of either side is a
    function of what it receives, with the log of what it signs and sends.
  \<^item> \<open>Transport\<close> (\<open>lib/transport\<close>): frames under two cipher states and the handshake loop.
  \<^item> \<open>Establish\<close> (\<open>runtime.go\<close>, \<open>client.go\<close>, \<open>config.go\<close> of \<open>lib/establish\<close>) and \<open>Establish_Server\<close>
    (\<open>server.go\<close>): transition systems of the establishing goroutine, timers, cancellation, the watcher, and
    concurrent callers of \<open>Accept\<close>, \<open>Reject\<close> and \<open>Close\<close>.
  \<^item> \<open>Keys\<close> (\<open>lib/keys\<close>), \<open>Trust\<close> (\<open>lib/trust\<close>), \<open>Account\<close> (\<open>lib/account\<close>), \<open>Strictfiles\<close> (\<open>lib/strictfiles\<close>,
    \<open>app/securefiles\<close>), \<open>Authz\<close> (\<open>app/server/authz\<close>), \<open>App_Files\<close> (\<open>files.go\<close> of client and server).
  \<^item> \<open>Command\<close>, \<open>Command_Server\<close> (\<open>lib/command\<close>), \<open>Command_Client\<close> (\<open>app/client/command\<close>), \<open>Process_Spec\<close> and
    \<open>Process_Runner\<close> (\<open>app/server/process\<close>), \<open>Server_Command\<close> (\<open>app/server/services\<close>, \<open>app/server/command\<close>).
  \<^item> \<open>App_Config\<close> (\<open>app/config\<close>, settings of \<open>app/logging\<close>), \<open>Daemon\<close> (\<open>app/server/daemon.go\<close>),
    \<open>Server_Connection\<close> (\<open>serveConnection\<close> of \<open>app/server/server.go\<close>), \<open>Client_App\<close> (\<open>app/client\<close>,
    \<open>app/commandchannel\<close>).

  \<^bold>\<open>How goroutines are modelled.\<close>  State shared under a lock is a record.  A step is a critical
  section, a channel operation or a call on the outside, and a run is any sequence of enabled steps of
  all goroutines, so a property of reachable states holds under every interleaving.  What the peer, the
  kernel, timers and the application answer is chosen freely at each step.

  \<^bold>\<open>What is shown.\<close>

  \<^item> One connection of the server, across all parts: a success is sent only to the holder of an authorized
    key who asked for this user over this channel, its commands run as that account and under a forced
    command if there is one, and the connection is always given back (\<open>Server_Connection\<close>).
  \<^item> Authentication: what either side has checked when it signs or succeeds, agreement of both sides on
    channel, names, key and nonce when keys are used honestly, a single generic answer, and success of
    honest parties (\<open>Auth_Properties\<close>).
  \<^item> Transport: an encrypted link refines a queue of frames, and a handshake makes two such links.
  \<^item> Establishment: no socket is leaked, closed twice or closed without a cause, one answer is sent, and a
    session is activated only after success was sent (\<open>Establish\<close>, \<open>Establish_Server\<close>).
  \<^item> Session: queue budget, windows, channel and request tables are exact in every reachable state, channels
    only move forward, the first terminal event stays (\<open>Session_Properties\<close>).  The locale
    \<open>session_contract\<close> states what an invariant owes to the elementary transactions and proves once that
    every handler, call and action then keeps it; \<open>session_local\<close> and \<open>session_plain\<close> are weaker contracts
    that imply it by \<open>sublocale\<close>.  Every invariant is an interpretation of one of them on the model.
  \<^item> Codecs: the locale \<open>cursor_codec\<close> gives round trip and canonical form for every field type, \<open>io_writer\<close>
    that the write loop is complete (\<open>Bincoder\<close>); the private-key parser accepts exactly the reference
    encodings (\<open>Keys\<close>); start requests, exits and stdin data survive the wire (\<open>Command\<close>, \<open>Process_Spec\<close>,
    \<open>Client_App\<close>).
  \<^item> Authorization: a matched key stands in a file read through checked directories, errors deny, forced
    commands and revocation cannot be bypassed, permissions are the policy narrowed by the key (\<open>Authz\<close>,
    \<open>Trust\<close>, \<open>Strictfiles\<close>).
  \<^item> Commands: exactly one outcome, input in order, success at the client only if the server reported it,
    identity and result of processes, and completion once the process was collected (\<open>Command_Server\<close>,
    \<open>Command_Client\<close>, \<open>Process_Runner\<close>, \<open>Server_Command\<close>).  Admission counters of the daemon are exact.

  \<^bold>\<open>Loops and bounds.\<close>  No definition uses fuel.  Four loops end only because a library does: the readers
  of the two trust files, the growing buffers of the account lookups and the handshake.  They are partial
  functions with \<open>None\<close> for a loop that does not end, and that they return is proved from the named
  hypothesis (the parser consumes input, a larger buffer is found or refused, the pattern has two
  messages).  All other recursion is structural or has a termination proof.  Counters and windows keep
  their width (\<open>32 word\<close>, \<open>64 word\<close>); durations are integers of nanoseconds.

  \<^bold>\<open>Hypotheses on other code.\<close>  Ed25519, SHA-256, Noise, PEM, the SSH formats, the protobuf encoding, the C
  library and the kernel are parameters.  \<open>cipher_pair\<close> and \<open>nn_exchange\<close> say what Noise promises to two ends that
  exchange their messages, \<open>wire_codec\<close> and \<open>codecs_correct\<close> that decoding inverts encoding,
  \<open>crypto_correct\<close> that a signature verifies, \<open>unforgeable\<close> that a key signs only in the given runs,
  \<open>payloads_distinct\<close> that the deterministic encoding of the two signed messages is injective, and
  \<open>collision_free\<close> that the hashes met in the given runs do not collide.  Each property with such a hypothesis is
  applied to a concrete instance after its proof.

  \<^bold>\<open>Not modelled.\<close>  Generated protobuf code: its schema is modelled instead.  \<open>lib/tty\<close>: calls of \<open>ioctl\<close>,
  \<open>poll\<close> and \<open>signal\<close> on terminals.  Reading configuration files and their defaults, which viper does.
  The slog handlers, \<open>app/root\<close> and \<open>bin\<close>, which only construct objects.  \<open>normalizedSourceIP\<close>, which parses with
  \<open>net/netip\<close>.  \<open>RunServer\<close>, \<open>RunClient\<close> of \<open>app/client\<close>, \<open>Run\<close> of \<open>app/client/command\<close> and the goroutine of \<open>OnOpen\<close>, which
  connect modelled parts.  Key generation.  The text of formatted errors (an error is its format string),
  errors of closing a descriptor that the code drops, log records, and wall-clock time: a deadline
  may pass at any step.
\<close>

end
